(* ===== verification/Hap_Prelude.thy ===== *)
theory Hap_Prelude
  imports Main "HOL-Library.Word"
begin

text \<open>
  Shared vocabulary of the development: the machine integer and byte string types, results as
  sums (\<open>Inl\<close> the error of the Rust \<open>Err\<close>, \<open>Inr\<close> the value of \<open>Ok\<close>) with the propagation
  operator \<open>?\<close> as \<open>and_then\<close>, slices, chunks, and little- and big-endian integers.
\<close>

type_synonym u8 = "8 word"
type_synonym u16 = "16 word"
type_synonym u32 = "32 word"
type_synonym u64 = "64 word"
type_synonym bytes = "u8 list"

named_theorems result_simps \<open>inversion of successful and failing results\<close>
named_theorems byte_simps \<open>little- and big-endian integers and their widths\<close>

section \<open>Results\<close>

primrec and_then :: "'e + 'a \<Rightarrow> ('a \<Rightarrow> 'e + 'b) \<Rightarrow> 'e + 'b" where
  "and_then (Inl e) f = Inl e"
| "and_then (Inr x) f = f x"

definition ok_or :: "'e \<Rightarrow> 'a option \<Rightarrow> 'e + 'a" where
  "ok_or e x = (case x of None \<Rightarrow> Inl e | Some y \<Rightarrow> Inr y)"

primrec map_err :: "('e \<Rightarrow> 'f) \<Rightarrow> 'e + 'a \<Rightarrow> 'f + 'a" where
  "map_err f (Inl e) = Inl (f e)"
| "map_err f (Inr x) = Inr x"

primrec ok :: "'e + 'a \<Rightarrow> 'a option" where
  "ok (Inl e) = None"
| "ok (Inr x) = Some x"

definition require :: "bool \<Rightarrow> 'e \<Rightarrow> 'e + unit" where
  "require b e = (if b then Inr () else Inl e)"

primrec map_results :: "('a \<Rightarrow> 'e + 'b) \<Rightarrow> 'a list \<Rightarrow> 'e + 'b list" where
  "map_results f [] = Inr []"
| "map_results f (x # xs) =
     and_then (f x) (\<lambda>y. and_then (map_results f xs) (\<lambda>ys. Inr (y # ys)))"

lemma and_then_Inr_iff [result_simps]:
  "and_then m f = Inr y \<longleftrightarrow> (\<exists>x. m = Inr x \<and> f x = Inr y)"
  by (cases m) auto

lemma and_then_InrE:
  assumes "and_then m f = Inr y"
  obtains x where "m = Inr x" "f x = Inr y"
  using assms by (cases m) auto

lemma and_then_Inl_iff [result_simps]:
  "and_then m f = Inl e \<longleftrightarrow> m = Inl e \<or> (\<exists>x. m = Inr x \<and> f x = Inl e)"
  by (cases m) auto

lemma ok_or_Inr_iff [result_simps, simp]: "ok_or e x = Inr y \<longleftrightarrow> x = Some y"
  by (auto simp: ok_or_def split: option.splits)

lemma ok_or_Inl_iff [result_simps, simp]: "ok_or e x = Inl e' \<longleftrightarrow> x = None \<and> e' = e"
  by (auto simp: ok_or_def split: option.splits)

lemma ok_or_Some [simp]: "ok_or e (Some x) = Inr x"
  by (simp add: ok_or_def)

lemma ok_or_None [simp]: "ok_or e None = Inl e"
  by (simp add: ok_or_def)

lemma map_err_Inr_iff [result_simps, simp]: "map_err f m = Inr y \<longleftrightarrow> m = Inr y"
  by (cases m) auto

lemma map_err_Inl_iff [result_simps]: "map_err f m = Inl e \<longleftrightarrow> (\<exists>e'. m = Inl e' \<and> e = f e')"
  by (cases m) auto

lemma ok_Some_iff [result_simps, simp]: "ok m = Some y \<longleftrightarrow> m = Inr y"
  by (cases m) auto

lemma require_Inr_iff [result_simps, simp]: "require b e = Inr u \<longleftrightarrow> b"
  by (simp add: require_def)

lemma require_Inl_iff [result_simps, simp]: "require b e = Inl e' \<longleftrightarrow> \<not> b \<and> e' = e"
  by (auto simp: require_def)

lemma require_True [simp]: "require True e = Inr ()"
  by (simp add: require_def)

lemma require_False [simp]: "require False e = Inl e"
  by (simp add: require_def)

lemma and_then_assoc: "and_then (and_then m f) g = and_then m (\<lambda>x. and_then (f x) g)"
  by (cases m) auto

lemma map_results_Inr:
  "(\<And>x. x \<in> set xs \<Longrightarrow> f x = Inr (g x)) \<Longrightarrow> map_results f xs = Inr (map g xs)"
  by (induction xs) auto

lemma map_results_length: "map_results f xs = Inr ys \<Longrightarrow> length ys = length xs"
  by (induction xs arbitrary: ys) (auto simp: result_simps)

section \<open>Slices and chunks\<close>

definition get_range :: "'a list \<Rightarrow> nat \<Rightarrow> nat \<Rightarrow> 'a list option" where
  "get_range xs s e = (if s \<le> e \<and> e \<le> length xs then Some (take (e - s) (drop s xs)) else None)"

definition get_at :: "'a list \<Rightarrow> nat \<Rightarrow> 'a option" where
  "get_at xs i = (if i < length xs then Some (xs ! i) else None)"

text \<open>A slice that the code takes after checking its bounds.\<close>

definition slice :: "'a list \<Rightarrow> nat \<Rightarrow> nat \<Rightarrow> 'a list" where
  "slice xs s e = take (e - s) (drop s xs)"

lemma get_range_Some_iff:
  "get_range xs s e = Some ys \<longleftrightarrow> s \<le> e \<and> e \<le> length xs \<and> ys = slice xs s e"
  by (auto simp: get_range_def slice_def)

lemma get_at_Some_iff: "get_at xs i = Some x \<longleftrightarrow> i < length xs \<and> x = xs ! i"
  by (auto simp: get_at_def)

lemma get_at_None_iff: "get_at xs i = None \<longleftrightarrow> length xs \<le> i"
  by (auto simp: get_at_def)

lemma length_slice [simp]: "e \<le> length xs \<Longrightarrow> length (slice xs s e) = e - s"
  by (simp add: slice_def)

lemma slice_append:
  assumes "i \<le> j" and "j \<le> k"
  shows "slice xs i j @ slice xs j k = slice xs i k"
proof -
  have "drop j xs = drop (j - i) (drop i xs)" using assms by simp
  moreover have "k - i = (j - i) + (k - j)" using assms by simp
  ultimately show ?thesis by (simp only: slice_def take_add)
qed

lemma slice_append1: "e \<le> length xs \<Longrightarrow> slice (xs @ ys) s e = slice xs s e"
  by (cases "s \<le> e") (simp_all add: slice_def)

lemma slice_all [simp]: "slice xs 0 (length xs) = xs"
  by (simp add: slice_def)

fun chunks :: "nat \<Rightarrow> 'a list \<Rightarrow> 'a list list" where
  "chunks n xs = (if n = 0 \<or> xs = [] then [] else take n xs # chunks n (drop n xs))"

declare chunks.simps [simp del]

lemma chunks_Nil [simp]: "chunks n [] = []"
  by (simp add: chunks.simps)

lemma concat_chunks: "0 < n \<Longrightarrow> concat (chunks n xs) = xs"
proof (induction n xs rule: chunks.induct)
  case (1 n xs)
  then show ?case by (cases "xs = []") (auto simp: chunks.simps [of n xs])
qed

lemma chunks_length_le: "c \<in> set (chunks n xs) \<Longrightarrow> length c \<le> n \<and> c \<noteq> []"
proof (induction n xs rule: chunks.induct)
  case (1 n xs)
  then show ?case by (cases "n = 0 \<or> xs = []") (auto simp: chunks.simps [of n xs])
qed

section \<open>Little- and big-endian integers\<close>

primrec le_bytes :: "nat \<Rightarrow> nat \<Rightarrow> bytes" where
  "le_bytes 0 n = []"
| "le_bytes (Suc k) n = of_nat n # le_bytes k (n div 256)"

primrec le_val :: "bytes \<Rightarrow> nat" where
  "le_val [] = 0"
| "le_val (b # bs) = unat b + 256 * le_val bs"

lemma length_le_bytes [simp, byte_simps]: "length (le_bytes k n) = k"
  by (induction k arbitrary: n) auto

lemma unat_of_nat_u8 [simp]: "unat (of_nat n :: u8) = n mod 256"
  by (simp add: unat_of_nat)

lemma unat_u8_less [simp]: "unat (b :: u8) < 256"
  using unsigned_less [where ?'a = nat and w = b] by simp

lemma le_val_le_bytes [byte_simps]: "le_val (le_bytes k n) = n mod 256 ^ k"
  by (induction k arbitrary: n) (auto simp: mod_mult2_eq)

lemma le_val_less: "le_val bs < 256 ^ length bs"
proof (induction bs)
  case Nil
  then show ?case by simp
next
  case (Cons b bs)
  have "unat b < 256" by simp
  with Cons.IH have "unat b + 256 * le_val bs < 256 * 256 ^ length bs" by linarith
  then show ?case by simp
qed

lemma le_bytes_le_val [byte_simps]: "le_bytes (length bs) (le_val bs) = bs"
proof (induction bs)
  case Nil
  then show ?case by simp
next
  case (Cons b bs)
  have b: "unat b < 256" by simp
  have "(of_nat (unat b + 256 * le_val bs) :: u8) = b"
  proof (rule iffD2 [OF word_unat_eq_iff])
    show "unat (of_nat (unat b + 256 * le_val bs) :: u8) = unat b"
      unfolding unat_of_nat_u8 using b by simp
  qed
  moreover have "(unat b + 256 * le_val bs) div 256 = le_val bs" using b by simp
  ultimately show ?case using Cons.IH by simp
qed

lemma le_val_le_bytes_exact [byte_simps]: "n < 256 ^ k \<Longrightarrow> le_val (le_bytes k n) = n"
  by (simp only: le_val_le_bytes mod_less)

lemma le_bytes_inject:
  assumes "m < 256 ^ k" and "n < 256 ^ k"
  shows "le_bytes k m = le_bytes k n \<longleftrightarrow> m = n"
  using le_val_le_bytes_exact [OF assms(1)] le_val_le_bytes_exact [OF assms(2)] by metis

lemma le_val_append_zeros: "le_val (bs @ replicate k 0) = le_val bs"
proof (induction bs)
  case Nil
  show ?case by (induction k) auto
next
  case (Cons b bs)
  then show ?case by simp
qed

text \<open>The four fixed widths of the code: \<open>to_le_bytes\<close> and \<open>from_le_bytes\<close>.\<close>

definition u16_to_le :: "u16 \<Rightarrow> bytes" where
  "u16_to_le v = le_bytes 2 (unat v)"

definition u32_to_le :: "u32 \<Rightarrow> bytes" where
  "u32_to_le v = le_bytes 4 (unat v)"

definition u64_to_le :: "u64 \<Rightarrow> bytes" where
  "u64_to_le v = le_bytes 8 (unat v)"

definition u16_from_le :: "u8 \<Rightarrow> u8 \<Rightarrow> u16" where
  "u16_from_le b0 b1 = of_nat (le_val [b0, b1])"

lemma length_to_le [simp]:
  "length (u16_to_le a) = 2" "length (u32_to_le b) = 4" "length (u64_to_le c) = 8"
  by (simp_all add: u16_to_le_def u32_to_le_def u64_to_le_def)

lemma unat_u16_less: "unat (v :: u16) < 65536"
  using unsigned_less [where ?'a = nat and w = v] by simp

lemma unat_u32_less: "unat (v :: u32) < 4294967296"
  using unsigned_less [where ?'a = nat and w = v] by simp

lemma unat_u64_less: "unat (v :: u64) < 18446744073709551616"
  using unsigned_less [where ?'a = nat and w = v] by simp

lemma le_val_u16_to_le [simp]: "le_val (u16_to_le v) = unat v"
  using unat_u16_less [of v] by (simp add: u16_to_le_def le_val_le_bytes)

lemma le_val_u32_to_le [simp]: "le_val (u32_to_le v) = unat v"
  using unat_u32_less [of v] by (simp add: u32_to_le_def le_val_le_bytes)

lemma le_val_u64_to_le [simp]: "le_val (u64_to_le v) = unat v"
  using unat_u64_less [of v] by (simp add: u64_to_le_def le_val_le_bytes)

lemma unat_u16_from_le [simp]: "unat (u16_from_le a b) = le_val [a, b]"
proof -
  have "le_val [a, b] < 65536" using le_val_less [of "[a, b]"] by simp
  then show ?thesis unfolding u16_from_le_def unat_of_nat by simp
qed

lemma u16_to_le_from_le [simp]: "u16_to_le (u16_from_le a b) = [a, b]"
  using le_bytes_le_val [of "[a, b]"] by (simp add: u16_to_le_def numeral_2_eq_2)

lemma u16_to_le_Cons: "\<exists>a b. u16_to_le v = [a, b] \<and> u16_from_le a b = v"
proof -
  obtain a b where ab: "u16_to_le v = [a, b]"
    by (auto simp: u16_to_le_def numeral_2_eq_2)
  moreover have "u16_from_le a b = v"
    by (metis ab le_val_u16_to_le unat_u16_from_le word_unat_eq_iff)
  ultimately show ?thesis by blast
qed

lemma u16_to_le_inject [simp]: "u16_to_le v = u16_to_le w \<longleftrightarrow> v = w"
  by (metis le_val_u16_to_le word_unat_eq_iff)

lemma u32_to_le_inject [simp]: "u32_to_le v = u32_to_le w \<longleftrightarrow> v = w"
  by (metis le_val_u32_to_le word_unat_eq_iff)

lemma u64_to_le_inject [simp]: "u64_to_le v = u64_to_le w \<longleftrightarrow> v = w"
  by (metis le_val_u64_to_le word_unat_eq_iff)

text \<open>\<open>usize as u16\<close> guarded by \<open>try_from\<close>, and its saturating use \<open>unwrap_or(u16::MAX)\<close>.\<close>

definition try_u16 :: "nat \<Rightarrow> u16 option" where
  "try_u16 n = (if n < 65536 then Some (of_nat n) else None)"

definition u16_sat :: "nat \<Rightarrow> u16" where
  "u16_sat n = (case try_u16 n of Some v \<Rightarrow> v | None \<Rightarrow> 0xFFFF)"

definition u8_sat :: "nat \<Rightarrow> u8" where
  "u8_sat n = (if n < 256 then of_nat n else 0xFF)"

lemma try_u16_Some_iff: "try_u16 n = Some v \<longleftrightarrow> n = unat v"
proof -
  have "unat (of_nat n :: u16) = n" if "n < 65536"
    using that by (simp add: unat_of_nat)
  then show ?thesis
    using unat_u16_less [of v] by (auto simp: try_u16_def)
qed

lemma unat_u16_sat: "n < 65536 \<Longrightarrow> unat (u16_sat n) = n"
  by (simp add: u16_sat_def try_u16_def unat_of_nat)

lemma unat_u8_sat: "n < 256 \<Longrightarrow> unat (u8_sat n) = n"
  by (simp add: u8_sat_def)

section \<open>Unsigned big integers\<close>

text \<open>\<open>BigUint\<close>: its minimal base-256 digits (one zero byte for zero) and its width in bits.\<close>

fun le_digits :: "nat \<Rightarrow> bytes" where
  "le_digits n = (if n < 256 then [of_nat n] else of_nat n # le_digits (n div 256))"

declare le_digits.simps [simp del]

definition to_bytes_be :: "nat \<Rightarrow> bytes" where
  "to_bytes_be n = rev (le_digits n)"

definition be_val :: "bytes \<Rightarrow> nat" where
  "be_val bs = le_val (rev bs)"

fun bits :: "nat \<Rightarrow> nat" where
  "bits n = (if n = 0 then 0 else Suc (bits (n div 2)))"

declare bits.simps [simp del]

definition div_ceil :: "nat \<Rightarrow> nat \<Rightarrow> nat" where
  "div_ceil a b = (a + b - 1) div b"

lemma le_val_le_digits [simp]: "le_val (le_digits n) = n"
proof (induction n rule: le_digits.induct)
  case (1 n)
  then show ?case by (cases "n < 256") (simp_all add: le_digits.simps [of n])
qed

lemma be_val_to_bytes_be [simp]: "be_val (to_bytes_be n) = n"
  by (simp add: be_val_def to_bytes_be_def)

lemma be_val_zeros [simp]: "be_val (replicate k 0 @ bs) = be_val bs"
  by (simp add: be_val_def le_val_append_zeros)

lemma length_le_digits: "n < 256 ^ k \<Longrightarrow> 0 < k \<Longrightarrow> length (le_digits n) \<le> k"
proof (induction n arbitrary: k rule: le_digits.induct)
  case (1 n)
  show ?case
  proof (cases "n < 256")
    case True
    then show ?thesis using "1.prems" by (simp add: le_digits.simps [of n])
  next
    case False
    then obtain j where k: "k = Suc j" and "0 < j"
      using "1.prems" by (cases k; cases "k - 1") auto
    have "n div 256 < 256 ^ j" using "1.prems" k by (simp add: less_mult_imp_div_less mult.commute)
    then have "length (le_digits (n div 256)) \<le> j" using "1.IH" [OF False] \<open>0 < j\<close> by simp
    then show ?thesis using False k by (simp add: le_digits.simps [of n])
  qed
qed

lemma less_power_bits: "n < 2 ^ bits n"
proof (induction n rule: bits.induct)
  case (1 n)
  show ?case
  proof (cases "n = 0")
    case True
    then show ?thesis by (simp add: bits.simps)
  next
    case False
    then have "n div 2 < 2 ^ bits (n div 2)" using "1.IH" by simp
    then have "n < 2 * 2 ^ bits (n div 2)" by linarith
    then show ?thesis using False by (simp add: bits.simps [of n])
  qed
qed

section \<open>Byte strings\<close>

text \<open>A Rust \<open>String\<close> is its UTF-8 bytes; \<open>ascii\<close> gives the bytes of a literal.\<close>

type_synonym str = bytes

definition ascii :: "string \<Rightarrow> bytes" where
  "ascii s = map of_char s"

lemma length_ascii [simp]: "length (ascii s) = length s"
  by (simp add: ascii_def)

lemma ascii_eq_Nil [simp]: "ascii s = [] \<longleftrightarrow> s = []"
  by (simp add: ascii_def)

definition starts_with :: "'a list \<Rightarrow> 'a list \<Rightarrow> bool" where
  "starts_with xs p \<longleftrightarrow> take (length p) xs = p"

lemma starts_with_append [simp]: "starts_with (p @ xs) p"
  by (simp add: starts_with_def)

lemma starts_with_iff: "starts_with xs p \<longleftrightarrow> (\<exists>r. xs = p @ r)"
proof
  assume "starts_with xs p"
  then have "xs = p @ drop (length p) xs"
    unfolding starts_with_def using append_take_drop_id [of "length p" xs] by simp
  then show "\<exists>r. xs = p @ r" by blast
qed auto

end
