(* ===== verification/Tlv8.thy ===== *)
theory Tlv8
  imports Hap_Prelude
begin

text \<open>
  The crate \<open>hap-tlv8\<close>: the error type (\<open>error.rs\<close>), the encoder with its fragmentation of long
  values (\<open>writer.rs\<close>), the reassembling decoder (\<open>reader.rs\<close>) and the typed lookups (\<open>map.rs\<close>).
  A position in the input is the suffix that is still to be read, so \<open>checked_add\<close> on it cannot
  overflow: a Rust slice is shorter than \<open>isize::MAX\<close>.  The writer is the function from the old to
  the new contents of the buffer it borrows.
\<close>

datatype Tlv8Error = UnexpectedEof | IntegerTooLarge (requested: nat) (actual: nat)

type_synonym tlv_item = "u8 \<times> bytes"

definition SEPARATOR :: u8 where
  "SEPARATOR = 0xFF"

section \<open>Reader\<close>

definition extend_last :: "tlv_item list \<Rightarrow> bytes \<Rightarrow> tlv_item list" where
  "extend_last items value =
     (if items = [] then []
      else butlast items @ [(fst (last items), snd (last items) @ value)])"

fun parse_loop :: "bytes \<Rightarrow> tlv_item list \<Rightarrow> (u8 \<times> bool) option \<Rightarrow> Tlv8Error + tlv_item list" where
  "parse_loop [] items open_run = Inr items"
| "parse_loop [ty] items open_run = Inl UnexpectedEof"
| "parse_loop (ty # l # rest) items open_run =
     (let len = unat l in
      case get_range rest 0 len of
        None \<Rightarrow> Inl UnexpectedEof
      | Some value \<Rightarrow>
          let rest' = drop len rest in
          if ty = SEPARATOR then parse_loop rest' (items @ [(ty, value)]) None
          else
            let continues = (open_run = Some (ty, True)) in
            parse_loop rest'
              (if continues then extend_last items value else items @ [(ty, value)])
              (Some (ty, len = 255)))"

definition Tlv8Reader_parse :: "bytes \<Rightarrow> Tlv8Error + tlv_item list" where
  "Tlv8Reader_parse bs = parse_loop bs [] None"

section \<open>Writer\<close>

definition push_chunk :: "u8 \<Rightarrow> bytes \<times> nat \<Rightarrow> bytes \<Rightarrow> bytes \<times> nat" where
  "push_chunk ty = (\<lambda>(out, last_chunk_len) chunk.
     (out @ [ty] @ [of_nat (length chunk)] @ chunk, length chunk))"

definition Tlv8Writer_push :: "bytes \<Rightarrow> u8 \<Rightarrow> bytes \<Rightarrow> bytes" where
  "Tlv8Writer_push out ty value =
     (if value = [] then out @ [ty] @ [0]
      else
        let (out, last_chunk_len) = foldl (push_chunk ty) (out, 0) (chunks 255 value) in
        if last_chunk_len = 255 then out @ [ty] @ [0] else out)"

definition push_u8 :: "bytes \<Rightarrow> u8 \<Rightarrow> u8 \<Rightarrow> bytes" where
  "push_u8 out ty v = Tlv8Writer_push out ty [v]"

definition push_u16 :: "bytes \<Rightarrow> u8 \<Rightarrow> u16 \<Rightarrow> bytes" where
  "push_u16 out ty v = Tlv8Writer_push out ty (u16_to_le v)"

definition push_u32 :: "bytes \<Rightarrow> u8 \<Rightarrow> u32 \<Rightarrow> bytes" where
  "push_u32 out ty v = Tlv8Writer_push out ty (u32_to_le v)"

definition push_u64 :: "bytes \<Rightarrow> u8 \<Rightarrow> u64 \<Rightarrow> bytes" where
  "push_u64 out ty v = Tlv8Writer_push out ty (u64_to_le v)"

definition push_str :: "bytes \<Rightarrow> u8 \<Rightarrow> str \<Rightarrow> bytes" where
  "push_str out ty v = Tlv8Writer_push out ty v"

definition push_separator :: "bytes \<Rightarrow> bytes" where
  "push_separator out = out @ [SEPARATOR] @ [0]"

section \<open>Map\<close>

record Tlv8Map =
  tlv_items :: "tlv_item list"

definition from_items :: "tlv_item list \<Rightarrow> Tlv8Map" where
  "from_items its = \<lparr>tlv_items = its\<rparr>"

definition Tlv8Map_parse :: "bytes \<Rightarrow> Tlv8Error + Tlv8Map" where
  "Tlv8Map_parse bs = and_then (Tlv8Reader_parse bs) (\<lambda>its. Inr (from_items its))"

definition Tlv8Map_get :: "Tlv8Map \<Rightarrow> u8 \<Rightarrow> bytes option" where
  "Tlv8Map_get m ty = map_option snd (find (\<lambda>(t, _). t = ty) (tlv_items m))"

definition get_uint :: "Tlv8Map \<Rightarrow> u8 \<Rightarrow> nat \<Rightarrow> Tlv8Error + u64 option" where
  "get_uint m ty width =
     (case Tlv8Map_get m ty of
        None \<Rightarrow> Inr None
      | Some bs \<Rightarrow>
          if length bs > width then Inl (IntegerTooLarge width (length bs))
          else Inr (Some (of_nat (le_val (bs @ replicate (8 - length bs) 0)))))"

definition get_u8 :: "Tlv8Map \<Rightarrow> u8 \<Rightarrow> Tlv8Error + u8 option" where
  "get_u8 m ty = and_then (get_uint m ty 1) (\<lambda>r. Inr (map_option ucast r))"

definition get_u16 :: "Tlv8Map \<Rightarrow> u8 \<Rightarrow> Tlv8Error + u16 option" where
  "get_u16 m ty = and_then (get_uint m ty 2) (\<lambda>r. Inr (map_option ucast r))"

definition get_u32 :: "Tlv8Map \<Rightarrow> u8 \<Rightarrow> Tlv8Error + u32 option" where
  "get_u32 m ty = and_then (get_uint m ty 4) (\<lambda>r. Inr (map_option ucast r))"

definition get_u64 :: "Tlv8Map \<Rightarrow> u8 \<Rightarrow> Tlv8Error + u64 option" where
  "get_u64 m ty = get_uint m ty 8"

section \<open>The encoding of one value as a recursion\<close>

text \<open>
  Reference definitions: \<open>enc\<close> is the item sequence of one value, \<open>tlv_frames\<close> the raw items of a
  stream and \<open>coalesce\<close> their reassembly.  The code's single loops are shown equal to them.
\<close>

function enc :: "u8 \<Rightarrow> bytes \<Rightarrow> bytes" where
  "enc ty v =
     (if length v < 255 then [ty, of_nat (length v)] @ v
      else [ty, 255] @ take 255 v @ enc ty (drop 255 v))"
  by pat_completeness auto
termination by (relation "measure (\<lambda>(ty, v). length v)") auto

declare enc.simps [simp del]

fun enc_items :: "tlv_item list \<Rightarrow> bytes" where
  "enc_items [] = []"
| "enc_items ((ty, v) # its) = enc ty v @ enc_items its"

fun tlv_frames :: "bytes \<Rightarrow> tlv_item list option" where
  "tlv_frames [] = Some []"
| "tlv_frames [ty] = None"
| "tlv_frames (ty # l # rest) =
     (if unat l \<le> length rest
      then map_option (Cons (ty, take (unat l) rest)) (tlv_frames (drop (unat l) rest))
      else None)"

text \<open>
  \<open>take_run\<close> collects the fragments that follow a full one; a value is a first fragment and,
  when that is full and not a separator, the run after it.
\<close>

fun take_run :: "u8 \<Rightarrow> tlv_item list \<Rightarrow> bytes \<times> tlv_item list" where
  "take_run ty [] = ([], [])"
| "take_run ty ((t, v) # fs) =
     (if t = ty
      then (if length v = 255 then (let (w, fs') = take_run ty fs in (v @ w, fs')) else (v, fs))
      else ([], (t, v) # fs))"

lemma take_run_length: "length (snd (take_run ty fs)) \<le> length fs"
  by (induction ty fs rule: take_run.induct) (auto split: prod.splits)

function coalesce :: "tlv_item list \<Rightarrow> tlv_item list" where
  "coalesce [] = []"
| "coalesce ((ty, v) # fs) =
     (if ty \<noteq> SEPARATOR \<and> length v = 255
      then (ty, v @ fst (take_run ty fs)) # coalesce (snd (take_run ty fs))
      else (ty, v) # coalesce fs)"
  by pat_completeness auto
termination
  by (relation "measure length") (auto simp: le_imp_less_Suc take_run_length)

lemma push_fold_enc:
  assumes "v \<noteq> []"
  shows "(let (out, last_chunk_len) = foldl (push_chunk ty) (out, l) (chunks 255 v) in
          if last_chunk_len = 255 then out @ [ty] @ [0] else out) = out @ enc ty v"
  using assms
proof (induction "255 :: nat" v arbitrary: out l rule: chunks.induct)
  case (1 v)
  consider "length v < 255" | "length v = 255" | "length v > 255" by linarith
  then show ?case
  proof cases
    case 1
    with \<open>v \<noteq> []\<close> show ?thesis
      by (simp add: chunks.simps [of _ v] enc.simps [of _ v] push_chunk_def)
  next
    case 2
    with \<open>v \<noteq> []\<close> show ?thesis
      by (simp add: chunks.simps [of _ v] enc.simps [of _ v] enc.simps [of _ "[]"] push_chunk_def)
  next
    case 3
    then have "drop 255 v \<noteq> []" by simp
    then show ?thesis
      using "1.hyps" [OF _ \<open>drop 255 v \<noteq> []\<close>] \<open>v \<noteq> []\<close> 3
      by (simp add: chunks.simps [of _ v] enc.simps [of _ v] push_chunk_def)
  qed
qed

lemma push_enc: "Tlv8Writer_push out ty v = out @ enc ty v"
proof (cases "v = []")
  case True
  then show ?thesis by (simp add: Tlv8Writer_push_def enc.simps [of _ "[]"])
next
  case False
  then show ?thesis using push_fold_enc [OF False] by (simp add: Tlv8Writer_push_def)
qed


section \<open>Reading back what was written\<close>

lemma extend_last_snoc [simp]: "extend_last (its @ [(t, v)]) w = its @ [(t, v @ w)]"
  by (simp add: extend_last_def)

lemma parse_loop_item:
  assumes "length v < 256"
  shows "parse_loop (ty # of_nat (length v) # v @ rest) its r =
    (if ty = SEPARATOR then parse_loop rest (its @ [(ty, v)]) None
     else parse_loop rest
       (if r = Some (ty, True) then extend_last its v else its @ [(ty, v)])
       (Some (ty, length v = 255)))"
  using assms by (simp add: get_range_def)

lemma parse_loop_full:
  assumes "length v = 255"
  shows "parse_loop (ty # 255 # v @ rest) its r =
    (if ty = SEPARATOR then parse_loop rest (its @ [(ty, v)]) None
     else parse_loop rest
       (if r = Some (ty, True) then extend_last its v else its @ [(ty, v)])
       (Some (ty, True)))"
  using parse_loop_item [of v ty rest its r] assms by simp

lemma parse_loop_enc_continue:
  assumes "ty \<noteq> SEPARATOR"
  shows "parse_loop (enc ty v @ rest) (its @ [(ty, w)]) (Some (ty, True)) =
         parse_loop rest (its @ [(ty, w @ v)]) (Some (ty, False))"
  using assms
proof (induction ty v arbitrary: w rule: enc.induct)
  case (1 ty v)
  show ?case
  proof (cases "length v < 255")
    case True
    then show ?thesis
      using "1.prems" parse_loop_item [of v ty rest "its @ [(ty, w)]" "Some (ty, True)"]
      by (simp add: enc.simps [of _ v] del: parse_loop.simps)
  next
    case False
    then have "length (take 255 v) = 255" by simp
    then show ?thesis
      using "1.IH" [OF False "1.prems", of "w @ take 255 v"] False "1.prems"
      by (simp add: enc.simps [of _ v] parse_loop_full del: parse_loop.simps)
  qed
qed

lemma parse_loop_enc:
  assumes "ty \<noteq> SEPARATOR" and "r \<noteq> Some (ty, True)"
  shows "parse_loop (enc ty v @ rest) its r =
         parse_loop rest (its @ [(ty, v)]) (Some (ty, False))"
proof (cases "length v < 255")
  case True
  then show ?thesis
    using assms parse_loop_item [of v ty rest its r]
    by (simp add: enc.simps [of _ v] del: parse_loop.simps)
next
  case False
  then have "length (take 255 v) = 255" by simp
  then show ?thesis
    using False assms parse_loop_enc_continue [of ty "drop 255 v" rest its "take 255 v"]
    by (simp add: enc.simps [of _ v] parse_loop_full del: parse_loop.simps)
qed

lemma parse_loop_enc_separator:
  assumes "length v < 255"
  shows "parse_loop (enc SEPARATOR v @ rest) its r = parse_loop rest (its @ [(SEPARATOR, v)]) None"
  using assms parse_loop_item [of v SEPARATOR rest its r]
  by (simp add: enc.simps [of _ v] del: parse_loop.simps)

definition separators_short :: "tlv_item list \<Rightarrow> bool" where
  "separators_short its \<longleftrightarrow> list_all (\<lambda>(ty, v). ty = SEPARATOR \<longrightarrow> length v < 255) its"

lemma parse_loop_enc_items:
  assumes "separators_short its" and "\<And>ty. r \<noteq> Some (ty, True)"
  shows "parse_loop (enc_items its) acc r = Inr (acc @ its)"
  using assms
proof (induction its arbitrary: acc r rule: enc_items.induct)
  case 1
  then show ?case by simp
next
  case (2 ty v its)
  then have tail: "separators_short its" by (simp add: separators_short_def)
  show ?case
  proof (cases "ty = SEPARATOR")
    case True
    then have "length v < 255" using "2.prems" by (simp add: separators_short_def)
    then show ?thesis
      using True "2.IH" [OF tail, of None] by (simp add: parse_loop_enc_separator)
  next
    case False
    then show ?thesis
      using "2.prems" "2.IH" [OF tail, of "Some (ty, False)"] by (simp add: parse_loop_enc)
  qed
qed

lemma Tlv8Reader_parse_enc_items [simp]:
  "separators_short its \<Longrightarrow> Tlv8Reader_parse (enc_items its) = Inr its"
  by (simp add: Tlv8Reader_parse_def parse_loop_enc_items)

lemma foldl_push: "foldl (\<lambda>out (ty, v). Tlv8Writer_push out ty v) out its = out @ enc_items its"
  by (induction its arbitrary: out rule: enc_items.induct) (auto simp: push_enc)

lemma Tlv8Map_parse_enc_items [simp]:
  "separators_short its \<Longrightarrow> Tlv8Map_parse (enc_items its) = Inr (from_items its)"
  by (simp add: Tlv8Map_parse_def)

lemma Tlv8Map_get_from_items [simp]:
  "Tlv8Map_get (from_items []) ty = None"
  "Tlv8Map_get (from_items ((t, v) # its)) ty =
     (if t = ty then Some v else Tlv8Map_get (from_items its) ty)"
  by (simp_all add: Tlv8Map_get_def from_items_def)

lemma separators_short_simps [simp]:
  "separators_short []"
  "separators_short ((ty, v) # its) \<longleftrightarrow>
     (ty = SEPARATOR \<longrightarrow> length v < 255) \<and> separators_short its"
  by (simp_all add: separators_short_def)

text \<open>\<open>tlv_build\<close> turns a sequence of writer calls into the encoding of the item list.\<close>

named_theorems tlv_build \<open>writer calls as encodings of item lists\<close>

lemma enc_items_append: "enc_items (its @ its') = enc_items its @ enc_items its'"
  by (induction its rule: enc_items.induct) auto

lemma push_empty [tlv_build]: "Tlv8Writer_push [] ty v = enc_items [(ty, v)]"
  by (simp add: push_enc)

lemma push_enc_items [tlv_build]:
  "Tlv8Writer_push (enc_items its) ty v = enc_items (its @ [(ty, v)])"
  by (simp add: push_enc enc_items_append)

lemma push_u8_push [tlv_build]: "push_u8 out ty v = Tlv8Writer_push out ty [v]"
  by (simp add: push_u8_def)

declare enc_items.simps [simp del]

section \<open>The loop computes the reassembly of the raw items\<close>

text \<open>\<open>coalesce_from acc run fs\<close>: the loop's bookkeeping applied to raw items.\<close>

fun coalesce_from :: "tlv_item list \<Rightarrow> (u8 \<times> bool) option \<Rightarrow> tlv_item list \<Rightarrow> tlv_item list" where
  "coalesce_from acc r [] = acc"
| "coalesce_from acc r ((ty, v) # fs) =
     (if ty = SEPARATOR then coalesce_from (acc @ [(ty, v)]) None fs
      else coalesce_from
             (if r = Some (ty, True) then extend_last acc v else acc @ [(ty, v)])
             (Some (ty, length v = 255)) fs)"

lemma parse_loop_frames:
  "parse_loop bs acc r =
     (case tlv_frames bs of None \<Rightarrow> Inl UnexpectedEof | Some fs \<Rightarrow> Inr (coalesce_from acc r fs))"
proof (induction bs arbitrary: acc r rule: tlv_frames.induct)
  case (3 ty l rest)
  show ?case
  proof (cases "unat l \<le> length rest")
    case True
    then have g: "get_range rest 0 (unat l) = Some (take (unat l) rest)"
      by (simp add: get_range_def)
    show ?thesis
      using True by (cases "tlv_frames (drop (unat l) rest)") (simp_all add: g "3.IH" Let_def)
  next
    case False
    then show ?thesis by (simp add: get_range_def)
  qed
qed simp_all

lemma coalesce_from_closed: "coalesce_from acc (Some (ty, False)) fs = coalesce_from acc None fs"
  by (cases fs) auto

lemma coalesce_from_run:
  assumes "ty \<noteq> SEPARATOR"
  shows "coalesce_from (acc @ [(ty, w)]) (Some (ty, True)) fs =
         coalesce_from (acc @ [(ty, w @ fst (take_run ty fs))]) None (snd (take_run ty fs))"
  using assms
proof (induction ty fs arbitrary: w rule: take_run.induct)
  case (2 ty t v fs)
  then show ?case
    by (cases "t = ty"; cases "length v = 255")
      (simp_all add: coalesce_from_closed split: prod.splits)
qed simp

lemma coalesce_from_coalesce: "coalesce_from acc None fs = acc @ coalesce fs"
proof (induction fs arbitrary: acc rule: coalesce.induct)
  case (2 ty v fs)
  then show ?case
    by (cases "ty = SEPARATOR"; cases "length v = 255")
      (simp_all add: coalesce_from_closed coalesce_from_run)
qed simp

lemma Tlv8Reader_parse_frames:
  "Tlv8Reader_parse bs =
     (case tlv_frames bs of None \<Rightarrow> Inl UnexpectedEof | Some fs \<Rightarrow> Inr (coalesce fs))"
  by (simp add: Tlv8Reader_parse_def parse_loop_frames coalesce_from_coalesce split: option.split)

section \<open>Typed lookups\<close>

lemma find_append_notin:
  "ty \<notin> fst ` set its \<Longrightarrow> Tlv8Map_get (from_items (its @ its')) ty = Tlv8Map_get (from_items its') ty"
  by (induction its) (auto simp: image_iff)

lemma separators_short_append [simp]:
  "separators_short (its @ its') \<longleftrightarrow> separators_short its \<and> separators_short its'"
  by (simp add: separators_short_def)

lemma Tlv8Map_parse_push:
  assumes "separators_short its" and "ty \<noteq> SEPARATOR"
  shows "Tlv8Map_parse (Tlv8Writer_push (enc_items its) ty v) = Inr (from_items (its @ [(ty, v)]))"
proof -
  have "Tlv8Writer_push (enc_items its) ty v = enc_items (its @ [(ty, v)])"
    by (rule push_enc_items)
  then show ?thesis using assms by simp
qed

lemma le_val_less_width: "length bs \<le> k \<Longrightarrow> le_val bs < 256 ^ k"
  using le_val_less [of bs] power_increasing [of "length bs" k "256 :: nat"] by linarith

lemma get_uint_stored:
  assumes "Tlv8Map_get m ty = Some bs" and "width \<le> 8" and "length bs \<le> width"
  shows "get_uint m ty width = Inr (Some (of_nat (le_val bs)))"
  using assms by (simp add: get_uint_def le_val_append_zeros)

lemma ucast_of_nat_u64:
  assumes "n < 2 ^ LENGTH('a)" and "n < 2 ^ 64"
  shows "(ucast (of_nat n :: u64) :: 'a :: len word) = of_nat n"
proof -
  have "unat (ucast (of_nat n :: u64) :: 'a word) = unat (of_nat n :: 'a word)"
    using assms by (simp add: unsigned_ucast_eq take_bit_eq_mod unat_of_nat)
  then show ?thesis by (simp add: word_unat_eq_iff)
qed

text \<open>C24. Writing any sequence of values with \<open>push\<close> and parsing the buffer gives the sequence
  back, whatever the lengths (fragmentation included) and even when neighbouring values share a
  type, as long as no value of 255 bytes or more is written under the separator type.\<close>

theorem parse_push_round_trip:
  assumes "separators_short its"
  shows "Tlv8Reader_parse (foldl (\<lambda>out (ty, v). Tlv8Writer_push out ty v) [] its) = Inr its"
  using assms by (simp add: foldl_push)

theorem parse_push_round_trip_witness:
  "Tlv8Reader_parse (foldl (\<lambda>out (ty, v). Tlv8Writer_push out ty v) []
     [(1, replicate 255 7), (1, []), (SEPARATOR, []), (1, replicate 300 9)]) =
   Inr [(1, replicate 255 7), (1, []), (SEPARATOR, []), (1, replicate 300 9)]"
  by (rule parse_push_round_trip) (simp add: SEPARATOR_def)

text \<open>C25. The one-pass parser is total and equals the two-phase specification: it fails with
  \<open>UnexpectedEof\<close> exactly when the input does not split into raw items, and otherwise returns the
  raw items with each run of full fragments of one non-separator type, and the fragment that ends
  it, joined into one value.\<close>

theorem parse_refines_frames:
  "Tlv8Reader_parse bs =
     (case tlv_frames bs of None \<Rightarrow> Inl UnexpectedEof | Some fs \<Rightarrow> Inr (coalesce fs))"
  by (rule Tlv8Reader_parse_frames)

lemma get_u8_eq:
  "get_u8 m ty =
     (case Tlv8Map_get m ty of
        None \<Rightarrow> Inr None
      | Some [] \<Rightarrow> Inr (Some 0)
      | Some [b] \<Rightarrow> Inr (Some b)
      | Some bs \<Rightarrow> Inl (IntegerTooLarge 1 (length bs)))"
proof -
  have "(ucast (of_nat (unat b) :: u64) :: u8) = b" for b :: u8
    using ucast_of_nat_u64 [of "unat b", where ?'a = 8] unat_u8_less [of b] by simp
  then show ?thesis
    by (auto simp: get_u8_def get_uint_def le_val_append_zeros split: option.split list.split)
qed

lemma length_enc: "length (enc ty v) \<le> 2 * length v + 2"
proof (induction ty v rule: enc.induct)
  case (1 ty v)
  then show ?case by (cases "length v < 255") (auto simp: enc.simps [of _ v])
qed

lemma length_enc_items_Cons: "length (enc_items ((ty, v) # its)) \<le> 2 * length v + 2 + length (enc_items its)"
  using length_enc [of ty v] by (simp add: enc_items.simps)

lemma length_enc_items_Nil [simp]: "length (enc_items []) = 0"
  by (simp add: enc_items.simps)

lemma typed_getter_step:
  assumes "separators_short its" and "ty \<notin> fst ` set its" and "ty \<noteq> SEPARATOR"
    and "width \<le> 8"
  shows "and_then (Tlv8Map_parse (Tlv8Writer_push (enc_items its) ty v)) (\<lambda>m. get_uint m ty width) =
    (if length v \<le> width then Inr (Some (of_nat (le_val v)))
     else Inl (IntegerTooLarge width (length v)))"
proof -
  have "Tlv8Map_get (from_items (its @ [(ty, v)])) ty = Some v"
    using assms(2) by (simp add: find_append_notin)
  then show ?thesis
    using assms by (simp add: Tlv8Map_parse_push get_uint_stored) (simp add: get_uint_def)
qed

lemma ucast_of_unat:
  "LENGTH('a :: len) \<le> 64 \<Longrightarrow> (ucast (of_nat (unat (v :: 'a word)) :: u64) :: 'a word) = v"
proof -
  assume "LENGTH('a) \<le> 64"
  then have "(2 :: nat) ^ LENGTH('a) \<le> 2 ^ 64" by (rule power_increasing) simp
  moreover have "unat v < 2 ^ LENGTH('a)" by (rule unsigned_less)
  ultimately have "(ucast (of_nat (unat v) :: u64) :: 'a word) = of_nat (unat v)"
    by (intro ucast_of_nat_u64) linarith+
  then show ?thesis by simp
qed

text \<open>Each typed getter returns what the writer of its width stored, after any earlier items of
  other types, and a value that is wider than the requested width is refused with both widths.\<close>

theorem typed_getters:
  assumes "separators_short its" and "ty \<notin> fst ` set its" and "ty \<noteq> SEPARATOR"
  shows
    "and_then (Tlv8Map_parse (push_u8 (enc_items its) ty a)) (\<lambda>m. get_u8 m ty) = Inr (Some a) \<and>
     and_then (Tlv8Map_parse (push_u16 (enc_items its) ty b)) (\<lambda>m. get_u16 m ty) = Inr (Some b) \<and>
     and_then (Tlv8Map_parse (push_u32 (enc_items its) ty c)) (\<lambda>m. get_u32 m ty) = Inr (Some c) \<and>
     and_then (Tlv8Map_parse (push_u64 (enc_items its) ty d)) (\<lambda>m. get_u64 m ty) = Inr (Some d) \<and>
     (width \<le> 8 \<and> width < length v \<longrightarrow>
      and_then (Tlv8Map_parse (Tlv8Writer_push (enc_items its) ty v)) (\<lambda>m. get_uint m ty width) =
        Inl (IntegerTooLarge width (length v)))"
proof (intro conjI impI)
  note step = typed_getter_step [OF assms] and assoc = and_then_assoc [symmetric]
  show "and_then (Tlv8Map_parse (push_u8 (enc_items its) ty a)) (\<lambda>m. get_u8 m ty) = Inr (Some a)"
    using ucast_of_unat [of a] by (simp add: push_u8_def get_u8_def assoc step)
  show "and_then (Tlv8Map_parse (push_u16 (enc_items its) ty b)) (\<lambda>m. get_u16 m ty) = Inr (Some b)"
    using ucast_of_unat [of b] by (simp add: push_u16_def get_u16_def assoc step)
  show "and_then (Tlv8Map_parse (push_u32 (enc_items its) ty c)) (\<lambda>m. get_u32 m ty) = Inr (Some c)"
    using ucast_of_unat [of c] by (simp add: push_u32_def get_u32_def assoc step)
  show "and_then (Tlv8Map_parse (push_u64 (enc_items its) ty d)) (\<lambda>m. get_u64 m ty) = Inr (Some d)"
    by (simp add: push_u64_def get_u64_def step)
qed (use typed_getter_step [OF assms] in auto)

theorem typed_getters_witness:
  "and_then (Tlv8Map_parse (push_u16 (enc_items [(1, [9])]) 6 0x0102)) (\<lambda>m. get_u16 m 6) =
     Inr (Some 0x0102) \<and>
   and_then (Tlv8Map_parse (Tlv8Writer_push (enc_items [(1, [9])]) 6 [1, 2, 3])) (\<lambda>m. get_uint m 6 2) =
     Inl (IntegerTooLarge 2 3)"
  using typed_getters [of "[(1, [9])]" 6 0 "0x0102" 0 0 2 "[1, 2, 3]"]
  by (simp add: SEPARATOR_def)

end
