(* ===== verification/Rust_Std.thy ===== *)
theory Rust_Std
  imports Hap_Prelude
begin

text \<open>
  The parts of the Rust standard library that the sources rely on, on the UTF-8 bytes of a string:
  validity and lossy decoding of UTF-8, ASCII classes, \<open>trim\<close>, the parsing and printing of unsigned
  integers, splitting and searching of slices, and \<open>try_into\<close> on fixed-size arrays.
\<close>

section \<open>UTF-8\<close>

definition in_range :: "nat \<Rightarrow> nat \<Rightarrow> u8 \<Rightarrow> bool" where
  "in_range lo hi b \<longleftrightarrow> lo \<le> unat b \<and> unat b \<le> hi"

definition is_cont :: "u8 \<Rightarrow> bool" where
  "is_cont b \<longleftrightarrow> in_range 0x80 0xBF b"

text \<open>The second byte allowed after a three- or four-byte lead (no overlong forms, no surrogates).\<close>

definition second_ok :: "u8 \<Rightarrow> u8 \<Rightarrow> bool" where
  "second_ok lead b \<longleftrightarrow>
     (if lead = 0xE0 then in_range 0xA0 0xBF b
      else if lead = 0xED then in_range 0x80 0x9F b
      else if lead = 0xF0 then in_range 0x90 0xBF b
      else if lead = 0xF4 then in_range 0x80 0x8F b
      else is_cont b)"

fun utf8_valid :: "bytes \<Rightarrow> bool" where
  "utf8_valid [] = True"
| "utf8_valid (b # bs) =
     (if in_range 0 0x7F b then utf8_valid bs
      else if in_range 0xC2 0xDF b then
        (case bs of c1 # r \<Rightarrow> is_cont c1 \<and> utf8_valid r | _ \<Rightarrow> False)
      else if in_range 0xE0 0xEF b then
        (case bs of c1 # c2 # r \<Rightarrow> second_ok b c1 \<and> is_cont c2 \<and> utf8_valid r | _ \<Rightarrow> False)
      else if in_range 0xF0 0xF4 b then
        (case bs of c1 # c2 # c3 # r \<Rightarrow>
           second_ok b c1 \<and> is_cont c2 \<and> is_cont c3 \<and> utf8_valid r
         | _ \<Rightarrow> False)
      else False)"

definition is_ascii :: "u8 \<Rightarrow> bool" where
  "is_ascii b \<longleftrightarrow> in_range 0 0x7F b"

lemma utf8_valid_ascii: "list_all is_ascii bs \<Longrightarrow> utf8_valid bs"
  by (induction bs) (auto simp: is_ascii_def)

lemma is_ascii_of_char: "is_ascii (of_char c) \<longleftrightarrow> of_char c < (128 :: nat)"
proof -
  have "unat (of_char c :: u8) = (of_char c :: nat)"
    by (metis of_nat_of_char of_char_mod_256 unat_of_nat_u8)
  then show ?thesis by (auto simp: is_ascii_def in_range_def)
qed

section \<open>ASCII classes\<close>

definition is_ascii_digit :: "u8 \<Rightarrow> bool" where
  "is_ascii_digit b \<longleftrightarrow> in_range 0x30 0x39 b"

definition to_ascii_uppercase :: "u8 \<Rightarrow> u8" where
  "to_ascii_uppercase b = (if in_range 0x61 0x7A b then b - 0x20 else b)"

definition to_ascii_lowercase :: "u8 \<Rightarrow> u8" where
  "to_ascii_lowercase b = (if in_range 0x41 0x5A b then b + 0x20 else b)"

section \<open>Fixed-size arrays\<close>

definition try_array :: "nat \<Rightarrow> bytes \<Rightarrow> bytes option" where
  "try_array n bs = (if length bs = n then Some bs else None)"

lemma try_array_Some_iff [simp]: "try_array n bs = Some xs \<longleftrightarrow> xs = bs \<and> length bs = n"
  by (auto simp: try_array_def)

lemma try_array_None_iff [simp]: "try_array n bs = None \<longleftrightarrow> length bs \<noteq> n"
  by (simp add: try_array_def)

lemma try_array_exact [simp]: "length bs = n \<Longrightarrow> try_array n bs = Some bs"
  by (simp add: try_array_def)


section \<open>Lossy decoding\<close>

text \<open>\<open>utf8_step\<close> reads one character (\<open>Inr\<close> its length) or the longest prefix of an ill-formed one
  (\<open>Inl\<close> its length), which lossy decoding replaces by U+FFFD.\<close>

definition utf8_step :: "bytes \<Rightarrow> nat + nat" where
  "utf8_step bs =
     (case bs of
        [] \<Rightarrow> Inr 0
      | b # r \<Rightarrow>
          let at = (\<lambda>i. if i < length r then r ! i else 0) in
          if in_range 0 0x7F b then Inr 1
          else if in_range 0xC2 0xDF b then (if is_cont (at 0) then Inr 2 else Inl 1)
          else if in_range 0xE0 0xEF b then
            (if \<not> second_ok b (at 0) then Inl 1 else if is_cont (at 1) then Inr 3 else Inl 2)
          else if in_range 0xF0 0xF4 b then
            (if \<not> second_ok b (at 0) then Inl 1
             else if \<not> is_cont (at 1) then Inl 2
             else if is_cont (at 2) then Inr 4 else Inl 3)
          else Inl 1)"

lemma utf8_step_pos:
  "bs \<noteq> [] \<Longrightarrow> utf8_step bs = Inr n \<Longrightarrow> 0 < n" "bs \<noteq> [] \<Longrightarrow> utf8_step bs = Inl n \<Longrightarrow> 0 < n"
  by (auto simp: utf8_step_def Let_def split: list.splits if_splits)

function utf8_lossy :: "bytes \<Rightarrow> str" where
  "utf8_lossy bs =
     (if bs = [] then []
      else case utf8_step bs of
        Inr n \<Rightarrow> take n bs @ utf8_lossy (drop n bs)
      | Inl n \<Rightarrow> [0xEF, 0xBF, 0xBD] @ utf8_lossy (drop n bs))"
  by pat_completeness auto
termination
proof (relation "measure length")
  fix bs :: bytes and n
  assume "bs \<noteq> []" and "utf8_step bs = Inr n"
  then show "(drop n bs, bs) \<in> measure length" using utf8_step_pos(1) [of bs n] by simp
next
  fix bs :: bytes and n
  assume "bs \<noteq> []" and "utf8_step bs = Inl n"
  then show "(drop n bs, bs) \<in> measure length" using utf8_step_pos(2) [of bs n] by simp
qed simp

declare utf8_lossy.simps [simp del]

lemma utf8_lossy_Nil [simp]: "utf8_lossy [] = []"
  by (simp add: utf8_lossy.simps)

lemma utf8_lossy_ascii [simp]: "list_all is_ascii bs \<Longrightarrow> utf8_lossy bs = bs"
  by (induction bs) (simp_all add: utf8_lossy.simps utf8_step_def is_ascii_def)

section \<open>Trimming\<close>

text \<open>The number of bytes of a leading (trailing, on the reversed bytes) white space character.\<close>

definition ws3 :: "u8 \<Rightarrow> u8 \<Rightarrow> u8 \<Rightarrow> bool" where
  "ws3 a b c \<longleftrightarrow>
     (a = 0xE1 \<and> b = 0x9A \<and> c = 0x80) \<or>
     (a = 0xE2 \<and> b = 0x80 \<and> (in_range 0x80 0x8A c \<or> c = 0xA8 \<or> c = 0xA9 \<or> c = 0xAF)) \<or>
     (a = 0xE2 \<and> b = 0x81 \<and> c = 0x9F) \<or> (a = 0xE3 \<and> b = 0x80 \<and> c = 0x80)"

definition ws1 :: "u8 \<Rightarrow> bool" where
  "ws1 b \<longleftrightarrow> in_range 0x09 0x0D b \<or> b = 0x20"

definition ws_front :: "bytes \<Rightarrow> nat" where
  "ws_front bs =
     (case bs of
        [] \<Rightarrow> 0
      | a # r \<Rightarrow>
          if ws1 a then 1
          else (case r of
                  [] \<Rightarrow> 0
                | b # r' \<Rightarrow>
                    if a = 0xC2 \<and> (b = 0x85 \<or> b = 0xA0) then 2
                    else (case r' of [] \<Rightarrow> 0 | c # _ \<Rightarrow> if ws3 a b c then 3 else 0)))"

definition ws_back :: "bytes \<Rightarrow> nat" where
  "ws_back rs =
     (case rs of
        [] \<Rightarrow> 0
      | c # r \<Rightarrow>
          if ws1 c then 1
          else (case r of
                  [] \<Rightarrow> 0
                | b # r' \<Rightarrow>
                    if b = 0xC2 \<and> (c = 0x85 \<or> c = 0xA0) then 2
                    else (case r' of [] \<Rightarrow> 0 | a # _ \<Rightarrow> if ws3 a b c then 3 else 0)))"

function strip_ws :: "(bytes \<Rightarrow> nat) \<Rightarrow> bytes \<Rightarrow> bytes" where
  "strip_ws f bs = (if bs = [] \<or> f bs = 0 then bs else strip_ws f (drop (f bs) bs))"
  by pat_completeness auto
termination by (relation "measure (\<lambda>(f, bs). length bs)") auto

declare strip_ws.simps [simp del]

definition trim :: "str \<Rightarrow> str" where
  "trim s = rev (strip_ws ws_back (rev (strip_ws ws_front s)))"

definition no_ws_ends :: "str \<Rightarrow> bool" where
  "no_ws_ends s \<longleftrightarrow> ws_front s = 0 \<and> ws_back (rev s) = 0"

lemma strip_ws_id: "f bs = 0 \<Longrightarrow> strip_ws f bs = bs"
  by (simp add: strip_ws.simps)

lemma trim_id: "no_ws_ends s \<Longrightarrow> trim s = s"
  by (simp add: trim_def no_ws_ends_def strip_ws_id)

lemma trim_space:
  assumes "no_ws_ends s"
  shows "trim (0x20 # s) = s"
proof -
  have "strip_ws ws_front (0x20 # s) = strip_ws ws_front s"
    by (simp add: strip_ws.simps [of _ "0x20 # s"] ws_front_def ws1_def)
  then show ?thesis using assms by (simp add: trim_def no_ws_ends_def strip_ws_id)
qed

section \<open>Unsigned integers as text\<close>

definition digit_val :: "nat \<Rightarrow> u8 \<Rightarrow> nat option" where
  "digit_val radix b =
     (let v = (if in_range 0x30 0x39 b then unat b - 0x30
               else if in_range 0x61 0x7A b then unat b - 0x61 + 10
               else if in_range 0x41 0x5A b then unat b - 0x41 + 10
               else 36) in
      if v < radix then Some v else None)"

fun parse_digits :: "nat \<Rightarrow> bytes \<Rightarrow> nat \<Rightarrow> nat option" where
  "parse_digits radix [] acc = Some acc"
| "parse_digits radix (b # bs) acc =
     (case digit_val radix b of
        None \<Rightarrow> None
      | Some d \<Rightarrow> parse_digits radix bs (acc * radix + d))"

text \<open>\<open>from_str_radix\<close> of an unsigned type with maximum \<open>hi\<close>; a leading plus sign is accepted.\<close>

definition from_str_radix :: "nat \<Rightarrow> nat \<Rightarrow> str \<Rightarrow> nat option" where
  "from_str_radix radix hi s =
     (if s = [] \<or> s = [0x2B] \<or> s = [0x2D] then None
      else
        case parse_digits radix (if hd s = 0x2B then tl s else s) 0 of
          None \<Rightarrow> None
        | Some v \<Rightarrow> if v \<le> hi then Some v else None)"

definition usize_max :: nat where
  "usize_max = 18446744073709551615"

definition isize_max :: nat where
  "isize_max = 9223372036854775807"

definition dec_digit :: "nat \<Rightarrow> u8" where
  "dec_digit d = of_nat (0x30 + d)"

fun show_nat :: "nat \<Rightarrow> str" where
  "show_nat n = (if n < 10 then [dec_digit n] else show_nat (n div 10) @ [dec_digit (n mod 10)])"

declare show_nat.simps [simp del]

lemma unat_dec_digit [simp]: "d < 10 \<Longrightarrow> unat (dec_digit d) = 48 + d"
  unfolding dec_digit_def unat_of_nat_u8 by simp

lemma digit_val_dec: "d < 10 \<Longrightarrow> digit_val 10 (dec_digit d) = Some d"
  by (simp add: digit_val_def in_range_def)

lemma parse_digits_append:
  "parse_digits r (as @ bs) acc = Option.bind (parse_digits r as acc) (parse_digits r bs)"
  by (induction as arbitrary: acc) (auto split: option.split)

lemma parse_digits_show: "parse_digits 10 (show_nat n) 0 = Some n"
proof (induction n rule: show_nat.induct)
  case (1 n)
  show ?case
  proof (cases "n < 10")
    case True
    then show ?thesis using digit_val_dec [of n] by (simp add: show_nat.simps [of n])
  next
    case False
    then show ?thesis
      using "1.IH" digit_val_dec [of "n mod 10"]
      by (simp add: show_nat.simps [of n] parse_digits_append)
  qed
qed

lemma show_nat_not_Nil [simp]: "show_nat n \<noteq> []"
  by (simp add: show_nat.simps [of n])

lemma digits_in_range: "list_all (in_range 0x30 0x39) (show_nat n)"
proof (induction n rule: show_nat.induct)
  case (1 n)
  then show ?case by (auto simp: show_nat.simps [of n] in_range_def)
qed

lemma from_str_radix_show: "n \<le> hi \<Longrightarrow> from_str_radix 10 hi (show_nat n) = Some n"
proof -
  assume "n \<le> hi"
  obtain a as where s: "show_nat n = a # as" by (cases "show_nat n") auto
  then have "in_range 0x30 0x39 a" using digits_in_range [of n] by simp
  then have "a \<noteq> 0x2B" "a \<noteq> 0x2D" by (auto simp: in_range_def)
  then show ?thesis
    using \<open>n \<le> hi\<close> parse_digits_show [of n] by (simp add: from_str_radix_def s)
qed

section \<open>Searching and splitting\<close>

fun find_subslice :: "bytes \<Rightarrow> bytes \<Rightarrow> nat option" where
  "find_subslice [] needle = None"
| "find_subslice (b # bs) needle =
     (if take (length needle) (b # bs) = needle then Some 0
      else map_option Suc (find_subslice bs needle))"

fun split_on :: "u8 \<Rightarrow> bytes \<Rightarrow> bytes list" where
  "split_on x [] = [[]]"
| "split_on x (b # bs) =
     (if b = x then [] # split_on x bs
      else case split_on x bs of [] \<Rightarrow> [[b]] | l # ls \<Rightarrow> (b # l) # ls)"

lemma split_on_not_Nil [simp]: "split_on x bs \<noteq> []"
  by (induction bs) (auto split: list.split)

lemma split_on_append_sep: "x \<notin> set l \<Longrightarrow> split_on x (l @ x # bs) = l # split_on x bs"
  by (induction l) auto

lemma split_on_single: "x \<notin> set l \<Longrightarrow> split_on x l = [l]"
  by (induction l) auto

lemma find_subslice_Some:
  "find_subslice bs n = Some i \<Longrightarrow> i + length n \<le> length bs \<and> take (length n) (drop i bs) = n \<and>
     (\<forall>j < i. take (length n) (drop j bs) \<noteq> n)"
proof (induction bs arbitrary: i)
  case (Cons b bs)
  show ?case
  proof (cases "take (length n) (b # bs) = n")
    case True
    then have "i = 0" using Cons.prems by simp
    moreover have "length n \<le> length (b # bs)"
      using True by (metis length_take min.cobounded1)
    ultimately show ?thesis using True by simp
  next
    case False
    then obtain k where k: "find_subslice bs n = Some k" "i = Suc k"
      using Cons.prems by auto
    then show ?thesis using Cons.IH [OF k(1)] False by (auto simp: less_Suc_eq_0_disj)
  qed
qed simp

lemma find_subslice_first:
  assumes "length n \<le> length (drop i bs)" and "take (length n) (drop i bs) = n" and "n \<noteq> []"
    and "\<And>j. j < i \<Longrightarrow> take (length n) (drop j bs) \<noteq> n"
  shows "find_subslice bs n = Some i"
  using assms
proof (induction bs arbitrary: i)
  case (Cons b bs)
  show ?case
  proof (cases i)
    case 0
    then show ?thesis using Cons.prems by simp
  next
    case (Suc k)
    have "take (length n) (b # bs) \<noteq> n" using Cons.prems(4) [of 0] Suc by simp
    moreover have "find_subslice bs n = Some k"
    proof (rule Cons.IH)
      show "take (length n) (drop j bs) \<noteq> n" if "j < k" for j
        using Cons.prems(4) [of "Suc j"] that Suc by simp
    qed (use Cons.prems Suc in simp_all)
    ultimately show ?thesis using Suc by simp
  qed
qed simp

text \<open>Once the needle is found, more input does not move it.\<close>

lemma find_subslice_extend:
  assumes "find_subslice bs n = Some i" and "n \<noteq> []"
  shows "find_subslice (bs @ more) n = Some i"
proof (rule find_subslice_first)
  note i = find_subslice_Some [OF assms(1)]
  have pre: "take (length n) (drop j (bs @ more)) = take (length n) (drop j bs)" if "j \<le> i" for j
    using i that by simp
  show "take (length n) (drop i (bs @ more)) = n" using i pre [of i] by simp
  show "take (length n) (drop j (bs @ more)) \<noteq> n" if "j < i" for j
    using i that pre [of j] by simp
qed (use find_subslice_Some [OF assms(1)] assms(2) in auto)

end
