(* ===== verification/Crypto_Prims.thy ===== *)
theory Crypto_Prims
  imports Tlv8 Rust_Std
begin

text \<open>
  The thin layers of \<open>hap-crypto\<close> over third-party primitives: \<open>error.rs\<close>, \<open>tlv_types.rs\<close>,
  \<open>aead.rs\<close>, \<open>kdf.rs\<close>, \<open>keys.rs\<close>, \<open>x25519.rs\<close> and \<open>setup.rs\<close>.  The primitives themselves
  (RustCrypto, the dalek crates) are the fields of the record \<open>prims\<close>, an argument of every
  definition that uses one; \<open>aead_laws\<close>, \<open>sig_laws\<close> and \<open>dh_laws\<close> name what their documentation
  promises, and \<open>toy_prims\<close> is a concrete instance of all of them for the witnesses.
\<close>

datatype CryptoError =
    SrpBadParameters string
  | SrpProofMismatch
  | Encoding string
  | Tlv Tlv8Error
  | Kdf string
  | Aead
  | Signature_error

section \<open>Pairing TLV types and states\<close>

named_theorems tlv_types \<open>numeric values of the pairing TLV types\<close>

definition METHOD :: u8 where [tlv_types]: "METHOD = 0x00"
definition IDENTIFIER :: u8 where [tlv_types]: "IDENTIFIER = 0x01"
definition SALT :: u8 where [tlv_types]: "SALT = 0x02"
definition PUBLIC_KEY :: u8 where [tlv_types]: "PUBLIC_KEY = 0x03"
definition PROOF :: u8 where [tlv_types]: "PROOF = 0x04"
definition ENCRYPTED_DATA :: u8 where [tlv_types]: "ENCRYPTED_DATA = 0x05"
definition STATE :: u8 where [tlv_types]: "STATE = 0x06"
definition ERROR :: u8 where [tlv_types]: "ERROR = 0x07"
definition SIGNATURE :: u8 where [tlv_types]: "SIGNATURE = 0x0A"
definition METHOD_PAIR_SETUP :: u8 where [tlv_types]: "METHOD_PAIR_SETUP = 0x00"
definition STATE_M1 :: u8 where [tlv_types]: "STATE_M1 = 1"
definition STATE_M2 :: u8 where [tlv_types]: "STATE_M2 = 2"
definition STATE_M3 :: u8 where [tlv_types]: "STATE_M3 = 3"
definition STATE_M4 :: u8 where [tlv_types]: "STATE_M4 = 4"
definition STATE_M5 :: u8 where [tlv_types]: "STATE_M5 = 5"
definition STATE_M6 :: u8 where [tlv_types]: "STATE_M6 = 6"

section \<open>The primitives\<close>

record prims =
  chacha_encrypt :: "bytes \<Rightarrow> bytes \<Rightarrow> bytes \<Rightarrow> bytes \<Rightarrow> bytes option"
  chacha_decrypt :: "bytes \<Rightarrow> bytes \<Rightarrow> bytes \<Rightarrow> bytes \<Rightarrow> bytes option"
  hkdf_expand :: "bytes \<Rightarrow> bytes \<Rightarrow> bytes \<Rightarrow> nat \<Rightarrow> bytes option"
  sha512 :: "bytes \<Rightarrow> bytes"
  ed25519_public :: "bytes \<Rightarrow> bytes"
  ed25519_sign :: "bytes \<Rightarrow> bytes \<Rightarrow> bytes"
  ed25519_key_valid :: "bytes \<Rightarrow> bool"
  ed25519_verify_strict :: "bytes \<Rightarrow> bytes \<Rightarrow> bytes \<Rightarrow> bool"
  x25519_public :: "bytes \<Rightarrow> bytes"
  x25519_dh :: "bytes \<Rightarrow> bytes \<Rightarrow> bytes"
  chacha20_keystream :: "bytes \<Rightarrow> bytes \<Rightarrow> nat \<Rightarrow> u8"
  poly1305_tag :: "bytes \<Rightarrow> bytes \<Rightarrow> bytes"

text \<open>
  RFC 8439: encryption appends a 16-byte tag and fails only above its message limit, decryption
  inverts it, and since the tag is a function of the other inputs it accepts nothing else.
\<close>

definition aead_max :: nat where
  "aead_max = 274877906880"

definition aead_laws :: "prims \<Rightarrow> bool" where
  "aead_laws P \<longleftrightarrow>
     (\<forall>k n a m. length m \<le> aead_max \<longrightarrow>
        (\<exists>c. chacha_encrypt P k n a m = Some c \<and> length c = length m + 16 \<and>
             chacha_decrypt P k n a c = Some m)) \<and>
     (\<forall>k n a c m. chacha_decrypt P k n a c = Some m \<longrightarrow>
        chacha_encrypt P k n a m = Some c \<and> length c = length m + 16)"

definition sig_laws :: "prims \<Rightarrow> bool" where
  "sig_laws P \<longleftrightarrow>
     (\<forall>seed m. ed25519_key_valid P (ed25519_public P seed) \<and>
        ed25519_verify_strict P (ed25519_public P seed) m (ed25519_sign P seed m) \<and>
        length (ed25519_public P seed) = 32 \<and> length (ed25519_sign P seed m) = 64)"

definition dh_laws :: "prims \<Rightarrow> bool" where
  "dh_laws P \<longleftrightarrow>
     (\<forall>a b. x25519_dh P a (x25519_public P b) = x25519_dh P b (x25519_public P a) \<and>
        length (x25519_public P a) = 32)"

definition kdf_laws :: "prims \<Rightarrow> bool" where
  "kdf_laws P \<longleftrightarrow>
     (\<forall>ikm salt info n. n \<le> 255 * 64 \<longrightarrow>
        (\<exists>out. hkdf_expand P ikm salt info n = Some out \<and> length out = n))"

definition mac_laws :: "prims \<Rightarrow> bool" where
  "mac_laws P \<longleftrightarrow> (\<forall>k m. length (poly1305_tag P k m) = 16)"

section \<open>aead.rs and kdf.rs\<close>

definition hap_nonce :: "bytes \<Rightarrow> bytes" where
  "hap_nonce label =
     (let nonce = replicate 12 0; n = min (length label) 8 in
      take 4 nonce @ take n label @ drop (4 + n) nonce)"

definition aead_encrypt :: "prims \<Rightarrow> bytes \<Rightarrow> bytes \<Rightarrow> bytes \<Rightarrow> bytes \<Rightarrow> CryptoError + bytes" where
  "aead_encrypt P key nonce aad plaintext = ok_or Aead (chacha_encrypt P key nonce aad plaintext)"

definition aead_decrypt :: "prims \<Rightarrow> bytes \<Rightarrow> bytes \<Rightarrow> bytes \<Rightarrow> bytes \<Rightarrow> CryptoError + bytes" where
  "aead_decrypt P key nonce aad ciphertext = ok_or Aead (chacha_decrypt P key nonce aad ciphertext)"

definition chacha20poly1305_seal ::
    "prims \<Rightarrow> bytes \<Rightarrow> bytes \<Rightarrow> bytes \<Rightarrow> bytes \<Rightarrow> CryptoError + bytes" where
  "chacha20poly1305_seal P key nonce aad plaintext = aead_encrypt P key nonce aad plaintext"

definition chacha20poly1305_open ::
    "prims \<Rightarrow> bytes \<Rightarrow> bytes \<Rightarrow> bytes \<Rightarrow> bytes \<Rightarrow> CryptoError + bytes" where
  "chacha20poly1305_open P key nonce aad ciphertext = aead_decrypt P key nonce aad ciphertext"

definition hkdf_sha512 :: "prims \<Rightarrow> bytes \<Rightarrow> bytes \<Rightarrow> bytes \<Rightarrow> nat \<Rightarrow> CryptoError + bytes" where
  "hkdf_sha512 P ikm salt info out_len =
     ok_or (Kdf ''requested output length exceeds 255 * HashLen'')
       (hkdf_expand P ikm salt info out_len)"

section \<open>keys.rs, x25519.rs and setup.rs\<close>

record ControllerKeypair =
  kp_id :: str
  kp_signing :: bytes

definition from_seed :: "str \<Rightarrow> bytes \<Rightarrow> ControllerKeypair" where
  "from_seed ident seed = \<lparr>kp_id = ident, kp_signing = seed\<rparr>"

definition ltpk :: "prims \<Rightarrow> ControllerKeypair \<Rightarrow> bytes" where
  "ltpk P kp = ed25519_public P (kp_signing kp)"

definition kp_seed :: "ControllerKeypair \<Rightarrow> bytes" where
  "kp_seed kp = kp_signing kp"

definition kp_sign :: "prims \<Rightarrow> ControllerKeypair \<Rightarrow> bytes \<Rightarrow> bytes" where
  "kp_sign P kp msg = ed25519_sign P (kp_signing kp) msg"

definition keypair_eq :: "ControllerKeypair \<Rightarrow> ControllerKeypair \<Rightarrow> bool" where
  "keypair_eq a b \<longleftrightarrow> kp_id a = kp_id b \<and> kp_seed a = kp_seed b"

definition verify_ed25519 :: "prims \<Rightarrow> bytes \<Rightarrow> bytes \<Rightarrow> bytes \<Rightarrow> CryptoError + unit" where
  "verify_ed25519 P pk msg sig =
     and_then (require (ed25519_key_valid P pk) Signature_error) (\<lambda>_.
     require (ed25519_verify_strict P pk msg sig) Signature_error)"

record EphemeralKeypair =
  eph_secret :: bytes
  eph_public :: bytes

definition from_secret :: "prims \<Rightarrow> bytes \<Rightarrow> EphemeralKeypair" where
  "from_secret P scalar = \<lparr>eph_secret = scalar, eph_public = x25519_public P scalar\<rparr>"

definition diffie_hellman :: "prims \<Rightarrow> EphemeralKeypair \<Rightarrow> bytes \<Rightarrow> bytes" where
  "diffie_hellman P kp peer_public = x25519_dh P (eph_secret kp) peer_public"

definition x25519_shared :: "prims \<Rightarrow> bytes \<Rightarrow> bytes \<Rightarrow> bytes" where
  "x25519_shared P sec peer_public = x25519_dh P sec peer_public"

definition setup_hash :: "prims \<Rightarrow> str \<Rightarrow> str \<Rightarrow> bytes" where
  "setup_hash P setup_id device_id = take 4 (sha512 P (setup_id @ device_id))"

section \<open>Facts about the wrappers\<close>

lemma length_hap_nonce [simp]: "length (hap_nonce label) = 12"
  by (simp add: hap_nonce_def Let_def)

lemma aead_encrypt_ok:
  assumes "aead_laws P" and "length m \<le> aead_max"
  obtains c where "aead_encrypt P k n a m = Inr c" and "length c = length m + 16"
    and "aead_decrypt P k n a c = Inr m"
  using assms unfolding aead_laws_def aead_encrypt_def aead_decrypt_def by fastforce

lemma aead_decrypt_encrypt:
  assumes "aead_laws P" and "aead_encrypt P k n a m = Inr c" and "length m \<le> aead_max"
  shows "aead_decrypt P k n a c = Inr m" and "length c = length m + 16"
  using aead_encrypt_ok [OF assms(1,3), of k n a] assms(2) by auto

lemma aead_decrypt_Inr:
  assumes "aead_laws P" and "aead_decrypt P k n a c = Inr m"
  shows "aead_encrypt P k n a m = Inr c" and "length c = length m + 16"
  using assms by (auto simp: aead_laws_def aead_encrypt_def aead_decrypt_def)

lemma aead_decrypt_Inl: "aead_decrypt P k n a c = Inl e \<Longrightarrow> e = Aead"
  by (auto simp: aead_decrypt_def)

lemma hkdf_ok:
  assumes "kdf_laws P" and "n \<le> 16320"
  obtains out where "hkdf_sha512 P ikm salt info n = Inr out" and "length out = n"
  using assms unfolding kdf_laws_def hkdf_sha512_def by fastforce

lemma verify_sign:
  "sig_laws P \<Longrightarrow> verify_ed25519 P (ltpk P kp) msg (kp_sign P kp msg) = Inr ()"
  by (simp add: sig_laws_def verify_ed25519_def ltpk_def kp_sign_def)

section \<open>A concrete instance of the primitives\<close>

text \<open>
  A computable instance with no security, only the laws: the tag is sixteen zero bytes, the digest
  is constant, a signature carries the public key, and the shared secret adds the two public values bytewise.
\<close>

definition toy_decrypt :: "bytes \<Rightarrow> bytes option" where
  "toy_decrypt c =
     (if 16 \<le> length c \<and> drop (length c - 16) c = replicate 16 0
      then Some (take (length c - 16) c) else None)"

definition fit :: "nat \<Rightarrow> bytes \<Rightarrow> bytes" where
  "fit n bs = take n (bs @ replicate n 0)"

definition toy_prims :: prims where
  "toy_prims =
     \<lparr>chacha_encrypt = (\<lambda>k n a m. Some (m @ replicate 16 0)),
      chacha_decrypt = (\<lambda>k n a c. toy_decrypt c),
      hkdf_expand = (\<lambda>ikm salt info n. if n \<le> 16320 then Some (fit n (ikm @ salt @ info)) else None),
      sha512 = (\<lambda>bs. replicate 63 0 @ [1]),
      ed25519_public = (\<lambda>s. fit 32 s),
      ed25519_sign = (\<lambda>s m. fit 32 s @ fit 32 m),
      ed25519_key_valid = (\<lambda>pk. length pk = 32),
      ed25519_verify_strict = (\<lambda>pk m sig. sig = pk @ fit 32 m),
      x25519_public = (\<lambda>s. fit 32 s),
      x25519_dh = (\<lambda>s p. map2 (+) (fit 32 s) (fit 32 p)),
      chacha20_keystream = (\<lambda>k n i. of_nat i),
      poly1305_tag = (\<lambda>k m. fit 16 m)\<rparr>"

lemma length_fit [simp]: "length (fit n bs) = n"
  by (simp add: fit_def)

lemma fit_fit [simp]: "fit n (fit n bs) = fit n bs"
  by (simp add: fit_def)

lemma toy_decrypt_Some: "toy_decrypt c = Some m \<longleftrightarrow> c = m @ replicate 16 0"
proof
  assume "toy_decrypt c = Some m"
  then have "m = take (length c - 16) c" and "drop (length c - 16) c = replicate 16 0"
    by (auto simp: toy_decrypt_def split: if_splits)
  then show "c = m @ replicate 16 0" by (metis append_take_drop_id)
qed (simp add: toy_decrypt_def)

lemma toy_aead_laws [simp]: "aead_laws toy_prims"
  by (auto simp: aead_laws_def toy_prims_def toy_decrypt_Some)

lemma toy_sig_laws [simp]: "sig_laws toy_prims"
  by (simp add: sig_laws_def toy_prims_def)

lemma toy_mac_laws [simp]: "mac_laws toy_prims"
  by (simp add: mac_laws_def toy_prims_def)

lemma toy_kdf_laws [simp]: "kdf_laws toy_prims"
  by (simp add: kdf_laws_def toy_prims_def)

lemma toy_dh_laws [simp]: "dh_laws toy_prims"
proof -
  have "map2 (+) xs ys = map2 (+) ys (xs :: bytes)" for xs ys
    by (induction xs arbitrary: ys) (auto simp: zip_Cons1 add.commute split: list.splits)
  then show ?thesis by (simp add: dh_laws_def toy_prims_def)
qed

end
