(* ===== verification/Srp.thy ===== *)
theory Srp
  imports Crypto_Prims
begin

text \<open>
  SRP-6a as in \<open>hap-crypto/src/srp.rs\<close>: the group, the value functions, the accessory (server) and
  controller (client) sides.  \<open>BigUint\<close> is \<open>nat\<close>; the digest \<open>D\<close> of the generic Rust code is the
  parameter \<open>H\<close>, applied to the concatenation of the successive \<open>update\<close> arguments.  The random
  constructors draw their bytes from the operating system and call the deterministic ones, whose
  arguments those bytes are here.
\<close>

section \<open>Group and value functions\<close>

definition HAP_N_3072 :: bytes where
  "HAP_N_3072 = [
    0xFF, 0xFF, 0xFF, 0xFF, 0xFF, 0xFF, 0xFF, 0xFF, 0xC9, 0x0F, 0xDA, 0xA2, 0x21, 0x68, 0xC2, 0x34,
    0xC4, 0xC6, 0x62, 0x8B, 0x80, 0xDC, 0x1C, 0xD1, 0x29, 0x02, 0x4E, 0x08, 0x8A, 0x67, 0xCC, 0x74,
    0x02, 0x0B, 0xBE, 0xA6, 0x3B, 0x13, 0x9B, 0x22, 0x51, 0x4A, 0x08, 0x79, 0x8E, 0x34, 0x04, 0xDD,
    0xEF, 0x95, 0x19, 0xB3, 0xCD, 0x3A, 0x43, 0x1B, 0x30, 0x2B, 0x0A, 0x6D, 0xF2, 0x5F, 0x14, 0x37,
    0x4F, 0xE1, 0x35, 0x6D, 0x6D, 0x51, 0xC2, 0x45, 0xE4, 0x85, 0xB5, 0x76, 0x62, 0x5E, 0x7E, 0xC6,
    0xF4, 0x4C, 0x42, 0xE9, 0xA6, 0x37, 0xED, 0x6B, 0x0B, 0xFF, 0x5C, 0xB6, 0xF4, 0x06, 0xB7, 0xED,
    0xEE, 0x38, 0x6B, 0xFB, 0x5A, 0x89, 0x9F, 0xA5, 0xAE, 0x9F, 0x24, 0x11, 0x7C, 0x4B, 0x1F, 0xE6,
    0x49, 0x28, 0x66, 0x51, 0xEC, 0xE4, 0x5B, 0x3D, 0xC2, 0x00, 0x7C, 0xB8, 0xA1, 0x63, 0xBF, 0x05,
    0x98, 0xDA, 0x48, 0x36, 0x1C, 0x55, 0xD3, 0x9A, 0x69, 0x16, 0x3F, 0xA8, 0xFD, 0x24, 0xCF, 0x5F,
    0x83, 0x65, 0x5D, 0x23, 0xDC, 0xA3, 0xAD, 0x96, 0x1C, 0x62, 0xF3, 0x56, 0x20, 0x85, 0x52, 0xBB,
    0x9E, 0xD5, 0x29, 0x07, 0x70, 0x96, 0x96, 0x6D, 0x67, 0x0C, 0x35, 0x4E, 0x4A, 0xBC, 0x98, 0x04,
    0xF1, 0x74, 0x6C, 0x08, 0xCA, 0x18, 0x21, 0x7C, 0x32, 0x90, 0x5E, 0x46, 0x2E, 0x36, 0xCE, 0x3B,
    0xE3, 0x9E, 0x77, 0x2C, 0x18, 0x0E, 0x86, 0x03, 0x9B, 0x27, 0x83, 0xA2, 0xEC, 0x07, 0xA2, 0x8F,
    0xB5, 0xC5, 0x5D, 0xF0, 0x6F, 0x4C, 0x52, 0xC9, 0xDE, 0x2B, 0xCB, 0xF6, 0x95, 0x58, 0x17, 0x18,
    0x39, 0x95, 0x49, 0x7C, 0xEA, 0x95, 0x6A, 0xE5, 0x15, 0xD2, 0x26, 0x18, 0x98, 0xFA, 0x05, 0x10,
    0x15, 0x72, 0x8E, 0x5A, 0x8A, 0xAA, 0xC4, 0x2D, 0xAD, 0x33, 0x17, 0x0D, 0x04, 0x50, 0x7A, 0x33,
    0xA8, 0x55, 0x21, 0xAB, 0xDF, 0x1C, 0xBA, 0x64, 0xEC, 0xFB, 0x85, 0x04, 0x58, 0xDB, 0xEF, 0x0A,
    0x8A, 0xEA, 0x71, 0x57, 0x5D, 0x06, 0x0C, 0x7D, 0xB3, 0x97, 0x0F, 0x85, 0xA6, 0xE1, 0xE4, 0xC7,
    0xAB, 0xF5, 0xAE, 0x8C, 0xDB, 0x09, 0x33, 0xD7, 0x1E, 0x8C, 0x94, 0xE0, 0x4A, 0x25, 0x61, 0x9D,
    0xCE, 0xE3, 0xD2, 0x26, 0x1A, 0xD2, 0xEE, 0x6B, 0xF1, 0x2F, 0xFA, 0x06, 0xD9, 0x8A, 0x08, 0x64,
    0xD8, 0x76, 0x02, 0x73, 0x3E, 0xC8, 0x6A, 0x64, 0x52, 0x1F, 0x2B, 0x18, 0x17, 0x7B, 0x20, 0x0C,
    0xBB, 0xE1, 0x17, 0x57, 0x7A, 0x61, 0x5D, 0x6C, 0x77, 0x09, 0x88, 0xC0, 0xBA, 0xD9, 0x46, 0xE2,
    0x08, 0xE2, 0x4F, 0xA0, 0x74, 0xE5, 0xAB, 0x31, 0x43, 0xDB, 0x5B, 0xFC, 0xE0, 0xFD, 0x10, 0x8E,
    0x4B, 0x82, 0xD1, 0x20, 0xA9, 0x3A, 0xD2, 0xCA, 0xFF, 0xFF, 0xFF, 0xFF, 0xFF, 0xFF, 0xFF, 0xFF]"

record SrpGroup =
  grp_n :: nat
  grp_g :: nat
  grp_n_len :: nat

definition SrpGroup_new :: "bytes \<Rightarrow> bytes \<Rightarrow> CryptoError + SrpGroup" where
  "SrpGroup_new n_be g_be =
     (let n = be_val n_be in
      if n = 0 then Inl (SrpBadParameters ''group modulus N is zero'')
      else Inr \<lparr>grp_n = n, grp_g = be_val g_be, grp_n_len = div_ceil (bits n) 8\<rparr>)"

definition hap_group :: "CryptoError + SrpGroup" where
  "hap_group = SrpGroup_new HAP_N_3072 [5]"

definition pad_be :: "nat \<Rightarrow> nat \<Rightarrow> bytes" where
  "pad_be value width =
     (let raw = to_bytes_be value in
      if width \<le> length raw then raw else replicate (width - length raw) 0 @ raw)"

definition grp_pad :: "SrpGroup \<Rightarrow> nat \<Rightarrow> bytes" where
  "grp_pad grp value = pad_be value (grp_n_len grp)"

definition modpow :: "nat \<Rightarrow> nat \<Rightarrow> nat \<Rightarrow> nat" where
  "modpow b e n = b ^ e mod n"

definition compute_k :: "(bytes \<Rightarrow> bytes) \<Rightarrow> SrpGroup \<Rightarrow> nat" where
  "compute_k H grp = be_val (H (to_bytes_be (grp_n grp) @ grp_pad grp (grp_g grp)))"

definition compute_x :: "(bytes \<Rightarrow> bytes) \<Rightarrow> bytes \<Rightarrow> bytes \<Rightarrow> bytes \<Rightarrow> nat" where
  "compute_x H salt username password =
     (let inner = H (username @ ascii '':'' @ password) in be_val (H (salt @ inner)))"

definition compute_v :: "SrpGroup \<Rightarrow> nat \<Rightarrow> nat" where
  "compute_v grp x = modpow (grp_g grp) x (grp_n grp)"

definition compute_u :: "(bytes \<Rightarrow> bytes) \<Rightarrow> SrpGroup \<Rightarrow> nat \<Rightarrow> nat \<Rightarrow> nat" where
  "compute_u H grp a_pub b_pub = be_val (H (grp_pad grp a_pub @ grp_pad grp b_pub))"

definition compute_b :: "SrpGroup \<Rightarrow> nat \<Rightarrow> nat \<Rightarrow> nat \<Rightarrow> nat" where
  "compute_b grp k v b_priv =
     (let n = grp_n grp; gb = modpow (grp_g grp) b_priv n in ((k * v) mod n + gb) mod n)"

definition proof_m1 ::
    "(bytes \<Rightarrow> bytes) \<Rightarrow> SrpGroup \<Rightarrow> bytes \<Rightarrow> bytes \<Rightarrow> nat \<Rightarrow> nat \<Rightarrow> bytes \<Rightarrow> bytes" where
  "proof_m1 H grp username salt a_pub b_pub session_key =
     (let h_n = H (to_bytes_be (grp_n grp));
          h_g = H (to_bytes_be (grp_g grp));
          h_xor = map2 xor h_n h_g;
          h_i = H username in
      H (h_xor @ h_i @ salt @ grp_pad grp a_pub @ grp_pad grp b_pub @ session_key))"

definition proof_m2 :: "(bytes \<Rightarrow> bytes) \<Rightarrow> SrpGroup \<Rightarrow> nat \<Rightarrow> bytes \<Rightarrow> bytes \<Rightarrow> bytes" where
  "proof_m2 H grp a_pub m1 session_key = H (grp_pad grp a_pub @ m1 @ session_key)"

definition ct_eq :: "bytes \<Rightarrow> bytes \<Rightarrow> bool" where
  "ct_eq a b \<longleftrightarrow> (if length a \<noteq> length b then False else a = b)"

section \<open>Accessory side\<close>

record SrpServer =
  sv_group :: SrpGroup
  sv_username :: bytes
  sv_salt :: bytes
  sv_v :: nat
  sv_b :: nat
  sv_b_pub :: nat

definition with_salt_and_private ::
    "(bytes \<Rightarrow> bytes) \<Rightarrow> SrpGroup \<Rightarrow> bytes \<Rightarrow> bytes \<Rightarrow> bytes \<Rightarrow> nat \<Rightarrow> SrpServer" where
  "with_salt_and_private H grp username password salt b =
     (let x = compute_x H salt username password;
          v = compute_v grp x;
          k = compute_k H grp;
          b_pub = compute_b grp k v b in
      \<lparr>sv_group = grp, sv_username = username, sv_salt = salt, sv_v = v, sv_b = b,
       sv_b_pub = b_pub\<rparr>)"

definition SrpServer_new ::
    "(bytes \<Rightarrow> bytes) \<Rightarrow> SrpGroup \<Rightarrow> bytes \<Rightarrow> bytes \<Rightarrow> bytes \<Rightarrow> bytes \<Rightarrow> SrpServer" where
  "SrpServer_new H grp username password rng_salt rng_b =
     with_salt_and_private H grp username password rng_salt (be_val rng_b)"

definition b_pub_bytes :: "SrpServer \<Rightarrow> bytes" where
  "b_pub_bytes s = grp_pad (sv_group s) (sv_b_pub s)"

definition SrpServer_session_key :: "(bytes \<Rightarrow> bytes) \<Rightarrow> SrpServer \<Rightarrow> nat \<Rightarrow> CryptoError + bytes" where
  "SrpServer_session_key H s a_pub =
     (let n = grp_n (sv_group s) in
      if a_pub mod n = 0 then Inl (SrpBadParameters ''client public A is zero mod N'')
      else
        let u = compute_u H (sv_group s) a_pub (sv_b_pub s) in
        if u = 0 then Inl SrpProofMismatch
        else
          let vu = modpow (sv_v s) u n;
              base = (a_pub * vu) mod n;
              premaster = modpow base (sv_b s) n in
          Inr (H (grp_pad (sv_group s) premaster)))"

definition verify_m1_prove_m2 ::
    "(bytes \<Rightarrow> bytes) \<Rightarrow> SrpServer \<Rightarrow> nat \<Rightarrow> bytes \<Rightarrow> bytes \<Rightarrow> CryptoError + bytes" where
  "verify_m1_prove_m2 H s a_pub session_key received_m1 =
     (let expected_m1 =
        proof_m1 H (sv_group s) (sv_username s) (sv_salt s) a_pub (sv_b_pub s) session_key in
      if \<not> ct_eq expected_m1 received_m1 then Inl SrpProofMismatch
      else Inr (proof_m2 H (sv_group s) a_pub received_m1 session_key))"

section \<open>Controller side\<close>

record SrpClient =
  cl_group :: SrpGroup
  cl_username :: bytes
  cl_a :: nat
  cl_a_pub :: nat

definition with_private ::
    "SrpGroup \<Rightarrow> bytes \<Rightarrow> nat \<Rightarrow> CryptoError + SrpClient" where
  "with_private grp username a =
     (let a_pub = modpow (grp_g grp) a (grp_n grp) in
      if a_pub mod grp_n grp = 0 then Inl (SrpBadParameters ''client public A is zero mod N'')
      else Inr \<lparr>cl_group = grp, cl_username = username, cl_a = a, cl_a_pub = a_pub\<rparr>)"

definition SrpClient_new :: "SrpGroup \<Rightarrow> bytes \<Rightarrow> bytes \<Rightarrow> CryptoError + SrpClient" where
  "SrpClient_new grp username rng_a = with_private grp username (be_val rng_a)"

definition a_pub_bytes :: "SrpClient \<Rightarrow> bytes" where
  "a_pub_bytes c = grp_pad (cl_group c) (cl_a_pub c)"

definition premaster ::
    "(bytes \<Rightarrow> bytes) \<Rightarrow> SrpClient \<Rightarrow> bytes \<Rightarrow> bytes \<Rightarrow> nat \<Rightarrow> CryptoError + nat" where
  "premaster H c salt password b_pub =
     (let n = grp_n (cl_group c) in
      if b_pub mod n = 0 then Inl (SrpBadParameters ''server public B is zero mod N'')
      else
        let k = compute_k H (cl_group c);
            x = compute_x H salt (cl_username c) password;
            u = compute_u H (cl_group c) (cl_a_pub c) b_pub in
        if u = 0 then Inl SrpProofMismatch
        else
          let gx = modpow (grp_g (cl_group c)) x n;
              kgx = (k * gx) mod n;
              base = (b_pub + n - kgx) mod n;
              ex = cl_a c + u * x in
          Inr (modpow base ex n))"

definition SrpClient_session_key :: "(bytes \<Rightarrow> bytes) \<Rightarrow> SrpClient \<Rightarrow> nat \<Rightarrow> bytes" where
  "SrpClient_session_key H c prem = H (grp_pad (cl_group c) prem)"

definition SrpClient_proof_m1 ::
    "(bytes \<Rightarrow> bytes) \<Rightarrow> SrpClient \<Rightarrow> bytes \<Rightarrow> nat \<Rightarrow> bytes \<Rightarrow> bytes" where
  "SrpClient_proof_m1 H c salt b_pub session_key =
     proof_m1 H (cl_group c) (cl_username c) salt (cl_a_pub c) b_pub session_key"

definition expected_m2 :: "(bytes \<Rightarrow> bytes) \<Rightarrow> SrpClient \<Rightarrow> bytes \<Rightarrow> bytes \<Rightarrow> bytes" where
  "expected_m2 H c m1 session_key = proof_m2 H (cl_group c) (cl_a_pub c) m1 session_key"

definition verify_m2 ::
    "(bytes \<Rightarrow> bytes) \<Rightarrow> SrpClient \<Rightarrow> bytes \<Rightarrow> bytes \<Rightarrow> bytes \<Rightarrow> CryptoError + unit" where
  "verify_m2 H c m1 session_key received =
     (let expected = expected_m2 H c m1 session_key in
      if ct_eq expected received then Inr () else Inl SrpProofMismatch)"

section \<open>Padding\<close>

definition group_ok :: "SrpGroup \<Rightarrow> bool" where
  "group_ok G \<longleftrightarrow> 0 < grp_n G \<and> grp_n_len G = div_ceil (bits (grp_n G)) 8"

lemma SrpGroup_new_ok: "SrpGroup_new n_be g_be = Inr G \<Longrightarrow> group_ok G"
  by (auto simp: SrpGroup_new_def group_ok_def Let_def split: if_splits)

lemma be_val_pad_be [simp]: "be_val (pad_be v w) = v"
  by (simp add: pad_be_def Let_def)

lemma be_val_grp_pad [simp]: "be_val (grp_pad G v) = v"
  by (simp add: grp_pad_def)

lemma length_grp_pad:
  assumes "group_ok G" and "v < grp_n G"
  shows "length (grp_pad G v) = grp_n_len G"
proof -
  let ?l = "grp_n_len G"
  have "bits (grp_n G) \<le> 8 * ?l"
    using assms(1) by (simp add: group_ok_def div_ceil_def)
  then have "(2 :: nat) ^ bits (grp_n G) \<le> 2 ^ (8 * ?l)" by (rule power_increasing) simp
  also have "\<dots> = 256 ^ ?l" by (simp add: power_mult)
  finally have "v < 256 ^ ?l" using less_power_bits [of "grp_n G"] assms(2) by linarith
  moreover have "0 < ?l"
    using assms(1) by (simp add: group_ok_def div_ceil_def bits.simps [of "grp_n G"])
  ultimately have "length (to_bytes_be v) \<le> ?l"
    by (simp add: to_bytes_be_def length_le_digits)
  then show ?thesis by (auto simp: grp_pad_def pad_be_def Let_def)
qed

section \<open>Both sides derive the same key\<close>

lemma ct_eq_iff [simp]: "ct_eq a b \<longleftrightarrow> a = b"
  by (auto simp: ct_eq_def)

text \<open>Subtracting the masked verifier from \<open>B\<close> leaves \<open>g^b\<close>.\<close>

lemma unmask_b:
  fixes n k v gb :: nat
  assumes "0 < n"
  shows "(((k * v) mod n + gb) mod n + n - (k * v) mod n) mod n = gb mod n"
proof -
  let ?m = "(k * v) mod n"
  have le: "?m \<le> n" using assms by (simp add: less_imp_le)
  have "((?m + gb) mod n + n - ?m) mod n = ((?m + gb) mod n + (n - ?m)) mod n" using le by simp
  also have "\<dots> = (?m + gb + (n - ?m)) mod n" by (rule mod_add_left_eq)
  also have "?m + gb + (n - ?m) = gb + n" using le by simp
  finally show ?thesis by simp
qed

lemma premaster_agree:
  fixes n :: nat
  shows "((g ^ b mod n) ^ (a + u * x)) mod n =
         ((g ^ a mod n) * ((g ^ x mod n) ^ u mod n) mod n) ^ b mod n"
proof -
  have "((g ^ a mod n) * ((g ^ x mod n) ^ u mod n) mod n) ^ b mod n = (g ^ a * (g ^ x) ^ u) ^ b mod n"
    by (metis mod_mult_eq power_mod)
  also have "\<dots> = (g ^ b) ^ (a + u * x) mod n"
    by (simp add: power_add [symmetric] power_mult [symmetric] algebra_simps)
  finally show ?thesis by (simp add: power_mod)
qed


section \<open>The HAP group\<close>

lemma le_val_append: "le_val (as @ bs) = le_val as + 256 ^ length as * le_val bs"
  by (induction as) (auto simp: algebra_simps)

lemma be_val_Cons: "be_val (b # bs) = unat b * 256 ^ length bs + be_val bs"
  by (simp add: be_val_def le_val_append mult.commute)

lemma be_val_less: "be_val bs < 256 ^ length bs"
  using le_val_less [of "rev bs"] by (simp add: be_val_def)

lemma bits_bounds: "2 ^ k \<le> n \<Longrightarrow> n < 2 ^ Suc k \<Longrightarrow> bits n = Suc k"
proof (induction k arbitrary: n)
  case 0
  then have "n = 1" by simp
  then show ?case by (simp add: bits.simps)
next
  case (Suc k)
  then have "2 ^ k \<le> n div 2" and "n div 2 < 2 ^ Suc k" by auto
  then have "bits (n div 2) = Suc k" by (rule Suc.IH)
  moreover have "n \<noteq> 0" using Suc.prems(1) by (metis le_zero_eq power_not_zero zero_neq_numeral)
  ultimately show ?case by (simp add: bits.simps [of n])
qed

lemma bits_be_val_full:
  assumes "128 \<le> unat b"
  shows "bits (be_val (b # bs)) = 8 * length (b # bs)"
proof -
  let ?l = "length bs"
  have lo: "(2 :: nat) ^ (7 + 8 * ?l) = 128 * 256 ^ ?l" by (simp add: power_add power_mult)
  have hi: "(2 :: nat) ^ Suc (7 + 8 * ?l) = 256 ^ Suc ?l" by (simp add: power_add power_mult)
  have "128 * 256 ^ ?l \<le> unat b * 256 ^ ?l" using assms by simp
  then have "2 ^ (7 + 8 * ?l) \<le> be_val (b # bs)" unfolding lo be_val_Cons by linarith
  moreover have "be_val (b # bs) < 2 ^ Suc (7 + 8 * ?l)"
    unfolding hi using be_val_less [of "b # bs"] by simp
  ultimately have "bits (be_val (b # bs)) = Suc (7 + 8 * ?l)" by (rule bits_bounds)
  then show ?thesis by simp
qed

lemma length_HAP_N_3072: "length HAP_N_3072 = 384"
  by (simp add: HAP_N_3072_def)

lemma hd_HAP_N_3072: "HAP_N_3072 = 0xFF # tl HAP_N_3072"
  by (simp add: HAP_N_3072_def)

lemma bits_HAP_N_3072: "bits (be_val HAP_N_3072) = 3072"
proof -
  have "length (0xFF # tl HAP_N_3072) = 384"
    using hd_HAP_N_3072 length_HAP_N_3072 by metis
  then have "bits (be_val (0xFF # tl HAP_N_3072)) = 3072"
    using bits_be_val_full [of "0xFF" "tl HAP_N_3072"] by simp
  then show ?thesis using hd_HAP_N_3072 by metis
qed

lemma HAP_N_3072_large: "255 \<le> be_val HAP_N_3072"
proof -
  have "be_val (0xFF # tl HAP_N_3072) = 255 * 256 ^ length (tl HAP_N_3072) + be_val (tl HAP_N_3072)"
    by (simp add: be_val_Cons)
  moreover have "(1 :: nat) \<le> 256 ^ length (tl HAP_N_3072)" by simp
  ultimately have "255 \<le> be_val (0xFF # tl HAP_N_3072)" by linarith
  then show ?thesis using hd_HAP_N_3072 by metis
qed

lemma hap_group_Inr:
  "hap_group = Inr \<lparr>grp_n = be_val HAP_N_3072, grp_g = 5, grp_n_len = 384\<rparr>"
proof -
  have "be_val HAP_N_3072 \<noteq> 0"
    using bits_HAP_N_3072 by (metis bits.simps zero_neq_numeral)
  moreover have "be_val [5] = 5" by (simp add: be_val_def)
  ultimately show ?thesis
    by (simp add: hap_group_def SrpGroup_new_def bits_HAP_N_3072 div_ceil_def)
qed

section \<open>Properties\<close>

definition toy_hash :: "bytes \<Rightarrow> bytes" where
  "toy_hash bs = [of_nat (Suc (length bs))]"

lemma srp_mutual_agree_lemma:
  assumes "0 < grp_n G"
    and "with_private G I a = Inr c"
    and "s = with_salt_and_private H G I pw salt b"
    and "premaster H c (sv_salt s) pw (be_val (b_pub_bytes s)) = Inr S"
    and "K = SrpClient_session_key H c S"
    and "m1 = SrpClient_proof_m1 H c (sv_salt s) (be_val (b_pub_bytes s)) K"
  shows "SrpServer_session_key H s (be_val (a_pub_bytes c)) = Inr K \<and>
         (\<exists>m2. verify_m1_prove_m2 H s (be_val (a_pub_bytes c)) K m1 = Inr m2 \<and>
               verify_m2 H c m1 K m2 = Inr ())"
proof -
  let ?n = "grp_n G" and ?x = "compute_x H salt I pw" and ?g = "grp_g G"
  have c: "c = \<lparr>cl_group = G, cl_username = I, cl_a = a, cl_a_pub = ?g ^ a mod ?n\<rparr>"
    and A: "?g ^ a mod ?n \<noteq> 0"
    using assms(2) by (auto simp: with_private_def modpow_def Let_def split: if_splits)
  let ?B = "((compute_k H G * (?g ^ ?x mod ?n)) mod ?n + ?g ^ b mod ?n) mod ?n"
  have s: "sv_group s = G" "sv_username s = I" "sv_salt s = salt" "sv_v s = ?g ^ ?x mod ?n"
    "sv_b s = b" "sv_b_pub s = ?B"
    using assms(3) by (simp_all add: with_salt_and_private_def compute_v_def compute_b_def
        modpow_def Let_def)
  let ?u = "compute_u H G (?g ^ a mod ?n) ?B"
  have S: "?u \<noteq> 0" "S = ((?g ^ b mod ?n) ^ (a + ?u * ?x)) mod ?n"
    using assms(4) unmask_b [OF assms(1), of "compute_k H G" "?g ^ ?x mod ?n" "?g ^ b mod ?n"]
    by (auto simp: premaster_def c s b_pub_bytes_def modpow_def Let_def split: if_splits)
  have "SrpServer_session_key H s (be_val (a_pub_bytes c)) = Inr K"
    using A S premaster_agree [of ?g b ?n a ?u ?x]
    by (simp add: SrpServer_session_key_def s c a_pub_bytes_def assms(5) SrpClient_session_key_def
        modpow_def Let_def)
  moreover have "verify_m1_prove_m2 H s (be_val (a_pub_bytes c)) K m1 =
      Inr (proof_m2 H G (?g ^ a mod ?n) m1 K)"
    by (simp add: verify_m1_prove_m2_def s c a_pub_bytes_def b_pub_bytes_def assms(6)
        SrpClient_proof_m1_def)
  ultimately show ?thesis by (simp add: verify_m2_def expected_m2_def c)
qed

text \<open>C23. With the same credentials on both sides, whenever the controller computes a premaster
  secret from the salt and the public value the accessory sent, the accessory derives the same
  session key, accepts the controller's proof, and the controller accepts the accessory's proof.
  The accessory's public value survives its padded wire form.\<close>

theorem srp_mutual_agreement:
  assumes "0 < grp_n G"
    and "with_private G I a = Inr c"
    and "s = with_salt_and_private H G I pw salt b"
    and "premaster H c (sv_salt s) pw (be_val (b_pub_bytes s)) = Inr S"
    and "K = SrpClient_session_key H c S"
    and "m1 = SrpClient_proof_m1 H c (sv_salt s) (be_val (b_pub_bytes s)) K"
  shows "SrpServer_session_key H s (be_val (a_pub_bytes c)) = Inr K \<and>
         (\<exists>m2. verify_m1_prove_m2 H s (be_val (a_pub_bytes c)) K m1 = Inr m2 \<and>
               verify_m2 H c m1 K m2 = Inr ())"
  using srp_mutual_agree_lemma [OF assms] .

theorem srp_mutual_agreement_witness:
  "\<exists>G c s K m1. with_private G [1] 6 = Inr c \<and> s = with_salt_and_private toy_hash G [1] [2] [3] 4 \<and>
     premaster toy_hash c (sv_salt s) [2] (be_val (b_pub_bytes s)) = Inr 3 \<and>
     K = SrpClient_session_key toy_hash c 3 \<and>
     SrpServer_session_key toy_hash s (be_val (a_pub_bytes c)) = Inr K \<and>
     (\<exists>m2. verify_m1_prove_m2 toy_hash s (be_val (a_pub_bytes c)) K m1 = Inr m2 \<and>
           verify_m2 toy_hash c m1 K m2 = Inr ())"
proof -
  let ?G = "\<lparr>grp_n = 23, grp_g = 5, grp_n_len = 1\<rparr>"
  let ?s = "with_salt_and_private toy_hash ?G [1] [2] [3] 4"
  let ?c = "\<lparr>cl_group = ?G, cl_username = [1], cl_a = 6, cl_a_pub = 8\<rparr>"
  have c: "with_private ?G [1] 6 = Inr ?c"
    by (simp add: with_private_def modpow_def)
  have p: "premaster toy_hash ?c (sv_salt ?s) [2] (be_val (b_pub_bytes ?s)) = Inr 3"
    by (simp add: premaster_def with_salt_and_private_def b_pub_bytes_def compute_k_def compute_x_def
        compute_v_def compute_u_def compute_b_def modpow_def toy_hash_def grp_pad_def pad_be_def
        to_bytes_be_def le_digits.simps be_val_def)
  show ?thesis
    using srp_mutual_agreement [OF _ c refl p refl refl] c p by auto
qed

text \<open>In the HAP group every value below the modulus has a 384-byte wire form that decodes to
  it; the controller's public value is such a value, is never zero modulo the modulus, and its
  constructor fails only when it would be.\<close>

theorem hap_public_wire_form:
  assumes "hap_group = Inr G"
  shows "grp_n_len G = 384 \<and>
    (v < grp_n G \<longrightarrow> length (grp_pad G v) = 384 \<and> be_val (grp_pad G v) = v) \<and>
    (with_private G I a = Inr c \<longrightarrow>
       length (a_pub_bytes c) = 384 \<and> be_val (a_pub_bytes c) = 5 ^ a mod grp_n G \<and>
       \<not> grp_n G dvd be_val (a_pub_bytes c)) \<and>
    (with_private G I a = Inl e \<longrightarrow> grp_n G dvd 5 ^ a)"
proof -
  have G: "grp_g G = 5" "grp_n_len G = 384" and ok: "group_ok G"
    using assms SrpGroup_new_ok [of HAP_N_3072 "[5]" G]
    by (auto simp: hap_group_Inr hap_group_def [symmetric])
  then have n: "0 < grp_n G" by (simp add: group_ok_def)
  have pad: "length (grp_pad G v) = 384" if "v < grp_n G" for v
    using length_grp_pad [OF ok that] G by simp
  have new: "c = \<lparr>cl_group = G, cl_username = I, cl_a = a, cl_a_pub = 5 ^ a mod grp_n G\<rparr> \<and>
      5 ^ a mod grp_n G \<noteq> 0" if "with_private G I a = Inr c"
    using that by (auto simp: with_private_def modpow_def G Let_def split: if_splits)
  have "grp_n G dvd 5 ^ a" if "with_private G I a = Inl e"
    using that by (auto simp: with_private_def modpow_def G Let_def split: if_splits)
  then show ?thesis
    using G n pad new by (auto simp: a_pub_bytes_def dvd_eq_mod_eq_0)
qed

theorem hap_public_wire_form_witness:
  "\<exists>G. hap_group = Inr G \<and> length (grp_pad G 1) = 384 \<and> be_val (grp_pad G 1) = 1"
proof -
  obtain G where G: "hap_group = Inr G" by (simp add: hap_group_Inr)
  then have "grp_n G = be_val HAP_N_3072" by (auto simp: hap_group_Inr)
  moreover have "\<not> be_val HAP_N_3072 \<le> 1"
    using bits_HAP_N_3072 by (auto simp: le_Suc_eq bits.simps split: if_splits)
  ultimately have "1 < grp_n G" by simp
  then show ?thesis using hap_public_wire_form [OF G, of 1] G by blast
qed

end
