(* ===== verification/Pair_Setup.thy ===== *)
theory Pair_Setup
  imports Srp
begin

text \<open>
  The controller side of Pair Setup, \<open>hap-crypto/src/pair_setup.rs\<close>: the state machine
  \<open>PairSetupClient\<close> and the accessory's SRP half \<open>HapPairSetupSrpServer\<close>.  A method with
  \<open>&mut self\<close> returns its result paired with the new client.  Every raise leaves the state as the
  code leaves it: an error in M2 or M4 keeps the state, M6 moves to \<open>Done\<close> before its checks.
\<close>

section \<open>Constants\<close>

definition PAIR_SETUP_USERNAME :: bytes where "PAIR_SETUP_USERNAME = ascii ''Pair-Setup''"
definition ENCRYPT_SALT :: bytes where "ENCRYPT_SALT = ascii ''Pair-Setup-Encrypt-Salt''"
definition ENCRYPT_INFO :: bytes where "ENCRYPT_INFO = ascii ''Pair-Setup-Encrypt-Info''"
definition CONTROLLER_SIGN_SALT :: bytes where
  "CONTROLLER_SIGN_SALT = ascii ''Pair-Setup-Controller-Sign-Salt''"
definition CONTROLLER_SIGN_INFO :: bytes where
  "CONTROLLER_SIGN_INFO = ascii ''Pair-Setup-Controller-Sign-Info''"
definition ACCESSORY_SIGN_SALT :: bytes where
  "ACCESSORY_SIGN_SALT = ascii ''Pair-Setup-Accessory-Sign-Salt''"
definition ACCESSORY_SIGN_INFO :: bytes where
  "ACCESSORY_SIGN_INFO = ascii ''Pair-Setup-Accessory-Sign-Info''"
definition NONCE_M5 :: bytes where "NONCE_M5 = ascii ''PS-Msg05''"
definition NONCE_M6 :: bytes where "NONCE_M6 = ascii ''PS-Msg06''"

section \<open>Types\<close>

record AccessoryPairing =
  pairing_id :: str
  acc_ltpk :: bytes

datatype 'r pairing_step = Send bytes | Done 'r

type_synonym PairSetupStep = "AccessoryPairing pairing_step"

datatype PairSetupState =
    PS_Initial
  | PS_AwaitingM2
  | PS_AwaitingM4 (ps_session_key: bytes) (ps_m1: bytes)
  | PS_AwaitingM6 (ps_session_key: bytes)
  | PS_Done

record PairSetupClient =
  ps_password :: str
  ps_controller :: ControllerKeypair
  ps_srp :: SrpClient
  ps_state :: PairSetupState

section \<open>Helpers\<close>

definition normalize_setup_code :: "str \<Rightarrow> str" where
  "normalize_setup_code code =
     (let digits = filter is_ascii_digit code in
      if length digits = 8
      then slice digits 0 3 @ ascii ''-'' @ slice digits 3 5 @ ascii ''-'' @ slice digits 5 8
      else code)"

definition ps_check_error :: "Tlv8Map \<Rightarrow> CryptoError + unit" where
  "ps_check_error m =
     (case Tlv8Map_get m ERROR of
        None \<Rightarrow> Inr ()
      | Some [] \<Rightarrow> Inr ()
      | Some bs \<Rightarrow>
          if bs = [2] then Inl SrpProofMismatch
          else Inl (Encoding ''accessory returned a pairing error''))"

definition ps_expect_state :: "Tlv8Map \<Rightarrow> u8 \<Rightarrow> CryptoError + unit" where
  "ps_expect_state m expected =
     and_then (map_err Tlv (get_u8 m STATE)) (\<lambda>s.
     case s of
       None \<Rightarrow> Inr ()
     | Some s \<Rightarrow> if s = expected then Inr () else Inl (Encoding ''unexpected Pair Setup state''))"

section \<open>The client\<close>

definition PairSetupClient_new ::
    "str \<Rightarrow> ControllerKeypair \<Rightarrow> bytes \<Rightarrow> CryptoError + PairSetupClient" where
  "PairSetupClient_new setup_code controller rng_a =
     and_then hap_group (\<lambda>grp.
     and_then (SrpClient_new grp PAIR_SETUP_USERNAME rng_a) (\<lambda>srp.
     Inr \<lparr>ps_password = normalize_setup_code setup_code, ps_controller = controller,
          ps_srp = srp, ps_state = PS_Initial\<rparr>))"

definition PairSetupClient_new_with_private ::
    "str \<Rightarrow> ControllerKeypair \<Rightarrow> bytes \<Rightarrow> CryptoError + PairSetupClient" where
  "PairSetupClient_new_with_private setup_code controller a =
     and_then hap_group (\<lambda>grp.
     and_then (with_private grp PAIR_SETUP_USERNAME (be_val a)) (\<lambda>srp.
     Inr \<lparr>ps_password = normalize_setup_code setup_code, ps_controller = controller,
          ps_srp = srp, ps_state = PS_Initial\<rparr>))"

definition ps_start :: "PairSetupClient \<Rightarrow> bytes \<times> PairSetupClient" where
  "ps_start c =
     (push_u8 (push_u8 [] STATE STATE_M1) METHOD METHOD_PAIR_SETUP, c\<lparr>ps_state := PS_AwaitingM2\<rparr>)"

text \<open>M2: the values of the new state and the message M3.\<close>

definition ps_m2_values ::
    "prims \<Rightarrow> PairSetupClient \<Rightarrow> Tlv8Map \<Rightarrow> CryptoError + bytes \<times> bytes \<times> bytes" where
  "ps_m2_values P c m =
     and_then (ps_expect_state m STATE_M2) (\<lambda>_.
     and_then (ok_or (Encoding ''M2 missing salt'') (Tlv8Map_get m SALT)) (\<lambda>salt.
     and_then (ok_or (Encoding ''M2 missing accessory public key B'') (Tlv8Map_get m PUBLIC_KEY)) (\<lambda>b_bytes.
     let b_pub = be_val b_bytes in
     and_then (premaster (sha512 P) (ps_srp c) salt (ps_password c) b_pub) (\<lambda>prem.
     let session_key = SrpClient_session_key (sha512 P) (ps_srp c) prem;
         m1 = SrpClient_proof_m1 (sha512 P) (ps_srp c) salt b_pub session_key;
         out = Tlv8Writer_push (Tlv8Writer_push (push_u8 [] STATE STATE_M3)
                 PUBLIC_KEY (a_pub_bytes (ps_srp c))) PROOF m1 in
     Inr (out, session_key, m1)))))"

definition ps_handle_m2 ::
    "prims \<Rightarrow> PairSetupClient \<Rightarrow> Tlv8Map \<Rightarrow> (CryptoError + PairSetupStep) \<times> PairSetupClient" where
  "ps_handle_m2 P c m =
     (case ps_m2_values P c m of
        Inl e \<Rightarrow> (Inl e, c)
      | Inr (out, session_key, m1) \<Rightarrow>
          (Inr (Send out), c\<lparr>ps_state := PS_AwaitingM4 session_key m1\<rparr>))"

text \<open>M4: check the accessory's proof and build M5.\<close>

definition ps_build_m5 :: "prims \<Rightarrow> ControllerKeypair \<Rightarrow> bytes \<Rightarrow> CryptoError + bytes" where
  "ps_build_m5 P controller session_key =
     and_then (hkdf_sha512 P session_key ENCRYPT_SALT ENCRYPT_INFO 32) (\<lambda>enc_key.
     and_then (hkdf_sha512 P session_key CONTROLLER_SIGN_SALT CONTROLLER_SIGN_INFO 32) (\<lambda>ios_device_x.
     let ident = kp_id controller;
         pk = ltpk P controller;
         signed = ios_device_x @ ident @ pk;
         signature = kp_sign P controller signed;
         sub = Tlv8Writer_push (Tlv8Writer_push (Tlv8Writer_push [] IDENTIFIER ident)
                 PUBLIC_KEY pk) SIGNATURE signature;
         nonce = hap_nonce NONCE_M5 in
     and_then (aead_encrypt P enc_key nonce [] sub) (\<lambda>sealed.
     Inr (Tlv8Writer_push (push_u8 [] STATE STATE_M5) ENCRYPTED_DATA sealed))))"

definition ps_m4_values ::
    "prims \<Rightarrow> PairSetupClient \<Rightarrow> Tlv8Map \<Rightarrow> CryptoError + bytes \<times> bytes" where
  "ps_m4_values P c m =
     and_then (ps_expect_state m STATE_M4) (\<lambda>_.
     case ps_state c of
       PS_AwaitingM4 session_key m1 \<Rightarrow>
         and_then (ok_or (Encoding ''M4 missing accessory proof M2'') (Tlv8Map_get m PROOF)) (\<lambda>prf.
         and_then (verify_m2 (sha512 P) (ps_srp c) m1 session_key prf) (\<lambda>_.
         and_then (ps_build_m5 P (ps_controller c) session_key) (\<lambda>out.
         Inr (out, session_key))))
     | _ \<Rightarrow> Inl (Encoding ''Pair Setup state corrupted''))"

definition ps_handle_m4 ::
    "prims \<Rightarrow> PairSetupClient \<Rightarrow> Tlv8Map \<Rightarrow> (CryptoError + PairSetupStep) \<times> PairSetupClient" where
  "ps_handle_m4 P c m =
     (case ps_m4_values P c m of
        Inl e \<Rightarrow> (Inl e, c)
      | Inr (out, session_key) \<Rightarrow> (Inr (Send out), c\<lparr>ps_state := PS_AwaitingM6 session_key\<rparr>))"

text \<open>M6: decrypt, decode and authenticate the accessory's long-term key.\<close>

definition ps_m6_pairing :: "prims \<Rightarrow> bytes \<Rightarrow> Tlv8Map \<Rightarrow> CryptoError + AccessoryPairing" where
  "ps_m6_pairing P session_key m =
     and_then (ok_or (Encoding ''M6 missing encrypted data'') (Tlv8Map_get m ENCRYPTED_DATA)) (\<lambda>encrypted.
     and_then (hkdf_sha512 P session_key ENCRYPT_SALT ENCRYPT_INFO 32) (\<lambda>enc_key.
     let nonce = hap_nonce NONCE_M6 in
     and_then (aead_decrypt P enc_key nonce [] encrypted) (\<lambda>plaintext.
     and_then (map_err Tlv (Tlv8Map_parse plaintext)) (\<lambda>sub.
     and_then (ok_or (Encoding ''M6 sub-TLV missing identifier'') (Tlv8Map_get sub IDENTIFIER)) (\<lambda>id_bytes.
     and_then (ok_or (Encoding ''M6 sub-TLV missing public key'') (Tlv8Map_get sub PUBLIC_KEY)) (\<lambda>ltpk_bytes.
     and_then (ok_or (Encoding ''M6 sub-TLV missing signature'') (Tlv8Map_get sub SIGNATURE)) (\<lambda>sig_bytes.
     and_then (ok_or (Encoding ''accessory LTPK is not 32 bytes'') (try_array 32 ltpk_bytes)) (\<lambda>pk.
     and_then (ok_or (Encoding ''accessory signature is not 64 bytes'') (try_array 64 sig_bytes)) (\<lambda>sig.
     and_then (require (utf8_valid id_bytes) (Encoding ''accessory pairing id is not valid UTF-8'')) (\<lambda>_.
     and_then (hkdf_sha512 P session_key ACCESSORY_SIGN_SALT ACCESSORY_SIGN_INFO 32) (\<lambda>accessory_x.
     let signed = accessory_x @ id_bytes @ pk in
     and_then (verify_ed25519 P pk signed sig) (\<lambda>_.
     Inr \<lparr>pairing_id = id_bytes, acc_ltpk = pk\<rparr>))))))))))))"

definition ps_handle_m6 ::
    "prims \<Rightarrow> PairSetupClient \<Rightarrow> Tlv8Map \<Rightarrow> (CryptoError + PairSetupStep) \<times> PairSetupClient" where
  "ps_handle_m6 P c m =
     (case ps_expect_state m STATE_M6 of
        Inl e \<Rightarrow> (Inl e, c)
      | Inr _ \<Rightarrow>
          (case ps_state c of
             PS_AwaitingM6 session_key \<Rightarrow>
               (and_then (ps_m6_pairing P session_key m) (\<lambda>p. Inr (Done p)), c\<lparr>ps_state := PS_Done\<rparr>)
           | _ \<Rightarrow> (Inl (Encoding ''Pair Setup state corrupted''), c)))"

text \<open>The parsed response, after the check for an accessory error.\<close>

definition ps_response_map :: "bytes \<Rightarrow> CryptoError + Tlv8Map" where
  "ps_response_map response =
     and_then (map_err Tlv (Tlv8Map_parse response)) (\<lambda>m.
     and_then (ps_check_error m) (\<lambda>_. Inr m))"

definition ps_handle ::
    "prims \<Rightarrow> PairSetupClient \<Rightarrow> bytes \<Rightarrow> (CryptoError + PairSetupStep) \<times> PairSetupClient" where
  "ps_handle P c response =
     (case ps_response_map response of
        Inl e \<Rightarrow> (Inl e, c)
      | Inr m \<Rightarrow>
          (case ps_state c of
             PS_Initial \<Rightarrow> (Inl (Encoding ''Pair Setup not started''), c)
           | PS_AwaitingM2 \<Rightarrow> ps_handle_m2 P c m
           | PS_AwaitingM4 _ _ \<Rightarrow> ps_handle_m4 P c m
           | PS_AwaitingM6 _ \<Rightarrow> ps_handle_m6 P c m
           | PS_Done \<Rightarrow> (Inl (Encoding ''Pair Setup already finished''), c)))"

section \<open>The accessory's SRP half\<close>

record HapPairSetupSrpServer =
  srv_inner :: SrpServer

definition HapPairSetupSrpServer_new ::
    "prims \<Rightarrow> str \<Rightarrow> bytes \<Rightarrow> bytes \<Rightarrow> CryptoError + HapPairSetupSrpServer \<times> bytes" where
  "HapPairSetupSrpServer_new P setup_code rng_salt rng_b =
     (let password = normalize_setup_code setup_code in
      and_then hap_group (\<lambda>grp.
      let inner = SrpServer_new (sha512 P) grp PAIR_SETUP_USERNAME password rng_salt rng_b in
      Inr (\<lparr>srv_inner = inner\<rparr>, sv_salt inner)))"

definition srv_b_pub_bytes :: "HapPairSetupSrpServer \<Rightarrow> bytes" where
  "srv_b_pub_bytes s = b_pub_bytes (srv_inner s)"

definition srv_session_key :: "prims \<Rightarrow> HapPairSetupSrpServer \<Rightarrow> bytes \<Rightarrow> CryptoError + bytes" where
  "srv_session_key P s a_bytes = SrpServer_session_key (sha512 P) (srv_inner s) (be_val a_bytes)"

definition srv_verify_m1_prove_m2 ::
    "prims \<Rightarrow> HapPairSetupSrpServer \<Rightarrow> bytes \<Rightarrow> bytes \<Rightarrow> CryptoError + bytes" where
  "srv_verify_m1_prove_m2 P s a_bytes m1 =
     (let a_pub = be_val a_bytes in
      and_then (SrpServer_session_key (sha512 P) (srv_inner s) a_pub) (\<lambda>session_key.
      verify_m1_prove_m2 (sha512 P) (srv_inner s) a_pub session_key m1))"


section \<open>Setup codes\<close>

lemma slices_eight: "length d = 8 \<Longrightarrow> slice d 0 3 @ slice d 3 5 @ slice d 5 8 = d"
  using slice_all [of d] by (simp add: slice_append)

lemma filter_digit_slice:
  "list_all is_ascii_digit d \<Longrightarrow> filter is_ascii_digit (slice d i j) = slice d i j"
  by (auto simp: slice_def list_all_iff filter_id_conv dest!: in_set_takeD in_set_dropD)

lemma normalize_digits:
  assumes "length (filter is_ascii_digit code) = 8"
  shows "filter is_ascii_digit (normalize_setup_code code) = filter is_ascii_digit code"
proof -
  let ?d = "filter is_ascii_digit code"
  have dash: "filter is_ascii_digit (ascii ''-'') = []"
    by (simp add: ascii_def is_ascii_digit_def in_range_def)
  have all: "list_all is_ascii_digit ?d" by (simp add: list_all_iff)
  show ?thesis
    using assms slices_eight [of ?d]
    by (simp add: normalize_setup_code_def Let_def dash filter_digit_slice [OF all])
qed

text \<open>A setup code with eight digits is normalised to the ten bytes \<open>XXX-XX-XXX\<close> whatever its
  punctuation: codes with the same eight digits give the same password, and normalising again
  changes nothing.  Any other code is used as it is.\<close>

theorem normalize_setup_code_canonical:
  "(length (filter is_ascii_digit code) = 8 \<longrightarrow>
      length (normalize_setup_code code) = 10 \<and>
      normalize_setup_code code ! 3 = of_char (CHR ''-'') \<and>
      normalize_setup_code code ! 6 = of_char (CHR ''-'') \<and>
      (filter is_ascii_digit code' = filter is_ascii_digit code \<longrightarrow>
         normalize_setup_code code' = normalize_setup_code code)) \<and>
   (length (filter is_ascii_digit code) \<noteq> 8 \<longrightarrow> normalize_setup_code code = code) \<and>
   normalize_setup_code (normalize_setup_code code) = normalize_setup_code code"
proof (cases "length (filter is_ascii_digit code) = 8")
  case True
  let ?d = "filter is_ascii_digit code"
  have nth: "(slice ?d 0 3 @ x # slice ?d 3 5 @ y # zs) ! 3 = x"
    "(slice ?d 0 3 @ x # slice ?d 3 5 @ y # zs) ! 6 = y" for x y zs
    using True by (simp_all add: nth_append)
  have "normalize_setup_code (normalize_setup_code code) = normalize_setup_code code"
    using True normalize_digits [OF True] by (simp add: normalize_setup_code_def Let_def)
  then show ?thesis
    using True nth by (simp add: normalize_setup_code_def Let_def ascii_def)
next
  case False
  then show ?thesis by (simp add: normalize_setup_code_def)
qed

theorem normalize_setup_code_canonical_witness:
  "normalize_setup_code (ascii ''12345678'') = ascii ''123-45-678'' \<and>
   normalize_setup_code (ascii ''123-45-678'') = ascii ''123-45-678''"
  using normalize_setup_code_canonical [of "ascii ''12345678''" "ascii ''123-45-678''"]
  by (simp add: normalize_setup_code_def ascii_def is_ascii_digit_def in_range_def slice_def)

section \<open>Progress\<close>

text \<open>The number of messages the client can still produce by itself.\<close>

definition ps_rank :: "PairSetupClient \<Rightarrow> nat" where
  "ps_rank c =
     (case ps_state c of
        PS_Initial \<Rightarrow> 0 | PS_AwaitingM2 \<Rightarrow> 2 | PS_AwaitingM4 _ _ \<Rightarrow> 1 | PS_AwaitingM6 _ \<Rightarrow> 0 | PS_Done \<Rightarrow> 0)"

lemmas ps_handle_defs = ps_handle_def ps_handle_m2_def ps_handle_m4_def ps_handle_m6_def

lemma ps_handle_Send:
  "ps_handle P c r = (Inr (Send m), c') \<Longrightarrow>
     (ps_state c = PS_AwaitingM2 \<and> (\<exists>K m1. ps_state c' = PS_AwaitingM4 K m1)) \<or>
     (\<exists>K m1. ps_state c = PS_AwaitingM4 K m1 \<and> ps_state c' = PS_AwaitingM6 K)"
  by (auto simp: ps_handle_defs ps_m4_values_def result_simps
      split: sum.splits PairSetupState.splits)

lemma ps_handle_Done:
  "ps_handle P c r = (Inr (Done p), c') \<Longrightarrow>
     \<exists>K m. ps_state c = PS_AwaitingM6 K \<and> c' = c\<lparr>ps_state := PS_Done\<rparr> \<and>
       ps_response_map r = Inr m \<and> ps_m6_pairing P K m = Inr p"
  by (auto simp: ps_handle_defs result_simps split: sum.splits PairSetupState.splits)

section \<open>Authentication\<close>

text \<open>The calls a driver can make on a client, in any order.\<close>

datatype ps_event = PS_Start | PS_Response bytes

definition ps_step :: "prims \<Rightarrow> PairSetupClient \<Rightarrow> ps_event \<Rightarrow> PairSetupClient" where
  "ps_step P c ev =
     (case ev of PS_Start \<Rightarrow> snd (ps_start c) | PS_Response r \<Rightarrow> snd (ps_handle P c r))"

definition ps_run :: "prims \<Rightarrow> PairSetupClient \<Rightarrow> ps_event list \<Rightarrow> PairSetupClient" where
  "ps_run P c evs = foldl (ps_step P) c evs"

text \<open>\<open>r\<close> is an M2 from which the client derives the session key and its own proof; \<open>r\<close> is an M4
  that carries the proof the client expects for them.\<close>

definition ps_m2_accepted :: "prims \<Rightarrow> PairSetupClient \<Rightarrow> bytes \<Rightarrow> bytes \<Rightarrow> bytes \<Rightarrow> bool" where
  "ps_m2_accepted P c r K m1 \<longleftrightarrow>
     (\<exists>m salt b S. ps_response_map r = Inr m \<and> Tlv8Map_get m SALT = Some salt \<and>
        Tlv8Map_get m PUBLIC_KEY = Some b \<and>
        premaster (sha512 P) (ps_srp c) salt (ps_password c) (be_val b) = Inr S \<and>
        K = SrpClient_session_key (sha512 P) (ps_srp c) S \<and>
        m1 = SrpClient_proof_m1 (sha512 P) (ps_srp c) salt (be_val b) K)"

definition ps_m4_accepted :: "prims \<Rightarrow> PairSetupClient \<Rightarrow> bytes \<Rightarrow> bytes \<Rightarrow> bytes \<Rightarrow> bool" where
  "ps_m4_accepted P c r K m1 \<longleftrightarrow>
     (\<exists>m. ps_response_map r = Inr m \<and>
        Tlv8Map_get m PROOF = Some (expected_m2 (sha512 P) (ps_srp c) m1 K))"

text \<open>\<open>r\<close> is an M6 whose sealed part names the accessory \<open>p\<close>, signed with the key it carries over
  material derived from the session key.\<close>

definition ps_m6_accepted :: "prims \<Rightarrow> bytes \<Rightarrow> bytes \<Rightarrow> AccessoryPairing \<Rightarrow> bool" where
  "ps_m6_accepted P r K p \<longleftrightarrow>
     (\<exists>m encrypted enc_key plaintext sub sig accessory_x.
        ps_response_map r = Inr m \<and> Tlv8Map_get m ENCRYPTED_DATA = Some encrypted \<and>
        hkdf_sha512 P K ENCRYPT_SALT ENCRYPT_INFO 32 = Inr enc_key \<and>
        aead_decrypt P enc_key (hap_nonce NONCE_M6) [] encrypted = Inr plaintext \<and>
        Tlv8Map_parse plaintext = Inr sub \<and>
        Tlv8Map_get sub IDENTIFIER = Some (pairing_id p) \<and>
        Tlv8Map_get sub PUBLIC_KEY = Some (acc_ltpk p) \<and>
        Tlv8Map_get sub SIGNATURE = Some sig \<and> length (acc_ltpk p) = 32 \<and> length sig = 64 \<and>
        utf8_valid (pairing_id p) \<and>
        hkdf_sha512 P K ACCESSORY_SIGN_SALT ACCESSORY_SIGN_INFO 32 = Inr accessory_x \<and>
        verify_ed25519 P (acc_ltpk p) (accessory_x @ pairing_id p @ acc_ltpk p) sig = Inr ())"

definition ps_inv :: "prims \<Rightarrow> PairSetupClient \<Rightarrow> ps_event list \<Rightarrow> PairSetupClient \<Rightarrow> bool" where
  "ps_inv P c0 evs c \<longleftrightarrow>
     ps_srp c = ps_srp c0 \<and> ps_password c = ps_password c0 \<and>
     (case ps_state c of
        PS_AwaitingM4 K m1 \<Rightarrow> \<exists>r. PS_Response r \<in> set evs \<and> ps_m2_accepted P c0 r K m1
      | PS_AwaitingM6 K \<Rightarrow>
          \<exists>r2 r4 m1. PS_Response r2 \<in> set evs \<and> PS_Response r4 \<in> set evs \<and>
            ps_m2_accepted P c0 r2 K m1 \<and> ps_m4_accepted P c0 r4 K m1
      | _ \<Rightarrow> True)"

lemma ps_accepted_cong:
  assumes "ps_srp c = ps_srp c0" and "ps_password c = ps_password c0"
  shows "ps_m2_accepted P c = ps_m2_accepted P c0" and "ps_m4_accepted P c = ps_m4_accepted P c0"
  using assms by (auto simp: ps_m2_accepted_def ps_m4_accepted_def fun_eq_iff)

lemma ps_m2_values_accepted:
  "ps_response_map r = Inr m \<Longrightarrow> ps_m2_values P c m = Inr (out, K, m1) \<Longrightarrow> ps_m2_accepted P c r K m1"
  by (auto simp: ps_m2_values_def ps_m2_accepted_def Let_def result_simps)

lemma ps_m4_values_accepted:
  "ps_response_map r = Inr m \<Longrightarrow> ps_m4_values P c m = Inr (out, K) \<Longrightarrow>
     \<exists>m1. ps_state c = PS_AwaitingM4 K m1 \<and> ps_m4_accepted P c r K m1"
  by (auto simp: ps_m4_values_def ps_m4_accepted_def verify_m2_def Let_def result_simps
      split: PairSetupState.splits if_splits)

lemma ps_m6_pairing_accepted:
  "ps_response_map r = Inr m \<Longrightarrow> ps_m6_pairing P K m = Inr p \<Longrightarrow> ps_m6_accepted P r K p"
  by (auto simp: ps_m6_pairing_def ps_m6_accepted_def Let_def result_simps)

lemma ps_inv_weaken: "ps_inv P c0 evs c \<Longrightarrow> set evs \<subseteq> set evs' \<Longrightarrow> ps_inv P c0 evs' c"
  by (auto simp: ps_inv_def split: PairSetupState.splits)

lemma ps_inv_handle:
  assumes "ps_inv P c0 evs c"
  shows "ps_inv P c0 (evs @ [PS_Response r]) (snd (ps_handle P c r))"
proof -
  have keep: "ps_inv P c0 (evs @ [PS_Response r]) c"
    using assms by (rule ps_inv_weaken) auto
  have id: "ps_srp c = ps_srp c0" "ps_password c = ps_password c0"
    using assms by (simp_all add: ps_inv_def)
  note cong = ps_accepted_cong [OF id]
  show ?thesis
  proof (cases "ps_response_map r")
    case (Inl e)
    then show ?thesis using keep by (simp add: ps_handle_def)
  next
    case m: (Inr m)
    show ?thesis
    proof (cases "ps_state c")
      case PS_AwaitingM2
      then show ?thesis
        using keep id m ps_m2_values_accepted [OF m, of P c]
        by (cases "ps_m2_values P c m") (auto simp: ps_handle_defs ps_inv_def cong)
    next
      case (PS_AwaitingM4 K m1)
      then show ?thesis
        using keep id m ps_m4_values_accepted [OF m, of P c]
        by (cases "ps_m4_values P c m") (auto simp: ps_handle_defs ps_inv_def cong, blast+)
    next
      case (PS_AwaitingM6 K)
      then show ?thesis
        using keep id m
        by (cases "ps_expect_state m STATE_M6") (auto simp: ps_handle_defs ps_inv_def)
    qed (use keep m in \<open>simp_all add: ps_handle_def\<close>)
  qed
qed

lemma ps_inv_run:
  assumes "ps_state c0 = PS_Initial"
  shows "ps_inv P c0 evs (ps_run P c0 evs)"
proof (induction evs rule: rev_induct)
  case Nil
  then show ?case using assms by (simp add: ps_inv_def ps_run_def)
next
  case (snoc ev evs)
  then show ?case
    by (cases ev)
      (simp_all add: ps_run_def ps_step_def ps_inv_handle, simp add: ps_inv_def ps_start_def)
qed

text \<open>C3. However a driver interleaves \<open>start\<close> and \<open>handle\<close> calls and whatever the network returns,
  a client reports \<open>Done\<close> only after it was given an M2 from which it derived a session key, an M4
  with the accessory's proof of that key, and an M6 sealed under it whose signature over key-derived
  material, identifier and public key verifies under that public key; the pairing returned is
  exactly that identifier and key, and every later response is refused.\<close>

theorem pair_setup_done_authenticated:
  assumes "ps_state c0 = PS_Initial"
    and "ps_handle P (ps_run P c0 evs) r = (Inr (Done p), c')"
  shows "\<exists>r2 r4 K m1. PS_Response r2 \<in> set evs \<and> PS_Response r4 \<in> set evs \<and>
           ps_m2_accepted P c0 r2 K m1 \<and> ps_m4_accepted P c0 r4 K m1 \<and> ps_m6_accepted P r K p \<and>
           (\<forall>r'. snd (ps_handle P c' r') = c' \<and> isl (fst (ps_handle P c' r')))"
proof -
  let ?c = "ps_run P c0 evs"
  obtain K m where K: "ps_state ?c = PS_AwaitingM6 K" "c' = ?c\<lparr>ps_state := PS_Done\<rparr>"
    "ps_response_map r = Inr m" "ps_m6_pairing P K m = Inr p"
    using ps_handle_Done [OF assms(2)] by blast
  have "\<forall>r'. snd (ps_handle P c' r') = c' \<and> isl (fst (ps_handle P c' r'))"
    by (simp add: K(2) ps_handle_def split: sum.split)
  then show ?thesis
    using ps_inv_run [OF assms(1), of P evs] K(1) ps_m6_pairing_accepted [OF K(3,4)]
    unfolding ps_inv_def by auto
qed

text \<open>A failing \<open>handle\<close> never changes the client while it awaits M2 or M4, so a later response is
  still processed from the same state; only a failure inside M6, after the state byte was accepted,
  ends the exchange.\<close>

theorem pair_setup_error_state:
  assumes "ps_handle P c r = (Inl e, c')"
  shows "c' = c \<or> (\<exists>K. ps_state c = PS_AwaitingM6 K \<and> c' = c\<lparr>ps_state := PS_Done\<rparr>)"
  using assms by (auto simp: ps_handle_defs split: sum.splits PairSetupState.splits)

theorem pair_setup_error_state_witness:
  "\<exists>c c'. ps_state c = PS_AwaitingM2 \<and>
     ps_handle toy_prims c [] = (Inl (Encoding ''M2 missing salt''), c') \<and> c' = c"
proof -
  let ?c = "\<lparr>ps_password = [], ps_controller = from_seed [] [],
    ps_srp = \<lparr>cl_group = \<lparr>grp_n = 23, grp_g = 5, grp_n_len = 1\<rparr>, cl_username = [], cl_a = 1, cl_a_pub = 5\<rparr>,
    ps_state = PS_AwaitingM2\<rparr>"
  have parse: "ps_response_map [] = Inr (from_items [])"
    by (simp add: ps_response_map_def Tlv8Map_parse_def Tlv8Reader_parse_def ps_check_error_def)
  have "ps_handle toy_prims ?c [] = (Inl (Encoding ''M2 missing salt''), snd (ps_handle toy_prims ?c []))"
    by (simp add: ps_handle_defs parse ps_m2_values_def ps_expect_state_def get_u8_def get_uint_def)
  then have "snd (ps_handle toy_prims ?c []) = ?c"
    using pair_setup_error_state [of toy_prims ?c "[]"] by fastforce
  then show ?thesis using \<open>ps_handle toy_prims ?c [] = _\<close> by (intro exI [of _ ?c]) auto
qed

end
