(* ===== verification/Broadcast.thy ===== *)
theory Broadcast
  imports Crypto_Prims
begin

text \<open>
  Broadcast notifications, \<open>hap-crypto/src/broadcast.rs\<close>: a ChaCha20-Poly1305 construction with a
  four-byte tag.  The stream cipher of the \<open>chacha20\<close> crate is a key, a nonce and a position in
  the keystream, the keystream itself being a primitive; so is the Poly1305 tag.
\<close>

definition BROADCAST_INFO :: bytes where
  "BROADCAST_INFO = ascii ''Broadcast-Encryption-Key''"

record ChaCha20 =
  cc_key :: bytes
  cc_nonce :: bytes
  cc_pos :: nat

definition ChaCha20_new :: "bytes \<Rightarrow> bytes \<Rightarrow> ChaCha20" where
  "ChaCha20_new key nonce = \<lparr>cc_key = key, cc_nonce = nonce, cc_pos = 0\<rparr>"

definition apply_keystream :: "prims \<Rightarrow> ChaCha20 \<Rightarrow> bytes \<Rightarrow> bytes \<times> ChaCha20" where
  "apply_keystream P c data =
     (map2 xor data (map (chacha20_keystream P (cc_key c) (cc_nonce c)) [cc_pos c..<cc_pos c + length data]),
      c\<lparr>cc_pos := cc_pos c + length data\<rparr>)"

type_synonym BroadcastKey = bytes

definition BroadcastKey_derive :: "prims \<Rightarrow> bytes \<Rightarrow> bytes \<Rightarrow> CryptoError + BroadcastKey" where
  "BroadcastKey_derive P ikm salt =
     and_then (hkdf_sha512 P ikm salt BROADCAST_INFO 32) (\<lambda>out. Inr out)"

definition poly1305_key :: "prims \<Rightarrow> ChaCha20 \<Rightarrow> bytes \<times> ChaCha20" where
  "poly1305_key P cipher =
     (let (block, cipher) = apply_keystream P cipher (replicate 64 0) in (take 32 block, cipher))"

function pad16 :: "bytes \<Rightarrow> bytes" where
  "pad16 d = (if length d mod 16 \<noteq> 0 then pad16 (d @ [0]) else d)"
  by pat_completeness auto
termination
proof (relation "measure (\<lambda>d. (16 - length d mod 16) mod 16)")
  fix d :: bytes
  assume "length d mod 16 \<noteq> 0"
  moreover have "length d mod 16 < 16" by simp
  ultimately have "(16 - Suc (length d) mod 16) mod 16 < (16 - length d mod 16) mod 16"
    unfolding mod_Suc by (cases "length d mod 16 = 15") auto
  then show "(d @ [0], d) \<in> measure (\<lambda>d. (16 - length d mod 16) mod 16)" by simp
qed simp

declare pad16.simps [simp del]

definition mac_data :: "bytes \<Rightarrow> bytes \<Rightarrow> bytes" where
  "mac_data aad ciphertext =
     (let d = pad16 aad;
          d = pad16 (d @ ciphertext) in
      d @ u64_to_le (of_nat (length aad)) @ u64_to_le (of_nat (length ciphertext)))"

definition broadcast_nonce :: "u16 \<Rightarrow> bytes" where
  "broadcast_nonce gsn = take 4 (replicate 12 0) @ u64_to_le (ucast gsn)"

definition BroadcastKey_seal :: "prims \<Rightarrow> BroadcastKey \<Rightarrow> u16 \<Rightarrow> bytes \<Rightarrow> bytes \<Rightarrow> bytes" where
  "BroadcastKey_seal P key gsn plaintext advertising_id =
     (let cipher = ChaCha20_new key (broadcast_nonce gsn);
          (poly_key, cipher) = poly1305_key P cipher;
          (ciphertext, cipher) = apply_keystream P cipher plaintext;
          full_tag = poly1305_tag P poly_key (mac_data advertising_id ciphertext) in
      ciphertext @ take 4 full_tag)"

definition BroadcastKey_open ::
    "prims \<Rightarrow> BroadcastKey \<Rightarrow> u16 \<Rightarrow> bytes \<Rightarrow> bytes \<Rightarrow> CryptoError + bytes" where
  "BroadcastKey_open P key gsn combined_text advertising_id =
     (if length combined_text < 4 then Inl Aead
      else
        let ciphertext = take (length combined_text - 4) combined_text;
            tag4 = drop (length combined_text - 4) combined_text;
            cipher = ChaCha20_new key (broadcast_nonce gsn);
            (poly_key, cipher) = poly1305_key P cipher;
            full_tag = poly1305_tag P poly_key (mac_data advertising_id ciphertext) in
        if take 4 full_tag \<noteq> tag4 then Inl Aead
        else let (plaintext, cipher) = apply_keystream P cipher ciphertext in Inr plaintext)"

lemma length_broadcast_nonce [simp]: "length (broadcast_nonce gsn) = 12"
  by (simp add: broadcast_nonce_def)

lemma map2_xor_involution:
  "length ks = length xs \<Longrightarrow> map2 xor (map2 xor xs ks) ks = (xs :: bytes)"
  by (induction ks xs rule: list_induct2) (simp_all add: xor.assoc)

lemma length_apply_keystream [simp]: "length (fst (apply_keystream P c xs)) = length xs"
  by (simp add: apply_keystream_def)

lemma apply_keystream_involution [simp]:
  "fst (apply_keystream P c (fst (apply_keystream P c xs))) = xs"
  by (simp add: apply_keystream_def map2_xor_involution)

lemma length_pad16: "length (pad16 d) mod 16 = 0"
  by (induction d rule: pad16.induct) (metis pad16.simps)

lemma length_mac_data: "length (mac_data aad ct) mod 16 = 0"
  using length_pad16 [of "pad16 aad @ ct"] by (simp add: mac_data_def mod_add_eq [symmetric])

lemma open_iff_seal:
  assumes "mac_laws P"
  shows "(BroadcastKey_open P key gsn ct aid = Inr m \<longleftrightarrow> ct = BroadcastKey_seal P key gsn m aid) \<and>
         (\<forall>e. BroadcastKey_open P key gsn ct aid = Inl e \<longrightarrow> e = Aead) \<and>
         length (mac_data aid ct) mod 16 = 0"
proof -
  let ?c0 = "ChaCha20_new key (broadcast_nonce gsn)"
  obtain pk c1 where k: "poly1305_key P ?c0 = (pk, c1)" by fastforce
  let ?ks = "\<lambda>xs. fst (apply_keystream P c1 xs)"
  let ?tag = "\<lambda>xs. take 4 (poly1305_tag P pk (mac_data aid xs))"
  have tag: "length (poly1305_tag P pk xs) = 16" for xs using assms by (simp add: mac_laws_def)
  have seal: "BroadcastKey_seal P key gsn m aid = ?ks m @ ?tag (?ks m)"
    by (simp add: BroadcastKey_seal_def k Let_def split: prod.splits)
  have opn: "BroadcastKey_open P key gsn ct aid =
      (if length ct < 4 then Inl Aead
       else if ?tag (take (length ct - 4) ct) \<noteq> drop (length ct - 4) ct then Inl Aead
       else Inr (?ks (take (length ct - 4) ct)))"
    by (simp add: BroadcastKey_open_def k Let_def split: prod.splits)
  have "BroadcastKey_open P key gsn ct aid = Inr m \<longleftrightarrow> ct = ?ks m @ ?tag (?ks m)"
  proof
    assume "BroadcastKey_open P key gsn ct aid = Inr m"
    then have "?tag (take (length ct - 4) ct) = drop (length ct - 4) ct"
      and "m = ?ks (take (length ct - 4) ct)"
      unfolding opn by (auto split: if_splits)
    then show "ct = ?ks m @ ?tag (?ks m)"
      using append_take_drop_id [of "length ct - 4" ct] by simp
  next
    assume ct: "ct = ?ks m @ ?tag (?ks m)"
    show "BroadcastKey_open P key gsn ct aid = Inr m"
      unfolding opn unfolding ct by (simp add: tag)
  qed
  moreover have "\<forall>e. BroadcastKey_open P key gsn ct aid = Inl e \<longrightarrow> e = Aead"
    unfolding opn by auto
  ultimately show ?thesis using seal length_mac_data by simp
qed

text \<open>C37. The accessory's broadcast sealing and the controller's opening are inverse: opening under a
  key, state number and advertising id succeeds with a plaintext exactly on the payload that
  sealing that plaintext under them produces, and fails with \<open>Aead\<close> on everything else.  The MAC
  input is a whole number of blocks.\<close>

theorem broadcast_open_iff_seal:
  assumes "mac_laws P"
  shows "(BroadcastKey_open P key gsn ct aid = Inr m \<longleftrightarrow> ct = BroadcastKey_seal P key gsn m aid) \<and>
         (\<forall>e. BroadcastKey_open P key gsn ct aid = Inl e \<longrightarrow> e = Aead) \<and>
         length (mac_data aid ct) mod 16 = 0"
  by (rule open_iff_seal [OF assms])

theorem broadcast_open_iff_seal_witness:
  "BroadcastKey_open toy_prims [1] 7 (BroadcastKey_seal toy_prims [1] 7 [5, 6] [9]) [9] = Inr [5, 6]"
  using broadcast_open_iff_seal [OF toy_mac_laws, of "[1]" 7 _ "[9]" "[5, 6]"] by blast

end
