(* ===== verification/Pair_Verify.thy ===== *)
theory Pair_Verify
  imports Pair_Setup Broadcast
begin

text \<open>
  The controller side of Pair Verify, \<open>hap-crypto/src/pair_verify.rs\<close>: the state machine
  \<open>PairVerifyClient\<close> from M1 to the directional session keys, and the keys derived from the shared
  secret afterwards.
\<close>

section \<open>Constants and types\<close>

definition PV_ENCRYPT_SALT :: bytes where "PV_ENCRYPT_SALT = ascii ''Pair-Verify-Encrypt-Salt''"
definition PV_ENCRYPT_INFO :: bytes where "PV_ENCRYPT_INFO = ascii ''Pair-Verify-Encrypt-Info''"
definition CONTROL_SALT :: bytes where "CONTROL_SALT = ascii ''Control-Salt''"
definition CONTROL_READ_INFO :: bytes where
  "CONTROL_READ_INFO = ascii ''Control-Read-Encryption-Key''"
definition CONTROL_WRITE_INFO :: bytes where
  "CONTROL_WRITE_INFO = ascii ''Control-Write-Encryption-Key''"
definition EVENT_SALT :: bytes where "EVENT_SALT = ascii ''Event-Salt''"
definition EVENT_READ_INFO :: bytes where "EVENT_READ_INFO = ascii ''Event-Read-Encryption-Key''"
definition NONCE_M2 :: bytes where "NONCE_M2 = ascii ''PV-Msg02''"
definition NONCE_M3 :: bytes where "NONCE_M3 = ascii ''PV-Msg03''"

record SessionKeys =
  read_key :: bytes
  write_key :: bytes

type_synonym PairVerifyStep = "SessionKeys pairing_step"

datatype PairVerifyState = PV_Init | PV_AwaitM2 | PV_AwaitM4 | PV_Done

record PairVerifyClient =
  pv_controller_id :: str
  pv_signing :: bytes
  pv_accessory :: AccessoryPairing
  pv_ephemeral :: EphemeralKeypair
  pv_shared_secret :: "bytes option"
  pv_state :: PairVerifyState

section \<open>Helpers\<close>

definition derive_key :: "prims \<Rightarrow> bytes \<Rightarrow> bytes \<Rightarrow> bytes \<Rightarrow> CryptoError + bytes" where
  "derive_key P shared salt info = and_then (hkdf_sha512 P shared salt info 32) (\<lambda>out. Inr out)"

definition pv_check_error :: "Tlv8Map \<Rightarrow> CryptoError + unit" where
  "pv_check_error m =
     (case Tlv8Map_get m ERROR of
        None \<Rightarrow> Inr ()
      | Some [] \<Rightarrow> Inr ()
      | Some (_ # _) \<Rightarrow> Inl (Encoding ''accessory returned a Pair Verify error''))"

definition pv_expect_state :: "Tlv8Map \<Rightarrow> u8 \<Rightarrow> CryptoError + unit" where
  "pv_expect_state m expected =
     and_then (map_err Tlv (get_u8 m STATE)) (\<lambda>s.
     case s of
       None \<Rightarrow> Inr ()
     | Some s \<Rightarrow> if s = expected then Inr () else Inl (Encoding ''unexpected Pair Verify state''))"

section \<open>The client\<close>

definition pv_build ::
    "ControllerKeypair \<Rightarrow> AccessoryPairing \<Rightarrow> EphemeralKeypair \<Rightarrow> PairVerifyClient" where
  "pv_build controller accessory ephemeral =
     \<lparr>pv_controller_id = kp_id controller, pv_signing = kp_signing controller,
      pv_accessory = accessory, pv_ephemeral = ephemeral, pv_shared_secret = None,
      pv_state = PV_Init\<rparr>"

definition PairVerifyClient_new_with_ephemeral ::
    "prims \<Rightarrow> ControllerKeypair \<Rightarrow> AccessoryPairing \<Rightarrow> bytes \<Rightarrow> PairVerifyClient" where
  "PairVerifyClient_new_with_ephemeral P controller accessory ephemeral_secret =
     pv_build controller accessory (from_secret P ephemeral_secret)"

definition pv_start :: "PairVerifyClient \<Rightarrow> bytes \<times> PairVerifyClient" where
  "pv_start c =
     (Tlv8Writer_push (push_u8 [] STATE STATE_M1) PUBLIC_KEY (eph_public (pv_ephemeral c)),
      c\<lparr>pv_state := PV_AwaitM2\<rparr>)"

definition build_m3 ::
    "prims \<Rightarrow> PairVerifyClient \<Rightarrow> bytes \<Rightarrow> bytes \<Rightarrow> bytes \<Rightarrow> CryptoError + bytes" where
  "build_m3 P c pv_key controller_eph_pub accessory_eph_pub =
     (let ident = pv_controller_id c;
          signed = controller_eph_pub @ ident @ accessory_eph_pub;
          signature = ed25519_sign P (pv_signing c) signed;
          sub = Tlv8Writer_push (Tlv8Writer_push [] IDENTIFIER ident) SIGNATURE signature;
          nonce = hap_nonce NONCE_M3 in
      and_then (aead_encrypt P pv_key nonce [] sub) (\<lambda>sealed.
      Inr (Tlv8Writer_push (push_u8 [] STATE STATE_M3) ENCRYPTED_DATA sealed)))"

definition pv_m2_values ::
    "prims \<Rightarrow> PairVerifyClient \<Rightarrow> bytes \<Rightarrow> CryptoError + bytes \<times> bytes" where
  "pv_m2_values P c response =
     and_then (map_err Tlv (Tlv8Map_parse response)) (\<lambda>m.
     and_then (pv_check_error m) (\<lambda>_.
     and_then (pv_expect_state m STATE_M2) (\<lambda>_.
     and_then (ok_or (Encoding ''M2 missing accessory ephemeral key'') (Tlv8Map_get m PUBLIC_KEY)) (\<lambda>pk_bytes.
     and_then (ok_or (Encoding ''M2 accessory ephemeral key not 32 bytes'') (try_array 32 pk_bytes)) (\<lambda>accessory_eph_pub.
     and_then (ok_or (Encoding ''M2 missing encrypted data'') (Tlv8Map_get m ENCRYPTED_DATA)) (\<lambda>encrypted.
     let controller_eph_pub = eph_public (pv_ephemeral c);
         shared = diffie_hellman P (pv_ephemeral c) accessory_eph_pub in
     and_then (derive_key P shared PV_ENCRYPT_SALT PV_ENCRYPT_INFO) (\<lambda>pv_key.
     let nonce = hap_nonce NONCE_M2 in
     and_then (aead_decrypt P pv_key nonce [] encrypted) (\<lambda>plaintext.
     and_then (map_err Tlv (Tlv8Map_parse plaintext)) (\<lambda>sub.
     and_then (ok_or (Encoding ''M2 sub-TLV missing identifier'') (Tlv8Map_get sub IDENTIFIER)) (\<lambda>identifier.
     and_then (ok_or (Encoding ''M2 sub-TLV missing signature'') (Tlv8Map_get sub SIGNATURE)) (\<lambda>sig_bytes.
     and_then (ok_or (Encoding ''M2 signature not 64 bytes'') (try_array 64 sig_bytes)) (\<lambda>signature.
     if identifier \<noteq> pairing_id (pv_accessory c)
     then Inl (Encoding ''M2 accessory identifier does not match stored pairing'')
     else
       let signed = accessory_eph_pub @ identifier @ controller_eph_pub in
       and_then (verify_ed25519 P (acc_ltpk (pv_accessory c)) signed signature) (\<lambda>_.
       and_then (build_m3 P c pv_key controller_eph_pub accessory_eph_pub) (\<lambda>m3.
       Inr (m3, shared)))))))))))))))"

definition pv_handle_m2 ::
    "prims \<Rightarrow> PairVerifyClient \<Rightarrow> bytes \<Rightarrow> (CryptoError + PairVerifyStep) \<times> PairVerifyClient" where
  "pv_handle_m2 P c response =
     (case pv_m2_values P c response of
        Inl e \<Rightarrow> (Inl e, c)
      | Inr (m3, shared) \<Rightarrow>
          (Inr (Send m3), c\<lparr>pv_shared_secret := Some shared, pv_state := PV_AwaitM4\<rparr>))"

definition pv_m4_keys :: "prims \<Rightarrow> PairVerifyClient \<Rightarrow> bytes \<Rightarrow> CryptoError + SessionKeys" where
  "pv_m4_keys P c response =
     and_then (map_err Tlv (Tlv8Map_parse response)) (\<lambda>m.
     and_then (pv_check_error m) (\<lambda>_.
     and_then (pv_expect_state m STATE_M4) (\<lambda>_.
     and_then (ok_or (Encoding ''Pair Verify shared secret missing'') (pv_shared_secret c)) (\<lambda>shared.
     and_then (derive_key P shared CONTROL_SALT CONTROL_READ_INFO) (\<lambda>rk.
     and_then (derive_key P shared CONTROL_SALT CONTROL_WRITE_INFO) (\<lambda>wk.
     Inr \<lparr>read_key = rk, write_key = wk\<rparr>))))))"

definition pv_handle_m4 ::
    "prims \<Rightarrow> PairVerifyClient \<Rightarrow> bytes \<Rightarrow> (CryptoError + PairVerifyStep) \<times> PairVerifyClient" where
  "pv_handle_m4 P c response =
     (case pv_m4_keys P c response of
        Inl e \<Rightarrow> (Inl e, c)
      | Inr keys \<Rightarrow> (Inr (Done keys), c\<lparr>pv_state := PV_Done\<rparr>))"

definition pv_handle ::
    "prims \<Rightarrow> PairVerifyClient \<Rightarrow> bytes \<Rightarrow> (CryptoError + PairVerifyStep) \<times> PairVerifyClient" where
  "pv_handle P c response =
     (case pv_state c of
        PV_Init \<Rightarrow> (Inl (Encoding ''Pair Verify handle called before start''), c)
      | PV_AwaitM2 \<Rightarrow> pv_handle_m2 P c response
      | PV_AwaitM4 \<Rightarrow> pv_handle_m4 P c response
      | PV_Done \<Rightarrow> (Inl (Encoding ''Pair Verify handle called after completion''), c))"

definition broadcast_key :: "prims \<Rightarrow> PairVerifyClient \<Rightarrow> bytes \<Rightarrow> CryptoError + BroadcastKey" where
  "broadcast_key P c controller_ltpk =
     and_then (ok_or (Encoding ''Pair Verify shared secret missing'') (pv_shared_secret c)) (\<lambda>shared.
     BroadcastKey_derive P shared controller_ltpk)"

definition event_key :: "prims \<Rightarrow> PairVerifyClient \<Rightarrow> CryptoError + bytes" where
  "event_key P c =
     and_then (ok_or (Encoding ''Pair Verify shared secret missing'') (pv_shared_secret c)) (\<lambda>shared.
     derive_key P shared EVENT_SALT EVENT_READ_INFO)"


section \<open>Progress\<close>

definition pv_rank :: "PairVerifyClient \<Rightarrow> nat" where
  "pv_rank c = (case pv_state c of PV_Init \<Rightarrow> 0 | PV_AwaitM2 \<Rightarrow> 1 | PV_AwaitM4 \<Rightarrow> 0 | PV_Done \<Rightarrow> 0)"

lemmas pv_handle_defs = pv_handle_def pv_handle_m2_def pv_handle_m4_def

lemma pv_handle_Send:
  "pv_handle P c r = (Inr (Send m), c') \<Longrightarrow> pv_state c = PV_AwaitM2 \<and> pv_state c' = PV_AwaitM4"
  by (auto simp: pv_handle_defs split: sum.splits PairVerifyState.splits)

lemma pv_handle_Done:
  "pv_handle P c r = (Inr (Done k), c') \<Longrightarrow>
     pv_state c = PV_AwaitM4 \<and> c' = c\<lparr>pv_state := PV_Done\<rparr> \<and> pv_m4_keys P c r = Inr k"
  by (auto simp: pv_handle_defs split: sum.splits PairVerifyState.splits)

section \<open>Authentication\<close>

datatype pv_event = PV_Start | PV_Response bytes

definition pv_step :: "prims \<Rightarrow> PairVerifyClient \<Rightarrow> pv_event \<Rightarrow> PairVerifyClient" where
  "pv_step P c ev =
     (case ev of PV_Start \<Rightarrow> snd (pv_start c) | PV_Response r \<Rightarrow> snd (pv_handle P c r))"

definition pv_run :: "prims \<Rightarrow> PairVerifyClient \<Rightarrow> pv_event list \<Rightarrow> PairVerifyClient" where
  "pv_run P c evs = foldl (pv_step P) c evs"

text \<open>\<open>r\<close> is an M2 that carries an ephemeral key and, sealed under a key derived from the shared
  secret \<open>S\<close>, the stored accessory's identifier with a signature by its stored long-term key over
  both ephemeral keys.\<close>

definition pv_m2_accepted :: "prims \<Rightarrow> PairVerifyClient \<Rightarrow> bytes \<Rightarrow> bytes \<Rightarrow> bool" where
  "pv_m2_accepted P c r S \<longleftrightarrow>
     (\<exists>m acc_eph encrypted pv_key plaintext sub sig.
        Tlv8Map_parse r = Inr m \<and> Tlv8Map_get m PUBLIC_KEY = Some acc_eph \<and> length acc_eph = 32 \<and>
        S = x25519_dh P (eph_secret (pv_ephemeral c)) acc_eph \<and>
        Tlv8Map_get m ENCRYPTED_DATA = Some encrypted \<and>
        derive_key P S PV_ENCRYPT_SALT PV_ENCRYPT_INFO = Inr pv_key \<and>
        aead_decrypt P pv_key (hap_nonce NONCE_M2) [] encrypted = Inr plaintext \<and>
        Tlv8Map_parse plaintext = Inr sub \<and>
        Tlv8Map_get sub IDENTIFIER = Some (pairing_id (pv_accessory c)) \<and>
        Tlv8Map_get sub SIGNATURE = Some sig \<and>
        verify_ed25519 P (acc_ltpk (pv_accessory c))
          (acc_eph @ pairing_id (pv_accessory c) @ eph_public (pv_ephemeral c)) sig = Inr ())"

definition pv_inv :: "prims \<Rightarrow> PairVerifyClient \<Rightarrow> pv_event list \<Rightarrow> PairVerifyClient \<Rightarrow> bool" where
  "pv_inv P c0 evs c \<longleftrightarrow>
     pv_accessory c = pv_accessory c0 \<and> pv_ephemeral c = pv_ephemeral c0 \<and>
     (\<forall>S. pv_shared_secret c = Some S \<longrightarrow>
        (\<exists>r. PV_Response r \<in> set evs \<and> pv_m2_accepted P c0 r S))"

lemma pv_m2_values_accepted:
  "pv_m2_values P c r = Inr (m3, S) \<Longrightarrow> pv_m2_accepted P c r S"
  by (auto simp: pv_m2_values_def pv_m2_accepted_def diffie_hellman_def Let_def result_simps
      split: if_splits)

lemma pv_accepted_cong:
  assumes "pv_accessory c = pv_accessory c0" and "pv_ephemeral c = pv_ephemeral c0"
  shows "pv_m2_accepted P c = pv_m2_accepted P c0"
  using assms by (simp add: pv_m2_accepted_def fun_eq_iff)

lemma pv_inv_handle:
  assumes "pv_inv P c0 evs c"
  shows "pv_inv P c0 (evs @ [PV_Response r]) (snd (pv_handle P c r))"
proof -
  have id: "pv_accessory c = pv_accessory c0" "pv_ephemeral c = pv_ephemeral c0"
    using assms by (simp_all add: pv_inv_def)
  show ?thesis
  proof (cases "pv_state c")
    case PV_AwaitM2
    then show ?thesis
      using assms pv_m2_values_accepted [of P c r]
      by (cases "pv_m2_values P c r")
        (auto simp: pv_handle_defs pv_inv_def pv_accepted_cong [OF id])
  next
    case PV_AwaitM4
    then show ?thesis
      using assms by (cases "pv_m4_keys P c r") (auto simp: pv_handle_defs pv_inv_def)
  qed (use assms in \<open>auto simp: pv_handle_def pv_inv_def\<close>)
qed

lemma pv_inv_run:
  assumes "pv_shared_secret c0 = None"
  shows "pv_inv P c0 evs (pv_run P c0 evs)"
proof (induction evs rule: rev_induct)
  case Nil
  then show ?case using assms by (simp add: pv_inv_def pv_run_def)
next
  case (snoc ev evs)
  then show ?case
    by (cases ev)
      (simp_all add: pv_run_def pv_step_def pv_inv_handle, auto simp: pv_inv_def pv_start_def)
qed

text \<open>C4. However a driver interleaves \<open>start\<close> and \<open>handle\<close> calls and whatever the network returns, a
  freshly built Pair Verify client yields session keys only after an M2 in which the accessory of
  the stored pairing proved, by a signature under its stored long-term key over both ephemeral keys,
  that it holds that key; the session keys are the two HKDF outputs of the Diffie-Hellman secret of
  that M2's ephemeral key, and every later response is refused.\<close>

theorem pair_verify_done_authenticated:
  assumes "c0 = PairVerifyClient_new_with_ephemeral P controller accessory e"
    and "pv_handle P (pv_run P c0 evs) r = (Inr (Done keys), c')"
  shows "\<exists>r2 S. PV_Response r2 \<in> set evs \<and> pv_m2_accepted P c0 r2 S \<and>
           derive_key P S CONTROL_SALT CONTROL_READ_INFO = Inr (read_key keys) \<and>
           derive_key P S CONTROL_SALT CONTROL_WRITE_INFO = Inr (write_key keys) \<and>
           pv_shared_secret c' = Some S \<and>
           (\<forall>r'. snd (pv_handle P c' r') = c' \<and> isl (fst (pv_handle P c' r')))"
proof -
  let ?c = "pv_run P c0 evs"
  have k: "c' = ?c\<lparr>pv_state := PV_Done\<rparr>" "pv_m4_keys P ?c r = Inr keys"
    using pv_handle_Done [OF assms(2)] by simp_all
  obtain S where S: "pv_shared_secret ?c = Some S"
    "derive_key P S CONTROL_SALT CONTROL_READ_INFO = Inr (read_key keys)"
    "derive_key P S CONTROL_SALT CONTROL_WRITE_INFO = Inr (write_key keys)"
    using k(2) by (auto simp: pv_m4_keys_def result_simps)
  have "pv_shared_secret c0 = None"
    by (simp add: assms(1) PairVerifyClient_new_with_ephemeral_def pv_build_def)
  then obtain r2 where "PV_Response r2 \<in> set evs" "pv_m2_accepted P c0 r2 S"
    using pv_inv_run [of c0 P evs] S(1) by (auto simp: pv_inv_def)
  moreover have "\<forall>r'. snd (pv_handle P c' r') = c' \<and> isl (fst (pv_handle P c' r'))"
    by (simp add: k(1) pv_handle_def)
  ultimately show ?thesis using S k(1) by auto
qed

end
