(* ===== verification/Dut_Pairing.thy ===== *)
theory Dut_Pairing
  imports Pair_Verify
begin

text \<open>
  The accessory side of both pairing protocols, the reference accessory of \<open>hap-thread-dut\<close>:
  \<open>error.rs\<close>, \<open>hap.rs\<close>, \<open>pairing.rs\<close> and \<open>session.rs\<close>.  The salt, the SRP exponent and the
  ephemeral X25519 secret that the code draws from the operating system are arguments.
\<close>

datatype DutError = Io | Crypto CryptoError | DutTlv8 Tlv8Error | Protocol string

section \<open>hap.rs\<close>

definition nonce_label :: "bytes \<Rightarrow> bytes" where
  "nonce_label label =
     (let nonce = replicate 12 0; n = min (length label) 8 in
      take 4 nonce @ take n label @ drop (4 + n) nonce)"

definition nonce_counter :: "u64 \<Rightarrow> bytes" where
  "nonce_counter counter = take 4 (replicate 12 0) @ u64_to_le counter"

definition hkdf32 :: "prims \<Rightarrow> bytes \<Rightarrow> bytes \<Rightarrow> bytes \<Rightarrow> DutError + bytes" where
  "hkdf32 P ikm salt info =
     ok_or (Protocol ''HKDF expand failed'') (hkdf_expand P ikm salt info 32)"

definition dut_PV_ENCRYPT_SALT :: bytes where
  "dut_PV_ENCRYPT_SALT = ascii ''Pair-Verify-Encrypt-Salt''"
definition dut_PV_ENCRYPT_INFO :: bytes where
  "dut_PV_ENCRYPT_INFO = ascii ''Pair-Verify-Encrypt-Info''"
definition dut_CONTROL_SALT :: bytes where
  "dut_CONTROL_SALT = ascii ''Control-Salt''"
definition dut_CONTROL_READ_INFO :: bytes where
  "dut_CONTROL_READ_INFO = ascii ''Control-Read-Encryption-Key''"
definition dut_CONTROL_WRITE_INFO :: bytes where
  "dut_CONTROL_WRITE_INFO = ascii ''Control-Write-Encryption-Key''"
definition dut_EVENT_SALT :: bytes where
  "dut_EVENT_SALT = ascii ''Event-Salt''"
definition dut_EVENT_READ_INFO :: bytes where
  "dut_EVENT_READ_INFO = ascii ''Event-Read-Encryption-Key''"
definition PS_ENCRYPT_SALT :: bytes where
  "PS_ENCRYPT_SALT = ascii ''Pair-Setup-Encrypt-Salt''"
definition PS_ENCRYPT_INFO :: bytes where
  "PS_ENCRYPT_INFO = ascii ''Pair-Setup-Encrypt-Info''"
definition PS_CONTROLLER_SIGN_SALT :: bytes where
  "PS_CONTROLLER_SIGN_SALT = ascii ''Pair-Setup-Controller-Sign-Salt''"
definition PS_CONTROLLER_SIGN_INFO :: bytes where
  "PS_CONTROLLER_SIGN_INFO = ascii ''Pair-Setup-Controller-Sign-Info''"
definition PS_ACCESSORY_SIGN_SALT :: bytes where
  "PS_ACCESSORY_SIGN_SALT = ascii ''Pair-Setup-Accessory-Sign-Salt''"
definition PS_ACCESSORY_SIGN_INFO :: bytes where
  "PS_ACCESSORY_SIGN_INFO = ascii ''Pair-Setup-Accessory-Sign-Info''"
definition NONCE_PV_M2 :: bytes where "NONCE_PV_M2 = ascii ''PV-Msg02''"
definition NONCE_PV_M3 :: bytes where "NONCE_PV_M3 = ascii ''PV-Msg03''"
definition NONCE_PS_M5 :: bytes where "NONCE_PS_M5 = ascii ''PS-Msg05''"
definition NONCE_PS_M6 :: bytes where "NONCE_PS_M6 = ascii ''PS-Msg06''"
definition ERROR_AUTHENTICATION :: u8 where [tlv_types]: "ERROR_AUTHENTICATION = 0x02"

section \<open>session.rs\<close>

record AccessorySession =
  as_read_key :: bytes
  as_write_key :: bytes
  as_event_key :: bytes
  as_recv_ctr :: u64
  as_send_ctr :: u64
  as_event_ctr :: u64

definition AccessorySession_new :: "bytes \<Rightarrow> bytes \<Rightarrow> bytes \<Rightarrow> AccessorySession" where
  "AccessorySession_new rk wk ek =
     \<lparr>as_read_key = rk, as_write_key = wk, as_event_key = ek,
      as_recv_ctr = 0, as_send_ctr = 0, as_event_ctr = 0\<rparr>"

definition open_request ::
    "prims \<Rightarrow> AccessorySession \<Rightarrow> bytes \<Rightarrow> (DutError + bytes) \<times> AccessorySession" where
  "open_request P s ct =
     (case chacha20poly1305_open P (as_write_key s) (nonce_counter (as_recv_ctr s)) [] ct of
        Inl e \<Rightarrow> (Inl (Crypto e), s)
      | Inr pt \<Rightarrow> (Inr pt, s\<lparr>as_recv_ctr := as_recv_ctr s + 1\<rparr>))"

definition seal_response ::
    "prims \<Rightarrow> AccessorySession \<Rightarrow> bytes \<Rightarrow> (DutError + bytes) \<times> AccessorySession" where
  "seal_response P s pt =
     (case chacha20poly1305_seal P (as_read_key s) (nonce_counter (as_send_ctr s)) [] pt of
        Inl e \<Rightarrow> (Inl (Crypto e), s)
      | Inr ct \<Rightarrow> (Inr ct, s\<lparr>as_send_ctr := as_send_ctr s + 1\<rparr>))"

definition seal_event ::
    "prims \<Rightarrow> AccessorySession \<Rightarrow> bytes \<Rightarrow> (DutError + bytes) \<times> AccessorySession" where
  "seal_event P s pt =
     (case chacha20poly1305_seal P (as_event_key s) (nonce_counter (as_event_ctr s)) [] pt of
        Inl e \<Rightarrow> (Inl (Crypto e), s)
      | Inr ct \<Rightarrow> (Inr ct, s\<lparr>as_event_ctr := as_event_ctr s + 1\<rparr>))"

section \<open>Pair Verify, accessory side\<close>

record VerifyInProgress =
  vp_accessory_eph_pub :: bytes
  vp_controller_eph_pub :: bytes
  vp_shared :: bytes
  vp_key :: bytes

definition dut_expect_state :: "Tlv8Map \<Rightarrow> u8 \<Rightarrow> DutError + unit" where
  "dut_expect_state m want =
     and_then (map_err DutTlv8 (get_u8 m STATE)) (\<lambda>s.
     if s = Some want then Inr () else Inl (Protocol ''unexpected pairing State''))"

definition handle_m1 ::
    "prims \<Rightarrow> ControllerKeypair \<Rightarrow> str \<Rightarrow> bytes \<Rightarrow> bytes \<Rightarrow> DutError + bytes \<times> VerifyInProgress" where
  "handle_m1 P accessory_keypair accessory_id rng_eph m1 =
     and_then (map_err DutTlv8 (Tlv8Map_parse m1)) (\<lambda>m.
     and_then (dut_expect_state m STATE_M1) (\<lambda>_.
     and_then (ok_or (Protocol ''M1 missing controller ephemeral key'') (Tlv8Map_get m PUBLIC_KEY)) (\<lambda>pk.
     and_then (ok_or (Protocol ''M1 ephemeral key not 32 bytes'') (try_array 32 pk)) (\<lambda>controller_eph_pub.
     let accessory_eph = from_secret P rng_eph;
         accessory_eph_pub = eph_public accessory_eph;
         shared = diffie_hellman P accessory_eph controller_eph_pub in
     and_then (hkdf32 P shared dut_PV_ENCRYPT_SALT dut_PV_ENCRYPT_INFO) (\<lambda>pv_key.
     let signed = accessory_eph_pub @ accessory_id @ controller_eph_pub;
         signature = kp_sign P accessory_keypair signed;
         sub = Tlv8Writer_push (Tlv8Writer_push [] IDENTIFIER accessory_id) SIGNATURE signature in
     and_then (map_err Crypto (chacha20poly1305_seal P pv_key (nonce_label NONCE_PV_M2) [] sub)) (\<lambda>sealed.
     let m2 = Tlv8Writer_push (Tlv8Writer_push (push_u8 [] STATE STATE_M2)
                PUBLIC_KEY accessory_eph_pub) ENCRYPTED_DATA sealed in
     Inr (m2, \<lparr>vp_accessory_eph_pub = accessory_eph_pub, vp_controller_eph_pub = controller_eph_pub,
               vp_shared = shared, vp_key = pv_key\<rparr>)))))))"

definition error_m4 :: bytes where
  "error_m4 = push_u8 (push_u8 [] STATE STATE_M4) ERROR ERROR_AUTHENTICATION"

definition handle_m3 ::
    "prims \<Rightarrow> VerifyInProgress \<Rightarrow> str \<Rightarrow> bytes \<Rightarrow> bytes \<Rightarrow> DutError + bytes \<times> AccessorySession option" where
  "handle_m3 P progress controller_id controller_ltpk m3 =
     and_then (map_err DutTlv8 (Tlv8Map_parse m3)) (\<lambda>m.
     and_then (dut_expect_state m STATE_M3) (\<lambda>_.
     and_then (ok_or (Protocol ''M3 missing encrypted data'') (Tlv8Map_get m ENCRYPTED_DATA)) (\<lambda>encrypted.
     case chacha20poly1305_open P (vp_key progress) (nonce_label NONCE_PV_M3) [] encrypted of
       Inl _ \<Rightarrow> Inr (error_m4, None)
     | Inr plaintext \<Rightarrow>
         and_then (map_err DutTlv8 (Tlv8Map_parse plaintext)) (\<lambda>sub.
         and_then (ok_or (Protocol ''M3 sub-TLV missing identifier'') (Tlv8Map_get sub IDENTIFIER)) (\<lambda>identifier.
         case Option.bind (Tlv8Map_get sub SIGNATURE) (try_array 64) of
           None \<Rightarrow> Inr (error_m4, None)
         | Some signature \<Rightarrow>
             let signed = vp_controller_eph_pub progress @ identifier @ vp_accessory_eph_pub progress in
             if identifier \<noteq> controller_id \<or> ok (verify_ed25519 P controller_ltpk signed signature) = None
             then Inr (error_m4, None)
             else
               and_then (hkdf32 P (vp_shared progress) dut_CONTROL_SALT dut_CONTROL_READ_INFO) (\<lambda>rk.
               and_then (hkdf32 P (vp_shared progress) dut_CONTROL_SALT dut_CONTROL_WRITE_INFO) (\<lambda>wk.
               and_then (hkdf32 P (vp_shared progress) dut_EVENT_SALT dut_EVENT_READ_INFO) (\<lambda>ek.
               Inr (push_u8 [] STATE STATE_M4, Some (AccessorySession_new rk wk ek))))))))))"

section \<open>Pair Setup, accessory side\<close>

type_synonym ControllerPairing = "str \<times> bytes"

datatype SetupInProgress = AwaitingM3 HapPairSetupSrpServer | AwaitingM5 bytes

definition handle_setup_m1 ::
    "prims \<Rightarrow> str \<Rightarrow> bytes \<Rightarrow> bytes \<Rightarrow> bytes \<Rightarrow> DutError + bytes \<times> SetupInProgress" where
  "handle_setup_m1 P setup_code rng_salt rng_b m1 =
     and_then (map_err DutTlv8 (Tlv8Map_parse m1)) (\<lambda>m.
     and_then (dut_expect_state m STATE_M1) (\<lambda>_.
     and_then (map_err DutTlv8 (get_u8 m METHOD)) (\<lambda>method.
     if method \<noteq> None \<and> method \<noteq> Some METHOD_PAIR_SETUP
     then Inl (Protocol ''unsupported pairing Method in M1'')
     else
       and_then (map_err Crypto (HapPairSetupSrpServer_new P setup_code rng_salt rng_b)) (\<lambda>(server, salt).
       let b_pub = srv_b_pub_bytes server;
           m2 = Tlv8Writer_push (Tlv8Writer_push (push_u8 [] STATE STATE_M2) SALT salt) PUBLIC_KEY b_pub in
       Inr (m2, AwaitingM3 server)))))"

definition handle_setup_m3 ::
    "prims \<Rightarrow> HapPairSetupSrpServer \<Rightarrow> bytes \<Rightarrow> DutError + bytes \<times> bytes option" where
  "handle_setup_m3 P server m3 =
     and_then (map_err DutTlv8 (Tlv8Map_parse m3)) (\<lambda>m.
     and_then (dut_expect_state m STATE_M3) (\<lambda>_.
     and_then (ok_or (Protocol ''M3 missing controller public key A'') (Tlv8Map_get m PUBLIC_KEY)) (\<lambda>a_pub.
     and_then (ok_or (Protocol ''M3 missing controller proof M1'') (Tlv8Map_get m PROOF)) (\<lambda>m1.
     case srv_session_key P server a_pub of
       Inl _ \<Rightarrow> Inr (error_m4, None)
     | Inr session_key \<Rightarrow>
         (case srv_verify_m1_prove_m2 P server a_pub m1 of
            Inr m2_proof \<Rightarrow>
              Inr (Tlv8Writer_push (push_u8 [] STATE STATE_M4) PROOF m2_proof, Some session_key)
          | Inl _ \<Rightarrow> Inr (error_m4, None))))))"

definition error_m6 :: bytes where
  "error_m6 = push_u8 (push_u8 [] STATE STATE_M6) ERROR ERROR_AUTHENTICATION"

definition handle_setup_m5 ::
    "prims \<Rightarrow> bytes \<Rightarrow> ControllerKeypair \<Rightarrow> str \<Rightarrow> bytes \<Rightarrow> DutError + bytes \<times> ControllerPairing option" where
  "handle_setup_m5 P session_key accessory_keypair accessory_id m5 =
     and_then (map_err DutTlv8 (Tlv8Map_parse m5)) (\<lambda>m.
     and_then (dut_expect_state m STATE_M5) (\<lambda>_.
     and_then (ok_or (Protocol ''M5 missing encrypted data'') (Tlv8Map_get m ENCRYPTED_DATA)) (\<lambda>encrypted.
     and_then (hkdf32 P session_key PS_ENCRYPT_SALT PS_ENCRYPT_INFO) (\<lambda>enc_key.
     case chacha20poly1305_open P enc_key (nonce_label NONCE_PS_M5) [] encrypted of
       Inl _ \<Rightarrow> Inr (error_m6, None)
     | Inr plaintext \<Rightarrow>
         and_then (map_err DutTlv8 (Tlv8Map_parse plaintext)) (\<lambda>sub.
         and_then (ok_or (Protocol ''M5 sub-TLV missing identifier'') (Tlv8Map_get sub IDENTIFIER)) (\<lambda>controller_id.
         case Option.bind (Tlv8Map_get sub PUBLIC_KEY) (try_array 32) of
           None \<Rightarrow> Inr (error_m6, None)
         | Some controller_ltpk \<Rightarrow>
             (case Option.bind (Tlv8Map_get sub SIGNATURE) (try_array 64) of
                None \<Rightarrow> Inr (error_m6, None)
              | Some signature \<Rightarrow>
                  and_then (hkdf32 P session_key PS_CONTROLLER_SIGN_SALT PS_CONTROLLER_SIGN_INFO) (\<lambda>ios_device_x.
                  let signed = ios_device_x @ controller_id @ controller_ltpk in
                  if ok (verify_ed25519 P controller_ltpk signed signature) = None
                  then Inr (error_m6, None)
                  else if \<not> utf8_valid controller_id then Inr (error_m6, None)
                  else
                    and_then (hkdf32 P session_key PS_ACCESSORY_SIGN_SALT PS_ACCESSORY_SIGN_INFO) (\<lambda>accessory_x.
                    let accessory_ltpk = ltpk P accessory_keypair;
                        acc_signed = accessory_x @ accessory_id @ accessory_ltpk;
                        acc_sig = kp_sign P accessory_keypair acc_signed;
                        acc_sub = Tlv8Writer_push (Tlv8Writer_push (Tlv8Writer_push [] IDENTIFIER accessory_id)
                                    PUBLIC_KEY accessory_ltpk) SIGNATURE acc_sig in
                    and_then (map_err Crypto (chacha20poly1305_seal P enc_key (nonce_label NONCE_PS_M6) [] acc_sub)) (\<lambda>sealed.
                    Inr (Tlv8Writer_push (push_u8 [] STATE STATE_M6) ENCRYPTED_DATA sealed,
                         Some (controller_id, controller_ltpk))))))))))))"

end
