(* ===== verification/Thread_Pdu.thy ===== *)
theory Thread_Pdu
  imports Dut_Pairing
begin

text \<open>
  The PDU codecs of HAP over CoAP: the controller's, \<open>hap-thread/src/pdu.rs\<close> with the error type of
  \<open>hap-thread/src/error.rs\<close>, and the accessory's mirror, \<open>hap-thread-dut/src/pdu.rs\<close>.  The functions
  are those of a release build; the debug assertions on the length field and on the number of
  entries of a batch appear as hypotheses.
\<close>

datatype ThreadError =
    TIo | Coap str | CoapCode "u8 \<times> u8" | TMdns str | TDiscoveryTxt str
  | MalformedPdu string | PduStatus u8 | SessionExpired | TCrypto CryptoError
  | TTlv8 Tlv8Error | TModel str | TStore str

unbundle bit_operations_syntax

section \<open>The controller's codec\<close>

datatype OpCode =
    CharSigRead | CharWrite | CharRead | CharTimedWrite | CharExecWrite | ServSigRead
  | ReadDatabase | Subscribe | Unsubscribe

fun opcode_u8 :: "OpCode \<Rightarrow> u8" where
  "opcode_u8 CharSigRead = 0x01"
| "opcode_u8 CharWrite = 0x02"
| "opcode_u8 CharRead = 0x03"
| "opcode_u8 CharTimedWrite = 0x04"
| "opcode_u8 CharExecWrite = 0x05"
| "opcode_u8 ServSigRead = 0x06"
| "opcode_u8 ReadDatabase = 0x09"
| "opcode_u8 Subscribe = 0x0B"
| "opcode_u8 Unsubscribe = 0x0C"

definition PARAM_VALUE :: u8 where "PARAM_VALUE = 0x01"

definition RESPONSE_HEADER_LEN :: nat where "RESPONSE_HEADER_LEN = 5"

definition coap_encode_request :: "OpCode \<Rightarrow> u8 \<Rightarrow> u16 \<Rightarrow> bytes \<Rightarrow> bytes" where
  "coap_encode_request op tid iid body =
     [0x00, opcode_u8 op, tid] @ u16_to_le iid @ u16_to_le (u16_sat (length body)) @ body"

fun encode_all_from :: "nat \<Rightarrow> OpCode \<Rightarrow> (u16 \<times> bytes) list \<Rightarrow> bytes" where
  "encode_all_from idx op [] = []"
| "encode_all_from idx op ((iid, body) # entries) =
     coap_encode_request op (u8_sat idx) iid body @ encode_all_from (Suc idx) op entries"

text \<open>The debug assertion of \<open>encode_all\<close>: a longer batch panics in a build with debug assertions; without
  them the encoder goes on, and every index above 255 gets the transaction id 255.\<close>

definition batch_fits :: "'e list \<Rightarrow> bool" where
  "batch_fits entries \<longleftrightarrow> length entries \<le> 256"

definition encode_all :: "OpCode \<Rightarrow> (u16 \<times> bytes) list \<Rightarrow> bytes" where
  "encode_all op entries = encode_all_from 0 op entries"

definition encode_value_body :: "bytes \<Rightarrow> bytes" where
  "encode_value_body v = Tlv8Writer_push [] PARAM_VALUE v"

record PduResponse =
  pr_tid :: u8
  pr_status :: u8
  pr_body :: bytes

definition body_value :: "bytes \<Rightarrow> ThreadError + bytes" where
  "body_value body =
     (if body = [] then Inr []
      else
        and_then (map_err TTlv8 (Tlv8Map_parse body)) (\<lambda>map.
        Inr (case Tlv8Map_get map PARAM_VALUE of None \<Rightarrow> [] | Some v \<Rightarrow> v)))"

definition PduResponse_value :: "PduResponse \<Rightarrow> ThreadError + bytes" where
  "PduResponse_value r = body_value (pr_body r)"

function decode_events :: "bytes \<Rightarrow> ThreadError + (u16 \<times> bytes) list" where
  "decode_events rest =
     (if rest = [] then Inr []
      else if length rest < 5 then Inl (MalformedPdu ''event record shorter than its 5-byte header'')
      else
        let iid = u16_from_le (rest ! 1) (rest ! 2);
            len = unat (u16_from_le (rest ! 3) (rest ! 4));
            en = 5 + len in
        if length rest < en then Inl (MalformedPdu ''event record body shorter than declared'')
        else
          and_then (body_value (slice rest 5 en)) (\<lambda>v.
          and_then (decode_events (drop en rest)) (\<lambda>evs.
          Inr ((iid, v) # evs))))"
  by pat_completeness auto
termination by (relation "measure length") auto

declare decode_events.simps [simp del]

definition decode_one :: "bytes \<Rightarrow> ThreadError + PduResponse \<times> nat" where
  "decode_one pdu =
     (if length pdu < RESPONSE_HEADER_LEN then
        Inl (MalformedPdu ''response shorter than its 5-byte header'')
      else if (pdu ! 0) AND 0x0E \<noteq> 0x02 then
        Inl (MalformedPdu ''control byte does not have the response bit set'')
      else
        let tid = pdu ! 1;
            status = pdu ! 2;
            len = unat (u16_from_le (pdu ! 3) (pdu ! 4));
            en = RESPONSE_HEADER_LEN + len in
        if length pdu < en then Inl (MalformedPdu ''response body shorter than declared'')
        else Inr (\<lparr>pr_tid = tid, pr_status = status, pr_body = slice pdu RESPONSE_HEADER_LEN en\<rparr>, en))"

function decode_all_from :: "nat \<Rightarrow> bytes \<Rightarrow> ThreadError + PduResponse list" where
  "decode_all_from n pdu =
     (if pdu = [] then Inr []
      else
        case decode_one pdu of
          Inl e \<Rightarrow> Inl e
        | Inr (resp, used) \<Rightarrow>
            if pr_tid resp \<noteq> u8_sat n then
              Inl (MalformedPdu ''batched response transaction id does not match its position'')
            else
              and_then (decode_all_from (Suc n) (drop used pdu)) (\<lambda>rs. Inr (resp # rs)))"
  by pat_completeness auto
termination
  by (relation "measure (\<lambda>(n, pdu). length pdu)")
    (auto simp: decode_one_def RESPONSE_HEADER_LEN_def Let_def split: if_splits)

declare decode_all_from.simps [simp del]

definition decode_all :: "bytes \<Rightarrow> ThreadError + PduResponse list" where
  "decode_all pdu = decode_all_from 0 pdu"

section \<open>The accessory's codec\<close>

definition OP_CHAR_WRITE :: u8 where "OP_CHAR_WRITE = 0x02"
definition OP_CHAR_READ :: u8 where "OP_CHAR_READ = 0x03"
definition OP_SUBSCRIBE :: u8 where "OP_SUBSCRIBE = 0x0B"
definition OP_UNSUBSCRIBE :: u8 where "OP_UNSUBSCRIBE = 0x0C"
definition OP_READ_DATABASE :: u8 where "OP_READ_DATABASE = 0x09"
definition STATUS_SUCCESS :: u8 where "STATUS_SUCCESS = 0"
definition STATUS_UNSUPPORTED :: u8 where "STATUS_UNSUPPORTED = 1"
definition STATUS_INVALID_INSTANCE_ID :: u8 where "STATUS_INVALID_INSTANCE_ID = 4"
definition dut_PARAM_VALUE :: u8 where "dut_PARAM_VALUE = 0x01"

lemmas pdu_codes = OP_CHAR_WRITE_def OP_CHAR_READ_def OP_SUBSCRIBE_def OP_UNSUBSCRIBE_def
  OP_READ_DATABASE_def STATUS_SUCCESS_def STATUS_UNSUPPORTED_def STATUS_INVALID_INSTANCE_ID_def
  dut_PARAM_VALUE_def PARAM_VALUE_def

record PduRequest =
  rq_opcode :: u8
  rq_tid :: u8
  rq_iid :: u16
  rq_body :: bytes

function decode_requests :: "bytes \<Rightarrow> DutError + PduRequest list" where
  "decode_requests rest =
     (if rest = [] then Inr []
      else if length rest < 7 then Inl (Protocol ''request PDU shorter than its 7-byte header'')
      else
        let opcode = rest ! 1;
            tid = rest ! 2;
            iid = u16_from_le (rest ! 3) (rest ! 4);
            len = unat (u16_from_le (rest ! 5) (rest ! 6));
            en = 7 + len in
        if length rest < en then Inl (Protocol ''request body shorter than declared'')
        else
          and_then (decode_requests (drop en rest)) (\<lambda>rqs.
          Inr (\<lparr>rq_opcode = opcode, rq_tid = tid, rq_iid = iid, rq_body = slice rest 7 en\<rparr> # rqs)))"
  by pat_completeness auto
termination by (relation "measure length") auto

declare decode_requests.simps [simp del]

definition encode_response :: "u8 \<Rightarrow> u8 \<Rightarrow> bytes \<Rightarrow> bytes" where
  "encode_response tid status body = [0x02, tid, status] @ u16_to_le (u16_sat (length body)) @ body"

definition value_body :: "bytes \<Rightarrow> bytes" where
  "value_body v = Tlv8Writer_push [] dut_PARAM_VALUE v"

definition extract_value :: "bytes \<Rightarrow> DutError + bytes" where
  "extract_value body =
     and_then (map_err DutTlv8 (Tlv8Map_parse body)) (\<lambda>map.
     ok_or (Protocol ''write body missing value param'') (Tlv8Map_get map dut_PARAM_VALUE))"

section \<open>Round trips\<close>

lemma unat_u16_header:
  assumes "n < 65536" and "u16_to_le (u16_sat n) = [a, b]"
  shows "le_val [a, b] = n"
  using assms unat_u16_sat [OF assms(1)] le_val_u16_to_le [of "u16_sat n"] by simp

lemma decode_one_response:
  assumes "length body < 65536"
  shows "decode_one (encode_response tid st body @ rest) =
    Inr (\<lparr>pr_tid = tid, pr_status = st, pr_body = body\<rparr>, length (encode_response tid st body))"
proof -
  obtain a b where ab: "u16_to_le (u16_sat (length body)) = [a, b]" using u16_to_le_Cons by blast
  have "(2 :: u8) AND 0x0E = 2" by (simp add: and_num.simps)
  then show ?thesis
    using unat_u16_header [OF assms ab]
    by (simp add: decode_one_def encode_response_def RESPONSE_HEADER_LEN_def ab slice_def Let_def)
qed

lemma decode_all_from_responses:
  assumes "list_all (\<lambda>(st, body). length body < 65536) rs"
  shows "decode_all_from n (concat (map (\<lambda>(i, st, body). encode_response (u8_sat i) st body) (enumerate n rs))) =
     Inr (map (\<lambda>(i, st, body). \<lparr>pr_tid = u8_sat i, pr_status = st, pr_body = body\<rparr>) (enumerate n rs))"
  using assms
proof (induction rs arbitrary: n)
  case Nil
  then show ?case by (simp add: decode_all_from.simps)
next
  case (Cons r rs)
  obtain st body where r: "r = (st, body)" by fastforce
  let ?x = "encode_response (u8_sat n) st body"
  have ne: "?x \<noteq> []" by (simp add: encode_response_def)
  have len: "length body < 65536" using Cons.prems r by simp
  show ?case
    using Cons.prems ne
    by (subst decode_all_from.simps) (simp add: r decode_one_response [OF len] Cons.IH)
qed

lemma decode_requests_request:
  assumes "length body < 65536"
  shows "decode_requests (coap_encode_request op tid iid body @ rest) =
    and_then (decode_requests rest) (\<lambda>rqs.
      Inr (\<lparr>rq_opcode = opcode_u8 op, rq_tid = tid, rq_iid = iid, rq_body = body\<rparr> # rqs))"
proof -
  obtain a b where ab: "u16_to_le (u16_sat (length body)) = [a, b]" using u16_to_le_Cons by blast
  obtain c d where cd: "u16_to_le iid = [c, d]" "u16_from_le c d = iid" using u16_to_le_Cons by blast
  have "drop (7 + length body) (0 # opcode_u8 op # tid # c # d # a # b # body @ rest) = rest"
    by (simp add: eval_nat_numeral)
  then show ?thesis
    using unat_u16_header [OF assms ab]
    by (subst decode_requests.simps) (simp add: coap_encode_request_def ab cd slice_def Let_def)
qed

lemma decode_requests_all_from:
  assumes "list_all (\<lambda>(iid, body). length body < 65536) entries"
  shows "decode_requests (encode_all_from n op entries) =
     Inr (map (\<lambda>(i, iid, body). \<lparr>rq_opcode = opcode_u8 op, rq_tid = u8_sat i, rq_iid = iid, rq_body = body\<rparr>)
       (enumerate n entries))"
  using assms
proof (induction entries arbitrary: n)
  case Nil
  then show ?case by (simp add: decode_requests.simps)
next
  case (Cons e entries)
  then show ?case by (cases e) (simp add: decode_requests_request)
qed

lemma value_bodies:
  "body_value (value_body v) = Inr v" "extract_value (encode_value_body v) = Inr v"
  "body_value [] = Inr []"
proof -
  have "enc_items [(1, v)] \<noteq> []" by (simp add: enc_items.simps enc.simps [of _ v])
  then show "body_value (value_body v) = Inr v" "extract_value (encode_value_body v) = Inr v"
      "body_value [] = Inr []"
    by (simp_all add: body_value_def extract_value_def value_body_def encode_value_body_def push_empty
        pdu_codes SEPARATOR_def)
qed

lemma decode_events_record:
  assumes "length (value_body v) < 65536"
  shows "decode_events (0 # u16_to_le iid @ u16_to_le (u16_sat (length (value_body v))) @ value_body v @ rest) =
    and_then (decode_events rest) (\<lambda>evs. Inr ((iid, v) # evs))"
proof -
  obtain a b where ab: "u16_to_le (u16_sat (length (value_body v))) = [a, b]" using u16_to_le_Cons by blast
  obtain c d where cd: "u16_to_le iid = [c, d]" "u16_from_le c d = iid" using u16_to_le_Cons by blast
  have "drop (5 + length (value_body v)) (0 # c # d # a # b # value_body v @ rest) = rest"
    by (simp add: eval_nat_numeral)
  then show ?thesis
    using unat_u16_header [OF assms ab]
    by (subst decode_events.simps) (simp add: ab cd slice_def Let_def value_bodies)
qed

lemma decode_one_used:
  "decode_one pdu = Inr (r, n) \<Longrightarrow> n = 5 + length (pr_body r) \<and> n \<le> length pdu"
  by (auto simp: decode_one_def RESPONSE_HEADER_LEN_def Let_def split: if_splits)

lemma decode_all_from_aligned:
  "decode_all_from n pdu = Inr rs \<Longrightarrow>
     map pr_tid rs = map u8_sat [n ..< n + length rs] \<and>
     length pdu = sum_list (map (\<lambda>r. 5 + length (pr_body r)) rs)"
proof (induction n pdu arbitrary: rs rule: decode_all_from.induct)
  case (1 n pdu)
  show ?case
  proof (cases "pdu = []")
    case True
    then show ?thesis using "1.prems" by (simp add: decode_all_from.simps)
  next
    case False
    then obtain r k rs' where d: "decode_one pdu = Inr (r, k)" "pr_tid r = u8_sat n" "rs = r # rs'"
        "decode_all_from (Suc n) (drop k pdu) = Inr rs'"
      using "1.prems" by (auto simp: decode_all_from.simps [of n pdu] result_simps split: sum.splits if_splits)
    then show ?thesis
      using "1.IH" [OF False d(1) refl] decode_one_used [OF d(1)] by (auto simp: upt_conv_Cons simp del: upt_Suc)
  qed
qed

lemma batch_fits_tids:
  assumes "batch_fits xs"
  shows "map (\<lambda>(i, x). f (u8_sat i) x) (enumerate 0 xs) = map (\<lambda>(i, x). f (of_nat i) x) (enumerate 0 xs)"
proof (rule map_cong [OF refl])
  fix p assume "p \<in> set (enumerate 0 xs)"
  then have "fst p < 256" using assms by (auto simp: in_set_enumerate_eq batch_fits_def)
  then show "(case p of (i, x) \<Rightarrow> f (u8_sat i) x) = (case p of (i, x) \<Rightarrow> f (of_nat i) x)"
    by (cases p) (simp add: u8_sat_def)
qed

section \<open>Properties\<close>

text \<open>C32. The two PDU codecs agree.  A batch of at most 256 requests, as the encoder asserts, is decoded by
  the accessory to the same operations, instance ids and bodies, its transaction ids being the
  positions in the batch; a batch of at most 256 responses that the accessory encodes in that order is
  decoded by the controller to the same statuses and bodies; and a characteristic value survives the
  wrapping of a read and of a write body.\<close>

theorem thread_pdu_round_trip:
  assumes "batch_fits entries" and "list_all (\<lambda>(iid, body). length body < 65536) entries"
    and "batch_fits outs" and "list_all (\<lambda>(st, body). length body < 65536) outs"
  shows "decode_requests (encode_all op entries) =
       Inr (map (\<lambda>(i, iid, body). \<lparr>rq_opcode = opcode_u8 op, rq_tid = of_nat i, rq_iid = iid, rq_body = body\<rparr>)
         (enumerate 0 entries)) \<and>
     decode_all (concat (map (\<lambda>(i, st, body). encode_response (of_nat i) st body) (enumerate 0 outs))) =
       Inr (map (\<lambda>(i, st, body). \<lparr>pr_tid = of_nat i, pr_status = st, pr_body = body\<rparr>) (enumerate 0 outs)) \<and>
     PduResponse_value \<lparr>pr_tid = t, pr_status = s, pr_body = value_body v\<rparr> = Inr v \<and>
     extract_value (encode_value_body v) = Inr v"
  using decode_requests_all_from [OF assms(2), of 0 op] decode_all_from_responses [OF assms(4), of 0]
    batch_fits_tids [OF assms(1), of "\<lambda>tid (iid, body). \<lparr>rq_opcode = opcode_u8 op, rq_tid = tid, rq_iid = iid, rq_body = body\<rparr>"]
    batch_fits_tids [OF assms(3), of "\<lambda>tid (st, body). encode_response tid st body"]
    batch_fits_tids [OF assms(3), of "\<lambda>tid (st, body). \<lparr>pr_tid = tid, pr_status = st, pr_body = body\<rparr>"]
  by (simp add: encode_all_def decode_all_def PduResponse_value_def value_bodies)

theorem thread_pdu_round_trip_witness:
  "decode_requests (encode_all CharRead [(9, []), (12, [1, 2])]) =
     Inr [\<lparr>rq_opcode = 3, rq_tid = 0, rq_iid = 9, rq_body = []\<rparr>,
          \<lparr>rq_opcode = 3, rq_tid = 1, rq_iid = 12, rq_body = [1, 2]\<rparr>] \<and>
   decode_all (encode_response 0 6 [] @ encode_response 1 0 [7]) =
     Inr [\<lparr>pr_tid = 0, pr_status = 6, pr_body = []\<rparr>, \<lparr>pr_tid = 1, pr_status = 0, pr_body = [7]\<rparr>]"
  using thread_pdu_round_trip [of "[(9, []), (12, [1, 2])]" "[(6, []), (0, [7])]" CharRead 0 0 "[]"]
  by (simp add: batch_fits_def)

text \<open>A batched response is accepted only if it is position aligned: the controller accepts a
  payload as a batch only when the transaction ids are 0, 1, 2 and so on in order and the PDUs
  cover the payload exactly, so a reordered, repeated or truncated batch is an error.\<close>

theorem thread_batch_position_aligned:
  assumes "decode_all pdu = Inr rs"
  shows "map pr_tid rs = map u8_sat [0 ..< length rs] \<and>
         length pdu = sum_list (map (\<lambda>r. 5 + length (pr_body r)) rs)"
  using decode_all_from_aligned [of 0 pdu rs] assms by (simp add: decode_all_def)

theorem thread_batch_position_aligned_witness:
  "decode_all (encode_response 0 6 [] @ encode_response 1 0 [7]) =
     Inr [\<lparr>pr_tid = 0, pr_status = 6, pr_body = []\<rparr>, \<lparr>pr_tid = 1, pr_status = 0, pr_body = [7]\<rparr>] \<and>
   length (encode_response 0 6 [] @ encode_response 1 0 [7]) = 11"
proof -
  have "decode_all (encode_response 0 6 [] @ encode_response 1 0 [7]) =
     Inr [\<lparr>pr_tid = 0, pr_status = 6, pr_body = []\<rparr>, \<lparr>pr_tid = 1, pr_status = 0, pr_body = [7]\<rparr>]"
    using decode_all_from_responses [of "[(6, []), (0, [7])]" 0] by (simp add: decode_all_def u8_sat_def)
  from thread_batch_position_aligned [OF this] this show ?thesis by simp
qed

end
