(* ===== verification/Coap.thy ===== *)
theory Coap
  imports Thread_Pdu
begin

text \<open>
  The CoAP client transport, \<open>hap-thread/src/coap.rs\<close>.  The CoAP library is a parameter: the record
  \<open>coap_lib\<close> holds its message codes and its constructor of Block2 values, and \<open>coap_laws\<close> states
  what RFC 7252 and RFC 7959 say of them.  The network carries packets: encoding a packet and
  decoding it again is the library's, and a datagram it cannot decode is one that never arrives.
  Time is the list of what successive waits on the exchange's channel return.  A new packet has
  neither token nor options nor payload.  Sends on the socket succeed.
\<close>

section \<open>Packets\<close>

datatype MessageType = Confirmable | NonConfirmable | Acknowledgement | Reset
datatype RequestType = Get | Post | Put | Delete
datatype ResponseType = Changed | Valid | BadRequest | Unauthorized | NotFound | InternalServerError
datatype MessageClass = EmptyCode | RequestCode RequestType | ResponseCode ResponseType

record BlockValue =
  bv_num :: u16
  bv_more :: bool
  bv_size :: nat

record Packet =
  pk_type :: MessageType
  pk_code :: MessageClass
  pk_mid :: u16
  pk_token :: bytes
  pk_path :: "bytes option"
  pk_block2 :: "BlockValue option"
  pk_payload :: bytes

record coap_lib =
  cl_code :: "MessageClass \<Rightarrow> u8"
  cl_block :: "nat \<Rightarrow> bool \<Rightarrow> nat \<Rightarrow> BlockValue option"

text \<open>The code registry of RFC 7252 (section 12.1) for the codes in use, and block values of
  RFC 7959: a size between 16 and 1024 is representable, possibly rounded down.\<close>

definition coap_laws :: "coap_lib \<Rightarrow> bool" where
  "coap_laws L \<longleftrightarrow>
     cl_code L EmptyCode = 0x00 \<and> cl_code L (RequestCode Post) = 0x02 \<and> cl_code L (RequestCode Put) = 0x03 \<and>
     cl_code L (ResponseCode Valid) = 0x43 \<and> cl_code L (ResponseCode Changed) = 0x44 \<and>
     cl_code L (ResponseCode BadRequest) = 0x80 \<and> cl_code L (ResponseCode Unauthorized) = 0x81 \<and>
     cl_code L (ResponseCode NotFound) = 0x84 \<and> cl_code L (ResponseCode InternalServerError) = 0xA0 \<and>
     (\<forall>num m size. num < 65536 \<longrightarrow> 16 \<le> size \<longrightarrow> size \<le> 1024 \<longrightarrow>
        (\<exists>b. cl_block L num m size = Some b \<and> bv_num b = of_nat num \<and> bv_more b = m \<and>
             16 \<le> bv_size b \<and> bv_size b \<le> size))"

definition Packet_new :: Packet where
  "Packet_new = \<lparr>pk_type = Confirmable, pk_code = RequestCode Get, pk_mid = 0, pk_token = [],
     pk_path = None, pk_block2 = None, pk_payload = []\<rparr>"

section \<open>Constants and responses\<close>

definition PATH_IDENTIFY :: str where "PATH_IDENTIFY = ascii ''0''"
definition PATH_PAIR_SETUP :: str where "PATH_PAIR_SETUP = ascii ''1''"
definition PATH_PAIR_VERIFY :: str where "PATH_PAIR_VERIFY = ascii ''2''"
definition PATH_SECURE :: str where "PATH_SECURE = []"

lemmas coap_paths = PATH_IDENTIFY_def PATH_PAIR_SETUP_def PATH_PAIR_VERIFY_def PATH_SECURE_def

definition MAX_TRANSMISSIONS :: nat where "MAX_TRANSMISSIONS = 4"
definition MAX_BLOCKS :: nat where "MAX_BLOCKS = 1024"

record CoapResponse =
  cr_code :: "u8 \<times> u8"
  cr_payload :: bytes

definition is_changed :: "CoapResponse \<Rightarrow> bool" where
  "is_changed r \<longleftrightarrow> cr_code r = (2, 4)"

definition is_not_found :: "CoapResponse \<Rightarrow> bool" where
  "is_not_found r \<longleftrightarrow> cr_code r = (4, 4)"

definition changed_payload :: "CoapResponse \<Rightarrow> ThreadError + bytes" where
  "changed_payload r =
     (if is_changed r then Inr (cr_payload r)
      else if is_not_found r then Inl SessionExpired
      else Inl (CoapCode (cr_code r)))"

section \<open>Building requests\<close>

definition u16_to_be :: "u16 \<Rightarrow> bytes" where
  "u16_to_be v = rev (u16_to_le v)"

text \<open>The transport's only counter: message ids and tokens are drawn from it, wrapping at 65536.\<close>

type_synonym mid_source = u16

definition frame :: "mid_source \<Rightarrow> str \<Rightarrow> bytes \<Rightarrow> bytes \<Rightarrow> Packet \<times> mid_source" where
  "frame next path payload token =
     (Packet_new\<lparr>pk_type := Confirmable, pk_code := RequestCode Post, pk_mid := next, pk_token := token,
        pk_path := (if path = [] then None else Some path), pk_payload := payload\<rparr>, next + 1)"

definition build_post :: "mid_source \<Rightarrow> str \<Rightarrow> bytes \<Rightarrow> (Packet \<times> bytes) \<times> mid_source" where
  "build_post next path payload =
     (let token = u16_to_be next;
          (packet, next') = frame (next + 1) path payload token in
      ((packet, token), next'))"

definition empty_ack :: "u16 \<Rightarrow> Packet" where
  "empty_ack message_id =
     Packet_new\<lparr>pk_type := Acknowledgement, pk_code := EmptyCode, pk_mid := message_id\<rparr>"

section \<open>The reader and the exchange\<close>

definition is_event_put :: "coap_lib \<Rightarrow> Packet \<Rightarrow> bool" where
  "is_event_put L packet =
     (let code = cl_code L (pk_code packet) in
      pk_type packet = Confirmable \<and> code \<noteq> 0 \<and> drop_bit 5 code = 0)"

definition is_empty_code :: "Packet \<Rightarrow> bool" where
  "is_empty_code packet \<longleftrightarrow> pk_code packet = EmptyCode"

definition split_code :: "coap_lib \<Rightarrow> Packet \<Rightarrow> u8 \<times> u8" where
  "split_code L packet =
     (let code_byte = cl_code L (pk_code packet) in (drop_bit 5 code_byte, code_byte AND 0x1F))"

text \<open>What the reader does with one datagram, given the tokens that are registered.\<close>

datatype routed = EventPut bytes Packet | ToExchange bytes Packet | Dropped

definition route_datagram :: "coap_lib \<Rightarrow> bytes set \<Rightarrow> Packet \<Rightarrow> routed" where
  "route_datagram L pending packet =
     (if is_event_put L packet then
        EventPut (pk_payload packet)
          (Packet_new\<lparr>pk_type := Acknowledgement, pk_code := ResponseCode Valid,
             pk_mid := pk_mid packet, pk_token := pk_token packet\<rparr>)
      else if pk_token packet \<in> pending then ToExchange (pk_token packet) packet
      else Dropped)"

text \<open>What one wait on the exchange's channel returns.\<close>

datatype rx = RxPacket Packet | RxTimeout | RxStopped

text \<open>\<open>accept\<close>: the acknowledgements it sends and the packet.\<close>

definition accept :: "Packet \<Rightarrow> Packet list \<times> Packet" where
  "accept resp = ((if pk_type resp = Confirmable then [empty_ack (pk_mid resp)] else []), resp)"

fun await_separate :: "rx list \<Rightarrow> (Packet list \<times> (ThreadError + Packet)) option" where
  "await_separate [] = None"
| "await_separate (RxPacket resp # rxs) =
     (if is_empty_code resp then await_separate rxs
      else let (acks, p) = accept resp in Some (acks, Inr p))"
| "await_separate (RxStopped # rxs) = Some ([], Inl (Coap (ascii ''CoAP reader task stopped'')))"
| "await_separate (RxTimeout # rxs) =
     Some ([], Inl (Coap (ascii ''no separate CoAP response after the empty ACK'')))"

text \<open>The transmit loop: how many transmissions are left, and the packets sent so far.  \<open>None\<close>: the
  next wait has not returned.\<close>

fun exchange_inner :: "nat \<Rightarrow> Packet \<Rightarrow> rx list \<Rightarrow> (Packet list \<times> (ThreadError + Packet)) option" where
  "exchange_inner 0 request rxs =
     Some ([], Inl (Coap (ascii ''no CoAP response after maximum retransmissions'')))"
| "exchange_inner (Suc n) request [] = None"
| "exchange_inner (Suc n) request (RxPacket resp # rxs) =
     (if is_empty_code resp then map_option (\<lambda>(sent, r). (request # sent, r)) (await_separate rxs)
      else let (acks, p) = accept resp in Some (request # acks, Inr p))"
| "exchange_inner (Suc n) request (RxStopped # rxs) =
     Some ([request], Inl (Coap (ascii ''CoAP reader task stopped'')))"
| "exchange_inner (Suc n) request (RxTimeout # rxs) =
     map_option (\<lambda>(sent, r). (request # sent, r)) (exchange_inner n request rxs)"

section \<open>Posting with block-wise reassembly\<close>

text \<open>\<open>exch\<close> is one exchange over a network state: the response packet, or an error.  \<open>fetched\<close> counts
  up to \<open>MAX_BLOCKS\<close>, so the loop is written with the blocks that are left.\<close>

fun post_blocks ::
    "coap_lib \<Rightarrow> ('n \<Rightarrow> Packet \<Rightarrow> (ThreadError + Packet) \<times> 'n) \<Rightarrow> str \<Rightarrow> nat \<Rightarrow> nat \<Rightarrow> mid_source \<Rightarrow> 'n \<Rightarrow>
     u8 \<times> u8 \<Rightarrow> bytes \<Rightarrow> BlockValue \<Rightarrow> (ThreadError + CoapResponse) \<times> mid_source \<times> 'n" where
  "post_blocks L exch path block_size left next net code full block =
     (if \<not> bv_more block then (Inr \<lparr>cr_code = code, cr_payload = full\<rparr>, next, net)
      else
        case left of
          0 \<Rightarrow> (Inl (Coap (ascii ''too many Block2 fragments in one response'')), next, net)
        | Suc left' \<Rightarrow>
            (case cl_block L (unat (bv_num block) + 1) False block_size of
               None \<Rightarrow> (Inl (Coap (ascii ''invalid Block2 request'')), next, net)
             | Some request_block2 \<Rightarrow>
                 let cont_token = u16_to_be next;
                     (req, next') = frame (next + 1) path [] cont_token in
                 (case exch net (req\<lparr>pk_block2 := Some request_block2\<rparr>) of
                    (Inl e, net') \<Rightarrow> (Inl e, next', net')
                  | (Inr r, net') \<Rightarrow>
                      (case pk_block2 r of
                         None \<Rightarrow>
                           (Inr \<lparr>cr_code = split_code L r, cr_payload = full @ pk_payload r\<rparr>, next', net')
                       | Some block' \<Rightarrow>
                           post_blocks L exch path block_size left' next' net' (split_code L r)
                             (full @ pk_payload r) block'))))"

declare post_blocks.simps [simp del]

definition udp_post ::
    "coap_lib \<Rightarrow> ('n \<Rightarrow> Packet \<Rightarrow> (ThreadError + Packet) \<times> 'n) \<Rightarrow> mid_source \<times> 'n \<Rightarrow> str \<Rightarrow> bytes \<Rightarrow>
     (ThreadError + CoapResponse) \<times> mid_source \<times> 'n" where
  "udp_post L exch = (\<lambda>(next, net) path payload.
     let ((request, token), next') = build_post next path payload in
     (case exch net request of
        (Inl e, net') \<Rightarrow> (Inl e, next', net')
      | (Inr resp, net') \<Rightarrow>
          (case pk_block2 resp of
             None \<Rightarrow> (Inr \<lparr>cr_code = split_code L resp, cr_payload = pk_payload resp\<rparr>, next', net')
           | Some block \<Rightarrow>
               post_blocks L exch path (bv_size block) (MAX_BLOCKS - 1) next' net' (split_code L resp)
                 (pk_payload resp) block)))"

section \<open>The library parameter has an instance\<close>

fun rfc_code :: "MessageClass \<Rightarrow> u8" where
  "rfc_code EmptyCode = 0x00"
| "rfc_code (RequestCode Get) = 0x01"
| "rfc_code (RequestCode Post) = 0x02"
| "rfc_code (RequestCode Put) = 0x03"
| "rfc_code (RequestCode Delete) = 0x04"
| "rfc_code (ResponseCode Valid) = 0x43"
| "rfc_code (ResponseCode Changed) = 0x44"
| "rfc_code (ResponseCode BadRequest) = 0x80"
| "rfc_code (ResponseCode Unauthorized) = 0x81"
| "rfc_code (ResponseCode NotFound) = 0x84"
| "rfc_code (ResponseCode InternalServerError) = 0xA0"

definition rfc_coap :: coap_lib where
  "rfc_coap =
     \<lparr>cl_code = rfc_code,
      cl_block = (\<lambda>num m size. if num < 65536 \<and> 16 \<le> size \<and> size \<le> 1024
                              then Some \<lparr>bv_num = of_nat num, bv_more = m, bv_size = size\<rparr> else None)\<rparr>"

lemma rfc_coap_laws [simp]: "coap_laws rfc_coap"
  by (simp add: coap_laws_def rfc_coap_def)

section \<open>Properties of the exchange\<close>

lemma await_separate_skips:
  "list_all is_empty_code es \<Longrightarrow> \<not> is_empty_code p \<Longrightarrow>
     await_separate (map RxPacket es @ RxPacket p # rest) = Some (fst (accept p), Inr p)"
  by (induction es) (auto simp: accept_def)

lemma exchange_timeouts:
  "exchange_inner (k + n) request (replicate k RxTimeout @ rxs) =
     map_option (\<lambda>(sent, r). (replicate k request @ sent, r)) (exchange_inner n request rxs)"
  by (induction k) (auto simp: option.map_comp comp_def split_beta option.map_ident)

text \<open>C35. The exchange of a confirmable request.  A response that arrives after \<open>k\<close> timeouts, fewer
  than four, is returned after \<open>k + 1\<close> transmissions and acknowledged if it is itself confirmable.
  After an empty acknowledgement the request is not sent again: duplicates of it are skipped and
  the separate response is returned.  Four timeouts end the exchange with an error.\<close>

theorem coap_exchange_outcome:
  assumes "k < MAX_TRANSMISSIONS" and "\<not> is_empty_code p" and "is_empty_code e" and "list_all is_empty_code es"
  shows "exchange_inner MAX_TRANSMISSIONS request (replicate k RxTimeout @ RxPacket p # rest) =
           Some (replicate (Suc k) request @ fst (accept p), Inr p) \<and>
         exchange_inner MAX_TRANSMISSIONS request
             (replicate k RxTimeout @ RxPacket e # map RxPacket es @ RxPacket p # rest) =
           Some (replicate (Suc k) request @ fst (accept p), Inr p) \<and>
         exchange_inner MAX_TRANSMISSIONS request (replicate MAX_TRANSMISSIONS RxTimeout @ rest) =
           Some (replicate MAX_TRANSMISSIONS request,
                 Inl (Coap (ascii ''no CoAP response after maximum retransmissions'')))"
proof -
  obtain n where n: "MAX_TRANSMISSIONS = k + Suc n" using assms(1) by (metis add_Suc_right less_imp_Suc_add)
  have "fst (accept p) = (if pk_type p = Confirmable then [empty_ack (pk_mid p)] else [])"
    by (simp add: accept_def)
  then show ?thesis
    using exchange_timeouts [of k "Suc n" request] exchange_timeouts [of MAX_TRANSMISSIONS 0 request rest]
      await_separate_skips [OF assms(4,2), of rest] assms(2,3)
    by (simp add: n [symmetric] accept_def replicate_append_same [symmetric] del: replicate.simps)
      (simp add: n accept_def replicate_append_same [symmetric])
qed

theorem coap_exchange_outcome_witness:
  "exchange_inner MAX_TRANSMISSIONS (empty_ack 1) [RxTimeout, RxPacket (empty_ack 1), RxPacket (Packet_new\<lparr>pk_mid := 5\<rparr>)] =
     Some ([empty_ack 1, empty_ack 1, empty_ack 5], Inr (Packet_new\<lparr>pk_mid := 5\<rparr>))"
  using coap_exchange_outcome [of 1 "Packet_new\<lparr>pk_mid := 5\<rparr>" "empty_ack 1" "[]" "empty_ack 1" "[]"]
  by (simp add: MAX_TRANSMISSIONS_def is_empty_code_def empty_ack_def Packet_new_def accept_def)

text \<open>C36. The reader finds the exchange of a datagram by its token alone, so it drops every empty
  acknowledgement: such a message carries no token, and the transport only ever registers tokens of
  two bytes.  The wait for a separate response is therefore never entered.\<close>

theorem empty_ack_dropped:
  assumes "coap_laws L" and "pending \<subseteq> range u16_to_be"
  shows "route_datagram L pending (empty_ack mid) = Dropped"
proof -
  have "u16_to_be v \<noteq> []" for v
    using length_to_le(1) [of v] by (auto simp: u16_to_be_def simp del: length_to_le)
  then have "[] \<notin> pending" using assms(2) by (metis imageE subsetD)
  then show ?thesis by (simp add: route_datagram_def is_event_put_def empty_ack_def Packet_new_def Let_def)
qed

theorem empty_ack_dropped_witness:
  "route_datagram rfc_coap {snd (fst (build_post 7 PATH_SECURE [1]))} (empty_ack 8) = Dropped"
proof -
  have "{snd (fst (build_post 7 PATH_SECURE [1]))} \<subseteq> range u16_to_be"
    by (simp add: build_post_def frame_def Let_def)
  from empty_ack_dropped [OF rfc_coap_laws this] show ?thesis .
qed

end
