(* ===== verification/Reference_Accessory.thy ===== *)
theory Reference_Accessory
  imports Coap
begin

text \<open>
  The reference accessory, \<open>hap-thread-dut/src/lib.rs\<close>: its state, the request handlers and the serve
  loop's treatment of one datagram.  Random bytes are arguments of the handlers that draw them.
  A lock is never poisoned in the model, since no handler panics, so those branches are absent.
  The actuator is the list of values it has been given.
\<close>

section \<open>State\<close>

type_synonym address = nat

record BlockwiseResponse =
  br_peer :: address
  br_code :: ResponseType
  br_payload :: bytes

record ReferenceAccessory =
  ra_pairing_id :: str
  ra_keypair :: ControllerKeypair
  ra_setup_code :: "str option"
  ra_controller :: "(str \<times> bytes) option"
  ra_setup :: "SetupInProgress option"
  ra_verify :: "VerifyInProgress option"
  ra_session :: "AccessorySession option"
  ra_on :: bool
  ra_actuator :: "bool list"
  ra_next_mid :: u16
  ra_slow :: bool
  ra_blockwise :: "nat option"
  ra_block_cache :: "BlockwiseResponse option"
  ra_subscriptions :: "u16 set"
  ra_peer :: "address option"
  ra_socket :: bool

record dut_rng =
  rng_salt :: bytes
  rng_b :: bytes
  rng_eph :: bytes

definition ON_IID :: u16 where "ON_IID = 9"

definition with_actuator :: "str \<Rightarrow> bytes \<Rightarrow> ReferenceAccessory" where
  "with_actuator ident rng_seed =
     \<lparr>ra_pairing_id = ident, ra_keypair = from_seed ident rng_seed, ra_setup_code = None,
      ra_controller = None, ra_setup = None, ra_verify = None, ra_session = None, ra_on = False,
      ra_actuator = [], ra_next_mid = 1, ra_slow = False, ra_blockwise = None, ra_block_cache = None,
      ra_subscriptions = {}, ra_peer = None, ra_socket = False\<rparr>"

definition with_slow_responses :: "ReferenceAccessory \<Rightarrow> ReferenceAccessory" where
  "with_slow_responses a = a\<lparr>ra_slow := True\<rparr>"

definition with_blockwise_responses :: "ReferenceAccessory \<Rightarrow> nat \<Rightarrow> ReferenceAccessory" where
  "with_blockwise_responses a block_size = a\<lparr>ra_blockwise := Some (max block_size 16)\<rparr>"

definition synthetic_database :: bytes where
  "synthetic_database = map (\<lambda>i. of_nat (i mod 251)) [0 ..< 2000]"

definition with_setup_code :: "ReferenceAccessory \<Rightarrow> str \<Rightarrow> ReferenceAccessory" where
  "with_setup_code a setup_code = a\<lparr>ra_setup_code := Some setup_code\<rparr>"

definition provision_controller :: "ReferenceAccessory \<Rightarrow> str \<Rightarrow> bytes \<Rightarrow> ReferenceAccessory" where
  "provision_controller a controller_id controller_ltpk =
     a\<lparr>ra_controller := Some (controller_id, controller_ltpk)\<rparr>"

section \<open>Request handlers\<close>

definition request_state :: "bytes \<Rightarrow> u8 option" where
  "request_state payload =
     Option.bind (ok (Tlv8Map_parse payload)) (\<lambda>m. Option.bind (ok (get_u8 m STATE)) id)"

type_synonym reply = "ResponseType \<times> bytes"

definition dut_pair_setup ::
    "prims \<Rightarrow> dut_rng \<Rightarrow> ReferenceAccessory \<Rightarrow> bytes \<Rightarrow> reply \<times> ReferenceAccessory" where
  "dut_pair_setup P rng a payload =
     (case ra_setup_code a of
        None \<Rightarrow> ((NotFound, []), a)
      | Some setup_code \<Rightarrow>
          let state = request_state payload in
          if state = Some STATE_M1 then
            (case handle_setup_m1 P setup_code (rng_salt rng) (rng_b rng) payload of
               Inr (m2, progress) \<Rightarrow> ((Changed, m2), a\<lparr>ra_setup := Some progress\<rparr>)
             | Inl e \<Rightarrow> ((BadRequest, []), a))
          else if state = Some STATE_M3 then
            (let a' = a\<lparr>ra_setup := None\<rparr> in
             case ra_setup a of
               Some (AwaitingM3 server) \<Rightarrow>
                 (case handle_setup_m3 P server payload of
                    Inr (m4, Some session_key) \<Rightarrow>
                      ((Changed, m4), a'\<lparr>ra_setup := Some (AwaitingM5 session_key)\<rparr>)
                  | Inr (m4, None) \<Rightarrow> ((Changed, m4), a')
                  | Inl e \<Rightarrow> ((BadRequest, []), a'))
             | _ \<Rightarrow> ((BadRequest, []), a'))
          else if state = Some STATE_M5 then
            (let a' = a\<lparr>ra_setup := None\<rparr> in
             case ra_setup a of
               Some (AwaitingM5 session_key) \<Rightarrow>
                 (case handle_setup_m5 P session_key (ra_keypair a) (ra_pairing_id a) payload of
                    Inr (m6, Some (cid, cltpk)) \<Rightarrow> ((Changed, m6), provision_controller a' cid cltpk)
                  | Inr (m6, None) \<Rightarrow> ((Changed, m6), a')
                  | Inl e \<Rightarrow> ((BadRequest, []), a'))
             | _ \<Rightarrow> ((BadRequest, []), a'))
          else ((BadRequest, []), a))"

definition dut_pair_verify ::
    "prims \<Rightarrow> dut_rng \<Rightarrow> ReferenceAccessory \<Rightarrow> bytes \<Rightarrow> reply \<times> ReferenceAccessory" where
  "dut_pair_verify P rng a payload =
     (let state = request_state payload in
      if state = Some STATE_M1 then
        (case handle_m1 P (ra_keypair a) (ra_pairing_id a) (rng_eph rng) payload of
           Inr (m2, progress) \<Rightarrow> ((Changed, m2), a\<lparr>ra_verify := Some progress\<rparr>)
         | Inl e \<Rightarrow> ((BadRequest, []), a))
      else if state = Some STATE_M3 then
        (let a' = a\<lparr>ra_verify := None\<rparr> in
         case (ra_verify a, ra_controller a) of
           (Some progress, Some (cid, cltpk)) \<Rightarrow>
             (case handle_m3 P progress cid cltpk payload of
                Inr (m4, maybe_session) \<Rightarrow>
                  ((Changed, m4),
                   (case maybe_session of Some sess \<Rightarrow> a'\<lparr>ra_session := Some sess\<rparr> | None \<Rightarrow> a'))
              | Inl e \<Rightarrow> ((BadRequest, []), a'))
         | _ \<Rightarrow> ((BadRequest, []), a'))
      else ((BadRequest, []), a))"

definition handle_char :: "ReferenceAccessory \<Rightarrow> PduRequest \<Rightarrow> bytes \<times> ReferenceAccessory" where
  "handle_char a req =
     (if rq_opcode req = OP_READ_DATABASE then
        (encode_response (rq_tid req) STATUS_SUCCESS synthetic_database, a)
      else if rq_iid req \<noteq> ON_IID then (encode_response (rq_tid req) STATUS_INVALID_INSTANCE_ID [], a)
      else if rq_opcode req = OP_CHAR_READ then
        (encode_response (rq_tid req) STATUS_SUCCESS (value_body [if ra_on a then 1 else 0]), a)
      else if rq_opcode req = OP_CHAR_WRITE then
        (case extract_value (rq_body req) of
           Inr v \<Rightarrow>
             let on = (case v of [] \<Rightarrow> False | b # _ \<Rightarrow> b \<noteq> 0) in
             (encode_response (rq_tid req) STATUS_SUCCESS [],
              a\<lparr>ra_on := on, ra_actuator := ra_actuator a @ [on]\<rparr>)
         | Inl e \<Rightarrow> (encode_response (rq_tid req) STATUS_UNSUPPORTED [], a))
      else if rq_opcode req = OP_SUBSCRIBE then
        (encode_response (rq_tid req) STATUS_SUCCESS [],
         a\<lparr>ra_subscriptions := insert (rq_iid req) (ra_subscriptions a)\<rparr>)
      else if rq_opcode req = OP_UNSUBSCRIBE then
        (encode_response (rq_tid req) STATUS_SUCCESS [],
         a\<lparr>ra_subscriptions := ra_subscriptions a - {rq_iid req}\<rparr>)
      else (encode_response (rq_tid req) STATUS_UNSUPPORTED [], a))"

fun handle_chars :: "ReferenceAccessory \<Rightarrow> PduRequest list \<Rightarrow> bytes \<times> ReferenceAccessory" where
  "handle_chars a [] = ([], a)"
| "handle_chars a (req # reqs) =
     (let (r, a') = handle_char a req; (rs, a'') = handle_chars a' reqs in (r @ rs, a''))"

definition secure_pdu :: "prims \<Rightarrow> ReferenceAccessory \<Rightarrow> bytes \<Rightarrow> reply \<times> ReferenceAccessory" where
  "secure_pdu P a payload =
     (case ra_session a of
        None \<Rightarrow> ((Unauthorized, []), a)
      | Some session \<Rightarrow>
          (case open_request P session payload of
             (Inl e, session') \<Rightarrow> ((Unauthorized, []), a\<lparr>ra_session := Some session'\<rparr>)
           | (Inr plaintext, session') \<Rightarrow>
               (case decode_requests plaintext of
                  Inl e \<Rightarrow> ((BadRequest, []), a\<lparr>ra_session := Some session'\<rparr>)
                | Inr requests \<Rightarrow>
                    let (responses, a') = handle_chars a requests in
                    (case seal_response P session' responses of
                       (Inr sealed, session'') \<Rightarrow> ((Changed, sealed), a'\<lparr>ra_session := Some session''\<rparr>)
                     | (Inl e, session'') \<Rightarrow>
                         ((InternalServerError, []), a'\<lparr>ra_session := Some session''\<rparr>)))))"

definition dut_handle ::
    "prims \<Rightarrow> dut_rng \<Rightarrow> ReferenceAccessory \<Rightarrow> str \<Rightarrow> bytes \<Rightarrow> reply \<times> ReferenceAccessory" where
  "dut_handle P rng a path payload =
     (if path = PATH_IDENTIFY then ((Changed, []), a)
      else if path = PATH_PAIR_VERIFY then dut_pair_verify P rng a payload
      else if path = PATH_PAIR_SETUP then dut_pair_setup P rng a payload
      else if path = PATH_SECURE then secure_pdu P a payload
      else ((NotFound, []), a))"

lemma dut_handle_paths:
  "dut_handle P rng a PATH_SECURE payload = secure_pdu P a payload"
  "dut_handle P rng a PATH_PAIR_VERIFY payload = dut_pair_verify P rng a payload"
  "dut_handle P rng a PATH_PAIR_SETUP payload = dut_pair_setup P rng a payload"
  by (simp_all add: dut_handle_def coap_paths ascii_def)

section \<open>Serving datagrams\<close>

text \<open>Each sender returns the packets put on the socket for the peer.\<close>

definition send_block ::
    "coap_lib \<Rightarrow> ReferenceAccessory \<Rightarrow> u16 \<Rightarrow> bytes \<Rightarrow> ResponseType \<Rightarrow> bytes \<Rightarrow> nat \<Rightarrow> nat \<Rightarrow>
     Packet list \<times> ReferenceAccessory" where
  "send_block L a message_id token code full num bs =
     (let st = min (min (num * bs) usize_max) (length full);
          en = min (min (st + bs) usize_max) (length full);
          more_bit = en < length full;
          resp = Packet_new\<lparr>pk_type := Acknowledgement, pk_code := ResponseCode code, pk_mid := message_id,
                   pk_token := token, pk_block2 := cl_block L num more_bit bs, pk_payload := slice full st en\<rparr> in
      ([resp], if more_bit then a else a\<lparr>ra_block_cache := None\<rparr>))"

definition serve_cached_block ::
    "coap_lib \<Rightarrow> ReferenceAccessory \<Rightarrow> address \<Rightarrow> Packet \<Rightarrow> u16 \<Rightarrow> Packet list \<times> ReferenceAccessory" where
  "serve_cached_block L a peer req num =
     (case ra_blockwise a of
        None \<Rightarrow> ([], a)
      | Some bs \<Rightarrow>
          (case ra_block_cache a of
             None \<Rightarrow> ([], a)
           | Some b \<Rightarrow>
               if br_peer b \<noteq> peer then ([], a)
               else send_block L a (pk_mid req) (pk_token req) (br_code b) (br_payload b) (unat num) bs))"

definition send_response ::
    "coap_lib \<Rightarrow> ReferenceAccessory \<Rightarrow> address \<Rightarrow> Packet \<Rightarrow> ResponseType \<Rightarrow> bytes \<Rightarrow>
     Packet list \<times> ReferenceAccessory" where
  "send_response L a peer req code payload =
     (let token = pk_token req;
          plain_response =
            (if ra_slow a then
               ([empty_ack (pk_mid req),
                 Packet_new\<lparr>pk_type := Confirmable, pk_code := ResponseCode code, pk_mid := ra_next_mid a,
                   pk_token := token, pk_payload := payload\<rparr>],
                a\<lparr>ra_next_mid := ra_next_mid a + 1\<rparr>)
             else
               ([Packet_new\<lparr>pk_type := Acknowledgement, pk_code := ResponseCode code, pk_mid := pk_mid req,
                   pk_token := token, pk_payload := payload\<rparr>], a)) in
      case ra_blockwise a of
        None \<Rightarrow> plain_response
      | Some bs \<Rightarrow>
          if length payload > bs then
            send_block L (a\<lparr>ra_block_cache := Some \<lparr>br_peer = peer, br_code = code, br_payload = payload\<rparr>\<rparr>)
              (pk_mid req) token code payload 0 bs
          else plain_response)"

definition requested_block :: "Packet \<Rightarrow> u16 option" where
  "requested_block req = map_option bv_num (pk_block2 req)"

text \<open>The body of the serve loop for one decoded datagram.\<close>

definition serve_datagram ::
    "prims \<Rightarrow> coap_lib \<Rightarrow> dut_rng \<Rightarrow> ReferenceAccessory \<Rightarrow> address \<Rightarrow> Packet \<Rightarrow>
     Packet list \<times> ReferenceAccessory" where
  "serve_datagram P L rng a peer req =
     (if pk_type req = Acknowledgement then ([], a)
      else
        let a' = a\<lparr>ra_peer := Some peer\<rparr>;
            continuation =
              (if ra_blockwise a' \<noteq> None
               then (case requested_block req of Some num \<Rightarrow> if num > 0 then Some num else None | None \<Rightarrow> None)
               else None) in
        case continuation of
          Some num \<Rightarrow> serve_cached_block L a' peer req num
        | None \<Rightarrow>
            let path = (case pk_path req of None \<Rightarrow> [] | Some v \<Rightarrow> utf8_lossy v);
                ((code, payload), a'') = dut_handle P rng a' path (pk_payload req) in
            send_response L a'' peer req code payload)"

text \<open>The event a sensor change pushes: whether a PUT was sent, and the PUT.\<close>

definition event_record :: "u16 \<Rightarrow> bytes \<Rightarrow> u16 \<Rightarrow> bytes" where
  "event_record iid body len = 0 # u16_to_le iid @ u16_to_le len @ body"

definition push_event ::
    "prims \<Rightarrow> ReferenceAccessory \<Rightarrow> u16 \<Rightarrow> bytes \<Rightarrow>
     (DutError + (address \<times> Packet) option) \<times> ReferenceAccessory" where
  "push_event P a iid v =
     (if iid \<notin> ra_subscriptions a then (Inr None, a)
      else if \<not> ra_socket a then (Inr None, a)
      else
        case ra_peer a of
          None \<Rightarrow> (Inr None, a)
        | Some peer \<Rightarrow>
            let body = value_body v in
            (case try_u16 (length body) of
               None \<Rightarrow> (Inr None, a)
             | Some len \<Rightarrow>
                 (case ra_session a of
                    None \<Rightarrow> (Inr None, a)
                  | Some session \<Rightarrow>
                      (case seal_event P session (event_record iid body len) of
                         (Inl e, session') \<Rightarrow> (Inl e, a\<lparr>ra_session := Some session'\<rparr>)
                       | (Inr sealed, session') \<Rightarrow>
                           (Inr (Some (peer, Packet_new\<lparr>pk_type := Confirmable, pk_code := RequestCode Put,
                              pk_mid := ra_next_mid a, pk_token := u16_to_be (ra_next_mid a + 1),
                              pk_payload := sealed\<rparr>)),
                            a\<lparr>ra_session := Some session', ra_next_mid := ra_next_mid a + 2\<rparr>)))))"

section \<open>What a request can change\<close>

text \<open>The accessory's observable light: the characteristic, the actuator and the subscriptions.\<close>

definition light :: "ReferenceAccessory \<Rightarrow> bool \<times> bool list \<times> u16 set" where
  "light a = (ra_on a, ra_actuator a, ra_subscriptions a)"

text \<open>What one request of a decrypted payload does to it.\<close>

definition light_request :: "bool \<times> bool list \<times> u16 set \<Rightarrow> PduRequest \<Rightarrow> bool \<times> bool list \<times> u16 set" where
  "light_request l req =
     (let (on, log, subs) = l in
      if rq_opcode req = OP_READ_DATABASE \<or> rq_iid req \<noteq> ON_IID then l
      else if rq_opcode req = OP_CHAR_WRITE then
        (case extract_value (rq_body req) of
           Inr v \<Rightarrow> let new = (v \<noteq> [] \<and> hd v \<noteq> 0) in (new, log @ [new], subs)
         | Inl _ \<Rightarrow> l)
      else if rq_opcode req = OP_SUBSCRIBE then (on, log, insert (rq_iid req) subs)
      else if rq_opcode req = OP_UNSUBSCRIBE then (on, log, subs - {rq_iid req})
      else l)"

text \<open>The messages that grant something.  An M3 of Pair Verify carries, sealed under the key of the exchange,
  the controller's identifier and its signature over both ephemeral keys; the exchange was opened by
  an M1 with the controller's ephemeral key.  An M3 of Pair Setup carries the SRP proof for the
  accessory's own setup code, and an M5, sealed under the SRP session key, the new controller's identifier
  and key with a signature by that key.\<close>

definition verify_opened :: "prims \<Rightarrow> dut_rng \<Rightarrow> bytes \<Rightarrow> VerifyInProgress \<Rightarrow> bool" where
  "verify_opened P rng payload progress \<longleftrightarrow>
     (\<exists>m pk. Tlv8Map_parse payload = Inr m \<and> Tlv8Map_get m PUBLIC_KEY = Some pk \<and> length pk = 32 \<and>
        vp_controller_eph_pub progress = pk \<and> vp_accessory_eph_pub progress = x25519_public P (rng_eph rng) \<and>
        vp_shared progress = diffie_hellman P (from_secret P (rng_eph rng)) pk \<and>
        hkdf32 P (vp_shared progress) dut_PV_ENCRYPT_SALT dut_PV_ENCRYPT_INFO = Inr (vp_key progress))"

definition verify_signed :: "prims \<Rightarrow> VerifyInProgress \<Rightarrow> str \<Rightarrow> bytes \<Rightarrow> bytes \<Rightarrow> bool" where
  "verify_signed P progress cid cltpk payload \<longleftrightarrow>
     (\<exists>m enc pt sub sig. Tlv8Map_parse payload = Inr m \<and> Tlv8Map_get m ENCRYPTED_DATA = Some enc \<and>
        chacha20poly1305_open P (vp_key progress) (nonce_label NONCE_PV_M3) [] enc = Inr pt \<and>
        Tlv8Map_parse pt = Inr sub \<and> Tlv8Map_get sub IDENTIFIER = Some cid \<and> Tlv8Map_get sub SIGNATURE = Some sig \<and>
        verify_ed25519 P cltpk (vp_controller_eph_pub progress @ cid @ vp_accessory_eph_pub progress) sig = Inr ())"

definition session_derived :: "prims \<Rightarrow> bytes \<Rightarrow> AccessorySession \<Rightarrow> bool" where
  "session_derived P shared sess \<longleftrightarrow>
     (\<exists>rk wk ek. hkdf32 P shared dut_CONTROL_SALT dut_CONTROL_READ_INFO = Inr rk \<and>
        hkdf32 P shared dut_CONTROL_SALT dut_CONTROL_WRITE_INFO = Inr wk \<and>
        hkdf32 P shared dut_EVENT_SALT dut_EVENT_READ_INFO = Inr ek \<and> sess = AccessorySession_new rk wk ek)"

definition setup_opened :: "prims \<Rightarrow> dut_rng \<Rightarrow> str option \<Rightarrow> HapPairSetupSrpServer \<Rightarrow> bool" where
  "setup_opened P rng code server \<longleftrightarrow>
     (\<exists>setup_code salt. code = Some setup_code \<and>
        HapPairSetupSrpServer_new P setup_code (rng_salt rng) (rng_b rng) = Inr (server, salt))"

definition setup_proved :: "prims \<Rightarrow> HapPairSetupSrpServer \<Rightarrow> bytes \<Rightarrow> bytes \<Rightarrow> bool" where
  "setup_proved P server payload K \<longleftrightarrow>
     (\<exists>m a_pub proof m2. Tlv8Map_parse payload = Inr m \<and> Tlv8Map_get m PUBLIC_KEY = Some a_pub \<and>
        Tlv8Map_get m PROOF = Some proof \<and> srv_session_key P server a_pub = Inr K \<and>
        srv_verify_m1_prove_m2 P server a_pub proof = Inr m2)"

definition setup_signed :: "prims \<Rightarrow> bytes \<Rightarrow> str \<Rightarrow> bytes \<Rightarrow> bytes \<Rightarrow> bool" where
  "setup_signed P K cid cltpk payload \<longleftrightarrow>
     (\<exists>m enc key pt sub x sig. Tlv8Map_parse payload = Inr m \<and> Tlv8Map_get m ENCRYPTED_DATA = Some enc \<and>
        hkdf32 P K PS_ENCRYPT_SALT PS_ENCRYPT_INFO = Inr key \<and>
        chacha20poly1305_open P key (nonce_label NONCE_PS_M5) [] enc = Inr pt \<and> Tlv8Map_parse pt = Inr sub \<and>
        Tlv8Map_get sub IDENTIFIER = Some cid \<and> Tlv8Map_get sub PUBLIC_KEY = Some cltpk \<and> length cltpk = 32 \<and>
        Tlv8Map_get sub SIGNATURE = Some sig \<and> utf8_valid cid \<and>
        hkdf32 P K PS_CONTROLLER_SIGN_SALT PS_CONTROLLER_SIGN_INFO = Inr x \<and>
        verify_ed25519 P cltpk (x @ cid @ cltpk) sig = Inr ())"

lemma handle_m1_opened: "handle_m1 P kp aid (rng_eph rng) payload = Inr (m2, progress) \<Longrightarrow> verify_opened P rng payload progress"
  by (auto simp: handle_m1_def verify_opened_def from_secret_def result_simps Let_def try_array_def split: if_splits)

lemma handle_m3_signed:
  "handle_m3 P progress cid cltpk payload = Inr (m4, Some sess) \<Longrightarrow>
     verify_signed P progress cid cltpk payload \<and> session_derived P (vp_shared progress) sess"
  unfolding handle_m3_def verify_signed_def session_derived_def
  by (auto simp: ok_def Let_def elim!: and_then_InrE split: sum.split_asm option.split_asm if_split_asm bind_split_asm)

lemma handle_setup_m3_proved: "handle_setup_m3 P server payload = Inr (m4, Some K) \<Longrightarrow> setup_proved P server payload K"
  unfolding handle_setup_m3_def setup_proved_def
  by (auto elim!: and_then_InrE split: sum.split_asm)

lemma handle_setup_m5_signed:
  "handle_setup_m5 P K kp aid payload = Inr (m6, Some (cid, cltpk)) \<Longrightarrow> setup_signed P K cid cltpk payload"
  unfolding handle_setup_m5_def setup_signed_def
  by (auto simp: ok_def Let_def elim!: and_then_InrE split: sum.split_asm option.split_asm if_split_asm bind_split_asm)

lemma dut_pair_setup_frame:
  "dut_pair_setup P rng a payload = (r, a') \<Longrightarrow>
     light a' = light a \<and> ra_session a' = ra_session a \<and> ra_setup_code a' = ra_setup_code a \<and>
     ra_keypair a' = ra_keypair a \<and> ra_pairing_id a' = ra_pairing_id a"
  by (auto simp: dut_pair_setup_def light_def provision_controller_def Let_def
      split: option.splits if_splits sum.splits SetupInProgress.splits)

lemma dut_pair_setup_controller:
  assumes "dut_pair_setup P rng a payload = (r, a')" and "ra_controller a' \<noteq> ra_controller a"
  shows "\<exists>K cid cltpk. ra_setup a = Some (AwaitingM5 K) \<and> ra_controller a' = Some (cid, cltpk) \<and> setup_signed P K cid cltpk payload"
proof -
  obtain K cid cltpk m6 where "ra_setup a = Some (AwaitingM5 K)" "ra_controller a' = Some (cid, cltpk)"
      "handle_setup_m5 P K (ra_keypair a) (ra_pairing_id a) payload = Inr (m6, Some (cid, cltpk))"
    using assms by (auto simp: dut_pair_setup_def provision_controller_def Let_def
        split: option.splits if_splits sum.splits SetupInProgress.splits)
  then show ?thesis using handle_setup_m5_signed by blast
qed

lemma dut_pair_setup_awaits:
  assumes "dut_pair_setup P rng a payload = (r, a')" and "ra_setup a' \<noteq> ra_setup a"
  shows "ra_setup a' = Some (AwaitingM5 K) \<Longrightarrow> \<exists>server. ra_setup a = Some (AwaitingM3 server) \<and> setup_proved P server payload K"
    and "ra_setup a' = Some (AwaitingM3 server) \<Longrightarrow> setup_opened P rng (ra_setup_code a) server"
proof -
  assume "ra_setup a' = Some (AwaitingM5 K)"
  then obtain server m4 where "ra_setup a = Some (AwaitingM3 server)" "handle_setup_m3 P server payload = Inr (m4, Some K)"
    using assms by (auto simp: dut_pair_setup_def handle_setup_m1_def provision_controller_def Let_def result_simps
        split: option.splits if_splits sum.splits SetupInProgress.splits)
  then show "\<exists>server. ra_setup a = Some (AwaitingM3 server) \<and> setup_proved P server payload K"
    using handle_setup_m3_proved by blast
next
  assume "ra_setup a' = Some (AwaitingM3 server)"
  then show "setup_opened P rng (ra_setup_code a) server"
    using assms by (auto simp: dut_pair_setup_def handle_setup_m1_def setup_opened_def provision_controller_def Let_def result_simps
        split: option.splits if_splits sum.splits SetupInProgress.splits)
qed

lemma dut_pair_setup_verify: "dut_pair_setup P rng a payload = (r, a') \<Longrightarrow> ra_verify a' = ra_verify a"
  by (auto simp: dut_pair_setup_def provision_controller_def Let_def
      split: option.splits if_splits sum.splits SetupInProgress.splits)

lemma dut_pair_verify_frame:
  "dut_pair_verify P rng a payload = (r, a') \<Longrightarrow>
     light a' = light a \<and> ra_controller a' = ra_controller a \<and> ra_setup_code a' = ra_setup_code a \<and>
     ra_setup a' = ra_setup a \<and> ra_keypair a' = ra_keypair a \<and> ra_pairing_id a' = ra_pairing_id a"
  by (auto simp: dut_pair_verify_def light_def Let_def split: option.splits if_splits sum.splits)

lemma dut_pair_verify_session:
  assumes "dut_pair_verify P rng a payload = (r, a')" and "ra_session a' \<noteq> ra_session a"
  shows "\<exists>progress cid cltpk sess. ra_verify a = Some progress \<and> ra_controller a = Some (cid, cltpk) \<and>
     verify_signed P progress cid cltpk payload \<and> ra_session a' = Some sess \<and> session_derived P (vp_shared progress) sess"
proof -
  obtain progress cid cltpk m4 sess where "ra_verify a = Some progress" "ra_controller a = Some (cid, cltpk)"
      "handle_m3 P progress cid cltpk payload = Inr (m4, Some sess)" "ra_session a' = Some sess"
    using assms by (auto simp: dut_pair_verify_def Let_def split: option.splits if_splits sum.splits)
  then show ?thesis using handle_m3_signed by blast
qed

lemma dut_pair_verify_opened:
  assumes "dut_pair_verify P rng a payload = (r, a')" and "ra_verify a' = Some progress" and "ra_verify a' \<noteq> ra_verify a"
  shows "verify_opened P rng payload progress"
  using assms handle_m1_opened
  by (auto simp: dut_pair_verify_def Let_def split: option.splits if_splits sum.splits)

lemma handle_chars_frame:
  "handle_chars a reqs = (r, a') \<Longrightarrow>
     ra_session a' = ra_session a \<and> ra_controller a' = ra_controller a \<and> ra_setup_code a' = ra_setup_code a \<and>
     ra_setup a' = ra_setup a \<and> ra_verify a' = ra_verify a \<and> ra_keypair a' = ra_keypair a \<and>
     ra_pairing_id a' = ra_pairing_id a"
proof (induction reqs arbitrary: a r)
  case (Cons q qs)
  have "ra_session (snd (handle_char a q)) = ra_session a \<and> ra_controller (snd (handle_char a q)) = ra_controller a \<and>
     ra_setup_code (snd (handle_char a q)) = ra_setup_code a \<and> ra_setup (snd (handle_char a q)) = ra_setup a \<and>
     ra_verify (snd (handle_char a q)) = ra_verify a \<and> ra_keypair (snd (handle_char a q)) = ra_keypair a \<and>
     ra_pairing_id (snd (handle_char a q)) = ra_pairing_id a"
    by (auto simp: handle_char_def Let_def split: sum.splits)
  then show ?case
    using Cons.IH [of "snd (handle_char a q)" "fst (handle_chars (snd (handle_char a q)) qs)"] Cons.prems
    by (auto simp: split_beta Let_def)
qed simp

lemma secure_pdu_frame:
  "secure_pdu P a payload = (r, a') \<Longrightarrow>
     ra_controller a' = ra_controller a \<and> ra_setup_code a' = ra_setup_code a \<and> ra_setup a' = ra_setup a \<and>
     ra_verify a' = ra_verify a \<and> ra_keypair a' = ra_keypair a \<and> ra_pairing_id a' = ra_pairing_id a \<and>
     (ra_session a = None \<longrightarrow> a' = a)"
  by (auto simp: secure_pdu_def Let_def split: option.splits prod.splits sum.splits dest: handle_chars_frame)

lemma handle_chars_light: "light (snd (handle_chars a reqs)) = foldl light_request (light a) reqs"
proof (induction reqs arbitrary: a)
  case (Cons q qs)
  have "light (snd (handle_char a q)) = light_request (light a) q"
    by (auto simp: handle_char_def light_request_def light_def Let_def OP_READ_DATABASE_def OP_CHAR_READ_def OP_CHAR_WRITE_def
        OP_SUBSCRIBE_def OP_UNSUBSCRIBE_def split: sum.split list.split)
  then show ?case using Cons.IH [of "snd (handle_char a q)"] by (simp add: split_beta Let_def)
qed simp

text \<open>A request on the secure path changes something only if it opens under the session's key and at its
  counter; then it is the decoded requests that change the light, and the session goes on with the same
  keys, its receive counter moved by one and its send counter by at most one.\<close>

definition session_advanced :: "AccessorySession \<Rightarrow> AccessorySession \<Rightarrow> bool" where
  "session_advanced s s' \<longleftrightarrow>
     s' = s\<lparr>as_recv_ctr := as_recv_ctr s + 1\<rparr> \<or> s' = s\<lparr>as_recv_ctr := as_recv_ctr s + 1, as_send_ctr := as_send_ctr s + 1\<rparr>"

lemma secure_pdu_authentic:
  assumes "secure_pdu P a payload = (r, a')" and "light a' \<noteq> light a \<or> ra_session a' \<noteq> ra_session a"
  shows "\<exists>s pt s'. ra_session a = Some s \<and>
    chacha20poly1305_open P (as_write_key s) (nonce_counter (as_recv_ctr s)) [] payload = Inr pt \<and>
    ra_session a' = Some s' \<and> session_advanced s s' \<and>
    light a' = (case decode_requests pt of Inl _ \<Rightarrow> light a | Inr reqs \<Rightarrow> foldl light_request (light a) reqs)"
proof -
  obtain s where s: "ra_session a = Some s" using assms by (cases "ra_session a") (simp_all add: secure_pdu_def)
  obtain pt where pt: "chacha20poly1305_open P (as_write_key s) (nonce_counter (as_recv_ctr s)) [] payload = Inr pt"
    using assms s by (cases "chacha20poly1305_open P (as_write_key s) (nonce_counter (as_recv_ctr s)) [] payload")
      (auto simp: secure_pdu_def open_request_def light_def)
  let ?s1 = "s\<lparr>as_recv_ctr := as_recv_ctr s + 1\<rparr>"
  have op: "open_request P s payload = (Inr pt, ?s1)" using pt by (simp add: open_request_def)
  have keep: "light (x\<lparr>ra_session := y\<rparr>) = light x" for x y by (simp add: light_def)
  have seal: "session_advanced s (snd (seal_response P ?s1 out))" for out
    by (auto simp: seal_response_def session_advanced_def split: sum.split)
  show ?thesis
  proof (cases "decode_requests pt")
    case (Inl e)
    then have "a' = a\<lparr>ra_session := Some ?s1\<rparr>" using assms(1) s op by (simp add: secure_pdu_def)
    then show ?thesis using s pt Inl keep by (simp add: session_advanced_def)
  next
    case (Inr reqs)
    let ?h = "handle_chars a reqs"
    have "a' = (snd ?h)\<lparr>ra_session := Some (snd (seal_response P ?s1 (fst ?h)))\<rparr>"
      using assms(1) s op Inr by (auto simp: secure_pdu_def split_beta Let_def split: sum.splits)
    then show ?thesis using s pt Inr keep seal handle_chars_light [of a reqs] by simp
  qed
qed

section \<open>Properties\<close>

text \<open>C17. Access control of the reference accessory, for a request on any path with any payload in any state,
  hence for every step of every sequence of requests.  The light, its actuator and its subscriptions
  change only through a request that opens under the established session's key at its next counter,
  and by what its decoded requests say.  A session changes only in two ways: such a request moves its
  counters and keeps its keys; or a Pair Verify M3 installs the session derived from the shared secret
  of the exchange, its payload carrying the provisioned controller's identifier and valid signature
  over both ephemeral keys.  That exchange was opened by an M1 with the accessory's own fresh key.  A
  controller is provisioned only by a Pair Setup M5 that carries its identifier and key, signed by that
  key, sealed under the session key of a completed SRP exchange; and that exchange is completed only
  by an M3 with the proof for the accessory's setup code.\<close>

theorem dut_access_control:
  assumes "dut_handle P rng a path payload = (r, a')"
  shows "(light a' \<noteq> light a \<or> ra_session a' \<noteq> ra_session a \<longrightarrow>
       path = PATH_SECURE \<and>
         (\<exists>s pt s'. ra_session a = Some s \<and>
            chacha20poly1305_open P (as_write_key s) (nonce_counter (as_recv_ctr s)) [] payload = Inr pt \<and>
            ra_session a' = Some s' \<and> session_advanced s s' \<and>
            light a' = (case decode_requests pt of Inl _ \<Rightarrow> light a | Inr reqs \<Rightarrow> foldl light_request (light a) reqs)) \<or>
       path = PATH_PAIR_VERIFY \<and> light a' = light a \<and>
         (\<exists>progress cid cltpk sess. ra_verify a = Some progress \<and> ra_controller a = Some (cid, cltpk) \<and>
            verify_signed P progress cid cltpk payload \<and>
            ra_session a' = Some sess \<and> session_derived P (vp_shared progress) sess)) \<and>
     (\<forall>progress. ra_verify a' = Some progress \<and> ra_verify a' \<noteq> ra_verify a \<longrightarrow>
        path = PATH_PAIR_VERIFY \<and> verify_opened P rng payload progress) \<and>
     (ra_controller a' \<noteq> ra_controller a \<longrightarrow>
        path = PATH_PAIR_SETUP \<and>
          (\<exists>K cid cltpk. ra_setup a = Some (AwaitingM5 K) \<and> ra_controller a' = Some (cid, cltpk) \<and>
             setup_signed P K cid cltpk payload)) \<and>
     (\<forall>K. ra_setup a' = Some (AwaitingM5 K) \<and> ra_setup a' \<noteq> ra_setup a \<longrightarrow>
        path = PATH_PAIR_SETUP \<and> (\<exists>server. ra_setup a = Some (AwaitingM3 server) \<and> setup_proved P server payload K)) \<and>
     (\<forall>server. ra_setup a' = Some (AwaitingM3 server) \<and> ra_setup a' \<noteq> ra_setup a \<longrightarrow>
        path = PATH_PAIR_SETUP \<and> setup_opened P rng (ra_setup_code a) server)"
proof -
  consider "path = PATH_PAIR_VERIFY" "dut_pair_verify P rng a payload = (r, a')"
    | "path = PATH_PAIR_SETUP" "dut_pair_setup P rng a payload = (r, a')"
    | "path = PATH_SECURE" "secure_pdu P a payload = (r, a')" | "a' = a"
    using assms by (auto simp: dut_handle_def split: if_splits)
  then show ?thesis
  proof cases
    case 1
    then show ?thesis
      using dut_pair_verify_frame [OF 1(2)] dut_pair_verify_session [OF 1(2)] dut_pair_verify_opened [OF 1(2)] by fastforce
  next
    case 2
    then show ?thesis
      using dut_pair_setup_frame [OF 2(2)] dut_pair_setup_verify [OF 2(2)] dut_pair_setup_controller [OF 2(2)]
        dut_pair_setup_awaits [OF 2(2)] by fastforce
  next
    case 3
    then show ?thesis
      using secure_pdu_frame [OF 3(2)] secure_pdu_authentic [OF 3(2)] by simp
  qed simp
qed

text \<open>A sequence of requests.\<close>

fun dut_run :: "prims \<Rightarrow> ReferenceAccessory \<Rightarrow> (dut_rng \<times> str \<times> bytes) list \<Rightarrow> ReferenceAccessory" where
  "dut_run P a [] = a"
| "dut_run P a ((rng, path, payload) # reqs) = dut_run P (snd (dut_handle P rng a path payload)) reqs"

definition unpaired :: "ReferenceAccessory \<Rightarrow> bool" where
  "unpaired a \<longleftrightarrow> ra_controller a = None \<and> ra_session a = None \<and> ra_setup_code a = None"

lemma dut_handle_unpaired:
  assumes "unpaired a" and "dut_handle P rng a path payload = (r, a')"
  shows "unpaired a' \<and> light a' = light a"
proof -
  have "dut_pair_setup P rng a payload = ((NotFound, []), a)"
    using assms(1) by (simp add: dut_pair_setup_def unpaired_def)
  then consider "dut_pair_verify P rng a payload = (r, a')"
    | "secure_pdu P a payload = (r, a')" | "a' = a"
    using assms(2) by (auto simp: dut_handle_def split: if_splits)
  then show ?thesis
  proof cases
    case 1
    then show ?thesis
      using assms(1) dut_pair_verify_frame [OF 1] dut_pair_verify_session [OF 1]
      by (metis option.distinct(1) unpaired_def)
  next
    case 2
    then show ?thesis using assms(1) secure_pdu_frame [OF 2] by (simp add: unpaired_def)
  qed (use assms(1) in simp)
qed

text \<open>A fresh accessory without a setup code that was never provisioned is inert: no sequence of
  requests, on any paths and with any payloads, establishes a session, provisions a controller or
  touches the light.\<close>

theorem dut_unpaired_inert:
  "ra_session (dut_run P (with_actuator ident seed) reqs) = None \<and>
   ra_controller (dut_run P (with_actuator ident seed) reqs) = None \<and>
   light (dut_run P (with_actuator ident seed) reqs) = (False, [], {})"
proof -
  have "unpaired (dut_run P a reqs) \<and> light (dut_run P a reqs) = light a" if "unpaired a" for a
    using that
  proof (induction reqs arbitrary: a)
    case (Cons q reqs)
    obtain rng path payload where q: "q = (rng, path, payload)" by (metis prod.exhaust)
    obtain r a' where h: "dut_handle P rng a path payload = (r, a')" by fastforce
    show ?case using Cons.IH [of a'] dut_handle_unpaired [OF Cons.prems h] by (simp add: q h)
  qed simp
  moreover have "unpaired (with_actuator ident seed)" by (simp add: unpaired_def with_actuator_def)
  ultimately show ?thesis by (auto simp: unpaired_def light_def with_actuator_def)
qed

end
