(* ===== verification/Coap_Interop.thy ===== *)
theory Coap_Interop
  imports Reference_Accessory
begin

text \<open>
  The controller's CoAP transport against the reference accessory, datagram by datagram: plain,
  separate and block-wise responses all deliver what the accessory's handler produced.  The network
  loses nothing.  An exchange is one run of the accessory's serve loop on the request, followed by
  the controller's exchange on the packets its reader routes to that request's token.
\<close>

definition dut_exchange ::
    "prims \<Rightarrow> coap_lib \<Rightarrow> dut_rng \<Rightarrow> address \<Rightarrow> ReferenceAccessory \<Rightarrow> Packet \<Rightarrow>
     (ThreadError + Packet) \<times> ReferenceAccessory" where
  "dut_exchange P L rng peer a req =
     (let (pks, a') = serve_datagram P L rng a peer req;
          delivered = filter (\<lambda>p. route_datagram L {pk_token req} p = ToExchange (pk_token req) p) pks in
      case exchange_inner MAX_TRANSMISSIONS req (map RxPacket delivered) of
        Some (sent, r) \<Rightarrow> (r, a')
      | None \<Rightarrow> (Inl (Coap (ascii ''no CoAP response after maximum retransmissions'')), a'))"

text \<open>The fields that the serve loop itself uses; the handlers do not touch them.\<close>

definition same_core :: "ReferenceAccessory \<Rightarrow> ReferenceAccessory \<Rightarrow> bool" where
  "same_core a b \<longleftrightarrow>
     a\<lparr>ra_next_mid := 0, ra_block_cache := None\<rparr> = b\<lparr>ra_next_mid := 0, ra_block_cache := None\<rparr>"

lemma same_core_fields:
  "same_core a b \<Longrightarrow>
     ra_blockwise a = ra_blockwise b \<and> ra_peer a = ra_peer b \<and> ra_session a = ra_session b \<and> light a = light b"
  by (cases a; cases b) (simp add: same_core_def light_def)

lemma same_core_trans: "same_core a b \<Longrightarrow> same_core b c \<Longrightarrow> same_core a c"
  by (simp add: same_core_def)

lemma handle_chars_serve_fields:
  "handle_chars a reqs = (r, a') \<Longrightarrow>
     ra_slow a' = ra_slow a \<and> ra_blockwise a' = ra_blockwise a \<and> ra_peer a' = ra_peer a"
proof (induction reqs arbitrary: a r)
  case (Cons q qs)
  have "ra_slow (snd (handle_char a q)) = ra_slow a \<and> ra_blockwise (snd (handle_char a q)) = ra_blockwise a \<and>
      ra_peer (snd (handle_char a q)) = ra_peer a"
    by (auto simp: handle_char_def Let_def split: sum.splits)
  then show ?case
    using Cons.IH [of "snd (handle_char a q)" "fst (handle_chars (snd (handle_char a q)) qs)"] Cons.prems
    by (auto simp: split_beta Let_def)
qed simp

lemma dut_handle_serve_fields:
  assumes "dut_handle P rng a path payload = (r, a')"
  shows "ra_slow a' = ra_slow a \<and> ra_blockwise a' = ra_blockwise a \<and> ra_peer a' = ra_peer a"
proof -
  have "dut_pair_verify P rng a payload = (r, a') \<Longrightarrow> ?thesis"
    by (auto simp: dut_pair_verify_def Let_def split: option.splits if_splits sum.splits)
  moreover have "dut_pair_setup P rng a payload = (r, a') \<Longrightarrow> ?thesis"
    by (auto simp: dut_pair_setup_def provision_controller_def Let_def
        split: option.splits if_splits sum.splits SetupInProgress.splits)
  moreover have "secure_pdu P a payload = (r, a') \<Longrightarrow> ?thesis"
    by (auto simp: secure_pdu_def Let_def split: option.splits prod.splits sum.splits
        dest: handle_chars_serve_fields)
  ultimately show ?thesis using assms by (auto simp: dut_handle_def split: if_splits)
qed

lemma response_codes_nonzero:
  assumes "coap_laws L"
  shows "drop_bit 5 (cl_code L (ResponseCode code)) \<noteq> 0"
  using assms by (cases code) (simp_all add: coap_laws_def drop_bit_eq_div)

lemma route_response:
  assumes "coap_laws L" and "pk_code p = ResponseCode code" and "pk_token p = t"
  shows "route_datagram L {t} p = ToExchange t p"
  using assms response_codes_nonzero [OF assms(1), of code]
  by (simp add: route_datagram_def is_event_put_def Let_def)

lemma exchange_response:
  assumes "pk_code p = ResponseCode code"
  shows "\<exists>sent. exchange_inner MAX_TRANSMISSIONS req [RxPacket p] = Some (sent, Inr p)"
  using assms by (simp add: MAX_TRANSMISSIONS_def eval_nat_numeral is_empty_code_def accept_def)

text \<open>One exchange whose handler ran.\<close>

lemma dut_exchange_plain:
  assumes laws: "coap_laws L" and req: "pk_type req = Confirmable" "pk_block2 req = None" "pk_token req \<noteq> []"
    and h: "dut_handle P rng (a\<lparr>ra_peer := Some peer\<rparr>)
              (case pk_path req of None \<Rightarrow> [] | Some v \<Rightarrow> utf8_lossy v) (pk_payload req) = ((code, body), a')"
    and small: "\<And>bs. ra_blockwise a = Some bs \<Longrightarrow> length body \<le> bs"
  shows "\<exists>resp a''. dut_exchange P L rng peer a req = (Inr resp, a'') \<and> same_core a'' a' \<and>
     pk_code resp = ResponseCode code \<and> pk_block2 resp = None \<and> pk_payload resp = body"
proof -
  have f: "ra_slow a' = ra_slow a" "ra_blockwise a' = ra_blockwise a"
    using dut_handle_serve_fields [OF h] by simp_all
  have sd: "serve_datagram P L rng a peer req = send_response L a' peer req code body"
    using req h by (simp add: serve_datagram_def requested_block_def Let_def)
  let ?con = "Packet_new\<lparr>pk_type := Confirmable, pk_code := ResponseCode code, pk_mid := ra_next_mid a',
                pk_token := pk_token req, pk_payload := body\<rparr>"
  let ?ack = "Packet_new\<lparr>pk_type := Acknowledgement, pk_code := ResponseCode code, pk_mid := pk_mid req,
                pk_token := pk_token req, pk_payload := body\<rparr>"
  have nb: "\<not> (\<exists>bs. ra_blockwise a' = Some bs \<and> bs < length body)" using small f(2) by auto
  have route: "route_datagram L {pk_token req} ?con = ToExchange (pk_token req) ?con"
      "route_datagram L {pk_token req} ?ack = ToExchange (pk_token req) ?ack"
    by (rule route_response [OF laws]; simp)+
  moreover have "route_datagram L {pk_token req} (empty_ack (pk_mid req)) = Dropped"
    using req(3) by (simp add: route_datagram_def is_event_put_def empty_ack_def Packet_new_def Let_def)
  ultimately have route: "route_datagram L {pk_token req} ?con = ToExchange (pk_token req) ?con"
      "route_datagram L {pk_token req} ?ack = ToExchange (pk_token req) ?ack"
      "route_datagram L {pk_token req} (empty_ack (pk_mid req)) = Dropped" by simp_all
  show ?thesis
  proof (cases "ra_slow a")
    case True
    then have "send_response L a' peer req code body =
        ([empty_ack (pk_mid req), ?con], a'\<lparr>ra_next_mid := ra_next_mid a' + 1\<rparr>)"
      using nb f(1) by (auto simp: send_response_def Let_def split: option.splits)
    then show ?thesis
      using route sd exchange_response [of ?con code req]
      by (auto simp: dut_exchange_def same_core_def Packet_new_def)
  next
    case False
    then have "send_response L a' peer req code body = ([?ack], a')"
      using nb f(1) by (auto simp: send_response_def Let_def split: option.splits)
    then show ?thesis
      using route sd exchange_response [of ?ack code req]
      by (auto simp: dut_exchange_def same_core_def Packet_new_def)
  qed
qed

section \<open>Block-wise transfers\<close>

text \<open>Block \<open>num\<close> of a response, as the accessory sends it.\<close>

definition block_packet :: "coap_lib \<Rightarrow> ResponseType \<Rightarrow> bytes \<Rightarrow> nat \<Rightarrow> nat \<Rightarrow> Packet \<Rightarrow> bool" where
  "block_packet L code body bs num p \<longleftrightarrow>
     pk_code p = ResponseCode code \<and> pk_payload p = slice body (num * bs) (min (num * bs + bs) (length body)) \<and>
     (\<exists>b. pk_block2 p = Some b \<and> bv_num b = of_nat num \<and> bv_more b = (num * bs + bs < length body) \<and>
          16 \<le> bv_size b \<and> bv_size b \<le> bs)"

definition block_bounds :: "nat \<Rightarrow> bytes \<Rightarrow> bool" where
  "block_bounds bs body \<longleftrightarrow> 16 \<le> bs \<and> bs \<le> 1024 \<and> length body \<le> 1024 * bs"

lemma block_count:
  assumes "block_bounds bs body" and "num * bs < length body"
  shows "num < 1024"
proof -
  have "num * bs < 1024 * bs"
    using assms unfolding block_bounds_def by (meson less_le_trans)
  then show ?thesis by (metis mult_less_cancel2)
qed

lemma coap_block_value:
  assumes "coap_laws L" and "num < 65536" "16 \<le> sz" "sz \<le> 1024"
  obtains b where "cl_block L num m sz = Some b" "bv_num b = of_nat num" "bv_more b = m"
    "16 \<le> bv_size b" "bv_size b \<le> sz"
  using assms unfolding coap_laws_def by meson

lemma send_block_packet:
  assumes "coap_laws L" and "block_bounds bs body" and "num * bs < length body"
  shows "\<exists>p. send_block L a mid token code body num bs =
      ([p], if num * bs + bs < length body then a else a\<lparr>ra_block_cache := None\<rparr>) \<and>
      block_packet L code body bs num p \<and> pk_token p = token"
proof -
  have num: "num < 1024" by (rule block_count [OF assms(2,3)])
  obtain b where b: "cl_block L num (num * bs + bs < length body) bs = Some b" "bv_num b = of_nat num"
      "bv_more b = (num * bs + bs < length body)" "16 \<le> bv_size b" "bv_size b \<le> bs"
    by (rule coap_block_value [OF assms(1), of num bs "num * bs + bs < length body"])
      (use assms(2) num in \<open>auto simp: block_bounds_def\<close>)
  have "length body \<le> 1048576" using assms(2) by (simp add: block_bounds_def)
  then have st: "min (min (num * bs) usize_max) (length body) = num * bs"
      "min (min (num * bs + bs) usize_max) (length body) = min (num * bs + bs) (length body)"
    using assms(2,3) by (simp_all add: usize_max_def block_bounds_def)
  have more_bit: "(min (num * bs + bs) (length body) < length body) = (num * bs + bs < length body)" by auto
  show ?thesis
    unfolding send_block_def block_packet_def
    by (simp add: st more_bit b Let_def Packet_new_def)
qed

lemma dut_exchange_block:
  assumes laws: "coap_laws L" and bnd: "block_bounds bs body" and num: "0 < num" "num * bs < length body"
    and a: "ra_blockwise a = Some bs" "ra_block_cache a = Some \<lparr>br_peer = peer, br_code = code, br_payload = body\<rparr>"
    and req: "pk_type req = Confirmable" "pk_block2 req = Some rb" "bv_num rb = of_nat num"
  shows "\<exists>p a'. dut_exchange P L rng peer a req = (Inr p, a') \<and> block_packet L code body bs num p \<and>
      (num * bs + bs < length body \<longrightarrow> a' = a\<lparr>ra_peer := Some peer\<rparr>) \<and> same_core a' (a\<lparr>ra_peer := Some peer\<rparr>)"
proof -
  have n: "num < 1024" by (rule block_count [OF bnd num(2)])
  then have un: "unat (of_nat num :: u16) = num" by (simp add: unat_of_nat)
  then have pos: "(of_nat num :: u16) > 0" using num(1) by (simp add: word_less_nat_alt)
  obtain p where p: "send_block L (a\<lparr>ra_peer := Some peer\<rparr>) (pk_mid req) (pk_token req) code body num bs =
      ([p], if num * bs + bs < length body then a\<lparr>ra_peer := Some peer\<rparr>
            else a\<lparr>ra_peer := Some peer, ra_block_cache := None\<rparr>)"
      "block_packet L code body bs num p" "pk_token p = pk_token req"
    using send_block_packet [OF laws bnd num(2), of "a\<lparr>ra_peer := Some peer\<rparr>" "pk_mid req" "pk_token req" code]
    by (elim exE conjE) simp
  have sd: "serve_datagram P L rng a peer req =
      ([p], if num * bs + bs < length body then a\<lparr>ra_peer := Some peer\<rparr>
            else a\<lparr>ra_peer := Some peer, ra_block_cache := None\<rparr>)"
    using a req pos un p(1) by (simp add: serve_datagram_def requested_block_def serve_cached_block_def Let_def)
  have pc: "pk_code p = ResponseCode code" using p(2) by (simp add: block_packet_def)
  show ?thesis
    using sd p(2) route_response [OF laws pc p(3)] exchange_response [OF pc, of req]
    by (auto simp: dut_exchange_def same_core_def)
qed

lemma slice_next:
  assumes "n * bs \<le> length body"
  shows "take (n * bs) body @ slice body (n * bs) (min (n * bs + bs) (length body)) = take (n * bs + bs) body"
  using assms by (simp add: slice_def take_add min_def)

definition code_pair :: "coap_lib \<Rightarrow> ResponseType \<Rightarrow> u8 \<times> u8" where
  "code_pair L code =
     (drop_bit 5 (cl_code L (ResponseCode code)), cl_code L (ResponseCode code) AND 0x1F)"

lemma split_code_response: "pk_code p = ResponseCode code \<Longrightarrow> split_code L p = code_pair L code"
  by (simp add: split_code_def code_pair_def Let_def)

text \<open>After \<open>n\<close> blocks the controller holds the first \<open>n * bs\<close> bytes and fetches the rest.\<close>

lemma post_blocks_reassembles:
  assumes laws: "coap_laws L" and bnd: "block_bounds bs body" and sz: "16 \<le> sz" "sz \<le> 1024"
    and "0 < n" and "n + left = 1024" and "full = take (n * bs) body"
    and "bv_num b = of_nat (n - 1)" "bv_more b = (n * bs < length body)"
    and "ra_blockwise a = Some bs" "ra_peer a = Some peer"
      "n * bs < length body \<longrightarrow> ra_block_cache a = Some \<lparr>br_peer = peer, br_code = code, br_payload = body\<rparr>"
  shows "\<exists>next' a'. post_blocks L (dut_exchange P L rng peer) path sz left next a (code_pair L code) full b =
      (Inr \<lparr>cr_code = code_pair L code, cr_payload = body\<rparr>, next', a') \<and> same_core a' a"
  using assms(5-12)
proof (induction left arbitrary: n full b a "next")
  case 0
  then have "\<not> n * bs < length body" using bnd by (simp add: block_bounds_def)
  then show ?case using 0 by (simp add: post_blocks.simps same_core_def)
next
  case (Suc left)
  show ?case
  proof (cases "n * bs < length body")
    case False
    then show ?thesis using Suc.prems by (simp add: post_blocks.simps same_core_def)
  next
    case True
    have "unat (of_nat (n - 1) :: u16) = n - 1"
      using Suc.prems(2) unfolding unat_of_nat by (intro mod_less) simp
    then have un: "unat (bv_num b) + 1 = n" using Suc.prems(1) by (simp only: Suc.prems(4))
    obtain rb where rb: "cl_block L n False sz = Some rb" "bv_num rb = of_nat n"
      by (rule coap_block_value [OF laws, of n sz False]) (use Suc.prems(2) sz in auto)
    obtain req next' where req: "frame (next + 1) path [] (u16_to_be next) = (req, next')"
        "pk_type req = Confirmable"
      by (simp add: frame_def Packet_new_def)
    let ?req = "req\<lparr>pk_block2 := Some rb\<rparr>"
    obtain p a1 where p: "dut_exchange P L rng peer a ?req = (Inr p, a1)" "block_packet L code body bs n p"
        "n * bs + bs < length body \<longrightarrow> a1 = a\<lparr>ra_peer := Some peer\<rparr>" "same_core a1 (a\<lparr>ra_peer := Some peer\<rparr>)"
      using dut_exchange_block [OF laws bnd Suc.prems(1) True Suc.prems(6), of peer code ?req rb P rng]
        Suc.prems(8) True req(2) rb(2) by auto
    have aa: "a\<lparr>ra_peer := Some peer\<rparr> = a" using Suc.prems(7) by simp
    obtain b' where b': "pk_block2 p = Some b'" "bv_num b' = of_nat n" "bv_more b' = (Suc n * bs < length body)"
        "pk_payload p = slice body (n * bs) (min (n * bs + bs) (length body))"
      using p(2) by (auto simp: block_packet_def add.commute)
    have "post_blocks L (dut_exchange P L rng peer) path sz (Suc left) next a (code_pair L code) full b =
        post_blocks L (dut_exchange P L rng peer) path sz left next' a1 (code_pair L code)
          (take (Suc n * bs) body) b'"
      using True Suc.prems(3,5) un rb req p(1,2) b' slice_next [of n bs body] split_code_response [of p code L]
      by (subst post_blocks.simps) (simp add: block_packet_def add.commute)
    moreover have "ra_blockwise a1 = Some bs" "ra_peer a1 = Some peer"
      using same_core_fields [OF p(4)] Suc.prems(6,7) by simp_all
    ultimately show ?thesis
      using Suc.IH [of "Suc n" "take (Suc n * bs) body" b' a1 next'] Suc.prems(2,8) b' p(3,4) aa True
      by (auto simp: same_core_def add.commute)
  qed
qed

lemma u16_to_be_not_Nil [simp]: "u16_to_be v \<noteq> []"
  using length_to_le(1) [of v] by (auto simp: u16_to_be_def simp del: length_to_le)

lemma dut_exchange_first_block:
  assumes laws: "coap_laws L" and req: "pk_type req = Confirmable" "pk_block2 req = None" "pk_token req \<noteq> []"
    and h: "dut_handle P rng (a\<lparr>ra_peer := Some peer\<rparr>)
              (case pk_path req of None \<Rightarrow> [] | Some v \<Rightarrow> utf8_lossy v) (pk_payload req) = ((code, body), a')"
    and big: "ra_blockwise a = Some bs" "bs < length body" "block_bounds bs body"
  shows "\<exists>resp. dut_exchange P L rng peer a req =
       (Inr resp, a'\<lparr>ra_block_cache := Some \<lparr>br_peer = peer, br_code = code, br_payload = body\<rparr>\<rparr>) \<and>
     block_packet L code body bs 0 resp"
proof -
  have bw: "ra_blockwise a' = Some bs" using dut_handle_serve_fields [OF h] big(1) by simp
  have sd: "serve_datagram P L rng a peer req = send_response L a' peer req code body"
    using req h by (simp add: serve_datagram_def requested_block_def Let_def)
  let ?a = "a'\<lparr>ra_block_cache := Some \<lparr>br_peer = peer, br_code = code, br_payload = body\<rparr>\<rparr>"
  have pos: "0 * bs < length body" using big(2) by (cases body) simp_all
  obtain p where p: "send_block L ?a (pk_mid req) (pk_token req) code body 0 bs = ([p], ?a)"
      "block_packet L code body bs 0 p" "pk_token p = pk_token req"
    using send_block_packet [OF laws big(3) pos, of ?a "pk_mid req" "pk_token req" code] big(2)
    by (elim exE conjE) simp
  have pc: "pk_code p = ResponseCode code" using p(2) by (simp add: block_packet_def)
  have "send_response L a' peer req code body = ([p], ?a)"
    using bw big(2) p(1) by (simp add: send_response_def)
  then show ?thesis
    using sd p(2) route_response [OF laws pc p(3)] exchange_response [OF pc, of req]
    by (auto simp: dut_exchange_def)
qed

text \<open>C22. A POST through the controller's CoAP transport returns exactly the code and the payload that
  the accessory's handler produced, in each of its framings: piggy-backed, as a separate
  confirmable response after an empty acknowledgement, and block-wise, where up to 1024 blocks of
  16 to 1024 bytes are fetched one by one and joined without the handler running again.\<close>

theorem coap_post_delivers:
  assumes "coap_laws L" and "utf8_lossy path = path"
    and "dut_handle P rng (a\<lparr>ra_peer := Some peer\<rparr>) path payload = ((code, body), a')"
    and "\<And>bs. ra_blockwise a = Some bs \<Longrightarrow> block_bounds bs body"
  shows "\<exists>next' a''. udp_post L (dut_exchange P L rng peer) (next, a) path payload =
      (Inr \<lparr>cr_code = code_pair L code, cr_payload = body\<rparr>, next', a'') \<and> same_core a'' a'"
proof -
  obtain req token next' where b: "build_post next path payload = ((req, token), next')" by (metis prod.exhaust)
  then have req: "pk_type req = Confirmable" "pk_block2 req = None" "pk_token req \<noteq> []" "pk_payload req = payload"
      "(case pk_path req of None \<Rightarrow> [] | Some v \<Rightarrow> utf8_lossy v) = path"
    using assms(2) by (auto simp: build_post_def frame_def Packet_new_def Let_def)
  have h: "dut_handle P rng (a\<lparr>ra_peer := Some peer\<rparr>)
      (case pk_path req of None \<Rightarrow> [] | Some v \<Rightarrow> utf8_lossy v) (pk_payload req) = ((code, body), a')"
    using assms(3) req(4,5) by simp
  show ?thesis
  proof (cases "\<exists>bs. ra_blockwise a = Some bs \<and> bs < length body")
    case False
    then obtain resp a'' where "dut_exchange P L rng peer a req = (Inr resp, a'')" "same_core a'' a'"
        "pk_code resp = ResponseCode code" "pk_block2 resp = None" "pk_payload resp = body"
      using dut_exchange_plain [OF assms(1) req(1-3) h] by fastforce
    then show ?thesis by (simp add: udp_post_def b split_code_response)
  next
    case True
    then obtain bs where bs: "ra_blockwise a = Some bs" "bs < length body" by blast
    note bnd = assms(4) [OF bs(1)]
    let ?a = "a'\<lparr>ra_block_cache := Some \<lparr>br_peer = peer, br_code = code, br_payload = body\<rparr>\<rparr>"
    obtain resp where r: "dut_exchange P L rng peer a req = (Inr resp, ?a)" "block_packet L code body bs 0 resp"
      using dut_exchange_first_block [OF assms(1) req(1-3) h bs bnd] by blast
    then obtain blk where blk: "pk_block2 resp = Some blk" "bv_num blk = 0" "bv_more blk" "16 \<le> bv_size blk"
        "bv_size blk \<le> bs" "pk_payload resp = take (1 * bs) body" "pk_code resp = ResponseCode code"
      using bs(2) by (auto simp: block_packet_def slice_def)
    have "ra_peer a' = Some peer" "ra_blockwise a' = Some bs"
      using dut_handle_serve_fields [OF assms(3)] bs(1) by simp_all
    then obtain next'' a'' where "post_blocks L (dut_exchange P L rng peer) path (bv_size blk) 1023 next' ?a
        (code_pair L code) (take (1 * bs) body) blk =
        (Inr \<lparr>cr_code = code_pair L code, cr_payload = body\<rparr>, next'', a'')" "same_core a'' ?a"
      using post_blocks_reassembles [OF assms(1) bnd, of "bv_size blk" 1 1023 "take (1 * bs) body" blk ?a peer code P rng path next']
        blk(2-5) bs bnd by (auto simp: block_bounds_def)
    moreover have "same_core ?a a'" by (simp add: same_core_def)
    ultimately show ?thesis
      using r(1) blk(1,6,7) same_core_trans
      by (fastforce simp: udp_post_def b split_code_response MAX_BLOCKS_def)
  qed
qed

end
