(* ===== verification/Channel.thy ===== *)
theory Channel
  imports Crypto_Prims
begin

text \<open>
  The contract of an encrypted channel with a message counter on each side, shared by the IP
  record layer, the BLE session and the Thread session: sealing and opening in step inverts, and
  a failure on either side changes no state.
\<close>

text \<open>Sealing a list of messages in order, and opening a list of payloads while skipping the ones
  that are refused.\<close>

fun seal_all :: "('s \<Rightarrow> bytes \<Rightarrow> ('e + bytes) \<times> 's) \<Rightarrow> 's \<Rightarrow> bytes list \<Rightarrow> ('e + bytes list) \<times> 's" where
  "seal_all sl s [] = (Inr [], s)"
| "seal_all sl s (m # ms) =
     (case sl s m of
        (Inl e, s') \<Rightarrow> (Inl e, s')
      | (Inr c, s') \<Rightarrow>
          (case seal_all sl s' ms of
             (Inl e, s'') \<Rightarrow> (Inl e, s'')
           | (Inr cs, s'') \<Rightarrow> (Inr (c # cs), s'')))"

fun open_each :: "('r \<Rightarrow> bytes \<Rightarrow> ('f + bytes) \<times> 'r) \<Rightarrow> 'r \<Rightarrow> bytes list \<Rightarrow> bytes list \<times> 'r" where
  "open_each opn r [] = ([], r)"
| "open_each opn r (c # cs) =
     (case opn r c of
        (Inl e, r') \<Rightarrow> open_each opn r' cs
      | (Inr m, r') \<Rightarrow> (let (ms, r'') = open_each opn r' cs in (m # ms, r'')))"

text \<open>A delivery of sealed payloads in order, with payloads in between that the receiver refuses in
  the state it is in when they arrive.\<close>

fun delivery :: "('r \<Rightarrow> bytes \<Rightarrow> ('f + bytes) \<times> 'r) \<Rightarrow> 'r \<Rightarrow> bytes list \<Rightarrow> bytes list \<Rightarrow> bool" where
  "delivery opn r [] [] = True"
| "delivery opn r (c # cs) [] = False"
| "delivery opn r [] (w # ws) = (isl (fst (opn r w)) \<and> delivery opn r [] ws)"
| "delivery opn r (c # cs) (w # ws) =
     ((w = c \<and> delivery opn (snd (opn r w)) cs ws) \<or> (isl (fst (opn r w)) \<and> delivery opn r (c # cs) ws))"

locale counter_channel =
  fixes seal_m :: "prims \<Rightarrow> 's \<Rightarrow> bytes \<Rightarrow> ('e + bytes) \<times> 's"
    and open_m :: "prims \<Rightarrow> 'r \<Rightarrow> bytes \<Rightarrow> ('f + bytes) \<times> 'r"
    and insync :: "'s \<Rightarrow> 'r \<Rightarrow> bool"
    and size_ok :: "bytes \<Rightarrow> bool"
  assumes seal_open: "aead_laws P \<Longrightarrow> insync s r \<Longrightarrow> size_ok m \<Longrightarrow>
      \<exists>c s' r'. seal_m P s m = (Inr c, s') \<and> open_m P r c = (Inr m, r') \<and> insync s' r'"
    and open_fail: "open_m P r c = (Inl e, r') \<Longrightarrow> r' = r"
    and seal_fail: "seal_m P s m = (Inl e', s') \<Longrightarrow> s' = s"
begin

lemma seal_all_ok:
  assumes "aead_laws P" and "insync s r" and "list_all size_ok ms"
  shows "\<exists>cs s'. seal_all (seal_m P) s ms = (Inr cs, s') \<and> length cs = length ms"
  using assms
proof (induction ms arbitrary: s r)
  case (Cons m ms)
  obtain c s' r' where "seal_m P s m = (Inr c, s')" "insync s' r'"
    using seal_open [of P s r m] Cons.prems by auto
  then show ?case using Cons.IH [of s' r'] Cons.prems by auto
qed simp

lemma in_order:
  assumes "aead_laws P" and "insync s r" and "list_all size_ok ms"
    and "seal_all (seal_m P) s ms = (Inr cs, s')" and "delivery (open_m P) r cs ws"
  shows "\<exists>r'. open_each (open_m P) r ws = (ms, r') \<and> insync s' r'"
  using assms
proof (induction ws arbitrary: s r ms cs)
  case Nil
  then show ?case by (cases cs; cases ms) (auto split: prod.splits sum.splits)
next
  case (Cons w ws)
  have skip: ?case if rej: "isl (fst (open_m P r w))" and del: "delivery (open_m P) r cs ws"
  proof -
    obtain e r' where o: "open_m P r w = (Inl e, r')"
      using rej by (cases "open_m P r w") (auto simp: isl_def)
    have "r' = r" by (rule open_fail [OF o])
    then have "open_m P r w = (Inl e, r)" using o by simp
    then show ?case using Cons.IH [OF Cons.prems(1-4) del] by simp
  qed
  show ?case
  proof (cases cs)
    case Nil
    then show ?thesis using Cons.prems(5) skip by simp
  next
    case (Cons c cs')
    then obtain m ms' where ms: "ms = m # ms'"
      using \<open>seal_all (seal_m P) s ms = (Inr cs, s')\<close> by (cases ms) auto
    obtain s1 r1 where step: "seal_m P s m = (Inr c, s1)" "open_m P r c = (Inr m, r1)" "insync s1 r1"
      and rest: "seal_all (seal_m P) s1 ms' = (Inr cs', s')"
      using seal_open [OF \<open>aead_laws P\<close> \<open>insync s r\<close>, of m] Cons.prems(3,4) ms Cons
      by (auto split: prod.splits sum.splits)
    show ?thesis
    proof (cases "w = c \<and> delivery (open_m P) r1 cs' ws")
      case True
      then obtain r' where "open_each (open_m P) r1 ws = (ms', r')" "insync s' r'"
        using Cons.IH [OF \<open>aead_laws P\<close> step(3) _ rest] Cons.prems(3) ms by auto
      then show ?thesis using True step(2) ms by simp
    next
      case False
      then show ?thesis using Cons.prems(5) Cons skip step(2) by auto
    qed
  qed
qed

end

end
