(* ===== verification/Thread_Session.thy ===== *)
theory Thread_Session
  imports Thread_Pdu Channel
begin

text \<open>
  The controller's secure CoAP session, \<open>hap-thread/src/session.rs\<close>, and its three channels with the
  reference accessory's session of \<open>hap-thread-dut/src/session.rs\<close>: requests, responses and events,
  each with its own key and its own pair of counters.
\<close>

definition counter_nonce :: "u64 \<Rightarrow> bytes" where
  "counter_nonce counter = take 4 (replicate 12 0) @ u64_to_le counter"

record CoapSession =
  cs_read_key :: bytes
  cs_write_key :: bytes
  cs_event_key :: bytes
  cs_send_ctr :: u64
  cs_recv_ctr :: u64
  cs_event_ctr :: u64

definition CoapSession_new :: "SessionKeys \<Rightarrow> bytes \<Rightarrow> CoapSession" where
  "CoapSession_new keys ek =
     \<lparr>cs_read_key = read_key keys, cs_write_key = write_key keys, cs_event_key = ek,
      cs_send_ctr = 0, cs_recv_ctr = 0, cs_event_ctr = 0\<rparr>"

definition seal_request :: "prims \<Rightarrow> CoapSession \<Rightarrow> bytes \<Rightarrow> (ThreadError + bytes) \<times> CoapSession" where
  "seal_request P s pt =
     (case chacha20poly1305_seal P (cs_write_key s) (counter_nonce (cs_send_ctr s)) [] pt of
        Inl e \<Rightarrow> (Inl (TCrypto e), s)
      | Inr ct \<Rightarrow> (Inr ct, s\<lparr>cs_send_ctr := cs_send_ctr s + 1\<rparr>))"

definition open_response :: "prims \<Rightarrow> CoapSession \<Rightarrow> bytes \<Rightarrow> (ThreadError + bytes) \<times> CoapSession" where
  "open_response P s ct =
     (case chacha20poly1305_open P (cs_read_key s) (counter_nonce (cs_recv_ctr s)) [] ct of
        Inl e \<Rightarrow> (Inl (TCrypto e), s)
      | Inr pt \<Rightarrow> (Inr pt, s\<lparr>cs_recv_ctr := cs_recv_ctr s + 1\<rparr>))"

definition open_event :: "prims \<Rightarrow> CoapSession \<Rightarrow> bytes \<Rightarrow> (ThreadError + bytes) \<times> CoapSession" where
  "open_event P s ct =
     (case chacha20poly1305_open P (cs_event_key s) (counter_nonce (cs_event_ctr s)) [] ct of
        Inl e \<Rightarrow> (Inl (TCrypto e), s)
      | Inr pt \<Rightarrow> (Inr pt, s\<lparr>cs_event_ctr := cs_event_ctr s + 1\<rparr>))"

section \<open>The three channels\<close>

definition request_sync :: "CoapSession \<Rightarrow> AccessorySession \<Rightarrow> bool" where
  "request_sync c a \<longleftrightarrow> cs_write_key c = as_write_key a \<and> cs_send_ctr c = as_recv_ctr a"

definition response_sync :: "AccessorySession \<Rightarrow> CoapSession \<Rightarrow> bool" where
  "response_sync a c \<longleftrightarrow> cs_read_key c = as_read_key a \<and> cs_recv_ctr c = as_send_ctr a"

definition event_sync :: "AccessorySession \<Rightarrow> CoapSession \<Rightarrow> bool" where
  "event_sync a c \<longleftrightarrow> cs_event_key c = as_event_key a \<and> cs_event_ctr c = as_event_ctr a"

lemmas thread_session_defs = seal_request_def open_response_def open_event_def open_request_def
  seal_response_def seal_event_def counter_nonce_def nonce_counter_def
  chacha20poly1305_seal_def chacha20poly1305_open_def

lemma seal_request_open:
  assumes "aead_laws P" and "request_sync c a" and "length m \<le> aead_max"
  shows "\<exists>ct. seal_request P c m = (Inr ct, c\<lparr>cs_send_ctr := cs_send_ctr c + 1\<rparr>) \<and>
              open_request P a ct = (Inr m, a\<lparr>as_recv_ctr := as_recv_ctr a + 1\<rparr>)"
proof -
  obtain ct where "aead_encrypt P (cs_write_key c) (counter_nonce (cs_send_ctr c)) [] m = Inr ct"
      "aead_decrypt P (cs_write_key c) (counter_nonce (cs_send_ctr c)) [] ct = Inr m"
    using aead_encrypt_ok [OF assms(1,3)] by blast
  then show ?thesis using assms(2) by (simp add: thread_session_defs request_sync_def)
qed

lemma seal_response_open:
  assumes "aead_laws P" and "response_sync a c" and "length m \<le> aead_max"
  shows "\<exists>ct. seal_response P a m = (Inr ct, a\<lparr>as_send_ctr := as_send_ctr a + 1\<rparr>) \<and>
              open_response P c ct = (Inr m, c\<lparr>cs_recv_ctr := cs_recv_ctr c + 1\<rparr>)"
proof -
  obtain ct where "aead_encrypt P (as_read_key a) (counter_nonce (as_send_ctr a)) [] m = Inr ct"
      "aead_decrypt P (as_read_key a) (counter_nonce (as_send_ctr a)) [] ct = Inr m"
    using aead_encrypt_ok [OF assms(1,3)] by blast
  then show ?thesis using assms(2) by (simp add: thread_session_defs response_sync_def)
qed

lemma seal_event_open:
  assumes "aead_laws P" and "event_sync a c" and "length m \<le> aead_max"
  shows "\<exists>ct. seal_event P a m = (Inr ct, a\<lparr>as_event_ctr := as_event_ctr a + 1\<rparr>) \<and>
              open_event P c ct = (Inr m, c\<lparr>cs_event_ctr := cs_event_ctr c + 1\<rparr>)"
proof -
  obtain ct where "aead_encrypt P (as_event_key a) (counter_nonce (as_event_ctr a)) [] m = Inr ct"
      "aead_decrypt P (as_event_key a) (counter_nonce (as_event_ctr a)) [] ct = Inr m"
    using aead_encrypt_ok [OF assms(1,3)] by blast
  then show ?thesis using assms(2) by (simp add: thread_session_defs event_sync_def)
qed

interpretation req: counter_channel seal_request open_request request_sync "\<lambda>m. length m \<le> aead_max"
proof
  fix P c a and m :: bytes
  assume "aead_laws P" "request_sync c a" "length m \<le> aead_max"
  from seal_request_open [OF this] \<open>request_sync c a\<close>
  show "\<exists>ct c' a'. seal_request P c m = (Inr ct, c') \<and> open_request P a ct = (Inr m, a') \<and> request_sync c' a'"
    by (auto simp: request_sync_def)
qed (auto simp: seal_request_def open_request_def split: sum.splits)

interpretation resp: counter_channel seal_response open_response response_sync "\<lambda>m. length m \<le> aead_max"
proof
  fix P a c and m :: bytes
  assume "aead_laws P" "response_sync a c" "length m \<le> aead_max"
  from seal_response_open [OF this] \<open>response_sync a c\<close>
  show "\<exists>ct a' c'. seal_response P a m = (Inr ct, a') \<and> open_response P c ct = (Inr m, c') \<and> response_sync a' c'"
    by (auto simp: response_sync_def)
qed (auto simp: seal_response_def open_response_def split: sum.splits)

interpretation evt: counter_channel seal_event open_event event_sync "\<lambda>m. length m \<le> aead_max"
proof
  fix P a c and m :: bytes
  assume "aead_laws P" "event_sync a c" "length m \<le> aead_max"
  from seal_event_open [OF this] \<open>event_sync a c\<close>
  show "\<exists>ct a' c'. seal_event P a m = (Inr ct, a') \<and> open_event P c ct = (Inr m, c') \<and> event_sync a' c'"
    by (auto simp: event_sync_def)
qed (auto simp: seal_event_def open_event_def split: sum.splits)

section \<open>Properties\<close>

text \<open>C33. Events reach the controller exactly and in order: whatever the accessory seals on the event
  channel is opened by the controller's session in that order, forged, replayed or corrupted
  payloads in between being refused without moving the event counter.\<close>

theorem thread_events_in_order:
  assumes "aead_laws P" and "event_sync a c" and "list_all (\<lambda>m. length m \<le> aead_max) events"
    and "seal_all (seal_event P) a events = (Inr sealed, a')" and "delivery (open_event P) c sealed wire"
  shows "\<exists>c'. open_each (open_event P) c wire = (events, c') \<and> event_sync a' c'"
  using assms by (rule evt.in_order)

theorem thread_events_in_order_witness:
  "\<exists>sealed a' c'. seal_all (seal_event toy_prims) (AccessorySession_new [1] [2] [3]) [[5], [6, 7]] = (Inr sealed, a') \<and>
     open_each (open_event toy_prims) (CoapSession_new \<lparr>read_key = [1], write_key = [2]\<rparr> [3]) sealed = ([[5], [6, 7]], c')"
proof -
  let ?a = "AccessorySession_new [1] [2] [3]" and ?c = "CoapSession_new \<lparr>read_key = [1], write_key = [2]\<rparr> [3]"
  have sync: "event_sync ?a ?c" by (simp add: event_sync_def AccessorySession_new_def CoapSession_new_def)
  have small: "list_all (\<lambda>m. length m \<le> aead_max) [[5], [6, 7 :: u8]]" by (simp add: aead_max_def)
  obtain s1 s2 a' where s: "seal_all (seal_event toy_prims) ?a [[5], [6, 7]] = (Inr [s1, s2], a')"
    using evt.seal_all_ok [OF toy_aead_laws sync small] by (auto simp: length_Suc_conv numeral_2_eq_2)
  have "delivery (open_event toy_prims) ?c [s1, s2] [s1, s2]" by simp
  from thread_events_in_order [OF toy_aead_laws sync small s this] s show ?thesis by blast
qed

end
