(* ===== verification/Pairing_Driver.thy ===== *)
theory Pairing_Driver
  imports Pair_Verify
begin

text \<open>
  The loop that every transport runs around a pairing state machine: send the message, hand the
  reply to the machine, send what it returns, stop at its result.  It is written once here and
  used by the drivers of \<open>hap-thread/src/pairing.rs\<close>, \<open>hap-ble/src/pairing.rs\<close>,
  \<open>hap-pairing/src/setup.rs\<close> and \<open>hap-pairing/src/verify.rs\<close>.  The network is a state and an exchange
  function over it.  The loop has fuel; the locale below shows that no network can use it up.
\<close>

fun drive ::
    "('c \<Rightarrow> bytes \<Rightarrow> (CryptoError + 'a pairing_step) \<times> 'c) \<Rightarrow> ('n \<Rightarrow> bytes \<Rightarrow> ('e + bytes) \<times> 'n) \<Rightarrow>
     (CryptoError \<Rightarrow> 'e) \<Rightarrow> nat \<Rightarrow> 'c \<Rightarrow> 'n \<Rightarrow> bytes \<Rightarrow> (('e + 'a) \<times> 'c \<times> 'n) option" where
  "drive handle exch err 0 client net out = None"
| "drive handle exch err (Suc fuel) client net out =
     (case exch net out of
        (Inl e, net') \<Rightarrow> Some (Inl e, client, net')
      | (Inr reply, net') \<Rightarrow>
          (case handle client reply of
             (Inl e, client') \<Rightarrow> Some (Inl (err e), client', net')
           | (Inr (Send next), client') \<Rightarrow> drive handle exch err fuel client' net' next
           | (Inr (Done x), client') \<Rightarrow> Some (Inr x, client', net')))"

text \<open>What a machine promises: every message it asks to send brings it closer to its end, and a
  message is never asked for after the last one.\<close>

locale pairing_machine =
  fixes handle :: "prims \<Rightarrow> 'c \<Rightarrow> bytes \<Rightarrow> (CryptoError + 'a pairing_step) \<times> 'c"
    and rank :: "'c \<Rightarrow> nat"
  assumes send_rank: "handle P c r = (Inr (Send m), c') \<Longrightarrow> rank c' < rank c"
begin

lemma drive_returns: "rank c < fuel \<Longrightarrow> drive (handle P) exch err fuel c net out \<noteq> None"
proof (induction fuel arbitrary: c net out)
  case (Suc fuel)
  have "drive (handle P) exch err fuel c' net' m \<noteq> None"
    if "handle P c r = (Inr (Send m), c')" for c' net' m r
    using Suc.IH [of c' net' m] send_rank [OF that] Suc.prems by simp
  then show ?case by (auto split: prod.splits sum.splits pairing_step.splits)
qed simp

lemma drive_fuel:
  "rank c < fuel \<Longrightarrow> rank c < fuel' \<Longrightarrow>
     drive (handle P) exch err fuel c net out = drive (handle P) exch err fuel' c net out"
proof (induction fuel arbitrary: fuel' c net out)
  case (Suc fuel)
  then obtain g where g: "fuel' = Suc g" by (cases fuel') auto
  have "drive (handle P) exch err fuel c' net' m = drive (handle P) exch err g c' net' m"
    if "handle P c r = (Inr (Send m), c')" for c' net' m r
    using Suc.IH [of c' g net' m] send_rank [OF that] Suc.prems g by simp
  then show ?case by (auto simp: g split: prod.splits sum.splits pairing_step.splits)
qed simp

end

interpretation psm: pairing_machine ps_handle ps_rank
proof
  show "ps_handle P c r = (Inr (Send m), c') \<Longrightarrow> ps_rank c' < ps_rank c" for P c r m c'
    by (drule ps_handle_Send) (auto simp: ps_rank_def)
qed

interpretation pvm: pairing_machine pv_handle pv_rank
proof
  show "pv_handle P c r = (Inr (Send m), c') \<Longrightarrow> pv_rank c' < pv_rank c" for P c r m c'
    by (drule pv_handle_Send) (auto simp: pv_rank_def)
qed

lemma start_ranks: "ps_rank (snd (ps_start c)) = 2" "pv_rank (snd (pv_start d)) = 1"
  by (simp_all add: ps_start_def pv_start_def ps_rank_def pv_rank_def)

text \<open>The fuel of the two protocols: one exchange per message of the controller.\<close>

definition SETUP_EXCHANGES :: nat where "SETUP_EXCHANGES = 3"
definition VERIFY_EXCHANGES :: nat where "VERIFY_EXCHANGES = 2"

text \<open>C34. Pairing ends whatever the accessory or the network answers: the driver loop of Pair Setup
  returns after at most three exchanges and that of Pair Verify after at most two, with the same
  result for every larger bound, for any transport.\<close>

theorem pairing_drivers_return:
  "(\<exists>r. \<forall>k. drive (ps_handle P) exch err (SETUP_EXCHANGES + k) (snd (ps_start c)) net (fst (ps_start c)) = Some r) \<and>
   (\<exists>r. \<forall>k. drive (pv_handle P) exch' err' (VERIFY_EXCHANGES + k) (snd (pv_start d)) net' (fst (pv_start d)) = Some r)"
proof -
  let ?s = "\<lambda>k. drive (ps_handle P) exch err (SETUP_EXCHANGES + k) (snd (ps_start c)) net (fst (ps_start c))"
  let ?v = "\<lambda>k. drive (pv_handle P) exch' err' (VERIFY_EXCHANGES + k) (snd (pv_start d)) net' (fst (pv_start d))"
  have r: "ps_rank (snd (ps_start c)) < SETUP_EXCHANGES + k" "pv_rank (snd (pv_start d)) < VERIFY_EXCHANGES + k" for k
    by (simp_all add: start_ranks SETUP_EXCHANGES_def VERIFY_EXCHANGES_def)
  have "?s k \<noteq> None" "?v k \<noteq> None" "?s k = ?s 0" "?v k = ?v 0" for k
    by (rule psm.drive_returns pvm.drive_returns psm.drive_fuel pvm.drive_fuel r)+
  then show ?thesis by (metis option.exhaust)
qed

end
