(* ===== verification/Pairing_Interop.thy ===== *)
theory Pairing_Interop
  imports Dut_Pairing
begin

text \<open>
  The controller state machines of \<open>hap-crypto\<close> run against the accessory handlers of
  \<open>hap-thread-dut\<close>: an honest exchange of both protocols completes, and both ends agree on what
  they learned.
\<close>

section \<open>Both sides use the same constants\<close>

lemma nonce_label_hap_nonce: "nonce_label = hap_nonce"
  by (simp add: fun_eq_iff nonce_label_def hap_nonce_def)

lemmas dut_constants =
  dut_PV_ENCRYPT_SALT_def dut_PV_ENCRYPT_INFO_def dut_CONTROL_SALT_def dut_CONTROL_READ_INFO_def
  dut_CONTROL_WRITE_INFO_def dut_EVENT_SALT_def dut_EVENT_READ_INFO_def PS_ENCRYPT_SALT_def
  PS_ENCRYPT_INFO_def PS_CONTROLLER_SIGN_SALT_def PS_CONTROLLER_SIGN_INFO_def
  PS_ACCESSORY_SIGN_SALT_def PS_ACCESSORY_SIGN_INFO_def NONCE_PV_M2_def NONCE_PV_M3_def
  NONCE_PS_M5_def NONCE_PS_M6_def
  PV_ENCRYPT_SALT_def PV_ENCRYPT_INFO_def CONTROL_SALT_def CONTROL_READ_INFO_def
  CONTROL_WRITE_INFO_def EVENT_SALT_def EVENT_READ_INFO_def ENCRYPT_SALT_def ENCRYPT_INFO_def
  CONTROLLER_SIGN_SALT_def CONTROLLER_SIGN_INFO_def ACCESSORY_SIGN_SALT_def ACCESSORY_SIGN_INFO_def
  NONCE_M2_def NONCE_M3_def NONCE_M5_def NONCE_M6_def

lemma same_constants:
  "dut_PV_ENCRYPT_SALT = PV_ENCRYPT_SALT" "dut_PV_ENCRYPT_INFO = PV_ENCRYPT_INFO"
  "dut_CONTROL_SALT = CONTROL_SALT" "dut_CONTROL_READ_INFO = CONTROL_READ_INFO"
  "dut_CONTROL_WRITE_INFO = CONTROL_WRITE_INFO" "dut_EVENT_SALT = EVENT_SALT"
  "dut_EVENT_READ_INFO = EVENT_READ_INFO" "PS_ENCRYPT_SALT = ENCRYPT_SALT"
  "PS_ENCRYPT_INFO = ENCRYPT_INFO" "PS_CONTROLLER_SIGN_SALT = CONTROLLER_SIGN_SALT"
  "PS_CONTROLLER_SIGN_INFO = CONTROLLER_SIGN_INFO" "PS_ACCESSORY_SIGN_SALT = ACCESSORY_SIGN_SALT"
  "PS_ACCESSORY_SIGN_INFO = ACCESSORY_SIGN_INFO" "NONCE_PV_M2 = NONCE_M2" "NONCE_PV_M3 = NONCE_M3"
  "NONCE_PS_M5 = NONCE_M5" "NONCE_PS_M6 = NONCE_M6"
  by (simp_all only: dut_constants)

lemma hkdf32_hkdf: "hkdf_sha512 P ikm salt info 32 = Inr k \<Longrightarrow> hkdf32 P ikm salt info = Inr k"
  by (simp add: hkdf_sha512_def hkdf32_def)

lemma hkdf_key: "kdf_laws P \<Longrightarrow> \<exists>k. hkdf_sha512 P ikm salt info 32 = Inr k"
  by (rule hkdf_ok [of P 32 ikm salt info]) auto

text \<open>Rules that evaluate the parsing of a message built by the writer.\<close>

lemmas message_simps = tlv_build tlv_types SEPARATOR_def get_u8_eq dut_expect_state_def
  ps_expect_state_def pv_expect_state_def ps_check_error_def pv_check_error_def
  ps_response_map_def chacha20poly1305_seal_def chacha20poly1305_open_def nonce_label_hap_nonce
  same_constants Let_def

section \<open>Pair Verify\<close>

definition id_small :: "bytes \<Rightarrow> bool" where
  "id_small ident \<longleftrightarrow> length ident < 4294967296"

lemma two_items_small:
  assumes "id_small a" and "length b = 64"
  shows "length (enc_items [(t1, a), (t2, b)]) \<le> aead_max"
  using length_enc_items_Cons [of t1 a "[(t2, b)]"] length_enc_items_Cons [of t2 b "[]"] assms
  by (simp add: id_small_def aead_max_def)

lemma three_items_small:
  assumes "id_small a" and "length b = 32" and "length c = 64"
  shows "length (enc_items [(t1, a), (t2, b), (t3, c)]) \<le> aead_max"
  using length_enc_items_Cons [of t1 a "[(t2, b), (t3, c)]"]
    length_enc_items_Cons [of t2 b "[(t3, c)]"] length_enc_items_Cons [of t3 c "[]"] assms
  by (simp add: id_small_def aead_max_def)

lemma pair_verify_honest:
  assumes laws: "aead_laws P" "sig_laws P" "dh_laws P" "kdf_laws P"
    and small: "id_small aid" "id_small (kp_id kp)"
    and c0: "c0 = PairVerifyClient_new_with_ephemeral P kp
                    \<lparr>pairing_id = aid, acc_ltpk = ltpk P akp\<rparr> e"
    and start: "pv_start c0 = (m1, c1)"
  shows "\<exists>m2 progress m3 c2 m4 session keys c3.
    handle_m1 P akp aid rng m1 = Inr (m2, progress) \<and>
    pv_handle P c1 m2 = (Inr (Send m3), c2) \<and>
    handle_m3 P progress (kp_id kp) (ltpk P kp) m3 = Inr (m4, Some session) \<and>
    pv_handle P c2 m4 = (Inr (Done keys), c3) \<and>
    session = AccessorySession_new (read_key keys) (write_key keys) (as_event_key session) \<and>
    event_key P c3 = Inr (as_event_key session) \<and> m4 = enc_items [(STATE, [STATE_M4])]"
proof -
  let ?cpub = "x25519_public P e" and ?apub = "x25519_public P rng"
  let ?S = "x25519_dh P rng ?cpub"
  have dh: "x25519_dh P e ?apub = ?S" and len: "length ?cpub = 32" "length ?apub = 32"
    using laws(3) by (auto simp: dh_laws_def)
  have sig: "length (ed25519_sign P s x) = 64" for s x using laws(2) by (simp add: sig_laws_def)
  obtain k where k: "hkdf_sha512 P ?S PV_ENCRYPT_SALT PV_ENCRYPT_INFO 32 = Inr k"
    using hkdf_key [OF laws(4)] by blast
  obtain rk wk ek where keys: "hkdf_sha512 P ?S CONTROL_SALT CONTROL_READ_INFO 32 = Inr rk"
    "hkdf_sha512 P ?S CONTROL_SALT CONTROL_WRITE_INFO 32 = Inr wk"
    "hkdf_sha512 P ?S EVENT_SALT EVENT_READ_INFO 32 = Inr ek"
    using hkdf_key [OF laws(4)] by metis
  let ?asig = "kp_sign P akp (?apub @ aid @ ?cpub)"
  let ?csig = "kp_sign P kp (?cpub @ kp_id kp @ ?apub)"
  let ?sub2 = "enc_items [(IDENTIFIER, aid), (SIGNATURE, ?asig)]"
  let ?sub3 = "enc_items [(IDENTIFIER, kp_id kp), (SIGNATURE, ?csig)]"
  obtain ct2 where ct2: "aead_encrypt P k (hap_nonce NONCE_M2) [] ?sub2 = Inr ct2"
    "aead_decrypt P k (hap_nonce NONCE_M2) [] ct2 = Inr ?sub2"
    using aead_encrypt_ok [OF laws(1) two_items_small [OF small(1)]] sig by (metis kp_sign_def)
  obtain ct3 where ct3: "aead_encrypt P k (hap_nonce NONCE_M3) [] ?sub3 = Inr ct3"
    "aead_decrypt P k (hap_nonce NONCE_M3) [] ct3 = Inr ?sub3"
    using aead_encrypt_ok [OF laws(1) two_items_small [OF small(2)]] sig by (metis kp_sign_def)
  let ?m2 = "enc_items [(STATE, [STATE_M2]), (PUBLIC_KEY, ?apub), (ENCRYPTED_DATA, ct2)]"
  let ?m3 = "enc_items [(STATE, [STATE_M3]), (ENCRYPTED_DATA, ct3)]"
  let ?prog = "\<lparr>vp_accessory_eph_pub = ?apub, vp_controller_eph_pub = ?cpub, vp_shared = ?S, vp_key = k\<rparr>"
  have c1: "m1 = enc_items [(STATE, [STATE_M1]), (PUBLIC_KEY, ?cpub)]"
    "c1 = c0\<lparr>pv_state := PV_AwaitM2\<rparr>"
    using start by (auto simp: pv_start_def c0 PairVerifyClient_new_with_ephemeral_def pv_build_def
        from_secret_def tlv_build)
  have "handle_m1 P akp aid rng m1 = Inr (?m2, ?prog)"
    using len hkdf32_hkdf [OF k] ct2(1)
    by (simp add: handle_m1_def c1 message_simps from_secret_def diffie_hellman_def)
  moreover have "pv_handle P c1 ?m2 =
      (Inr (Send ?m3), c0\<lparr>pv_shared_secret := Some ?S, pv_state := PV_AwaitM4\<rparr>)"
    using len k ct2(2) ct3(1) dh verify_sign [OF laws(2), of akp] sig
    by (simp add: pv_handle_defs pv_m2_values_def c1 c0 PairVerifyClient_new_with_ephemeral_def
        pv_build_def from_secret_def diffie_hellman_def derive_key_def build_m3_def message_simps
        kp_sign_def)
  moreover have "handle_m3 P ?prog (kp_id kp) (ltpk P kp) ?m3 =
      Inr (enc_items [(STATE, [STATE_M4])], Some (AccessorySession_new rk wk ek))"
    using ct3(2) verify_sign [OF laws(2), of kp] sig keys [THEN hkdf32_hkdf]
    by (simp add: handle_m3_def message_simps kp_sign_def)
  moreover have "pv_handle P (c0\<lparr>pv_shared_secret := Some ?S, pv_state := PV_AwaitM4\<rparr>)
      (enc_items [(STATE, [STATE_M4])]) =
      (Inr (Done \<lparr>read_key = rk, write_key = wk\<rparr>),
       c0\<lparr>pv_shared_secret := Some ?S, pv_state := PV_Done\<rparr>)"
    using keys by (simp add: pv_handle_defs pv_m4_keys_def derive_key_def message_simps)
  moreover have "event_key P (c0\<lparr>pv_shared_secret := Some ?S, pv_state := PV_Done\<rparr>) = Inr ek"
    using keys by (simp add: event_key_def derive_key_def)
  ultimately show ?thesis
    by (intro exI conjI) (assumption | rule refl | simp add: AccessorySession_new_def)+
qed

section \<open>Pair Setup\<close>

lemma pair_setup_honest:
  assumes laws: "aead_laws P" "sig_laws P" "kdf_laws P"
    and small: "id_small aid" "id_small (kp_id kp)"
    and utf8: "utf8_valid aid" "utf8_valid (kp_id kp)"
    and code: "normalize_setup_code code' = normalize_setup_code code"
    and new: "PairSetupClient_new code kp rng_a = Inr c0"
    and server: "HapPairSetupSrpServer_new P code' rng_salt rng_b = Inr (srv, salt)"
    and prem: "premaster (sha512 P) (ps_srp c0) salt (ps_password c0) (be_val (srv_b_pub_bytes srv)) = Inr S"
    and start: "ps_start c0 = (m1, c1)"
  shows "\<exists>m2 m3 c2 m4 K m5 c3 m6 c4.
    handle_setup_m1 P code' rng_salt rng_b m1 = Inr (m2, AwaitingM3 srv) \<and>
    ps_handle P c1 m2 = (Inr (Send m3), c2) \<and>
    handle_setup_m3 P srv m3 = Inr (m4, Some K) \<and>
    ps_handle P c2 m4 = (Inr (Send m5), c3) \<and>
    handle_setup_m5 P K akp aid m5 = Inr (m6, Some (kp_id kp, ltpk P kp)) \<and>
    ps_handle P c3 m6 = (Inr (Done \<lparr>pairing_id = aid, acc_ltpk = ltpk P akp\<rparr>), c4)"
proof -
  obtain G where G: "hap_group = Inr G" "0 < grp_n G"
    using SrpGroup_new_ok [of HAP_N_3072 "[5]"] hap_group_Inr
    by (auto simp: hap_group_def group_ok_def)
  let ?H = "sha512 P" and ?srp = "ps_srp c0"
  have c0: "with_private G PAIR_SETUP_USERNAME (be_val rng_a) = Inr ?srp"
    "ps_password c0 = normalize_setup_code code" "ps_controller c0 = kp"
    using new by (auto simp: PairSetupClient_new_def SrpClient_new_def G(1) result_simps)
  have srv: "srv_inner srv = with_salt_and_private ?H G PAIR_SETUP_USERNAME
      (normalize_setup_code code) rng_salt (be_val rng_b)" and salt: "salt = sv_salt (srv_inner srv)"
    using server code by (auto simp: HapPairSetupSrpServer_new_def SrpServer_new_def G(1) Let_def)
  let ?B = "srv_b_pub_bytes srv" and ?A = "a_pub_bytes ?srp"
  let ?K = "SrpClient_session_key ?H ?srp S"
  let ?p1 = "SrpClient_proof_m1 ?H ?srp salt (be_val ?B) ?K"
  have agree: "srv_session_key P srv ?A = Inr ?K"
    "\<exists>m2. verify_m1_prove_m2 ?H (srv_inner srv) (be_val ?A) ?K ?p1 = Inr m2 \<and>
          verify_m2 ?H ?srp ?p1 ?K m2 = Inr ()"
    using srp_mutual_agree_lemma [OF G(2) c0(1) srv, of S ?K ?p1] prem c0(2) salt
    by (simp_all add: srv_session_key_def srv_b_pub_bytes_def)
  then obtain p2 where p2: "srv_verify_m1_prove_m2 P srv ?A ?p1 = Inr p2"
    "verify_m2 ?H ?srp ?p1 ?K p2 = Inr ()"
    by (auto simp: srv_verify_m1_prove_m2_def srv_session_key_def)
  have sig: "length (kp_sign P q x) = 64" and pk: "length (ltpk P q) = 32" for q x
    using laws(2) by (simp_all add: sig_laws_def kp_sign_def ltpk_def)
  obtain ek dx ax where keys: "hkdf_sha512 P ?K ENCRYPT_SALT ENCRYPT_INFO 32 = Inr ek"
    "hkdf_sha512 P ?K CONTROLLER_SIGN_SALT CONTROLLER_SIGN_INFO 32 = Inr dx"
    "hkdf_sha512 P ?K ACCESSORY_SIGN_SALT ACCESSORY_SIGN_INFO 32 = Inr ax"
    using hkdf_key [OF laws(3)] by metis
  let ?csig = "kp_sign P kp (dx @ kp_id kp @ ltpk P kp)"
  let ?asig = "kp_sign P akp (ax @ aid @ ltpk P akp)"
  let ?sub5 = "enc_items [(IDENTIFIER, kp_id kp), (PUBLIC_KEY, ltpk P kp), (SIGNATURE, ?csig)]"
  let ?sub6 = "enc_items [(IDENTIFIER, aid), (PUBLIC_KEY, ltpk P akp), (SIGNATURE, ?asig)]"
  obtain ct5 where ct5: "aead_encrypt P ek (hap_nonce NONCE_M5) [] ?sub5 = Inr ct5"
    "aead_decrypt P ek (hap_nonce NONCE_M5) [] ct5 = Inr ?sub5"
    using aead_encrypt_ok [OF laws(1) three_items_small [OF small(2) pk sig]] by metis
  obtain ct6 where ct6: "aead_encrypt P ek (hap_nonce NONCE_M6) [] ?sub6 = Inr ct6"
    "aead_decrypt P ek (hap_nonce NONCE_M6) [] ct6 = Inr ?sub6"
    using aead_encrypt_ok [OF laws(1) three_items_small [OF small(1) pk sig]] by metis
  let ?m3 = "enc_items [(STATE, [STATE_M3]), (PUBLIC_KEY, ?A), (PROOF, ?p1)]"
  let ?m5 = "enc_items [(STATE, [STATE_M5]), (ENCRYPTED_DATA, ct5)]"
  let ?m6 = "enc_items [(STATE, [STATE_M6]), (ENCRYPTED_DATA, ct6)]"
  have c1: "m1 = enc_items [(STATE, [STATE_M1]), (METHOD, [METHOD_PAIR_SETUP])]"
    "c1 = c0\<lparr>ps_state := PS_AwaitingM2\<rparr>"
    using start by (auto simp: ps_start_def tlv_build)
  have "handle_setup_m1 P code' rng_salt rng_b m1 =
      Inr (enc_items [(STATE, [STATE_M2]), (SALT, salt), (PUBLIC_KEY, ?B)], AwaitingM3 srv)"
    using server by (simp add: handle_setup_m1_def c1 message_simps)
  moreover have "ps_handle P c1 (enc_items [(STATE, [STATE_M2]), (SALT, salt), (PUBLIC_KEY, ?B)]) =
      (Inr (Send ?m3), c0\<lparr>ps_state := PS_AwaitingM4 ?K ?p1\<rparr>)"
    using prem by (simp add: ps_handle_defs ps_m2_values_def c1 message_simps)
  moreover have "handle_setup_m3 P srv ?m3 =
      Inr (enc_items [(STATE, [STATE_M4]), (PROOF, p2)], Some ?K)"
    using agree(1) p2(1) by (simp add: handle_setup_m3_def message_simps)
  moreover have "ps_handle P (c0\<lparr>ps_state := PS_AwaitingM4 ?K ?p1\<rparr>)
      (enc_items [(STATE, [STATE_M4]), (PROOF, p2)]) =
      (Inr (Send ?m5), c0\<lparr>ps_state := PS_AwaitingM6 ?K\<rparr>)"
    using p2(2) keys ct5(1) c0(3)
    by (simp add: ps_handle_defs ps_m4_values_def ps_build_m5_def message_simps)
  moreover have "handle_setup_m5 P ?K akp aid ?m5 = Inr (?m6, Some (kp_id kp, ltpk P kp))"
    using ct5(2) ct6(1) verify_sign [OF laws(2), of kp] sig pk utf8(2) keys [THEN hkdf32_hkdf]
    by (simp add: handle_setup_m5_def message_simps)
  moreover have "ps_handle P (c0\<lparr>ps_state := PS_AwaitingM6 ?K\<rparr>) ?m6 =
      (Inr (Done \<lparr>pairing_id = aid, acc_ltpk = ltpk P akp\<rparr>), c0\<lparr>ps_state := PS_Done\<rparr>)"
    using keys ct6(2) verify_sign [OF laws(2), of akp] sig pk utf8(1)
    by (simp add: ps_handle_defs ps_m6_pairing_def message_simps)
  ultimately show ?thesis by blast
qed

section \<open>A concrete exchange\<close>

definition toy_kp :: ControllerKeypair where
  "toy_kp = from_seed (ascii ''ctl'') (replicate 32 1)"

definition toy_akp :: ControllerKeypair where
  "toy_akp = from_seed (ascii ''acc'') (replicate 32 2)"

lemma toy_ids:
  "id_small (kp_id toy_kp)" "id_small (ascii ''acc'')"
  "utf8_valid (kp_id toy_kp)" "utf8_valid (ascii ''acc'')"
  by (simp_all add: toy_kp_def from_seed_def id_small_def ascii_def in_range_def)

lemma toy_sha512: "sha512 toy_prims bs = replicate 63 0 @ [1]"
  by (simp add: toy_prims_def)

lemma be_val_toy_sha512: "be_val (sha512 toy_prims bs) = 1"
  unfolding toy_sha512 be_val_zeros by (simp add: be_val_def)

lemma toy_setup:
  "\<exists>c0 srv salt S. PairSetupClient_new (ascii ''12345678'') toy_kp [] = Inr c0 \<and>
     HapPairSetupSrpServer_new toy_prims (ascii ''123-45-678'') [7] [] = Inr (srv, salt) \<and>
     premaster (sha512 toy_prims) (ps_srp c0) salt (ps_password c0) (be_val (srv_b_pub_bytes srv)) = Inr S"
proof -
  let ?n = "be_val HAP_N_3072"
  let ?G = "\<lparr>grp_n = ?n, grp_g = 5, grp_n_len = 384\<rparr>"
  have small: "k mod ?n = k" if "k < 255" for k using HAP_N_3072_large that by simp
  have one: "?n \<noteq> Suc 0" using HAP_N_3072_large by simp
  have zero: "be_val [] = 0" by (simp add: be_val_def)
  show ?thesis
    by (simp add: PairSetupClient_new_def SrpClient_new_def hap_group_Inr with_private_def modpow_def
        zero one small HapPairSetupSrpServer_new_def SrpServer_new_def premaster_def compute_k_def
        compute_x_def compute_u_def be_val_toy_sha512 srv_b_pub_bytes_def b_pub_bytes_def
        with_salt_and_private_def compute_v_def compute_b_def Let_def)
qed

lemma toy_codes:
  "normalize_setup_code (ascii ''123-45-678'') = normalize_setup_code (ascii ''12345678'')"
  by (simp add: normalize_setup_code_def ascii_def is_ascii_digit_def in_range_def slice_def)

section \<open>Properties\<close>

text \<open>C1. A Pair Setup exchange between the controller client and the reference accessory completes:
  when the setup codes agree up to punctuation, the identifiers are UTF-8 strings and SRP does not
  hit an abort value, the three request-response rounds end with the accessory having learned the
  controller's identifier and long-term public key, and the controller the accessory's.\<close>

theorem pair_setup_completes:
  assumes "aead_laws P" "sig_laws P" "kdf_laws P"
    and "id_small aid" "id_small (kp_id kp)" "utf8_valid aid" "utf8_valid (kp_id kp)"
    and "normalize_setup_code code' = normalize_setup_code code"
    and "PairSetupClient_new code kp rng_a = Inr c0"
    and "HapPairSetupSrpServer_new P code' rng_salt rng_b = Inr (srv, salt)"
    and "premaster (sha512 P) (ps_srp c0) salt (ps_password c0) (be_val (srv_b_pub_bytes srv)) = Inr S"
    and "ps_start c0 = (m1, c1)"
  shows "\<exists>m2 m3 c2 m4 K m5 c3 m6 c4.
    handle_setup_m1 P code' rng_salt rng_b m1 = Inr (m2, AwaitingM3 srv) \<and>
    ps_handle P c1 m2 = (Inr (Send m3), c2) \<and>
    handle_setup_m3 P srv m3 = Inr (m4, Some K) \<and>
    ps_handle P c2 m4 = (Inr (Send m5), c3) \<and>
    handle_setup_m5 P K akp aid m5 = Inr (m6, Some (kp_id kp, ltpk P kp)) \<and>
    ps_handle P c3 m6 = (Inr (Done \<lparr>pairing_id = aid, acc_ltpk = ltpk P akp\<rparr>), c4)"
  using assms by (rule pair_setup_honest)

theorem pair_setup_completes_witness:
  "\<exists>c0 srv m2 m3 c2 m4 K m5 c3 m6 c4.
    PairSetupClient_new (ascii ''12345678'') toy_kp [] = Inr c0 \<and>
    handle_setup_m1 toy_prims (ascii ''123-45-678'') [7] [] (fst (ps_start c0)) = Inr (m2, AwaitingM3 srv) \<and>
    ps_handle toy_prims (snd (ps_start c0)) m2 = (Inr (Send m3), c2) \<and>
    handle_setup_m3 toy_prims srv m3 = Inr (m4, Some K) \<and>
    ps_handle toy_prims c2 m4 = (Inr (Send m5), c3) \<and>
    handle_setup_m5 toy_prims K toy_akp (ascii ''acc'') m5 =
      Inr (m6, Some (kp_id toy_kp, ltpk toy_prims toy_kp)) \<and>
    ps_handle toy_prims c3 m6 =
      (Inr (Done \<lparr>pairing_id = ascii ''acc'', acc_ltpk = ltpk toy_prims toy_akp\<rparr>), c4)"
proof -
  obtain c0 srv salt S where t: "PairSetupClient_new (ascii ''12345678'') toy_kp [] = Inr c0"
    "HapPairSetupSrpServer_new toy_prims (ascii ''123-45-678'') [7] [] = Inr (srv, salt)"
    "premaster (sha512 toy_prims) (ps_srp c0) salt (ps_password c0) (be_val (srv_b_pub_bytes srv)) = Inr S"
    using toy_setup by blast
  show ?thesis
    using t(1) pair_setup_completes [OF toy_aead_laws toy_sig_laws toy_kdf_laws toy_ids(2,1,4,3)
        toy_codes t surjective_pairing, of toy_akp]
    by blast
qed

theorem pair_setup_done_authenticated_witness:
  "\<exists>c0 evs r p r2 r4 K m1. ps_state c0 = PS_Initial \<and>
     fst (ps_handle toy_prims (ps_run toy_prims c0 evs) r) = Inr (Done p) \<and>
     PS_Response r2 \<in> set evs \<and> PS_Response r4 \<in> set evs \<and>
     ps_m2_accepted toy_prims c0 r2 K m1 \<and> ps_m4_accepted toy_prims c0 r4 K m1 \<and>
     ps_m6_accepted toy_prims r K p"
proof -
  obtain c0 srv salt S where t: "PairSetupClient_new (ascii ''12345678'') toy_kp [] = Inr c0"
    "HapPairSetupSrpServer_new toy_prims (ascii ''123-45-678'') [7] [] = Inr (srv, salt)"
    "premaster (sha512 toy_prims) (ps_srp c0) salt (ps_password c0) (be_val (srv_b_pub_bytes srv)) = Inr S"
    using toy_setup by blast
  obtain m2 m3 c2 m4 m5 c3 m6 c4 p where run:
    "ps_handle toy_prims (snd (ps_start c0)) m2 = (Inr (Send m3), c2)"
    "ps_handle toy_prims c2 m4 = (Inr (Send m5), c3)"
    "ps_handle toy_prims c3 m6 = (Inr (Done p), c4)"
    using pair_setup_honest [OF toy_aead_laws toy_sig_laws toy_kdf_laws toy_ids(2,1,4,3)
        toy_codes t surjective_pairing] by blast
  let ?evs = "[PS_Start, PS_Response m2, PS_Response m4]"
  have init: "ps_state c0 = PS_Initial"
    using t(1) by (auto simp: PairSetupClient_new_def result_simps)
  have "ps_run toy_prims c0 ?evs = c3" using run by (simp add: ps_run_def ps_step_def)
  then have h: "ps_handle toy_prims (ps_run toy_prims c0 ?evs) m6 = (Inr (Done p), c4)"
    using run(3) by simp
  then show ?thesis using pair_setup_done_authenticated [OF init h] init by (metis fst_conv)
qed

text \<open>C2. A Pair Verify exchange between the controller client and the reference accessory completes in
  two rounds, and both ends hold the same read and write keys and the same event key, with all
  counters of the accessory's session at zero.\<close>

theorem pair_verify_completes:
  assumes "aead_laws P" "sig_laws P" "dh_laws P" "kdf_laws P"
    and "id_small aid" "id_small (kp_id kp)"
    and "c0 = PairVerifyClient_new_with_ephemeral P kp \<lparr>pairing_id = aid, acc_ltpk = ltpk P akp\<rparr> e"
    and "pv_start c0 = (m1, c1)"
  shows "\<exists>m2 progress m3 c2 m4 session keys c3.
    handle_m1 P akp aid rng m1 = Inr (m2, progress) \<and>
    pv_handle P c1 m2 = (Inr (Send m3), c2) \<and>
    handle_m3 P progress (kp_id kp) (ltpk P kp) m3 = Inr (m4, Some session) \<and>
    pv_handle P c2 m4 = (Inr (Done keys), c3) \<and>
    session = AccessorySession_new (read_key keys) (write_key keys) (as_event_key session) \<and>
    event_key P c3 = Inr (as_event_key session)"
  using pair_verify_honest [OF assms, of rng] by (elim exE conjE) (intro exI conjI; assumption)

theorem pair_verify_completes_witness:
  "\<exists>c0 m2 progress m3 c2 m4 session keys c3.
    handle_m1 toy_prims toy_akp (ascii ''acc'') [3] (fst (pv_start c0)) = Inr (m2, progress) \<and>
    pv_handle toy_prims (snd (pv_start c0)) m2 = (Inr (Send m3), c2) \<and>
    handle_m3 toy_prims progress (kp_id toy_kp) (ltpk toy_prims toy_kp) m3 = Inr (m4, Some session) \<and>
    pv_handle toy_prims c2 m4 = (Inr (Done keys), c3) \<and>
    session = AccessorySession_new (read_key keys) (write_key keys) (as_event_key session)"
  using pair_verify_completes [OF toy_aead_laws toy_sig_laws toy_dh_laws toy_kdf_laws toy_ids(2,1)
      refl surjective_pairing, of toy_akp "[3]" "[4]"]
  by blast

theorem pair_verify_done_authenticated_witness:
  "\<exists>c0 evs r keys r2 S.
     fst (pv_handle toy_prims (pv_run toy_prims c0 evs) r) = Inr (Done keys) \<and>
     PV_Response r2 \<in> set evs \<and> pv_m2_accepted toy_prims c0 r2 S \<and>
     derive_key toy_prims S CONTROL_SALT CONTROL_READ_INFO = Inr (read_key keys)"
proof -
  let ?c0 = "PairVerifyClient_new_with_ephemeral toy_prims toy_kp
    \<lparr>pairing_id = ascii ''acc'', acc_ltpk = ltpk toy_prims toy_akp\<rparr> [4]"
  obtain m2 m3 c2 m4 keys c3 where run:
    "pv_handle toy_prims (snd (pv_start ?c0)) m2 = (Inr (Send m3), c2)"
    "pv_handle toy_prims c2 m4 = (Inr (Done keys), c3)"
    using pair_verify_honest [OF toy_aead_laws toy_sig_laws toy_dh_laws toy_kdf_laws toy_ids(2,1)
        refl surjective_pairing] by blast
  let ?evs = "[PV_Start, PV_Response m2]"
  have "pv_run toy_prims ?c0 ?evs = c2" using run by (simp add: pv_run_def pv_step_def)
  then have h: "pv_handle toy_prims (pv_run toy_prims ?c0 ?evs) m4 = (Inr (Done keys), c3)"
    using run(2) by simp
  then show ?thesis using pair_verify_done_authenticated [OF refl h] by (metis fst_conv)
qed

end
