(* ===== verification/Dut_Interop.thy ===== *)
theory Dut_Interop
  imports Reference_Accessory Pairing_Interop
begin

text \<open>
  Pairing with the reference accessory, whatever carries the messages: the messages that the
  controller's state machine and the accessory's endpoints exchange in a run of Pair Setup or Pair
  Verify, the accessory's states along the way, and bounds on the size of its replies.
\<close>

section \<open>States\<close>

text \<open>The handlers accept a message only in the state it names.\<close>

lemma expected_state:
  "and_then (map_err DutTlv8 (Tlv8Map_parse m)) (\<lambda>map. and_then (dut_expect_state map v) (F map)) = Inr z \<Longrightarrow>
     request_state m = Some v"
  by (auto simp: dut_expect_state_def request_state_def result_simps split: if_splits)

lemma handle_states:
  "handle_setup_m1 P sc x y m = Inr z1 \<Longrightarrow> request_state m = Some STATE_M1"
  "handle_setup_m3 P srv m = Inr z2 \<Longrightarrow> request_state m = Some STATE_M3"
  "handle_setup_m5 P K kp aid m = Inr z3 \<Longrightarrow> request_state m = Some STATE_M5"
  "handle_m1 P kp aid e m = Inr z4 \<Longrightarrow> request_state m = Some STATE_M1"
  "handle_m3 P pr cid pk m = Inr z5 \<Longrightarrow> request_state m = Some STATE_M3"
  unfolding handle_setup_m1_def handle_setup_m3_def handle_setup_m5_def handle_m1_def handle_m3_def
  by (erule expected_state)+

lemma state_distinct: "STATE_M1 \<noteq> STATE_M3" "STATE_M1 \<noteq> STATE_M5" "STATE_M3 \<noteq> STATE_M5"
  "STATE_M3 \<noteq> STATE_M1" "STATE_M5 \<noteq> STATE_M1" "STATE_M5 \<noteq> STATE_M3"
  by (simp_all add: tlv_types)

section \<open>Sizes of the accessory's replies\<close>

lemma length_two_items: "length (enc_items [(t, v), (t', v')]) \<le> 2 * length v + 2 * length v' + 4"
  using length_enc_items_Cons [of t v "[(t', v')]"] length_enc_items_Cons [of t' v' "[]"] by simp

lemma length_three_items: "length (enc_items [(t, v), (t', v'), (u, w)]) \<le> 2 * length v + 2 * length v' + 2 * length w + 6"
  using length_enc_items_Cons [of t v "[(t', v'), (u, w)]"] length_two_items [of t' v' u w] by simp

lemma setup_m2_size:
  assumes "handle_setup_m1 P code salt b m1 = Inr (m2, st)"
  shows "length m2 \<le> 2 * length salt + 1000"
proof -
  obtain G where G: "hap_group = Inr G" "group_ok G" "grp_n_len G = 384" "0 < grp_n G"
    using SrpGroup_new_ok [of HAP_N_3072 "[5]"] hap_group_Inr by (auto simp: hap_group_def group_ok_def)
  have B: "length (grp_pad G (v mod grp_n G)) = 384" for v using length_grp_pad [OF G(2), of "v mod grp_n G"] G(3,4) by simp
  obtain srv where s: "HapPairSetupSrpServer_new P code salt b = Inr (srv, salt)"
      "m2 = enc_items [(STATE, [STATE_M2]), (SALT, salt), (PUBLIC_KEY, srv_b_pub_bytes srv)]" "length (srv_b_pub_bytes srv) = 384"
    using assms B by (auto simp: handle_setup_m1_def result_simps tlv_build HapPairSetupSrpServer_new_def SrpServer_new_def G(1) Let_def
        with_salt_and_private_def compute_b_def srv_b_pub_bytes_def b_pub_bytes_def split: if_splits)
  then show ?thesis using length_three_items [of STATE "[STATE_M2]" SALT salt PUBLIC_KEY "srv_b_pub_bytes srv"] by simp
qed

lemma setup_m4_size:
  assumes "handle_setup_m3 P srv m3 = Inr (m4, Some K)" and sha: "\<And>x. length (sha512 P x) = 64"
  shows "length m4 \<le> 200"
proof -
  have p: "length pf = 64" if "srv_verify_m1_prove_m2 P srv a m = Inr pf" for a m pf
    using that by (auto simp: srv_verify_m1_prove_m2_def verify_m1_prove_m2_def proof_m2_def sha result_simps Let_def split: if_splits)
  obtain a m pf where "srv_verify_m1_prove_m2 P srv a m = Inr pf" "m4 = enc_items [(STATE, [STATE_M4]), (PROOF, pf)]"
    using assms(1) unfolding handle_setup_m3_def by (auto simp: tlv_build elim!: and_then_InrE split: sum.split_asm)
  then show ?thesis using length_two_items [of STATE "[STATE_M4]" PROOF pf] p by simp
qed

lemma setup_m6_size:
  assumes "handle_setup_m5 P K akp aid m5 = Inr (m6, Some c)" and "aead_laws P" and "sig_laws P" and "id_small aid"
  shows "length m6 \<le> 2 ^ 40"
proof -
  let ?sub = "\<lambda>ax. enc_items [(IDENTIFIER, aid), (PUBLIC_KEY, ltpk P akp), (SIGNATURE, kp_sign P akp (ax @ aid @ ltpk P akp))]"
  have len: "length (ltpk P akp) = 32" "length (kp_sign P akp x) = 64" for x
    using assms(3) by (simp_all add: sig_laws_def kp_sign_def ltpk_def)
  obtain k n ax ct where ct: "chacha20poly1305_seal P k n [] (?sub ax) = Inr ct" "m6 = enc_items [(STATE, [STATE_M6]), (ENCRYPTED_DATA, ct)]"
    using assms(1) unfolding handle_setup_m5_def
    by (auto simp: Let_def tlv_build elim!: and_then_InrE split: sum.split_asm option.split_asm if_split_asm)
  have "length ct = length (?sub ax) + 16"
    using aead_decrypt_encrypt(2) [OF assms(2) ct(1) [unfolded chacha20poly1305_seal_def] three_items_small [OF assms(4) len]] .
  then show ?thesis
    using length_three_items [of IDENTIFIER aid PUBLIC_KEY "ltpk P akp" SIGNATURE "kp_sign P akp (ax @ aid @ ltpk P akp)"]
      length_two_items [of STATE "[STATE_M6]" ENCRYPTED_DATA ct] ct(2) assms(4) len by (simp add: id_small_def)
qed

lemma verify_m2_size:
  assumes "handle_m1 P akp aid e m1 = Inr (m2, progress)" and "aead_laws P" and "sig_laws P" and "dh_laws P" and "id_small aid"
  shows "length m2 \<le> 2 ^ 40"
proof -
  let ?sub = "\<lambda>x. enc_items [(IDENTIFIER, aid), (SIGNATURE, kp_sign P akp x)]"
  have len: "length (x25519_public P e) = 32" "length (kp_sign P akp x) = 64" for x
    using assms(3,4) by (simp_all add: sig_laws_def dh_laws_def kp_sign_def)
  obtain k n x ct where ct: "chacha20poly1305_seal P k n [] (?sub x) = Inr ct"
      "m2 = enc_items [(STATE, [STATE_M2]), (PUBLIC_KEY, x25519_public P e), (ENCRYPTED_DATA, ct)]"
    using assms(1) by (auto simp: handle_m1_def result_simps tlv_build Let_def from_secret_def)
  have "length ct = length (?sub x) + 16"
    using aead_decrypt_encrypt(2) [OF assms(2) ct(1) [unfolded chacha20poly1305_seal_def] two_items_small [OF assms(5) len(2)]] .
  then show ?thesis
    using length_two_items [of IDENTIFIER aid SIGNATURE "kp_sign P akp x"]
      length_three_items [of STATE "[STATE_M2]" PUBLIC_KEY "x25519_public P e" ENCRYPTED_DATA ct] ct(2) assms(5) len
    by (simp add: id_small_def)
qed

section \<open>Runs\<close>

lemma dut_setup_run:
  assumes laws: "aead_laws P" "sig_laws P" "kdf_laws P"
    and ids: "id_small (ra_pairing_id a)" "id_small (kp_id kp)" "utf8_valid (ra_pairing_id a)" "utf8_valid (kp_id kp)"
    and code: "ra_setup_code a = Some code'" "normalize_setup_code code' = normalize_setup_code code"
    and new: "PairSetupClient_new code kp rng_a = Inr c0"
    and srp: "HapPairSetupSrpServer_new P code' (rng_salt rng) (rng_b rng) = Inr (srv, salt)"
      "premaster (sha512 P) (ps_srp c0) salt (ps_password c0) (be_val (srv_b_pub_bytes srv)) = Inr S"
    and st: "ps_start c0 = (m1, c1)"
  obtains m2 m3 c2 m4 K m5 c3 m6 c4 where
    "dut_pair_setup P rng a m1 = ((Changed, m2), a\<lparr>ra_setup := Some (AwaitingM3 srv)\<rparr>)"
    "ps_handle P c1 m2 = (Inr (Send m3), c2)"
    "dut_pair_setup P rng (a\<lparr>ra_setup := Some (AwaitingM3 srv)\<rparr>) m3 = ((Changed, m4), a\<lparr>ra_setup := Some (AwaitingM5 K)\<rparr>)"
    "ps_handle P c2 m4 = (Inr (Send m5), c3)"
    "dut_pair_setup P rng (a\<lparr>ra_setup := Some (AwaitingM5 K)\<rparr>) m5 =
       ((Changed, m6), provision_controller (a\<lparr>ra_setup := None\<rparr>) (kp_id kp) (ltpk P kp))"
    "ps_handle P c3 m6 = (Inr (Done \<lparr>pairing_id = ra_pairing_id a, acc_ltpk = ltpk P (ra_keypair a)\<rparr>), c4)"
    "length m2 \<le> 2 * length (rng_salt rng) + 1000" "(\<And>x. length (sha512 P x) = 64) \<Longrightarrow> length m4 \<le> 200" "length m6 \<le> 2 ^ 40"
proof -
  obtain m2 m3 c2 m4 K m5 c3 m6 c4 where
    r: "handle_setup_m1 P code' (rng_salt rng) (rng_b rng) m1 = Inr (m2, AwaitingM3 srv)"
      "ps_handle P c1 m2 = (Inr (Send m3), c2)" "handle_setup_m3 P srv m3 = Inr (m4, Some K)"
      "ps_handle P c2 m4 = (Inr (Send m5), c3)"
      "handle_setup_m5 P K (ra_keypair a) (ra_pairing_id a) m5 = Inr (m6, Some (kp_id kp, ltpk P kp))"
      "ps_handle P c3 m6 = (Inr (Done \<lparr>pairing_id = ra_pairing_id a, acc_ltpk = ltpk P (ra_keypair a)\<rparr>), c4)"
    using pair_setup_honest [OF laws ids code(2) new srp st] by blast
  show ?thesis
  proof (rule that [OF _ r(2) _ r(4) _ r(6)])
    show "dut_pair_setup P rng a m1 = ((Changed, m2), a\<lparr>ra_setup := Some (AwaitingM3 srv)\<rparr>)"
      "dut_pair_setup P rng (a\<lparr>ra_setup := Some (AwaitingM3 srv)\<rparr>) m3 = ((Changed, m4), a\<lparr>ra_setup := Some (AwaitingM5 K)\<rparr>)"
      "dut_pair_setup P rng (a\<lparr>ra_setup := Some (AwaitingM5 K)\<rparr>) m5 =
         ((Changed, m6), provision_controller (a\<lparr>ra_setup := None\<rparr>) (kp_id kp) (ltpk P kp))"
      using r(1,3,5) handle_states(1) [OF r(1)] handle_states(2) [OF r(3)] handle_states(3) [OF r(5)] code(1)
      by (simp_all add: dut_pair_setup_def state_distinct Let_def provision_controller_def)
  qed (use setup_m2_size [OF r(1)] setup_m4_size [OF r(3)] setup_m6_size [OF r(5) laws(1,2) ids(1)] in simp_all)
qed

lemma dut_verify_run:
  assumes laws: "aead_laws P" "sig_laws P" "dh_laws P" "kdf_laws P"
    and ids: "id_small (ra_pairing_id a)" "id_small (kp_id kp)"
    and ctl: "ra_controller a = Some (kp_id kp, ltpk P kp)"
    and st: "pv_start (PairVerifyClient_new_with_ephemeral P kp
        \<lparr>pairing_id = ra_pairing_id a, acc_ltpk = ltpk P (ra_keypair a)\<rparr> e) = (m1, c1)"
  obtains m2 progress m3 c2 m4 session keys c3 where
    "dut_pair_verify P rng a m1 = ((Changed, m2), a\<lparr>ra_verify := Some progress\<rparr>)"
    "pv_handle P c1 m2 = (Inr (Send m3), c2)"
    "dut_pair_verify P rng (a\<lparr>ra_verify := Some progress\<rparr>) m3 = ((Changed, m4), a\<lparr>ra_verify := None, ra_session := Some session\<rparr>)"
    "pv_handle P c2 m4 = (Inr (Done keys), c3)"
    "session = AccessorySession_new (read_key keys) (write_key keys) (as_event_key session)"
    "event_key P c3 = Inr (as_event_key session)"
    "length m2 \<le> 2 ^ 40" "m4 = enc_items [(STATE, [STATE_M4])]"
proof -
  obtain m2 progress m3 c2 m4 session keys c3 where
    r: "handle_m1 P (ra_keypair a) (ra_pairing_id a) (rng_eph rng) m1 = Inr (m2, progress)"
      "pv_handle P c1 m2 = (Inr (Send m3), c2)"
      "handle_m3 P progress (kp_id kp) (ltpk P kp) m3 = Inr (m4, Some session)"
      "pv_handle P c2 m4 = (Inr (Done keys), c3)"
      "session = AccessorySession_new (read_key keys) (write_key keys) (as_event_key session)"
      "event_key P c3 = Inr (as_event_key session)" "m4 = enc_items [(STATE, [STATE_M4])]"
    using pair_verify_honest [OF laws ids refl st, of "rng_eph rng"] by (elim exE conjE) (rule that; assumption)
  show ?thesis
  proof (rule that [OF _ r(2) _ r(4-6) verify_m2_size [OF r(1) laws(1-3) ids(1)] r(7)])
    show "dut_pair_verify P rng a m1 = ((Changed, m2), a\<lparr>ra_verify := Some progress\<rparr>)"
      "dut_pair_verify P rng (a\<lparr>ra_verify := Some progress\<rparr>) m3 = ((Changed, m4), a\<lparr>ra_verify := None, ra_session := Some session\<rparr>)"
      using r(1,3) handle_states(4) [OF r(1)] handle_states(5) [OF r(3)] ctl
      by (simp_all add: dut_pair_verify_def state_distinct Let_def)
  qed
qed

text \<open>The accessory's randomness in the examples.\<close>

definition toy_rng :: dut_rng where
  "toy_rng = \<lparr>rng_salt = [7], rng_b = [], rng_eph = [3]\<rparr>"

end
