(* ===== verification/Thread_Client.thy ===== *)
theory Thread_Client
  imports Coap_Interop Thread_Session Pairing_Driver Dut_Interop
begin

text \<open>
  The connected Thread accessory, \<open>hap-thread/src/accessory.rs\<close>, and pairing over CoAP,
  \<open>hap-thread/src/pairing.rs\<close>.  The transport is a function over a network state; the second half
  runs the controller against the reference accessory.
\<close>

section \<open>The secure connection\<close>

type_synonym 'n transport = "'n \<Rightarrow> str \<Rightarrow> bytes \<Rightarrow> (ThreadError + CoapResponse) \<times> 'n"

record 'n connection =
  cn_session :: CoapSession
  cn_net :: 'n

definition post_secure ::
    "prims \<Rightarrow> 'n transport \<Rightarrow> 'n connection \<Rightarrow> bytes \<Rightarrow> (ThreadError + bytes) \<times> 'n connection" where
  "post_secure P post c pdu =
     (case seal_request P (cn_session c) pdu of
        (Inl e, session) \<Rightarrow> (Inl e, c\<lparr>cn_session := session\<rparr>)
      | (Inr sealed, session) \<Rightarrow>
          (case post (cn_net c) PATH_SECURE sealed of
             (Inl e, net) \<Rightarrow> (Inl e, c\<lparr>cn_session := session, cn_net := net\<rparr>)
           | (Inr resp, net) \<Rightarrow>
               (case changed_payload resp of
                  Inl e \<Rightarrow> (Inl e, c\<lparr>cn_session := session, cn_net := net\<rparr>)
                | Inr response \<Rightarrow>
                    let (r, session') = open_response P session response in
                    (r, c\<lparr>cn_session := session', cn_net := net\<rparr>))))"

definition next_event ::
    "prims \<Rightarrow> CoapSession \<Rightarrow> bytes \<Rightarrow> (ThreadError + (u16 \<times> bytes) list) \<times> CoapSession" where
  "next_event P session encrypted =
     (case open_event P session encrypted of
        (Inl e, session') \<Rightarrow> (Inl e, session')
      | (Inr plaintext, session') \<Rightarrow> (decode_events plaintext, session'))"

section \<open>Characteristic access\<close>

definition response_result :: "PduResponse \<Rightarrow> ThreadError + bytes" where
  "response_result r = (if pr_status r = 0 then PduResponse_value r else Inl (PduStatus (pr_status r)))"

definition read_characteristics ::
    "prims \<Rightarrow> 'n transport \<Rightarrow> 'n connection \<Rightarrow> u16 list \<Rightarrow>
     (ThreadError + (ThreadError + bytes) list) \<times> 'n connection" where
  "read_characteristics P post c iids =
     (let entries = map (\<lambda>iid. (iid, [])) iids;
          (resp, c') = post_secure P post c (encode_all CharRead entries) in
      (and_then resp (\<lambda>bs. and_then (decode_all bs) (\<lambda>rs. Inr (map response_result rs))), c'))"

definition first_or :: "string \<Rightarrow> 'a list \<Rightarrow> ThreadError + 'a" where
  "first_or msg xs = (case xs of [] \<Rightarrow> Inl (MalformedPdu msg) | x # _ \<Rightarrow> Inr x)"

definition read_characteristic ::
    "prims \<Rightarrow> 'n transport \<Rightarrow> 'n connection \<Rightarrow> u16 \<Rightarrow> (ThreadError + bytes) \<times> 'n connection" where
  "read_characteristic P post c iid =
     (let (values, c') = read_characteristics P post c [iid] in
      (and_then values (\<lambda>vs. and_then (first_or ''empty read response'' vs) id), c'))"

text \<open>The shape the remaining operations share: one PDU, the first response, its status.\<close>

definition first_status ::
    "string \<Rightarrow> (PduResponse \<Rightarrow> 'a) \<Rightarrow> ThreadError + bytes \<Rightarrow> ThreadError + 'a" where
  "first_status msg ret resp =
     and_then resp (\<lambda>bs. and_then (decode_all bs) (\<lambda>rs. and_then (first_or msg rs) (\<lambda>r.
     if pr_status r = 0 then Inr (ret r) else Inl (PduStatus (pr_status r)))))"

definition write_characteristic ::
    "prims \<Rightarrow> 'n transport \<Rightarrow> 'n connection \<Rightarrow> u16 \<Rightarrow> bytes \<Rightarrow> (ThreadError + unit) \<times> 'n connection" where
  "write_characteristic P post c iid v =
     (let body = encode_value_body v;
          (resp, c') = post_secure P post c (encode_all CharWrite [(iid, body)]) in
      (first_status ''empty write response'' (\<lambda>_. ()) resp, c'))"

definition read_database_raw ::
    "prims \<Rightarrow> 'n transport \<Rightarrow> 'n connection \<Rightarrow> (ThreadError + bytes) \<times> 'n connection" where
  "read_database_raw P post c =
     (let (resp, c') = post_secure P post c (encode_all ReadDatabase [(0, [])]) in
      (first_status ''empty database response'' pr_body resp, c'))"

definition subscribe ::
    "prims \<Rightarrow> 'n transport \<Rightarrow> 'n connection \<Rightarrow> u16 \<Rightarrow> (ThreadError + unit) \<times> 'n connection" where
  "subscribe P post c iid =
     (let (resp, c') = post_secure P post c (encode_all Subscribe [(iid, [])]) in
      (first_status ''empty subscribe response'' (\<lambda>_. ()) resp, c'))"

definition unsubscribe ::
    "prims \<Rightarrow> 'n transport \<Rightarrow> 'n connection \<Rightarrow> u16 \<Rightarrow> (ThreadError + unit) \<times> 'n connection" where
  "unsubscribe P post c iid =
     (let (resp, c') = post_secure P post c (encode_all Unsubscribe [(iid, [])]) in
      (first_status ''empty unsubscribe response'' (\<lambda>_. ()) resp, c'))"

section \<open>Pairing over CoAP\<close>

definition coap_exchange :: "'n transport \<Rightarrow> str \<Rightarrow> 'n \<Rightarrow> bytes \<Rightarrow> (ThreadError + bytes) \<times> 'n" where
  "coap_exchange post path net out =
     (let (r, net') = post net path out in (and_then r changed_payload, net'))"

definition thread_pair_setup ::
    "prims \<Rightarrow> 'n transport \<Rightarrow> 'n \<Rightarrow> str \<Rightarrow> ControllerKeypair \<Rightarrow> bytes \<Rightarrow>
     ((ThreadError + AccessoryPairing) \<times> 'n) option" where
  "thread_pair_setup P post net setup_code controller rng_a =
     (case PairSetupClient_new setup_code controller rng_a of
        Inl e \<Rightarrow> Some (Inl (TCrypto e), net)
      | Inr client \<Rightarrow>
          let (out, client') = ps_start client in
          map_option (\<lambda>(r, _, net'). (r, net'))
            (drive (ps_handle P) (coap_exchange post PATH_PAIR_SETUP) TCrypto SETUP_EXCHANGES client' net out))"

definition pair_verify_with_client ::
    "prims \<Rightarrow> 'n transport \<Rightarrow> 'n \<Rightarrow> PairVerifyClient \<Rightarrow> ((ThreadError + SessionKeys \<times> bytes) \<times> 'n) option" where
  "pair_verify_with_client P post net client =
     (let (out, client') = pv_start client in
      map_option (\<lambda>(r, client'', net').
          (and_then r (\<lambda>keys. and_then (map_err TCrypto (event_key P client'')) (\<lambda>ek. Inr (keys, ek))), net'))
        (drive (pv_handle P) (coap_exchange post PATH_PAIR_VERIFY) TCrypto VERIFY_EXCHANGES client' net out))"

definition thread_pair_verify ::
    "prims \<Rightarrow> 'n transport \<Rightarrow> 'n \<Rightarrow> ControllerKeypair \<Rightarrow> AccessoryPairing \<Rightarrow> bytes \<Rightarrow>
     ((ThreadError + SessionKeys \<times> bytes) \<times> 'n) option" where
  "thread_pair_verify P post net controller accessory eph =
     pair_verify_with_client P post net (PairVerifyClient_new_with_ephemeral P controller accessory eph)"

section \<open>Against the reference accessory\<close>

text \<open>A network without loss: a post is one run of the accessory's handler.\<close>

definition dut_transport :: "prims \<Rightarrow> coap_lib \<Rightarrow> dut_rng \<Rightarrow> ReferenceAccessory transport" where
  "dut_transport P L rng a path payload =
     (let ((code, body), a') = dut_handle P rng a path payload;
          b = cl_code L (ResponseCode code) in
      (Inr \<lparr>cr_code = (drop_bit 5 b, b AND 0x1F), cr_payload = body\<rparr>, a'))"

lemma changed_code: "(drop_bit 5 (0x44 :: u8), (0x44 :: u8) AND 0x1F) = (2, 4)"
  by (simp add: drop_bit_eq_div and_num.simps)

lemma dut_transport_changed:
  assumes "coap_laws L" and "dut_handle P rng a path payload = ((Changed, body), a')"
  shows "dut_transport P L rng a path payload = (Inr \<lparr>cr_code = (2, 4), cr_payload = body\<rparr>, a')"
  using assms changed_code by (simp add: dut_transport_def coap_laws_def)

definition connected :: "ReferenceAccessory connection \<Rightarrow> bool" where
  "connected c \<longleftrightarrow>
     (\<exists>s. ra_session (cn_net c) = Some s \<and> request_sync (cn_session c) s \<and>
          response_sync s (cn_session c) \<and> event_sync s (cn_session c))"

lemma post_secure_dut:
  assumes laws: "aead_laws P" "coap_laws L" and conn: "connected c"
    and req: "decode_requests pdu = Inr reqs" "handle_chars (cn_net c) reqs = (rs, a')"
    and len: "length pdu \<le> aead_max" "length rs \<le> aead_max"
  shows "\<exists>c'. post_secure P (dut_transport P L rng) c pdu = (Inr rs, c') \<and> connected c' \<and>
              light (cn_net c') = light a'"
proof -
  let ?a = "cn_net c" and ?cs = "cn_session c"
  obtain s where s: "ra_session ?a = Some s" "request_sync ?cs s" "response_sync s ?cs" "event_sync s ?cs"
    using conn by (auto simp: connected_def)
  let ?s1 = "s\<lparr>as_recv_ctr := as_recv_ctr s + 1\<rparr>" and ?c1 = "?cs\<lparr>cs_send_ctr := cs_send_ctr ?cs + 1\<rparr>"
  obtain ct where ct: "seal_request P ?cs pdu = (Inr ct, ?c1)" "open_request P s ct = (Inr pdu, ?s1)"
    using seal_request_open [OF laws(1) s(2) len(1)] by blast
  have "response_sync ?s1 ?c1" using s(3) by (simp add: response_sync_def)
  then obtain ct2 where ct2: "seal_response P ?s1 rs = (Inr ct2, ?s1\<lparr>as_send_ctr := as_send_ctr ?s1 + 1\<rparr>)"
      "open_response P ?c1 ct2 = (Inr rs, ?c1\<lparr>cs_recv_ctr := cs_recv_ctr ?c1 + 1\<rparr>)"
    using seal_response_open [OF laws(1) _ len(2)] by blast
  let ?s2 = "?s1\<lparr>as_send_ctr := as_send_ctr ?s1 + 1\<rparr>"
  have "dut_handle P rng ?a PATH_SECURE ct = ((Changed, ct2), a'\<lparr>ra_session := Some ?s2\<rparr>)"
    using s(1) ct(2) req ct2(1)
    by (simp add: dut_handle_paths secure_pdu_def)
  then have "post_secure P (dut_transport P L rng) c pdu =
      (Inr rs, c\<lparr>cn_session := ?c1\<lparr>cs_recv_ctr := cs_recv_ctr ?c1 + 1\<rparr>,
                 cn_net := a'\<lparr>ra_session := Some ?s2\<rparr>\<rparr>)"
    using ct(1) ct2(2) dut_transport_changed [OF laws(2)]
    by (simp add: post_secure_def changed_payload_def is_changed_def)
  moreover have "connected (c\<lparr>cn_session := ?c1\<lparr>cs_recv_ctr := cs_recv_ctr ?c1 + 1\<rparr>,
                 cn_net := a'\<lparr>ra_session := Some ?s2\<rparr>\<rparr>)"
    using s by (simp add: connected_def request_sync_def response_sync_def event_sync_def)
  ultimately show ?thesis by (auto simp: light_def)
qed

section \<open>The lightbulb contract\<close>

datatype client_op = Read "u16 list" | Write u16 bytes | Sub u16 | Unsub u16 | ReadDb

datatype client_result =
    RValues "ThreadError + (ThreadError + bytes) list"
  | RDone "ThreadError + unit"
  | RBytes "ThreadError + bytes"

fun run_op ::
    "prims \<Rightarrow> 'n transport \<Rightarrow> 'n connection \<Rightarrow> client_op \<Rightarrow> client_result \<times> 'n connection" where
  "run_op P post c (Read iids) = map_prod RValues id (read_characteristics P post c iids)"
| "run_op P post c (Write iid v) = map_prod RDone id (write_characteristic P post c iid v)"
| "run_op P post c (Sub iid) = map_prod RDone id (subscribe P post c iid)"
| "run_op P post c (Unsub iid) = map_prod RDone id (unsubscribe P post c iid)"
| "run_op P post c ReadDb = map_prod RBytes id (read_database_raw P post c)"

fun run_ops ::
    "prims \<Rightarrow> 'n transport \<Rightarrow> 'n connection \<Rightarrow> client_op list \<Rightarrow> client_result list \<times> 'n connection" where
  "run_ops P post c [] = ([], c)"
| "run_ops P post c (op # ops) =
     (let (r, c') = run_op P post c op; (rs, c'') = run_ops P post c' ops in (r # rs, c''))"

text \<open>What a user of a lightbulb expects of each operation.\<close>

type_synonym light_state = "bool \<times> bool list \<times> u16 set"

definition on_written :: "bytes \<Rightarrow> bool" where
  "on_written v = (case v of [] \<Rightarrow> False | b # _ \<Rightarrow> b \<noteq> 0)"

fun spec_op :: "light_state \<Rightarrow> client_op \<Rightarrow> client_result \<times> light_state" where
  "spec_op (on, log, subs) (Read iids) =
     (RValues (Inr (map (\<lambda>iid. if iid = ON_IID then Inr [if on then 1 else 0]
                               else Inl (PduStatus STATUS_INVALID_INSTANCE_ID)) iids)), on, log, subs)"
| "spec_op (on, log, subs) (Write iid v) =
     (if iid = ON_IID then (RDone (Inr ()), on_written v, log @ [on_written v], subs)
      else (RDone (Inl (PduStatus STATUS_INVALID_INSTANCE_ID)), on, log, subs))"
| "spec_op (on, log, subs) (Sub iid) =
     (if iid = ON_IID then (RDone (Inr ()), on, log, insert iid subs)
      else (RDone (Inl (PduStatus STATUS_INVALID_INSTANCE_ID)), on, log, subs))"
| "spec_op (on, log, subs) (Unsub iid) =
     (if iid = ON_IID then (RDone (Inr ()), on, log, subs - {iid})
      else (RDone (Inl (PduStatus STATUS_INVALID_INSTANCE_ID)), on, log, subs))"
| "spec_op (on, log, subs) ReadDb = (RBytes (Inr synthetic_database), on, log, subs)"

fun spec_ops :: "light_state \<Rightarrow> client_op list \<Rightarrow> client_result list \<times> light_state" where
  "spec_ops l [] = ([], l)"
| "spec_ops l (op # ops) = (let (r, l') = spec_op l op; (rs, l'') = spec_ops l' ops in (r # rs, l''))"

text \<open>The debug assertions of the encoder: at most 256 entries, bodies within the length field.\<close>

fun op_fits :: "client_op \<Rightarrow> bool" where
  "op_fits (Read iids) = (length iids \<le> 256)"
| "op_fits (Write iid v) = (length (encode_value_body v) < 65536)"
| "op_fits _ = True"

section \<open>The controller refines the contract\<close>

lemma length_coap_request [simp]: "length (coap_encode_request op tid iid body) = 7 + length body"
  by (simp add: coap_encode_request_def)

lemma length_encode_response [simp]: "length (encode_response tid st body) = 5 + length body"
  by (simp add: encode_response_def)

lemma length_value_body1: "length (value_body [b]) \<le> 4"
  using length_enc_items_Cons [of dut_PARAM_VALUE "[b]" "[]"] by (simp add: value_body_def push_empty)

text \<open>One request in its own PDU.\<close>

lemma single_request:
  assumes "aead_laws P" "coap_laws L" "connected c" and "length body < 65536"
    and h: "handle_char (cn_net c) \<lparr>rq_opcode = opcode_u8 op, rq_tid = 0, rq_iid = iid, rq_body = body\<rparr> =
              (encode_response 0 st rbody, a')"
    and "length rbody < 65536"
  shows "\<exists>c'. post_secure P (dut_transport P L rng) c (encode_all op [(iid, body)]) =
                (Inr (encode_response 0 st rbody), c') \<and> connected c' \<and> light (cn_net c') = light a' \<and>
              first_status msg ret (Inr (encode_response 0 st rbody)) =
                (if st = 0 then Inr (ret \<lparr>pr_tid = 0, pr_status = st, pr_body = rbody\<rparr>) else Inl (PduStatus st))"
proof -
  let ?q = "\<lparr>rq_opcode = opcode_u8 op, rq_tid = 0, rq_iid = iid, rq_body = body\<rparr>"
  have "decode_requests (encode_all op [(iid, body)]) = Inr [?q]"
    using decode_requests_all_from [of "[(iid, body)]" 0 op] assms(4) by (simp add: encode_all_def u8_sat_def)
  moreover have "handle_chars (cn_net c) [?q] = (encode_response 0 st rbody, a')" using h by simp
  moreover have "length (encode_all op [(iid, body)]) \<le> aead_max" "length (encode_response 0 st rbody) \<le> aead_max"
    using assms(4,6) by (simp_all add: encode_all_def aead_max_def)
  ultimately obtain c' where "post_secure P (dut_transport P L rng) c (encode_all op [(iid, body)]) =
      (Inr (encode_response 0 st rbody), c')" "connected c'" "light (cn_net c') = light a'"
    using post_secure_dut [OF assms(1-3)] by blast
  moreover have "decode_all (encode_response 0 st rbody) = Inr [\<lparr>pr_tid = 0, pr_status = st, pr_body = rbody\<rparr>]"
    using decode_all_from_responses [of "[(st, rbody)]" 0] assms(6) by (simp add: decode_all_def u8_sat_def)
  ultimately show ?thesis by (simp add: first_status_def first_or_def)
qed

text \<open>A batch of reads.\<close>

definition read_out :: "bool \<Rightarrow> u16 \<Rightarrow> u8 \<times> bytes" where
  "read_out on iid =
     (if iid = ON_IID then (STATUS_SUCCESS, value_body [if on then 1 else 0]) else (STATUS_INVALID_INSTANCE_ID, []))"

lemma handle_chars_reads:
  "handle_chars a (map (\<lambda>(i, iid, body). \<lparr>rq_opcode = 0x03, rq_tid = u8_sat i, rq_iid = iid, rq_body = body\<rparr>)
       (enumerate n (map (\<lambda>iid. (iid, [])) iids))) =
   (concat (map (\<lambda>(i, st, body). encode_response (u8_sat i) st body)
       (enumerate n (map (read_out (ra_on a)) iids))), a)"
  by (induction iids arbitrary: n) (simp_all add: handle_char_def read_out_def pdu_codes)

lemma read_out_small: "length (snd (read_out on iid)) \<le> 4"
  using length_value_body1 by (auto simp: read_out_def)

lemma length_read_outs:
  "length (concat (map (\<lambda>(i, st, body). encode_response (u8_sat i) st body)
     (enumerate n (map (read_out on) iids)))) \<le> 9 * length iids"
proof (induction iids arbitrary: n)
  case (Cons iid iids)
  then show ?case using read_out_small [of on iid] by (simp add: split_beta add_mono)
qed simp

lemma length_encode_all_reads: "length (encode_all_from n op (map (\<lambda>iid. (iid, [])) iids)) = 7 * length iids"
  by (induction iids arbitrary: n) simp_all

lemma read_batch:
  assumes "aead_laws P" "coap_laws L" "connected c" and "length iids \<le> 256"
  shows "\<exists>c'. read_characteristics P (dut_transport P L rng) c iids =
      (Inr (map (\<lambda>iid. if iid = ON_IID then Inr [if ra_on (cn_net c) then 1 else 0]
                       else Inl (PduStatus STATUS_INVALID_INSTANCE_ID)) iids), c') \<and>
      connected c' \<and> light (cn_net c') = light (cn_net c)"
proof -
  let ?a = "cn_net c"
  let ?outs = "map (read_out (ra_on ?a)) iids"
  let ?rs = "concat (map (\<lambda>(i, st, body). encode_response (u8_sat i) st body) (enumerate 0 ?outs))"
  have outs: "list_all (\<lambda>(st, body). length body < 65536) ?outs"
    by (auto simp: list_all_iff split_beta le_less_trans [OF read_out_small])
  have dec: "decode_requests (encode_all CharRead (map (\<lambda>iid. (iid, [])) iids)) =
      Inr (map (\<lambda>(i, iid, body). \<lparr>rq_opcode = 0x03, rq_tid = u8_sat i, rq_iid = iid, rq_body = body\<rparr>)
        (enumerate 0 (map (\<lambda>iid. (iid, [])) iids)))"
    using decode_requests_all_from [of "map (\<lambda>iid. (iid, [])) iids" 0 CharRead]
    by (simp add: encode_all_def list_all_iff)
  have "length ?rs \<le> 9 * length iids" by (rule length_read_outs)
  then have len: "length (encode_all CharRead (map (\<lambda>iid. (iid, [])) iids)) \<le> aead_max" "length ?rs \<le> aead_max"
    using assms(4) by (simp_all add: encode_all_def length_encode_all_reads aead_max_def)
  obtain c' where c': "post_secure P (dut_transport P L rng) c (encode_all CharRead (map (\<lambda>iid. (iid, [])) iids)) =
      (Inr ?rs, c')" "connected c'" "light (cn_net c') = light ?a"
    using post_secure_dut [OF assms(1-3) dec handle_chars_reads len] by blast
  have "decode_all ?rs = Inr (map (\<lambda>(i, st, body). \<lparr>pr_tid = u8_sat i, pr_status = st, pr_body = body\<rparr>) (enumerate 0 ?outs))"
    using decode_all_from_responses [OF outs, of 0] by (simp add: decode_all_def)
  moreover have "map (response_result \<circ> (\<lambda>(i, st, body). \<lparr>pr_tid = u8_sat i, pr_status = st, pr_body = body\<rparr>))
        (enumerate n ?outs) =
      map (\<lambda>iid. if iid = ON_IID then Inr [if ra_on ?a then 1 else 0]
                 else Inl (PduStatus STATUS_INVALID_INSTANCE_ID)) iids" for n
    by (induction iids arbitrary: n)
      (simp_all add: read_out_def response_result_def PduResponse_value_def value_bodies pdu_codes)
  ultimately show ?thesis using c' by (simp add: read_characteristics_def)
qed

lemma length_synthetic_database [simp]: "length synthetic_database = 2000"
  by (simp add: synthetic_database_def)

lemma run_op_refines:
  assumes laws: "aead_laws P" "coap_laws L" and conn: "connected c" and fits: "op_fits op"
  shows "\<exists>r c'. run_op P (dut_transport P L rng) c op = (r, c') \<and> connected c' \<and>
                spec_op (light (cn_net c)) op = (r, light (cn_net c'))"
proof (cases op)
  case (Read iids)
  then show ?thesis
    using read_batch [OF laws conn, of iids rng] fits by (force simp: light_def)
next
  case (Write iid v)
  let ?on = "on_written v" and ?a = "cn_net c"
  have h: "handle_char ?a \<lparr>rq_opcode = opcode_u8 CharWrite, rq_tid = 0, rq_iid = iid, rq_body = encode_value_body v\<rparr> =
      (encode_response 0 (if iid = ON_IID then STATUS_SUCCESS else STATUS_INVALID_INSTANCE_ID) [],
       if iid = ON_IID then ?a\<lparr>ra_on := ?on, ra_actuator := ra_actuator ?a @ [?on]\<rparr> else ?a)"
    by (simp add: handle_char_def pdu_codes value_bodies [unfolded pdu_codes] on_written_def Let_def)
  show ?thesis
    using single_request [OF laws conn _ h, of rng "''empty write response''" "\<lambda>_. ()"] fits Write
    by (force simp: write_characteristic_def light_def pdu_codes)
next
  case (Sub iid)
  let ?a = "cn_net c"
  have h: "handle_char ?a \<lparr>rq_opcode = opcode_u8 Subscribe, rq_tid = 0, rq_iid = iid, rq_body = []\<rparr> =
      (encode_response 0 (if iid = ON_IID then STATUS_SUCCESS else STATUS_INVALID_INSTANCE_ID) [],
       if iid = ON_IID then ?a\<lparr>ra_subscriptions := insert iid (ra_subscriptions ?a)\<rparr> else ?a)"
    by (simp add: handle_char_def pdu_codes)
  show ?thesis
    using single_request [OF laws conn _ h, of rng "''empty subscribe response''" "\<lambda>_. ()"] Sub
    by (force simp: subscribe_def light_def pdu_codes)
next
  case (Unsub iid)
  let ?a = "cn_net c"
  have h: "handle_char ?a \<lparr>rq_opcode = opcode_u8 Unsubscribe, rq_tid = 0, rq_iid = iid, rq_body = []\<rparr> =
      (encode_response 0 (if iid = ON_IID then STATUS_SUCCESS else STATUS_INVALID_INSTANCE_ID) [],
       if iid = ON_IID then ?a\<lparr>ra_subscriptions := ra_subscriptions ?a - {iid}\<rparr> else ?a)"
    by (simp add: handle_char_def pdu_codes)
  show ?thesis
    using single_request [OF laws conn _ h, of rng "''empty unsubscribe response''" "\<lambda>_. ()"] Unsub
    by (force simp: unsubscribe_def light_def pdu_codes)
next
  case ReadDb
  have h: "handle_char (cn_net c) \<lparr>rq_opcode = opcode_u8 ReadDatabase, rq_tid = 0, rq_iid = 0, rq_body = []\<rparr> =
      (encode_response 0 STATUS_SUCCESS synthetic_database, cn_net c)"
    by (simp add: handle_char_def pdu_codes)
  show ?thesis
    using single_request [OF laws conn _ h, of rng "''empty database response''" pr_body] ReadDb
    by (force simp: read_database_raw_def light_def pdu_codes)
qed

lemma run_ops_refines:
  assumes "aead_laws P" "coap_laws L" "connected c" "list_all op_fits ops"
  shows "\<exists>rs c'. run_ops P (dut_transport P L rng) c ops = (rs, c') \<and> connected c' \<and>
                 spec_ops (light (cn_net c)) ops = (rs, light (cn_net c'))"
  using assms(3,4)
proof (induction ops arbitrary: c)
  case (Cons op ops)
  obtain r c1 where 1: "run_op P (dut_transport P L rng) c op = (r, c1)" "connected c1"
      "spec_op (light (cn_net c)) op = (r, light (cn_net c1))"
    using run_op_refines [OF assms(1,2) Cons.prems(1), of op rng] Cons.prems(2) by auto
  obtain rs c2 where "run_ops P (dut_transport P L rng) c1 ops = (rs, c2)" "connected c2"
      "spec_ops (light (cn_net c1)) ops = (rs, light (cn_net c2))"
    using Cons.IH [OF 1(2)] Cons.prems(2) by auto
  then show ?case using 1 by simp
qed simp

section \<open>Pairing with the reference accessory\<close>

lemma drive_dut_step:
  assumes "coap_laws L" and "dut_handle P rng a path out = ((Changed, reply), a')"
  shows "drive handle (coap_exchange (dut_transport P L rng) path) err (Suc fuel) client a out =
     (case handle client reply of
        (Inl e, client') \<Rightarrow> Some (Inl (err e), client', a')
      | (Inr (Send next), client') \<Rightarrow>
          drive handle (coap_exchange (dut_transport P L rng) path) err fuel client' a' next
      | (Inr (Done x), client') \<Rightarrow> Some (Inr x, client', a'))"
  using dut_transport_changed [OF assms] by (simp add: coap_exchange_def changed_payload_def is_changed_def)

lemma connected_fresh:
  assumes "ra_session a = Some session"
    and "session = AccessorySession_new (read_key keys) (write_key keys) ek"
  shows "connected \<lparr>cn_session = CoapSession_new keys ek, cn_net = a\<rparr>"
  using assms
  by (simp add: connected_def CoapSession_new_def AccessorySession_new_def request_sync_def
      response_sync_def event_sync_def)

text \<open>C20. Pair Setup over CoAP works end to end against the reference accessory: the controller's driver
  returns the accessory's identifier and long-term key, and the accessory has provisioned the
  controller's, when both use the same setup code up to its punctuation.\<close>

theorem thread_pair_setup_completes:
  assumes "aead_laws P" "sig_laws P" "kdf_laws P" "coap_laws L"
    and "id_small (ra_pairing_id a)" "id_small (kp_id kp)" "utf8_valid (ra_pairing_id a)" "utf8_valid (kp_id kp)"
    and "ra_setup_code a = Some code'" and "normalize_setup_code code' = normalize_setup_code code"
    and "PairSetupClient_new code kp rng_a = Inr c0"
    and "HapPairSetupSrpServer_new P code' (rng_salt rng) (rng_b rng) = Inr (srv, salt)"
    and "premaster (sha512 P) (ps_srp c0) salt (ps_password c0) (be_val (srv_b_pub_bytes srv)) = Inr S"
  shows "\<exists>a'. thread_pair_setup P (dut_transport P L rng) a code kp rng_a =
      Some (Inr \<lparr>pairing_id = ra_pairing_id a, acc_ltpk = ltpk P (ra_keypair a)\<rparr>, a') \<and>
      ra_controller a' = Some (kp_id kp, ltpk P kp) \<and> ra_session a' = ra_session a"
proof -
  obtain m1 c1 where st: "ps_start c0 = (m1, c1)" by fastforce
  obtain m2 m3 c2 m4 K m5 c3 m6 c4 where
    r: "ps_handle P c1 m2 = (Inr (Send m3), c2)" "ps_handle P c2 m4 = (Inr (Send m5), c3)"
      "ps_handle P c3 m6 = (Inr (Done \<lparr>pairing_id = ra_pairing_id a, acc_ltpk = ltpk P (ra_keypair a)\<rparr>), c4)"
    and h: "dut_pair_setup P rng a m1 = ((Changed, m2), a\<lparr>ra_setup := Some (AwaitingM3 srv)\<rparr>)"
      "dut_pair_setup P rng (a\<lparr>ra_setup := Some (AwaitingM3 srv)\<rparr>) m3 = ((Changed, m4), a\<lparr>ra_setup := Some (AwaitingM5 K)\<rparr>)"
      "dut_pair_setup P rng (a\<lparr>ra_setup := Some (AwaitingM5 K)\<rparr>) m5 =
         ((Changed, m6), provision_controller (a\<lparr>ra_setup := None\<rparr>) (kp_id kp) (ltpk P kp))"
    by (rule dut_setup_run [OF assms(1-3,5-13) st]) (rule that; assumption)
  let ?a3 = "provision_controller (a\<lparr>ra_setup := None\<rparr>) (kp_id kp) (ltpk P kp)"
  note d = drive_dut_step [OF assms(4), where path = PATH_PAIR_SETUP, unfolded dut_handle_paths]
  have "thread_pair_setup P (dut_transport P L rng) a code kp rng_a =
      Some (Inr \<lparr>pairing_id = ra_pairing_id a, acc_ltpk = ltpk P (ra_keypair a)\<rparr>, ?a3)"
    by (simp add: thread_pair_setup_def assms(11) st SETUP_EXCHANGES_def numeral_3_eq_3 r
        d [OF h(1)] d [OF h(2)] d [OF h(3)] del: drive.simps)
  then show ?thesis by (simp add: provision_controller_def)
qed

text \<open>C21. After Pair Verify over CoAP the controller's session and the accessory's are in step: for a
  provisioned controller the driver returns the session keys and the event key, and the secure
  connection built from them is connected to the accessory's new session on all three channels.\<close>

theorem thread_pair_verify_connects:
  assumes "aead_laws P" "sig_laws P" "dh_laws P" "kdf_laws P" "coap_laws L"
    and "id_small (ra_pairing_id a)" "id_small (kp_id kp)"
    and "ra_controller a = Some (kp_id kp, ltpk P kp)"
  shows "\<exists>keys ek a'. thread_pair_verify P (dut_transport P L rng) a kp
        \<lparr>pairing_id = ra_pairing_id a, acc_ltpk = ltpk P (ra_keypair a)\<rparr> e = Some (Inr (keys, ek), a') \<and>
      connected \<lparr>cn_session = CoapSession_new keys ek, cn_net = a'\<rparr> \<and> light a' = light a"
proof -
  obtain m1 c1 where st: "pv_start (PairVerifyClient_new_with_ephemeral P kp
      \<lparr>pairing_id = ra_pairing_id a, acc_ltpk = ltpk P (ra_keypair a)\<rparr> e) = (m1, c1)" by fastforce
  obtain m2 progress m3 c2 m4 session keys c3 where
    r: "pv_handle P c1 m2 = (Inr (Send m3), c2)" "pv_handle P c2 m4 = (Inr (Done keys), c3)"
      "event_key P c3 = Inr (as_event_key session)"
      "session = AccessorySession_new (read_key keys) (write_key keys) (as_event_key session)"
    and h: "dut_pair_verify P rng a m1 = ((Changed, m2), a\<lparr>ra_verify := Some progress\<rparr>)"
      "dut_pair_verify P rng (a\<lparr>ra_verify := Some progress\<rparr>) m3 = ((Changed, m4), a\<lparr>ra_verify := None, ra_session := Some session\<rparr>)"
    by (rule dut_verify_run [OF assms(1-4,6-8) st]) (rule that; assumption)
  let ?a2 = "a\<lparr>ra_verify := None, ra_session := Some session\<rparr>"
  note d = drive_dut_step [OF assms(5), where path = PATH_PAIR_VERIFY, unfolded dut_handle_paths]
  have "thread_pair_verify P (dut_transport P L rng) a kp
      \<lparr>pairing_id = ra_pairing_id a, acc_ltpk = ltpk P (ra_keypair a)\<rparr> e =
      Some (Inr (keys, as_event_key session), ?a2)"
    by (simp add: thread_pair_verify_def pair_verify_with_client_def st VERIFY_EXCHANGES_def numeral_2_eq_2
        r(1-3) d [OF h(1)] d [OF h(2)] del: drive.simps)
  moreover have "connected \<lparr>cn_session = CoapSession_new keys (as_event_key session), cn_net = ?a2\<rparr>"
    by (rule connected_fresh [OF _ r(4)]) simp
  moreover have "light ?a2 = light a" by (simp add: light_def)
  ultimately show ?thesis by blast
qed

text \<open>C13. Over the encrypted connection the controller's operations behave exactly like operations on an
  abstract lightbulb: for any sequence of batched reads, writes, subscriptions and database reads,
  the results the controller returns and the accessory's final state are those of the contract, and
  the two sessions stay in step throughout.\<close>

theorem thread_client_refines_light:
  assumes "aead_laws P" "coap_laws L" "connected c" "list_all op_fits ops"
    and "run_ops P (dut_transport P L rng) c ops = (rs, c')"
  shows "spec_ops (light (cn_net c)) ops = (rs, light (cn_net c')) \<and> connected c'"
  using run_ops_refines [OF assms(1-4), of rng] assms(5) by simp

text \<open>A connected pair for the examples below: an accessory after Pair Verify, block-wise at 64 bytes.\<close>

definition toy_session :: AccessorySession where
  "toy_session = AccessorySession_new [1] [2] [3]"

definition toy_accessory :: ReferenceAccessory where
  "toy_accessory = (with_blockwise_responses (with_actuator (ascii ''acc'') [9]) 64)\<lparr>ra_session := Some toy_session\<rparr>"

definition toy_connection :: "ReferenceAccessory connection" where
  "toy_connection = \<lparr>cn_session = CoapSession_new \<lparr>read_key = [1], write_key = [2]\<rparr> [3], cn_net = toy_accessory\<rparr>"

lemma toy_connected: "connected toy_connection"
  unfolding toy_connection_def
  by (rule connected_fresh [of _ toy_session]) (simp_all add: toy_accessory_def toy_session_def)

theorem thread_client_refines_light_witness:
  "\<exists>c'. run_ops toy_prims (dut_transport toy_prims rfc_coap toy_rng) toy_connection
       [Write 9 [1], Read [9, 5], Sub 9] =
       ([RDone (Inr ()), RValues (Inr [Inr [1], Inl (PduStatus 4)]), RDone (Inr ())], c') \<and>
     light (cn_net c') = (True, [True], {9}) \<and> connected c'"
proof -
  let ?ops = "[Write 9 [1], Read [9, 5], Sub 9]"
  obtain rs c' where r: "run_ops toy_prims (dut_transport toy_prims rfc_coap toy_rng) toy_connection ?ops = (rs, c')"
    by (metis prod.exhaust)
  have "length (encode_value_body [1]) \<le> 4"
    using length_enc_items_Cons [of PARAM_VALUE "[1]" "[]"] by (simp add: encode_value_body_def push_empty)
  then have "list_all op_fits ?ops" by simp
  from thread_client_refines_light [OF toy_aead_laws rfc_coap_laws toy_connected this r]
  show ?thesis
    using r by (auto simp: toy_connection_def toy_accessory_def with_blockwise_responses_def with_actuator_def
        light_def ON_IID_def on_written_def pdu_codes)
qed

text \<open>The secure request that reads the database, on the accessory's side.\<close>

lemma toy_database_request:
  "\<exists>sealed ct s'. dut_handle toy_prims toy_rng (toy_accessory\<lparr>ra_peer := Some 1\<rparr>) PATH_SECURE sealed =
     ((Changed, ct), toy_accessory\<lparr>ra_peer := Some 1, ra_session := Some s'\<rparr>) \<and> length ct = 2021"
proof -
  let ?pdu = "encode_all ReadDatabase [(0, [])]" and ?c = "cn_session toy_connection"
  let ?rs = "encode_response 0 STATUS_SUCCESS synthetic_database"
  have sync: "request_sync ?c toy_session"
    by (simp add: toy_connection_def toy_session_def request_sync_def CoapSession_new_def AccessorySession_new_def)
  have "length ?pdu \<le> aead_max" by (simp add: encode_all_def aead_max_def)
  then obtain sealed where sealed: "open_request toy_prims toy_session sealed =
      (Inr ?pdu, toy_session\<lparr>as_recv_ctr := as_recv_ctr toy_session + 1\<rparr>)"
    using seal_request_open [OF toy_aead_laws sync] by blast
  let ?s1 = "toy_session\<lparr>as_recv_ctr := as_recv_ctr toy_session + 1\<rparr>"
  have small: "length ?rs \<le> aead_max" by (simp add: aead_max_def)
  obtain ct where ct: "aead_encrypt toy_prims (as_read_key ?s1) (nonce_counter (as_send_ctr ?s1)) [] ?rs = Inr ct"
    using aead_encrypt_ok [OF toy_aead_laws small] by blast
  have len: "length ct = 2021" using aead_decrypt_encrypt(2) [OF toy_aead_laws ct small] by simp
  have dec: "decode_requests ?pdu = Inr [\<lparr>rq_opcode = 9, rq_tid = 0, rq_iid = 0, rq_body = []\<rparr>]"
    using decode_requests_all_from [of "[(0, [])]" 0 ReadDatabase] by (simp add: encode_all_def u8_sat_def)
  have "secure_pdu toy_prims (toy_accessory\<lparr>ra_peer := Some 1\<rparr>) sealed = ((Changed, ct),
      toy_accessory\<lparr>ra_peer := Some 1, ra_session := Some (?s1\<lparr>as_send_ctr := as_send_ctr ?s1 + 1\<rparr>)\<rparr>)"
    using sealed ct dec
    by (simp add: secure_pdu_def toy_accessory_def handle_char_def pdu_codes seal_response_def
        chacha20poly1305_seal_def)
  then show ?thesis using len by (auto simp: dut_handle_paths)
qed

theorem coap_post_delivers_witness:
  "\<exists>sealed ct next' a''. udp_post rfc_coap (dut_exchange toy_prims rfc_coap toy_rng 1) (1, toy_accessory) PATH_SECURE sealed =
      (Inr \<lparr>cr_code = (2, 4), cr_payload = ct\<rparr>, next', a'') \<and> length ct = 2021"
proof -
  obtain sealed ct s' where h: "dut_handle toy_prims toy_rng (toy_accessory\<lparr>ra_peer := Some 1\<rparr>) PATH_SECURE sealed =
     ((Changed, ct), toy_accessory\<lparr>ra_peer := Some 1, ra_session := Some s'\<rparr>)" "length ct = 2021"
    using toy_database_request by blast
  have bw: "ra_blockwise toy_accessory = Some bs \<Longrightarrow> block_bounds bs ct" for bs
    using h(2) by (auto simp: toy_accessory_def with_blockwise_responses_def block_bounds_def)
  have path: "utf8_lossy PATH_SECURE = PATH_SECURE" by (simp add: PATH_SECURE_def)
  have "code_pair rfc_coap Changed = (2, 4)" using changed_code by (simp add: code_pair_def rfc_coap_def)
  then show ?thesis
    using coap_post_delivers [OF rfc_coap_laws path h(1) bw, where ?next = 1] h(2) by fastforce
qed

theorem dut_access_control_witness:
  "\<exists>payload r a' s pt s'. dut_handle toy_prims toy_rng toy_accessory PATH_SECURE payload = (r, a') \<and>
     light a' = (True, [True], {}) \<and> ra_session toy_accessory = Some s \<and>
     chacha20poly1305_open toy_prims (as_write_key s) (nonce_counter (as_recv_ctr s)) [] payload = Inr pt \<and>
     ra_session a' = Some s' \<and> session_advanced s s'"
proof -
  let ?pdu = "encode_all CharWrite [(9, encode_value_body [1])]" and ?c = "cn_session toy_connection"
  have sync: "request_sync ?c toy_session"
    by (simp add: toy_connection_def toy_session_def request_sync_def CoapSession_new_def AccessorySession_new_def)
  have small: "length (encode_value_body [1]) \<le> 4"
    using length_enc_items_Cons [of PARAM_VALUE "[1]" "[]"] by (simp add: encode_value_body_def push_empty)
  then have "length ?pdu \<le> aead_max" by (simp add: encode_all_def aead_max_def)
  then obtain sealed where sealed: "open_request toy_prims toy_session sealed =
      (Inr ?pdu, toy_session\<lparr>as_recv_ctr := as_recv_ctr toy_session + 1\<rparr>)"
    using seal_request_open [OF toy_aead_laws sync] by blast
  have dec: "decode_requests ?pdu =
      Inr [\<lparr>rq_opcode = 2, rq_tid = 0, rq_iid = 9, rq_body = encode_value_body [1]\<rparr>]"
    using decode_requests_all_from [of "[(9, encode_value_body [1])]" 0 CharWrite] small
    by (simp add: encode_all_def u8_sat_def)
  obtain r a' where h: "dut_handle toy_prims toy_rng toy_accessory PATH_SECURE sealed = (r, a')" by fastforce
  then have l: "light a' = (True, [True], {})"
    using sealed dec
    by (auto simp: dut_handle_paths secure_pdu_def toy_accessory_def handle_char_def pdu_codes value_bodies [unfolded pdu_codes]
        ON_IID_def with_blockwise_responses_def with_actuator_def light_def Let_def split: prod.splits sum.splits)
  moreover have "light toy_accessory = (False, [], {})"
    by (simp add: light_def toy_accessory_def with_blockwise_responses_def with_actuator_def)
  ultimately have "light a' \<noteq> light toy_accessory" by simp
  moreover have "PATH_SECURE \<noteq> PATH_PAIR_VERIFY" by (simp add: coap_paths ascii_def)
  ultimately show ?thesis using dut_access_control [OF h] h l by blast
qed

theorem thread_pair_setup_completes_witness:
  "\<exists>a'. thread_pair_setup toy_prims (dut_transport toy_prims rfc_coap toy_rng)
       (with_setup_code (with_actuator (ascii ''acc'') [9]) (ascii ''123-45-678'')) (ascii ''12345678'') toy_kp [] =
       Some (Inr \<lparr>pairing_id = ascii ''acc'', acc_ltpk = ltpk toy_prims (from_seed (ascii ''acc'') [9])\<rparr>, a') \<and>
     ra_controller a' = Some (kp_id toy_kp, ltpk toy_prims toy_kp)"
proof -
  let ?a = "with_setup_code (with_actuator (ascii ''acc'') [9]) (ascii ''123-45-678'')"
  obtain c0 srv salt S where t: "PairSetupClient_new (ascii ''12345678'') toy_kp [] = Inr c0"
    "HapPairSetupSrpServer_new toy_prims (ascii ''123-45-678'') (rng_salt toy_rng) (rng_b toy_rng) = Inr (srv, salt)"
    "premaster (sha512 toy_prims) (ps_srp c0) salt (ps_password c0) (be_val (srv_b_pub_bytes srv)) = Inr S"
    using toy_setup by (auto simp: toy_rng_def)
  have a: "ra_pairing_id ?a = ascii ''acc''" "ra_setup_code ?a = Some (ascii ''123-45-678'')"
      "ra_keypair ?a = from_seed (ascii ''acc'') [9]"
    by (simp_all add: with_setup_code_def with_actuator_def)
  show ?thesis
    using thread_pair_setup_completes [OF toy_aead_laws toy_sig_laws toy_kdf_laws rfc_coap_laws,
        of ?a toy_kp, unfolded a, OF toy_ids(2,1,4,3) refl toy_codes t] by blast
qed

theorem thread_pair_verify_connects_witness:
  "\<exists>keys ek a'. thread_pair_verify toy_prims (dut_transport toy_prims rfc_coap toy_rng)
       (provision_controller (with_actuator (ascii ''acc'') [9]) (kp_id toy_kp) (ltpk toy_prims toy_kp)) toy_kp
       \<lparr>pairing_id = ascii ''acc'', acc_ltpk = ltpk toy_prims (from_seed (ascii ''acc'') [9])\<rparr> [4] =
       Some (Inr (keys, ek), a') \<and> connected \<lparr>cn_session = CoapSession_new keys ek, cn_net = a'\<rparr>"
proof -
  let ?a = "provision_controller (with_actuator (ascii ''acc'') [9]) (kp_id toy_kp) (ltpk toy_prims toy_kp)"
  have a: "ra_pairing_id ?a = ascii ''acc''" "ra_controller ?a = Some (kp_id toy_kp, ltpk toy_prims toy_kp)"
      "ra_keypair ?a = from_seed (ascii ''acc'') [9]"
    by (simp_all add: provision_controller_def with_actuator_def)
  show ?thesis
    using thread_pair_verify_connects [OF toy_aead_laws toy_sig_laws toy_dh_laws toy_kdf_laws rfc_coap_laws,
        of ?a toy_kp, unfolded a, OF toy_ids(2,1) refl] by blast
qed

section \<open>Events\<close>

text \<open>C31. A characteristic change reaches the controller: when the accessory pushes an event for a
  subscribed characteristic, the PUT it sends is recognised as an event by the controller's reader
  and acknowledged with 2.03, and decrypting it yields exactly the instance id and the new value,
  with the sessions still in step.  Without a subscription nothing is sent.\<close>

theorem thread_event_delivered:
  assumes "aead_laws P" "coap_laws L" "connected c" "ra_socket (cn_net c)" "ra_peer (cn_net c) = Some peer"
    and "length (value_body v) < 65536"
  shows "if iid \<in> ra_subscriptions (cn_net c)
         then \<exists>put a' ack session. push_event P (cn_net c) iid v = (Inr (Some (peer, put)), a') \<and>
                route_datagram L pending put = EventPut (pk_payload put) ack \<and>
                pk_code ack = ResponseCode Valid \<and> pk_mid ack = pk_mid put \<and> pk_token ack = pk_token put \<and>
                next_event P (cn_session c) (pk_payload put) = (Inr [(iid, v)], session) \<and>
                connected \<lparr>cn_session = session, cn_net = a'\<rparr>
         else push_event P (cn_net c) iid v = (Inr None, cn_net c)"
proof (cases "iid \<in> ra_subscriptions (cn_net c)")
  case True
  let ?a = "cn_net c" and ?cs = "cn_session c"
  obtain s where s: "ra_session ?a = Some s" "request_sync ?cs s" "response_sync s ?cs" "event_sync s ?cs"
    using assms(3) by (auto simp: connected_def)
  have len: "try_u16 (length (value_body v)) = Some (u16_sat (length (value_body v)))"
    using assms(6) by (simp add: u16_sat_def try_u16_def)
  let ?rec = "event_record iid (value_body v) (u16_sat (length (value_body v)))"
  have "length ?rec \<le> aead_max" using assms(6) by (simp add: event_record_def aead_max_def)
  then obtain ct where ct: "seal_event P s ?rec = (Inr ct, s\<lparr>as_event_ctr := as_event_ctr s + 1\<rparr>)"
      "open_event P ?cs ct = (Inr ?rec, ?cs\<lparr>cs_event_ctr := cs_event_ctr ?cs + 1\<rparr>)"
    using seal_event_open [OF assms(1) s(4)] by blast
  have "decode_events ?rec = Inr [(iid, v)]"
    using decode_events_record [OF assms(6), of iid "[]"] by (simp add: event_record_def decode_events.simps [of "[]"])
  then show ?thesis
    using True assms(2,4,5) s ct len
    by (simp add: push_event_def Let_def route_datagram_def is_event_put_def coap_laws_def next_event_def
        connected_def request_sync_def response_sync_def event_sync_def Packet_new_def drop_bit_eq_div)
qed (simp add: push_event_def)

theorem thread_event_delivered_witness:
  "\<exists>put a' session. push_event toy_prims
       (toy_accessory\<lparr>ra_subscriptions := {9}, ra_socket := True, ra_peer := Some 1\<rparr>) 9 [1] = (Inr (Some (1, put)), a') \<and>
     next_event toy_prims (cn_session toy_connection) (pk_payload put) = (Inr [(9, [1])], session)"
proof -
  let ?a = "toy_accessory\<lparr>ra_subscriptions := {9}, ra_socket := True, ra_peer := Some 1\<rparr>"
  let ?c = "toy_connection\<lparr>cn_net := ?a\<rparr>"
  have conn: "connected ?c"
    using toy_connected by (simp add: connected_def toy_connection_def)
  have small: "length (value_body [1]) < 65536" using length_value_body1 [of 1] by simp
  show ?thesis
    using thread_event_delivered [OF toy_aead_laws rfc_coap_laws conn _ _ small, of 1 9] by fastforce
qed

end
