(* ===== verification/Rust_Text.thy ===== *)
theory Rust_Text
  imports Rust_Std
begin

text \<open>
  More of the Rust language and its standard library: hexadecimal text, case-insensitive comparison
  and suffixes of strings, signed integers, and the two binary floating point formats as their bit
  patterns with the casts between them.
\<close>

section \<open>Text\<close>

definition is_ascii_hexdigit :: "u8 \<Rightarrow> bool" where
  "is_ascii_hexdigit b \<longleftrightarrow> in_range 0x30 0x39 b \<or> in_range 0x41 0x46 b \<or> in_range 0x61 0x66 b"

definition str_lowercase :: "str \<Rightarrow> str" where
  "str_lowercase s = map to_ascii_lowercase s"

definition str_uppercase :: "str \<Rightarrow> str" where
  "str_uppercase s = map to_ascii_uppercase s"

definition eq_ignore_ascii_case :: "str \<Rightarrow> str \<Rightarrow> bool" where
  "eq_ignore_ascii_case a b \<longleftrightarrow> str_lowercase a = str_lowercase b"

definition strip_suffix :: "str \<Rightarrow> str \<Rightarrow> str option" where
  "strip_suffix s suf =
     (if length suf \<le> length s \<and> drop (length s - length suf) s = suf
      then Some (take (length s - length suf) s) else None)"

text \<open>The digit of \<open>char::from_digit(d, 16)\<close>, and a byte under the format \<open>{:02x}\<close>.\<close>

definition hex_char :: "nat \<Rightarrow> u8" where
  "hex_char d = (if d < 10 then of_nat (0x30 + d) else of_nat (0x61 + (d - 10)))"

definition hex2 :: "u8 \<Rightarrow> str" where
  "hex2 b = [hex_char (unat b div 16), hex_char (unat b mod 16)]"

definition hex_lower :: "bytes \<Rightarrow> str" where
  "hex_lower bs = concat (map hex2 bs)"

lemma strip_suffix_append [simp]: "strip_suffix (h @ suf) suf = Some h"
  by (simp add: strip_suffix_def)

lemma strip_suffix_Some_iff: "strip_suffix s suf = Some h \<longleftrightarrow> s = h @ suf"
proof
  assume a: "strip_suffix s suf = Some h"
  then have "h = take (length s - length suf) s" "drop (length s - length suf) s = suf"
    by (auto simp: strip_suffix_def split: if_splits)
  then show "s = h @ suf" using append_take_drop_id [of "length s - length suf" s] by simp
qed simp

lemma unat_hex_char: "d < 16 \<Longrightarrow> unat (hex_char d) = (if d < 10 then 0x30 + d else 0x57 + d)"
  unfolding hex_char_def by (simp add: unat_of_nat_u8 del: of_nat_add of_nat_diff)

lemma hex_char_class: "d < 16 \<Longrightarrow> is_ascii_hexdigit (hex_char d)"
  by (auto simp: is_ascii_hexdigit_def in_range_def unat_hex_char)

lemma digit_val_hex_char: "d < 16 \<Longrightarrow> digit_val 16 (hex_char d) = Some d"
  by (auto simp: digit_val_def in_range_def unat_hex_char Let_def)

lemma hex2_digits: "unat (b :: u8) div 16 < 16" "unat (b :: u8) mod 16 < 16"
  using unat_u8_less [of b] by linarith simp

lemma parse_digits_hex2: "parse_digits 16 (hex2 b) 0 = Some (unat b)"
  by (simp add: hex2_def digit_val_hex_char hex2_digits)

lemma from_str_radix_hex2 [simp]: "from_str_radix 16 255 (hex2 b) = Some (unat b)"
proof -
  have "unat b \<le> 255" using unat_u8_less [of b] by linarith
  moreover have "hex_char (unat b div 16) \<noteq> 0x2B"
    using unat_hex_char [OF hex2_digits(1) [of b]] by (auto split: if_splits)
  ultimately show ?thesis
    using parse_digits_hex2 [of b] by (simp add: from_str_radix_def hex2_def)
qed

lemma length_hex2 [simp]: "length (hex2 b) = 2"
  by (simp add: hex2_def)

lemma length_hex_lower [simp]: "length (hex_lower bs) = 2 * length bs"
  by (induction bs) (simp_all add: hex_lower_def)

lemma hex_lower_class: "c \<in> set (hex_lower bs) \<Longrightarrow> is_ascii_hexdigit c"
  by (auto simp: hex_lower_def hex2_def hex_char_class hex2_digits)

lemma to_ascii_lowercase_idem [simp]: "to_ascii_lowercase (to_ascii_lowercase b) = to_ascii_lowercase b"
proof (cases "in_range 0x41 0x5A b")
  case True
  then have "unat (b + 0x20) = unat b + 0x20"
    by (simp add: unat_word_ariths in_range_def)
  then show ?thesis using True by (simp add: to_ascii_lowercase_def in_range_def)
qed (simp add: to_ascii_lowercase_def)

lemma str_lowercase_idem [simp]: "str_lowercase (str_lowercase s) = str_lowercase s"
  by (simp add: str_lowercase_def)

lemma length_str_case [simp]: "length (str_lowercase s) = length s" "length (str_uppercase s) = length s"
  by (simp_all add: str_lowercase_def str_uppercase_def)

text \<open>The three classes of hexadecimal digits under the case mappings.\<close>

lemma hexdigit_case:
  assumes "is_ascii_hexdigit b"
  shows "is_ascii_hexdigit (to_ascii_lowercase b)" "is_ascii_hexdigit (to_ascii_uppercase b)"
    and "to_ascii_lowercase (to_ascii_uppercase b) = to_ascii_lowercase b"
proof -
  have up: "in_range 0x41 0x46 b \<Longrightarrow> unat (b + 0x20) = unat b + 0x20"
    by (simp add: unat_word_ariths in_range_def)
  have dn: "in_range 0x61 0x66 b \<Longrightarrow> unat (b - 0x20) = unat b - 0x20"
    by (simp add: unat_sub_if_size in_range_def word_size)
  show "is_ascii_hexdigit (to_ascii_lowercase b)"
    using assms up by (auto simp: is_ascii_hexdigit_def to_ascii_lowercase_def in_range_def)
  show "is_ascii_hexdigit (to_ascii_uppercase b)"
    using assms dn by (auto simp: is_ascii_hexdigit_def to_ascii_uppercase_def in_range_def)
  show "to_ascii_lowercase (to_ascii_uppercase b) = to_ascii_lowercase b"
    using assms dn by (auto simp: is_ascii_hexdigit_def to_ascii_uppercase_def to_ascii_lowercase_def in_range_def)
qed

lemma utf8_step_valid:
  assumes "utf8_valid (b # bs)"
  shows "\<exists>n. utf8_step (b # bs) = Inr n \<and> 0 < n \<and> utf8_valid (drop n (b # bs))"
  using assms
  by (auto simp: utf8_step_def Let_def split: if_splits list.splits)

lemma utf8_lossy_valid [simp]: "utf8_valid bs \<Longrightarrow> utf8_lossy bs = bs"
proof (induction bs rule: length_induct)
  case (1 bs)
  show ?case
  proof (cases bs)
    case (Cons b r)
    then obtain n where n: "utf8_step bs = Inr n" "0 < n" "utf8_valid (drop n bs)"
      using utf8_step_valid [of b r] 1(2) by auto
    then have "utf8_lossy (drop n bs) = drop n bs" using 1(1) Cons by simp
    moreover have "bs \<noteq> []" using Cons by simp
    ultimately show ?thesis using n by (simp add: utf8_lossy.simps [of bs])
  qed simp
qed

section \<open>Signed integers\<close>

type_synonym i32 = "32 word"
type_synonym i64 = "64 word"

definition try_i32 :: "i64 \<Rightarrow> i32 option" where
  "try_i32 n = (if - (2 ^ 31) \<le> sint n \<and> sint n < 2 ^ 31 then Some (word_of_int (sint n)) else None)"

lemma try_i32_Some: "try_i32 n = Some m \<Longrightarrow> scast m = n"
proof -
  assume a: "try_i32 n = Some m"
  then have r: "- (2 ^ 31) \<le> sint n" "sint n < 2 ^ 31" and m: "m = word_of_int (sint n)"
    by (auto simp: try_i32_def split: if_splits)
  have "sint (word_of_int k :: i32) = k" if "- (2 ^ 31) \<le> k" "k < 2 ^ 31" for k
    using that by (simp add: signed_of_int signed_take_bit_int_eq_self)
  then have "sint m = sint n" unfolding m using r by blast
  then show ?thesis by (simp add: scast_eq)
qed

lemma try_i32_scast [simp]: "try_i32 (scast (m :: i32)) = Some m"
proof -
  have r: "- (2 ^ 31) \<le> sint m" "sint m < 2 ^ 31"
    using sint_greater_eq [of m] sint_less [of m] by simp_all
  then have "sint (scast m :: i64) = sint m"
    by (simp add: signed_scast_eq signed_take_bit_int_eq_self)
  then show ?thesis using r by (simp add: try_i32_def)
qed

section \<open>Floating point\<close>

text \<open>A value is its IEEE 754 bit pattern: a sign, a biased exponent and a fraction.  Widening is
  exact; narrowing rounds to nearest, ties to even, and overflows to infinity.  Both quiet a NaN.\<close>

type_synonym f32 = u32
type_synonym f64 = u64

definition f32_is_nan :: "f32 \<Rightarrow> bool" where
  "f32_is_nan b \<longleftrightarrow> unat b div 2 ^ 23 mod 256 = 255 \<and> unat b mod 2 ^ 23 \<noteq> 0"

definition f64_is_finite :: "f64 \<Rightarrow> bool" where
  "f64_is_finite b \<longleftrightarrow> unat b div 2 ^ 52 mod 2048 \<noteq> 2047"

definition f64_from_f32 :: "f32 \<Rightarrow> f64" where
  "f64_from_f32 b =
     (let s = unat b div 2 ^ 31; e = unat b div 2 ^ 23 mod 256; m = unat b mod 2 ^ 23 in
      of_nat (s * 2 ^ 63 +
        (if e = 255 then 2047 * 2 ^ 52 + (if m = 0 then 0 else 2 ^ 51 + m mod 2 ^ 22 * 2 ^ 29)
         else if e = 0 then
           (if m = 0 then 0
            else let k = bits m - 1 in (k + 874) * 2 ^ 52 + (m - 2 ^ k) * 2 ^ (52 - k))
         else (e + 896) * 2 ^ 52 + m * 2 ^ 29)))"

definition round_even :: "nat \<Rightarrow> nat \<Rightarrow> nat" where
  "round_even m k =
     (let q = m div 2 ^ k; r = 2 * (m mod 2 ^ k) in
      if 2 ^ k < r \<or> (2 ^ k = r \<and> odd q) then q + 1 else q)"

definition f32_from_f64 :: "f64 \<Rightarrow> f32" where
  "f32_from_f64 b =
     (let s = unat b div 2 ^ 63; e = unat b div 2 ^ 52 mod 2048; m = unat b mod 2 ^ 52 in
      of_nat (s * 2 ^ 31 +
        (if e = 2047 then 255 * 2 ^ 23 + (if m = 0 then 0 else 2 ^ 22 + m div 2 ^ 29 mod 2 ^ 22)
         else
           let sig = (if e = 0 then m else m + 2 ^ 52);
               e = max e 1;
               mag = (if 896 < e then (e - 897) * 2 ^ 23 + round_even sig 29
                      else round_even sig (926 - e)) in
           min mag (255 * 2 ^ 23))))"

text \<open>An integer as the nearest float, ties to even.\<close>

definition f64_of_nat :: "nat \<Rightarrow> nat" where
  "f64_of_nat n =
     (if n = 0 then 0
      else let k = bits n - 1 in
        (1023 + k) * 2 ^ 52 + ((if k \<le> 52 then n * 2 ^ (52 - k) else round_even n (k - 52)) - 2 ^ 52))"

definition f64_from_u64 :: "u64 \<Rightarrow> f64" where
  "f64_from_u64 n = of_nat (f64_of_nat (unat n))"

definition f64_from_i64 :: "i64 \<Rightarrow> f64" where
  "f64_from_i64 n = of_nat ((if sint n < 0 then 2 ^ 63 else 0) + f64_of_nat (nat \<bar>sint n\<bar>))"

lemma round_even_exact [simp]: "round_even (m * 2 ^ k) k = m"
  by (simp add: round_even_def)

lemma bits_lower: "0 < m \<Longrightarrow> 2 ^ (bits m - 1) \<le> m"
proof (induction m rule: bits.induct)
  case (1 n)
  show ?case
  proof (cases "n = 1")
    case True
    then show ?thesis by (simp add: bits.simps)
  next
    case False
    then have n: "0 < n div 2" "n \<noteq> 0" using 1(2) by linarith+
    then have "2 ^ (bits (n div 2) - 1) \<le> n div 2" using 1(1) by simp
    moreover obtain k where k: "bits (n div 2) = Suc k"
      using n(1) by (simp add: bits.simps [of "n div 2"])
    ultimately have "2 * 2 ^ k \<le> n" by simp
    then show ?thesis using n k by (simp add: bits.simps [of n])
  qed
qed

lemma narrow_fields:
  assumes "e < 2048" and "m < 2 ^ 52" and "s < 2"
  shows "unat (of_nat (s * 2 ^ 63 + (e * 2 ^ 52 + m)) :: u64) = s * 2 ^ 63 + (e * 2 ^ 52 + m)"
proof -
  have "s * 2 ^ 63 + (e * 2 ^ 52 + m) < 2 ^ 64" using assms by simp
  then show ?thesis by (simp add: unat_of_nat del: of_nat_add of_nat_mult)
qed

lemma narrow_split:
  assumes "e < 2048" and "m < 2 ^ 52"
  shows "(s * 2 ^ 63 + (e * 2 ^ 52 + m)) div 2 ^ 63 = s"
    and "(s * 2 ^ 63 + (e * 2 ^ 52 + m)) div 2 ^ 52 mod 2048 = (e :: nat)"
    and "(s * 2 ^ 63 + (e * 2 ^ 52 + m)) mod 2 ^ 52 = m"
proof -
  have "e * 2 ^ 52 + m < 2 ^ 63" using assms by simp
  then show "(s * 2 ^ 63 + (e * 2 ^ 52 + m)) div 2 ^ 63 = s" by (simp only: div_mult_self3) simp
  have eq: "s * 2 ^ 63 + (e * 2 ^ 52 + m) = (s * 2048 + e) * 2 ^ 52 + m" by simp
  show "(s * 2 ^ 63 + (e * 2 ^ 52 + m)) div 2 ^ 52 mod 2048 = e"
    unfolding eq using assms by (simp only: div_mult_self3) simp
  show "(s * 2 ^ 63 + (e * 2 ^ 52 + m)) mod 2 ^ 52 = m"
    unfolding eq using assms by (simp only: mod_mult_self3) simp
qed

lemma narrow_eq:
  assumes "e < 2047" and "m < 2 ^ 52" and "s < 2"
  shows "f32_from_f64 (of_nat (s * 2 ^ 63 + (e * 2 ^ 52 + m))) =
    of_nat (s * 2 ^ 31 +
      min (if 896 < max e 1 then (max e 1 - 897) * 2 ^ 23 + round_even (if e = 0 then m else m + 2 ^ 52) 29
           else round_even (if e = 0 then m else m + 2 ^ 52) (926 - max e 1)) (255 * 2 ^ 23))"
  using assms narrow_fields [of e m s] narrow_split [of e m s]
  by (simp only: f32_from_f64_def Let_def) simp

lemma f32_fields:
  fixes b :: f32
  obtains s e m where "unat b div 2 ^ 31 = s" "unat b div 2 ^ 23 mod 256 = e" "unat b mod 2 ^ 23 = m"
    and "s < 2" "e < 256" "m < 2 ^ 23" "b = of_nat (s * 2 ^ 31 + (e * 2 ^ 23 + m))"
proof
  let ?n = "unat b"
  have n: "?n < 2 ^ 32" using unat_u32_less [of b] by simp
  show "?n div 2 ^ 31 < 2" using n by (simp add: less_mult_imp_div_less)
  have "?n div 2 ^ 31 * 2 ^ 31 + (?n div 2 ^ 23 mod 256 * 2 ^ 23 + ?n mod 2 ^ 23) = ?n"
  proof -
    have "?n div 2 ^ 31 = ?n div 2 ^ 23 div 256" by (simp add: div_mult2_eq [symmetric])
    then have "?n div 2 ^ 31 * 256 + ?n div 2 ^ 23 mod 256 = ?n div 2 ^ 23" by simp
    then have "(?n div 2 ^ 31 * 256 + ?n div 2 ^ 23 mod 256) * 2 ^ 23 + ?n mod 2 ^ 23 = ?n" by simp
    then show ?thesis by simp
  qed
  then show "b = of_nat (?n div 2 ^ 31 * 2 ^ 31 + (?n div 2 ^ 23 mod 256 * 2 ^ 23 + ?n mod 2 ^ 23))"
    by (simp only:) simp
qed (simp_all del: power_numeral)

lemma f32_round_trip:
  assumes "\<not> f32_is_nan b"
  shows "f32_from_f64 (f64_from_f32 b) = b"
proof -
  obtain s e m where f: "unat b div 2 ^ 31 = s" "unat b div 2 ^ 23 mod 256 = e" "unat b mod 2 ^ 23 = m"
    and r: "s < 2" "e < 256" "m < 2 ^ 23" and b: "b = of_nat (s * 2 ^ 31 + (e * 2 ^ 23 + m))"
    by (rule f32_fields)
  consider "e = 255" "m = 0" | "e = 0" "m = 0" | "e = 0" "0 < m" | "0 < e" "e < 255"
    using assms r f by (force simp: f32_is_nan_def)
  then show ?thesis
  proof cases
    case 1
    then have "f64_from_f32 b = of_nat (s * 2 ^ 63 + (2047 * 2 ^ 52 + 0))"
      by (simp only: f64_from_f32_def f Let_def) simp
    then show ?thesis
      using 1 r narrow_fields [of 2047 0 s] narrow_split [of 2047 0 s]
      by (simp only: f32_from_f64_def Let_def) (simp add: b)
  next
    case 2
    then have "f64_from_f32 b = of_nat (s * 2 ^ 63 + (0 * 2 ^ 52 + 0))"
      by (simp only: f64_from_f32_def f Let_def) simp
    then show ?thesis using 2 r narrow_eq [of 0 0 s] by (simp add: b round_even_def)
  next
    case 3
    define k where "k = bits m - 1"
    have lo: "2 ^ k \<le> m" using bits_lower 3 by (simp add: k_def)
    have "0 < bits m" using 3 by (simp add: bits.simps)
    then have hi: "m < 2 ^ Suc k" using less_power_bits [of m] by (simp add: k_def)
    have "(2 :: nat) ^ k < 2 ^ 23" using lo r by linarith
    then have k: "k \<le> 22" by (simp only: power_strict_increasing_iff)
    have sh: "(2 :: nat) ^ k * 2 ^ (52 - k) = 2 ^ 52" using k by (simp only: power_add [symmetric]) simp
    have "(m - 2 ^ k) * 2 ^ (52 - k) < 2 ^ k * 2 ^ (52 - k)" using lo hi by simp
    then have m': "(m - 2 ^ k) * 2 ^ (52 - k) < 2 ^ 52" by (simp only: sh)
    have sig: "(m - 2 ^ k) * 2 ^ (52 - k) + 2 ^ 52 = m * 2 ^ (52 - k)"
      using lo by (simp only: sh [symmetric] add_mult_distrib [symmetric]) simp
    have "f64_from_f32 b = of_nat (s * 2 ^ 63 + ((k + 874) * 2 ^ 52 + (m - 2 ^ k) * 2 ^ (52 - k)))"
      using 3 by (simp only: f64_from_f32_def f Let_def k_def) simp
    moreover have "min m (255 * 2 ^ 23) = m" using r by simp
    moreover have "max (k + 874) 1 = k + 874" "\<not> 896 < k + 874" "926 - (k + 874) = 52 - k" "k + 874 \<noteq> 0"
      using k by simp_all
    ultimately show ?thesis
      using 3 r k narrow_eq [of "k + 874", OF _ m' r(1)]
      by (simp only: sig round_even_exact if_False) (simp add: b)
  next
    case 4
    have m': "m * 2 ^ 29 < 2 ^ 52" using r by simp
    have sig: "m * 2 ^ 29 + 2 ^ 52 = (m + 2 ^ 23) * 2 ^ 29" by simp
    have "f64_from_f32 b = of_nat (s * 2 ^ 63 + ((e + 896) * 2 ^ 52 + m * 2 ^ 29))"
      using 4 by (simp only: f64_from_f32_def f Let_def) simp
    moreover have "(max (e + 896) 1 - 897) * 2 ^ 23 + (m + 2 ^ 23) = e * 2 ^ 23 + m"
      using 4 by (cases e) simp_all
    moreover have "min (e * 2 ^ 23 + m) (255 * 2 ^ 23) = e * 2 ^ 23 + m"
      using 4 r by simp
    moreover have "896 < max (e + 896) 1" "e + 896 \<noteq> 0" "e + 896 < 2047" using 4 by simp_all
    ultimately show ?thesis
      using narrow_eq [of "e + 896", OF _ m' r(1)]
      by (simp only: sig round_even_exact if_True if_False b)
  qed
qed

end
