(* ===== verification/Hap_Values.thy ===== *)
theory Hap_Values
  imports Rust_Text
begin

text \<open>
  The value types of \<open>hap-model\<close>: type UUIDs (\<open>uuid.rs\<close>), permissions (\<open>perms.rs\<close>), status codes
  (\<open>status.rs\<close>), units (\<open>unit.rs\<close>) and characteristic formats with their values (\<open>format.rs\<close>).
  JSON and base64 are libraries: a JSON number type, its accessors and the codec are the fields of
  the record \<open>json_lib\<close>, and what the code relies on is \<open>json_laws\<close>.
\<close>

section \<open>Errors\<close>

datatype ModelError =
    Json str
  | UnknownFormat str
  | MalformedUuid str
  | ValueType str str
  | ValueRange str str
  | Base64 str
  | CharacteristicStatus u64 u64 i64
  | Executor str

section \<open>Type UUIDs\<close>

datatype Uuid = Uuid (as_full: str)

definition HAP_BASE_SUFFIX :: str where
  "HAP_BASE_SUFFIX = ascii ''-0000-1000-8000-0026BB765291''"

text \<open>The format \<open>{:0>8}\<close>.\<close>

definition pad8 :: "str \<Rightarrow> str" where
  "pad8 s = replicate (8 - length s) 0x30 @ s"

definition Uuid_parse :: "str \<Rightarrow> ModelError + Uuid" where
  "Uuid_parse s =
     (let t = trim s in
      if length t = 36 \<and> t ! 8 = 0x2D then
        (if list_all (\<lambda>c. is_ascii_hexdigit c \<or> c = 0x2D) t then Inr (Uuid (str_lowercase t))
         else Inl (MalformedUuid s))
      else if 1 \<le> length t \<and> length t \<le> 8 \<and> list_all is_ascii_hexdigit t then
        Inr (Uuid (str_lowercase (pad8 (str_lowercase t) @ HAP_BASE_SUFFIX)))
      else Inl (MalformedUuid s))"

definition as_short :: "Uuid \<Rightarrow> str option" where
  "as_short u =
     (case strip_suffix (as_full u) (str_lowercase HAP_BASE_SUFFIX) of
        None \<Rightarrow> None
      | Some head \<Rightarrow>
          let trimmed = dropWhile (\<lambda>c. c = 0x30) head;
              trimmed = (if trimmed = [] then [0x30] else trimmed) in
          Some (str_uppercase trimmed))"

definition from_full_unchecked :: "str \<Rightarrow> Uuid" where
  "from_full_unchecked full = Uuid full"

definition Uuid_serialize :: "Uuid \<Rightarrow> str" where
  "Uuid_serialize u = (case as_short u of Some short \<Rightarrow> short | None \<Rightarrow> as_full u)"

section \<open>Permissions\<close>

record Perms =
  perm_read :: bool
  perm_write :: bool
  perm_events :: bool
  additional_authorization :: bool
  timed_write :: bool
  hidden :: bool
  write_response :: bool

definition Perms_default :: Perms where
  "Perms_default =
     \<lparr>perm_read = False, perm_write = False, perm_events = False, additional_authorization = False,
      timed_write = False, hidden = False, write_response = False\<rparr>"

definition codes :: "Perms \<Rightarrow> str list" where
  "codes p =
     (if perm_read p then [ascii ''pr''] else []) @
     (if perm_write p then [ascii ''pw''] else []) @
     (if perm_events p then [ascii ''ev''] else []) @
     (if additional_authorization p then [ascii ''aa''] else []) @
     (if timed_write p then [ascii ''tw''] else []) @
     (if hidden p then [ascii ''hd''] else []) @
     (if write_response p then [ascii ''wr''] else [])"

definition visit_code :: "str \<Rightarrow> Perms \<Rightarrow> Perms" where
  "visit_code code p =
     (if code = ascii ''pr'' then p\<lparr>perm_read := True\<rparr>
      else if code = ascii ''pw'' then p\<lparr>perm_write := True\<rparr>
      else if code = ascii ''ev'' then p\<lparr>perm_events := True\<rparr>
      else if code = ascii ''aa'' then p\<lparr>additional_authorization := True\<rparr>
      else if code = ascii ''tw'' then p\<lparr>timed_write := True\<rparr>
      else if code = ascii ''hd'' then p\<lparr>hidden := True\<rparr>
      else if code = ascii ''wr'' then p\<lparr>write_response := True\<rparr>
      else p)"

definition visit_seq :: "str list \<Rightarrow> Perms" where
  "visit_seq cs = fold visit_code cs Perms_default"

section \<open>Status codes\<close>

datatype HapStatus =
    StatusSuccess | InsufficientPrivileges | CommunicationFailure | ResourceBusy | WriteToReadOnly
  | ReadFromWriteOnly | NotificationNotSupported | OutOfResources | OperationTimedOut
  | ResourceDoesNotExist | InvalidValue | InsufficientAuthorization | UnknownStatus i64

definition from_code :: "i64 \<Rightarrow> HapStatus" where
  "from_code c =
     (if c = 0 then StatusSuccess
      else if c = -70401 then InsufficientPrivileges
      else if c = -70402 then CommunicationFailure
      else if c = -70403 then ResourceBusy
      else if c = -70404 then WriteToReadOnly
      else if c = -70405 then ReadFromWriteOnly
      else if c = -70406 then NotificationNotSupported
      else if c = -70407 then OutOfResources
      else if c = -70408 then OperationTimedOut
      else if c = -70409 then ResourceDoesNotExist
      else if c = -70410 then InvalidValue
      else if c = -70411 then InsufficientAuthorization
      else UnknownStatus c)"

primrec status_code :: "HapStatus \<Rightarrow> i64" where
  "status_code StatusSuccess = 0"
| "status_code InsufficientPrivileges = -70401"
| "status_code CommunicationFailure = -70402"
| "status_code ResourceBusy = -70403"
| "status_code WriteToReadOnly = -70404"
| "status_code ReadFromWriteOnly = -70405"
| "status_code NotificationNotSupported = -70406"
| "status_code OutOfResources = -70407"
| "status_code OperationTimedOut = -70408"
| "status_code ResourceDoesNotExist = -70409"
| "status_code InvalidValue = -70410"
| "status_code InsufficientAuthorization = -70411"
| "status_code (UnknownStatus c) = c"

definition hap_status :: "ModelError \<Rightarrow> HapStatus option" where
  "hap_status e = (case e of CharacteristicStatus _ _ status \<Rightarrow> Some (from_code status) | _ \<Rightarrow> None)"

section \<open>Units and formats\<close>

datatype Unit = Celsius | Percentage | ArcDegrees | Lux | Seconds | Ppm | MicrogramsPerM3

primrec Unit_as_str :: "Unit \<Rightarrow> str" where
  "Unit_as_str Celsius = ascii ''celsius''"
| "Unit_as_str Percentage = ascii ''percentage''"
| "Unit_as_str ArcDegrees = ascii ''arcdegrees''"
| "Unit_as_str Lux = ascii ''lux''"
| "Unit_as_str Seconds = ascii ''seconds''"
| "Unit_as_str Ppm = ascii ''ppm''"
| "Unit_as_str MicrogramsPerM3 = ascii ''micrograms/m^3''"

datatype CharFormat =
    FBool | FUint8 | FUint16 | FUint32 | FUint64 | FInt | FFloat | FString | FTlv8 | FData

primrec as_str :: "CharFormat \<Rightarrow> str" where
  "as_str FBool = ascii ''bool''"
| "as_str FUint8 = ascii ''uint8''"
| "as_str FUint16 = ascii ''uint16''"
| "as_str FUint32 = ascii ''uint32''"
| "as_str FUint64 = ascii ''uint64''"
| "as_str FInt = ascii ''int''"
| "as_str FFloat = ascii ''float''"
| "as_str FString = ascii ''string''"
| "as_str FTlv8 = ascii ''tlv8''"
| "as_str FData = ascii ''data''"

definition uint_max :: "CharFormat \<Rightarrow> u64 option" where
  "uint_max f =
     (case f of
        FUint8 \<Rightarrow> Some 0xFF | FUint16 \<Rightarrow> Some 0xFFFF | FUint32 \<Rightarrow> Some 0xFFFFFFFF
      | FUint64 \<Rightarrow> Some 0xFFFFFFFFFFFFFFFF | _ \<Rightarrow> None)"

datatype CharValue = VBool bool | VInt i64 | VUint u64 | VFloat f64 | VStr str | VBytes bytes

section \<open>JSON\<close>

datatype 'n json =
    JNull | JBool bool | JNumber 'n | JString str | JArray "'n json list" | JObject "(str \<times> 'n json) list"

record 'n json_lib =
  num_as_u64 :: "'n \<Rightarrow> u64 option"
  num_as_i64 :: "'n \<Rightarrow> i64 option"
  num_as_f64 :: "'n \<Rightarrow> f64 option"
  num_from_u64 :: "u64 \<Rightarrow> 'n"
  num_from_i64 :: "i64 \<Rightarrow> 'n"
  num_from_f64 :: "f64 \<Rightarrow> 'n option"
  json_show :: "'n json \<Rightarrow> str"
  b64_encode :: "bytes \<Rightarrow> str"
  b64_decode :: "str \<Rightarrow> str + bytes"

text \<open>The documented behaviour of the libraries: a number read back at the type it was made from is
  that number, a number is made from every finite float, and base64 decoding inverts encoding.\<close>

definition json_laws :: "('n, 'x) json_lib_scheme \<Rightarrow> bool" where
  "json_laws J \<longleftrightarrow>
     (\<forall>n. num_as_u64 J (num_from_u64 J n) = Some n) \<and>
     (\<forall>n. num_as_i64 J (num_from_i64 J n) = Some n) \<and>
     (\<forall>f. f64_is_finite f \<longrightarrow> (\<exists>n. num_from_f64 J f = Some n \<and> num_as_f64 J n = Some f)) \<and>
     (\<forall>b. b64_decode J (b64_encode J b) = Inr b)"

definition value_as :: "('n \<Rightarrow> 'a option) \<Rightarrow> 'n json \<Rightarrow> 'a option" where
  "value_as f v = (case v of JNumber n \<Rightarrow> f n | _ \<Rightarrow> None)"

definition type_err :: "('n, 'x) json_lib_scheme \<Rightarrow> CharFormat \<Rightarrow> 'n json \<Rightarrow> ModelError" where
  "type_err J f v = ValueType (as_str f) (ascii ''got JSON '' @ json_show J v)"

definition uint_from_json :: "('n, 'x) json_lib_scheme \<Rightarrow> CharFormat \<Rightarrow> 'n json \<Rightarrow> ModelError + CharValue" where
  "uint_from_json J f v =
     and_then (ok_or (type_err J f v) (value_as (num_as_u64 J) v)) (\<lambda>n.
       case uint_max f of
         Some hi \<Rightarrow>
           if hi < n then Inl (ValueRange (as_str f) (show_nat (unat n))) else Inr (VUint n)
       | None \<Rightarrow> Inr (VUint n))"

definition value_from_json :: "('n, 'x) json_lib_scheme \<Rightarrow> CharFormat \<Rightarrow> 'n json \<Rightarrow> ModelError + CharValue" where
  "value_from_json J f v =
     (case f of
        FBool \<Rightarrow>
          (case v of
             JBool b \<Rightarrow> Inr (VBool b)
           | JNumber n \<Rightarrow>
               if num_as_u64 J n = Some 0 then Inr (VBool False)
               else if num_as_u64 J n = Some 1 then Inr (VBool True)
               else Inl (type_err J f v)
           | _ \<Rightarrow> Inl (type_err J f v))
      | FInt \<Rightarrow> and_then (ok_or (type_err J f v) (value_as (num_as_i64 J) v)) (\<lambda>n. Inr (VInt n))
      | FFloat \<Rightarrow> and_then (ok_or (type_err J f v) (value_as (num_as_f64 J) v)) (\<lambda>x. Inr (VFloat x))
      | FString \<Rightarrow> (case v of JString s \<Rightarrow> Inr (VStr s) | _ \<Rightarrow> Inl (type_err J f v))
      | FTlv8 \<Rightarrow>
          (case v of
             JString s \<Rightarrow> and_then (map_err Base64 (b64_decode J s)) (\<lambda>bs. Inr (VBytes bs))
           | _ \<Rightarrow> Inl (type_err J f v))
      | FData \<Rightarrow>
          (case v of
             JString s \<Rightarrow> and_then (map_err Base64 (b64_decode J s)) (\<lambda>bs. Inr (VBytes bs))
           | _ \<Rightarrow> Inl (type_err J f v))
      | _ \<Rightarrow> uint_from_json J f v)"

primrec to_json :: "('n, 'x) json_lib_scheme \<Rightarrow> CharValue \<Rightarrow> 'n json" where
  "to_json J (VBool b) = JBool b"
| "to_json J (VInt n) = JNumber (num_from_i64 J n)"
| "to_json J (VUint n) = JNumber (num_from_u64 J n)"
| "to_json J (VFloat f) = (case num_from_f64 J f of None \<Rightarrow> JNull | Some n \<Rightarrow> JNumber n)"
| "to_json J (VStr s) = JString s"
| "to_json J (VBytes b) = JString (b64_encode J b)"

text \<open>The values of a format.\<close>

fun well_typed :: "CharFormat \<Rightarrow> CharValue \<Rightarrow> bool" where
  "well_typed FBool (VBool b) = True"
| "well_typed FUint8 (VUint n) = (unat n < 2 ^ 8)"
| "well_typed FUint16 (VUint n) = (unat n < 2 ^ 16)"
| "well_typed FUint32 (VUint n) = (unat n < 2 ^ 32)"
| "well_typed FUint64 (VUint n) = True"
| "well_typed FInt (VInt n) = True"
| "well_typed FFloat (VFloat f) = True"
| "well_typed FString (VStr s) = True"
| "well_typed FTlv8 (VBytes b) = True"
| "well_typed FData (VBytes b) = True"
| "well_typed f v = False"

lemma u64_above:
  "(0xFF :: u64) < n \<longleftrightarrow> \<not> unat n < 2 ^ 8" "(0xFFFF :: u64) < n \<longleftrightarrow> \<not> unat n < 2 ^ 16"
  "(0xFFFFFFFF :: u64) < n \<longleftrightarrow> \<not> unat n < 2 ^ 32" "\<not> (0xFFFFFFFFFFFFFFFF :: u64) < n"
  using unat_u64_less [of n] by (auto simp: word_less_nat_alt)

lemma value_from_json_typed: "value_from_json J f v = Inr x \<Longrightarrow> well_typed f x"
  by (cases f; cases v)
    (auto simp: value_from_json_def uint_from_json_def uint_max_def result_simps value_as_def u64_above
          split: if_splits)

lemma value_from_json_to_json:
  assumes "json_laws J" and "well_typed f x" and "\<And>y. x = VFloat y \<Longrightarrow> f64_is_finite y"
  shows "value_from_json J f (to_json J x) = Inr x"
  using assms
  by (cases f; cases x)
    (auto simp: value_from_json_def uint_from_json_def uint_max_def value_as_def json_laws_def u64_above)

lemma perms_round_trip: "visit_seq (codes p) = p"
  by (cases p) (simp add: visit_seq_def codes_def visit_code_def Perms_default_def ascii_def)

lemma from_code_code: "status_code (from_code c) = c"
  by (simp add: from_code_def)

text \<open>UUID strings consist of hexadecimal digits and dashes, so trimming does not change them.\<close>

definition uuid_char :: "u8 \<Rightarrow> bool" where
  "uuid_char c \<longleftrightarrow> is_ascii_hexdigit c \<or> c = 0x2D"

lemma uuid_char_ascii:
  assumes "uuid_char c"
  shows "\<not> ws1 c" "c \<noteq> 0xC2" "\<not> ws3 c x y" "c \<noteq> 0x85" "c \<noteq> 0xA0" "\<not> ws3 x y c" "uuid_char (to_ascii_lowercase c)"
  using assms hexdigit_case(1) [of c]
  by (auto simp: uuid_char_def is_ascii_hexdigit_def ws1_def ws3_def in_range_def to_ascii_lowercase_def)

lemma not_uuid_char [simp]: "\<not> uuid_char 0xC2"
  by (simp add: uuid_char_def is_ascii_hexdigit_def in_range_def)

lemma trim_uuid_chars:
  assumes "list_all uuid_char s"
  shows "trim s = s"
proof (rule trim_id)
  have f: "ws_front t = 0" "ws_back t = 0" if "list_all uuid_char t" for t
    using that by (auto simp: ws_front_def ws_back_def uuid_char_ascii split: list.split)
  show "no_ws_ends s" using assms f by (simp add: no_ws_ends_def)
qed

lemma list_all_hex_uuid: "list_all is_ascii_hexdigit s \<Longrightarrow> list_all uuid_char s"
  by (auto simp: list_all_iff uuid_char_def)

lemma suffix_facts:
  "length HAP_BASE_SUFFIX = 28" "list_all uuid_char HAP_BASE_SUFFIX" "HAP_BASE_SUFFIX ! 0 = 0x2D"
  by (simp_all add: HAP_BASE_SUFFIX_def ascii_def uuid_char_def is_ascii_hexdigit_def in_range_def)

definition wf_uuid :: "Uuid \<Rightarrow> bool" where
  "wf_uuid u \<longleftrightarrow> length (as_full u) = 36 \<and> as_full u ! 8 = 0x2D \<and> list_all uuid_char (as_full u) \<and>
     str_lowercase (as_full u) = as_full u"

lemma list_all_lowercase: "list_all uuid_char s \<Longrightarrow> list_all uuid_char (str_lowercase s)"
  by (simp add: list_all_iff str_lowercase_def uuid_char_ascii)

lemma Uuid_parse_wf:
  assumes "Uuid_parse s = Inr u"
  shows "wf_uuid u"
proof -
  let ?t = "trim s"
  consider (full) "length ?t = 36" "?t ! 8 = 0x2D" "list_all uuid_char ?t" "u = Uuid (str_lowercase ?t)"
    | (short) "length ?t \<le> 8" "list_all is_ascii_hexdigit ?t"
        "u = Uuid (str_lowercase (pad8 (str_lowercase ?t) @ HAP_BASE_SUFFIX))"
    using assms by (auto simp: Uuid_parse_def Let_def uuid_char_def [abs_def] split: if_splits)
  then show ?thesis
  proof cases
    case full
    then show ?thesis
      using uuid_char_ascii(7) [of "0x2D"]
      by (simp add: wf_uuid_def list_all_lowercase) (simp add: str_lowercase_def to_ascii_lowercase_def in_range_def)
  next
    case short
    let ?p = "pad8 (str_lowercase ?t) @ HAP_BASE_SUFFIX"
    have l: "length (pad8 (str_lowercase ?t)) = 8" using short by (simp add: pad8_def)
    have "?p ! 8 = 0x2D" using l suffix_facts by (simp add: nth_append)
    moreover have "uuid_char 0x30" by (simp add: uuid_char_def is_ascii_hexdigit_def in_range_def)
    then have "list_all uuid_char ?p"
      using short suffix_facts list_all_lowercase [OF list_all_hex_uuid [OF short(2)]]
      by (auto simp: pad8_def list_all_iff)
    ultimately show ?thesis
      using short(3) l suffix_facts list_all_lowercase [of ?p]
      by (simp add: wf_uuid_def) (simp add: str_lowercase_def to_ascii_lowercase_def in_range_def nth_append)
  qed
qed

lemma Uuid_parse_full: "wf_uuid u \<Longrightarrow> Uuid_parse (as_full u) = Inr u"
  by (simp add: Uuid_parse_def wf_uuid_def trim_uuid_chars uuid_char_def [abs_def])

lemma uuid_char_uppercase:
  assumes "uuid_char c"
  shows "uuid_char (to_ascii_uppercase c)" "is_ascii_hexdigit (to_ascii_uppercase c) \<longleftrightarrow> is_ascii_hexdigit c"
  using assms hexdigit_case(2) [of c]
  by (auto simp: uuid_char_def to_ascii_uppercase_def in_range_def)

lemma strip_zeros:
  fixes h :: str
  assumes "length h = 8" and "t = (if dropWhile (\<lambda>c. c = 0x30) h = [] then [0x30] else dropWhile (\<lambda>c. c = 0x30) h)"
  shows "pad8 t = h" "1 \<le> length t" "length t \<le> 8" "list_all uuid_char h \<Longrightarrow> list_all uuid_char t"
proof -
  let ?z = "takeWhile (\<lambda>c. c = 0x30) h" and ?d = "dropWhile (\<lambda>c. c = 0x30) h"
  have h: "h = ?z @ ?d" by simp
  have z: "?z = replicate (length ?z) 0x30" by (intro replicate_length_same [symmetric]) (auto dest: set_takeWhileD)
  have len: "length ?z + length ?d = 8" using assms(1) h by (metis length_append)
  have "replicate (8 - length ?d) 0x30 @ ?d = h" using z len h by (metis add_diff_cancel_right')
  moreover have "replicate 7 (0x30 :: u8) @ [0x30] = replicate 8 0x30" by (simp add: numeral_eq_Suc)
  ultimately show "pad8 t = h" 
    using assms(2) by (cases "?d = []") (simp_all add: pad8_def del: dropWhile_eq_Nil_conv)
  show "1 \<le> length t" "length t \<le> 8" using assms(2) len by (auto simp: Suc_le_eq split: if_splits)
  have "uuid_char 0x30" by (simp add: uuid_char_def is_ascii_hexdigit_def in_range_def)
  then show "list_all uuid_char h \<Longrightarrow> list_all uuid_char t"
    using assms(2) set_dropWhileD [of _ _ h] by (auto simp: list_all_iff)
qed

lemma Uuid_parse_serialize:
  assumes "wf_uuid u"
  shows "Uuid_parse (Uuid_serialize u) = Inr u \<longleftrightarrow>
    (\<forall>head. as_full u = head @ str_lowercase HAP_BASE_SUFFIX \<longrightarrow> list_all is_ascii_hexdigit head)"
proof (cases "strip_suffix (as_full u) (str_lowercase HAP_BASE_SUFFIX)")
  case None
  then have "\<nexists>head. as_full u = head @ str_lowercase HAP_BASE_SUFFIX"
    by (metis option.distinct(1) strip_suffix_append)
  then show ?thesis
    using None Uuid_parse_full [OF assms] by (auto simp: Uuid_serialize_def as_short_def)
next
  case (Some h)
  then have u: "as_full u = h @ str_lowercase HAP_BASE_SUFFIX" by (simp add: strip_suffix_Some_iff)
  have len: "length h = 8" using assms u suffix_facts by (simp add: wf_uuid_def)
  have h: "list_all uuid_char h" "str_lowercase h = h"
    using assms u by (simp_all add: wf_uuid_def str_lowercase_def)
  define t where "t = (if dropWhile (\<lambda>c. c = 0x30) h = [] then [0x30] else dropWhile (\<lambda>c. c = 0x30) h)"
  note t = strip_zeros [OF len t_def]
  have up: "list_all uuid_char (str_uppercase t)"
    using t(4) h(1) by (simp add: list_all_iff str_uppercase_def uuid_char_uppercase)
  have hex: "list_all is_ascii_hexdigit (str_uppercase t) \<longleftrightarrow> list_all is_ascii_hexdigit h"
  proof -
    have "list_all is_ascii_hexdigit (str_uppercase t) \<longleftrightarrow> list_all is_ascii_hexdigit t"
      using t(4) h(1) by (auto simp: list_all_iff str_uppercase_def uuid_char_uppercase)
    also have "\<dots> \<longleftrightarrow> list_all is_ascii_hexdigit (pad8 t)"
      by (auto simp: pad8_def list_all_iff is_ascii_hexdigit_def in_range_def)
    finally show ?thesis using t(1) by simp
  qed
  have low: "pad8 (str_lowercase (str_uppercase t)) = h" if "list_all is_ascii_hexdigit h"
  proof -
    have "list_all is_ascii_hexdigit t" using that hex t(4) h(1)
      by (auto simp: list_all_iff str_uppercase_def uuid_char_uppercase)
    then have "str_lowercase (str_uppercase t) = str_lowercase t"
      by (simp add: str_lowercase_def str_uppercase_def hexdigit_case list_all_iff)
    moreover have "str_lowercase t = t"
    proof -
      have "set t \<subseteq> set (pad8 t)" by (simp add: pad8_def)
      then have "\<forall>c\<in>set t. to_ascii_lowercase c = c"
        using h(2) t(1) by (metis map_eq_conv list.map_ident str_lowercase_def subsetD)
      then show ?thesis by (simp add: str_lowercase_def map_idI)
    qed
    ultimately show ?thesis using t(1) by simp
  qed
  have ser: "Uuid_serialize u = str_uppercase t"
    by (simp add: Uuid_serialize_def as_short_def Some Let_def t_def)
  have "Uuid_parse (Uuid_serialize u) =
      (if list_all is_ascii_hexdigit h
       then Inr (Uuid (str_lowercase (pad8 (str_lowercase (str_uppercase t)) @ HAP_BASE_SUFFIX)))
       else Inl (MalformedUuid (Uuid_serialize u)))"
    using t(2,3) hex trim_uuid_chars [OF up] by (simp add: ser Uuid_parse_def)
  moreover have "Uuid (str_lowercase (h @ HAP_BASE_SUFFIX)) = u"
    using u h(2) by (cases u) (simp add: str_lowercase_def)
  ultimately show ?thesis using low u by auto
qed

text \<open>Parsing a type UUID gives a canonical one, which its full text parses to again.  The text it is
  serialised as, short for a UUID of the HAP base range, parses to it again exactly if the first
  group of a HAP-base UUID consists of hexadecimal digits.\<close>

theorem uuid_round_trip:
  assumes "Uuid_parse s = Inr u"
  shows "length (as_full u) = 36 \<and> Uuid_parse (as_full u) = Inr u \<and>
    (Uuid_parse (Uuid_serialize u) = Inr u \<longleftrightarrow>
      (\<forall>head. as_full u = head @ str_lowercase HAP_BASE_SUFFIX \<longrightarrow> list_all is_ascii_hexdigit head))"
  using Uuid_parse_wf [OF assms] Uuid_parse_full [of u] Uuid_parse_serialize [of u]
  by (simp add: wf_uuid_def)

theorem uuid_round_trip_witness:
  "Uuid_parse (ascii '' 3E '') = Inr (Uuid (ascii ''0000003e-0000-1000-8000-0026bb765291'')) \<and>
   Uuid_parse (ascii ''0000003e-0000-1000-8000-0026bb765291'') =
     Inr (Uuid (ascii ''0000003e-0000-1000-8000-0026bb765291''))"
proof -
  have "Uuid_parse (ascii '' 3E '') = Inr (Uuid (ascii ''0000003e-0000-1000-8000-0026bb765291''))"
    by code_simp
  then show ?thesis using uuid_round_trip [of "ascii '' 3E ''"] by simp
qed

text \<open>The check of the full form accepts dashes in any position, so there are UUIDs whose serialised
  form is refused.\<close>

lemma uuid_dashes_lost:
  "\<exists>u. Uuid_parse (ascii ''---------0000-1000-8000-0026bb765291'') = Inr u \<and>
     Uuid_parse (Uuid_serialize u) = Inl (MalformedUuid (ascii ''--------''))"
  by (intro exI [of _ "Uuid (ascii ''---------0000-1000-8000-0026bb765291'')"]) code_simp

end
