(* ===== verification/Hap_Types.thy ===== *)
theory Hap_Types
  imports Hap_Values
begin

text \<open>
  The tables of \<open>hap-model/src/generated.rs\<close>: the service and characteristic types with their UUIDs,
  default formats, units and named values.  A characteristic type, an enum of 127 variants, is its
  variant's name; \<open>CT_ok\<close> holds of the values the enum has.  Both directions of the UUID tables are
  translated separately, as the code has them, and shown to agree.
\<close>

definition base_uuid :: "string \<Rightarrow> str" where
  "base_uuid s = ascii (s @ ''-0000-1000-8000-0026bb765291'')"

section \<open>Service types\<close>

datatype ServiceType =
    ST_AccessoryInformation | ST_Fan | ST_GarageDoorOpener | ST_LightBulb | ST_LockManagement |
    ST_LockMechanism | ST_Outlet | ST_Switch | ST_Thermostat | ST_SecuritySystem |
    ST_CarbonMonoxideSensor | ST_ContactSensor | ST_Door | ST_HumiditySensor | ST_LeakSensor |
    ST_LightSensor | ST_MotionSensor | ST_OccupancySensor | ST_SmokeSensor |
    ST_StatelessProgrammableSwitch | ST_TemperatureSensor | ST_Window | ST_WindowCovering |
    ST_AirQualitySensor | ST_Battery | ST_CarbonDioxideSensor | ST_ProtocolInformation |
    ST_FanV2 | ST_Slat | ST_FilterMaintenance | ST_AirPurifier | ST_HeaterCooler |
    ST_HumidifierDehumidifier | ST_ServiceLabel | ST_IrrigationSystem | ST_Valve | ST_Faucet |
    ST_CameraRtpStreamManagement | ST_Microphone | ST_Speaker | ST_Doorbell | ST_Unknown Uuid

definition service_from_uuid :: "(str \<times> ServiceType) list" where
  "service_from_uuid =
    [(base_uuid ''0000003e'', ST_AccessoryInformation), (base_uuid ''00000040'', ST_Fan),
     (base_uuid ''00000041'', ST_GarageDoorOpener), (base_uuid ''00000043'', ST_LightBulb),
     (base_uuid ''00000044'', ST_LockManagement), (base_uuid ''00000045'', ST_LockMechanism),
     (base_uuid ''00000047'', ST_Outlet), (base_uuid ''00000049'', ST_Switch),
     (base_uuid ''0000004a'', ST_Thermostat), (base_uuid ''0000007e'', ST_SecuritySystem),
     (base_uuid ''0000007f'', ST_CarbonMonoxideSensor),
     (base_uuid ''00000080'', ST_ContactSensor), (base_uuid ''00000081'', ST_Door),
     (base_uuid ''00000082'', ST_HumiditySensor), (base_uuid ''00000083'', ST_LeakSensor),
     (base_uuid ''00000084'', ST_LightSensor), (base_uuid ''00000085'', ST_MotionSensor),
     (base_uuid ''00000086'', ST_OccupancySensor), (base_uuid ''00000087'', ST_SmokeSensor),
     (base_uuid ''00000089'', ST_StatelessProgrammableSwitch),
     (base_uuid ''0000008a'', ST_TemperatureSensor), (base_uuid ''0000008b'', ST_Window),
     (base_uuid ''0000008c'', ST_WindowCovering), (base_uuid ''0000008d'', ST_AirQualitySensor),
     (base_uuid ''00000096'', ST_Battery), (base_uuid ''00000097'', ST_CarbonDioxideSensor),
     (base_uuid ''000000a2'', ST_ProtocolInformation), (base_uuid ''000000b7'', ST_FanV2),
     (base_uuid ''000000b9'', ST_Slat), (base_uuid ''000000ba'', ST_FilterMaintenance),
     (base_uuid ''000000bb'', ST_AirPurifier), (base_uuid ''000000bc'', ST_HeaterCooler),
     (base_uuid ''000000bd'', ST_HumidifierDehumidifier),
     (base_uuid ''000000cc'', ST_ServiceLabel), (base_uuid ''000000cf'', ST_IrrigationSystem),
     (base_uuid ''000000d0'', ST_Valve), (base_uuid ''000000d7'', ST_Faucet),
     (base_uuid ''00000110'', ST_CameraRtpStreamManagement),
     (base_uuid ''00000112'', ST_Microphone), (base_uuid ''00000113'', ST_Speaker),
     (base_uuid ''00000121'', ST_Doorbell)]"

definition ServiceType_from_uuid :: "Uuid \<Rightarrow> ServiceType" where
  "ServiceType_from_uuid u =
     (case map_of service_from_uuid (as_full u) of Some t \<Rightarrow> t | None \<Rightarrow> ST_Unknown u)"

primrec ServiceType_uuid :: "ServiceType \<Rightarrow> Uuid" where
  "ServiceType_uuid ST_AccessoryInformation = from_full_unchecked (base_uuid ''0000003e'')"
| "ServiceType_uuid ST_Fan = from_full_unchecked (base_uuid ''00000040'')"
| "ServiceType_uuid ST_GarageDoorOpener = from_full_unchecked (base_uuid ''00000041'')"
| "ServiceType_uuid ST_LightBulb = from_full_unchecked (base_uuid ''00000043'')"
| "ServiceType_uuid ST_LockManagement = from_full_unchecked (base_uuid ''00000044'')"
| "ServiceType_uuid ST_LockMechanism = from_full_unchecked (base_uuid ''00000045'')"
| "ServiceType_uuid ST_Outlet = from_full_unchecked (base_uuid ''00000047'')"
| "ServiceType_uuid ST_Switch = from_full_unchecked (base_uuid ''00000049'')"
| "ServiceType_uuid ST_Thermostat = from_full_unchecked (base_uuid ''0000004a'')"
| "ServiceType_uuid ST_SecuritySystem = from_full_unchecked (base_uuid ''0000007e'')"
| "ServiceType_uuid ST_CarbonMonoxideSensor = from_full_unchecked (base_uuid ''0000007f'')"
| "ServiceType_uuid ST_ContactSensor = from_full_unchecked (base_uuid ''00000080'')"
| "ServiceType_uuid ST_Door = from_full_unchecked (base_uuid ''00000081'')"
| "ServiceType_uuid ST_HumiditySensor = from_full_unchecked (base_uuid ''00000082'')"
| "ServiceType_uuid ST_LeakSensor = from_full_unchecked (base_uuid ''00000083'')"
| "ServiceType_uuid ST_LightSensor = from_full_unchecked (base_uuid ''00000084'')"
| "ServiceType_uuid ST_MotionSensor = from_full_unchecked (base_uuid ''00000085'')"
| "ServiceType_uuid ST_OccupancySensor = from_full_unchecked (base_uuid ''00000086'')"
| "ServiceType_uuid ST_SmokeSensor = from_full_unchecked (base_uuid ''00000087'')"
| "ServiceType_uuid ST_StatelessProgrammableSwitch = from_full_unchecked (base_uuid ''00000089'')"
| "ServiceType_uuid ST_TemperatureSensor = from_full_unchecked (base_uuid ''0000008a'')"
| "ServiceType_uuid ST_Window = from_full_unchecked (base_uuid ''0000008b'')"
| "ServiceType_uuid ST_WindowCovering = from_full_unchecked (base_uuid ''0000008c'')"
| "ServiceType_uuid ST_AirQualitySensor = from_full_unchecked (base_uuid ''0000008d'')"
| "ServiceType_uuid ST_Battery = from_full_unchecked (base_uuid ''00000096'')"
| "ServiceType_uuid ST_CarbonDioxideSensor = from_full_unchecked (base_uuid ''00000097'')"
| "ServiceType_uuid ST_ProtocolInformation = from_full_unchecked (base_uuid ''000000a2'')"
| "ServiceType_uuid ST_FanV2 = from_full_unchecked (base_uuid ''000000b7'')"
| "ServiceType_uuid ST_Slat = from_full_unchecked (base_uuid ''000000b9'')"
| "ServiceType_uuid ST_FilterMaintenance = from_full_unchecked (base_uuid ''000000ba'')"
| "ServiceType_uuid ST_AirPurifier = from_full_unchecked (base_uuid ''000000bb'')"
| "ServiceType_uuid ST_HeaterCooler = from_full_unchecked (base_uuid ''000000bc'')"
| "ServiceType_uuid ST_HumidifierDehumidifier = from_full_unchecked (base_uuid ''000000bd'')"
| "ServiceType_uuid ST_ServiceLabel = from_full_unchecked (base_uuid ''000000cc'')"
| "ServiceType_uuid ST_IrrigationSystem = from_full_unchecked (base_uuid ''000000cf'')"
| "ServiceType_uuid ST_Valve = from_full_unchecked (base_uuid ''000000d0'')"
| "ServiceType_uuid ST_Faucet = from_full_unchecked (base_uuid ''000000d7'')"
| "ServiceType_uuid ST_CameraRtpStreamManagement = from_full_unchecked (base_uuid ''00000110'')"
| "ServiceType_uuid ST_Microphone = from_full_unchecked (base_uuid ''00000112'')"
| "ServiceType_uuid ST_Speaker = from_full_unchecked (base_uuid ''00000113'')"
| "ServiceType_uuid ST_Doorbell = from_full_unchecked (base_uuid ''00000121'')"
| "ServiceType_uuid (ST_Unknown u) = u"

section \<open>Characteristic types\<close>

datatype CharacteristicType = CT string | CT_Unknown Uuid

definition characteristic_variants_1 :: "string list" where
  "characteristic_variants_1 =
    [''AdministratorOnlyAccess'', ''AudioFeedback'', ''Brightness'',
     ''CoolingThresholdTemperature'', ''CurrentDoorState'', ''CurrentHeatingCoolingState'',
     ''CurrentRelativeHumidity'', ''CurrentTemperature'', ''HeatingThresholdTemperature'',
     ''Hue'', ''Identify'', ''LockControlPoint'', ''LockManagementAutoSecurityTimeout'',
     ''LockLastKnownAction'', ''LockCurrentState'', ''LockTargetState'', ''Logs'',
     ''Manufacturer'', ''Model'', ''MotionDetected'', ''Name'', ''ObstructionDetected'', ''On'',
     ''OutletInUse'', ''RotationDirection'', ''RotationSpeed'', ''Saturation'',
     ''SerialNumber'', ''TargetDoorState'', ''TargetHeatingCoolingState'',
     ''TargetRelativeHumidity'', ''TargetTemperature'', ''TemperatureDisplayUnits'',
     ''Version'', ''PairSetup'', ''PairVerify'', ''PairingFeatures'', ''PairingPairings'',
     ''FirmwareRevision'', ''HardwareRevision'', ''AirParticulateDensity'',
     ''AirParticulateSize'', ''SecuritySystemCurrentState'', ''SecuritySystemTargetState'',
     ''BatteryLevel'', ''CarbonMonoxideDetected'', ''ContactSensorState'',
     ''CurrentAmbientLightLevel'', ''CurrentHorizontalTiltAngle'', ''CurrentPosition'',
     ''CurrentVerticalTiltAngle'', ''HoldPosition'', ''LeakDetected'', ''OccupancyDetected'',
     ''PositionState'', ''ProgrammableSwitchEvent'', ''StatusActive'', ''SmokeDetected'',
     ''StatusFault'', ''StatusJammed'', ''StatusLowBattery'', ''StatusTampered'',
     ''TargetHorizontalTiltAngle'', ''TargetPosition'', ''TargetVerticalTiltAngle'',
     ''SecuritySystemAlarmType'', ''ChargingState'', ''CarbonMonoxideLevel'',
     ''CarbonMonoxidePeakLevel'', ''CarbonDioxideDetected'']"

definition characteristic_variants_2 :: "string list" where
  "characteristic_variants_2 =
    [''CarbonDioxideLevel'', ''CarbonDioxidePeakLevel'', ''AirQuality'', ''AccessoryFlags'',
     ''LockPhysicalControls'', ''TargetAirPurifierState'', ''CurrentAirPurifierState'',
     ''CurrentSlatState'', ''FilterLifeLevel'', ''FilterChangeIndication'',
     ''ResetFilterIndication'', ''TargetAirQuality'', ''CurrentFanState'', ''Active'',
     ''CurrentHeaterCoolerState'', ''TargetHeaterCoolerState'',
     ''CurrentHumidifierDehumidifierState'', ''TargetHumidifierDehumidifierState'',
     ''WaterLevel'', ''SwingMode'', ''TargetSlatState'', ''TargetFanState'', ''SlatType'',
     ''CurrentTiltAngle'', ''TargetTiltAngle'', ''OzoneDensity'', ''NitrogenDioxideDensity'',
     ''SulphurDioxideDensity'', ''Pm25Density'', ''Pm10Density'', ''VocDensity'',
     ''RelativeHumidityDehumidifierThreshold'', ''RelativeHumidityHumidifierThreshold'',
     ''ServiceLabelIndex'', ''ServiceLabelNamespace'', ''ColorTemperature'', ''ProgramMode'',
     ''InUse'', ''SetDuration'', ''RemainingDuration'', ''ValveType'', ''IsConfigured'',
     ''SupportedVideoStreamConfiguration'', ''SupportedAudioStreamConfiguration'',
     ''SupportedRtpConfiguration'', ''SelectedRtpStreamConfiguration'', ''SetupEndpoints'',
     ''Volume'', ''Mute'', ''NightVision'', ''OpticalZoom'', ''DigitalZoom'', ''ImageRotation'',
     ''ImageMirroring'', ''StreamingStatus'', ''ThreadNodeCapabilities'', ''ThreadStatus'']"

definition characteristic_variants :: "string list" where
  "characteristic_variants = characteristic_variants_1 @ characteristic_variants_2"

primrec CT_ok :: "CharacteristicType \<Rightarrow> bool" where
  "CT_ok (CT v) = (v \<in> set characteristic_variants)"
| "CT_ok (CT_Unknown u) = True"

definition characteristic_from_uuid :: "(str \<times> CharacteristicType) list" where
  "characteristic_from_uuid =
    [(base_uuid ''00000001'', CT ''AdministratorOnlyAccess''),
     (base_uuid ''00000005'', CT ''AudioFeedback''),
     (base_uuid ''00000008'', CT ''Brightness''),
     (base_uuid ''0000000d'', CT ''CoolingThresholdTemperature''),
     (base_uuid ''0000000e'', CT ''CurrentDoorState''),
     (base_uuid ''0000000f'', CT ''CurrentHeatingCoolingState''),
     (base_uuid ''00000010'', CT ''CurrentRelativeHumidity''),
     (base_uuid ''00000011'', CT ''CurrentTemperature''),
     (base_uuid ''00000012'', CT ''HeatingThresholdTemperature''),
     (base_uuid ''00000013'', CT ''Hue''), (base_uuid ''00000014'', CT ''Identify''),
     (base_uuid ''00000019'', CT ''LockControlPoint''),
     (base_uuid ''0000001a'', CT ''LockManagementAutoSecurityTimeout''),
     (base_uuid ''0000001c'', CT ''LockLastKnownAction''),
     (base_uuid ''0000001d'', CT ''LockCurrentState''),
     (base_uuid ''0000001e'', CT ''LockTargetState''), (base_uuid ''0000001f'', CT ''Logs''),
     (base_uuid ''00000020'', CT ''Manufacturer''), (base_uuid ''00000021'', CT ''Model''),
     (base_uuid ''00000022'', CT ''MotionDetected''), (base_uuid ''00000023'', CT ''Name''),
     (base_uuid ''00000024'', CT ''ObstructionDetected''), (base_uuid ''00000025'', CT ''On''),
     (base_uuid ''00000026'', CT ''OutletInUse''),
     (base_uuid ''00000028'', CT ''RotationDirection''),
     (base_uuid ''00000029'', CT ''RotationSpeed''),
     (base_uuid ''0000002f'', CT ''Saturation''), (base_uuid ''00000030'', CT ''SerialNumber''),
     (base_uuid ''00000032'', CT ''TargetDoorState''),
     (base_uuid ''00000033'', CT ''TargetHeatingCoolingState''),
     (base_uuid ''00000034'', CT ''TargetRelativeHumidity''),
     (base_uuid ''00000035'', CT ''TargetTemperature''),
     (base_uuid ''00000036'', CT ''TemperatureDisplayUnits''),
     (base_uuid ''00000037'', CT ''Version''), (base_uuid ''0000004c'', CT ''PairSetup''),
     (base_uuid ''0000004e'', CT ''PairVerify''),
     (base_uuid ''0000004f'', CT ''PairingFeatures''),
     (base_uuid ''00000050'', CT ''PairingPairings''),
     (base_uuid ''00000052'', CT ''FirmwareRevision''),
     (base_uuid ''00000053'', CT ''HardwareRevision''),
     (base_uuid ''00000064'', CT ''AirParticulateDensity''),
     (base_uuid ''00000065'', CT ''AirParticulateSize''),
     (base_uuid ''00000066'', CT ''SecuritySystemCurrentState''),
     (base_uuid ''00000067'', CT ''SecuritySystemTargetState''),
     (base_uuid ''00000068'', CT ''BatteryLevel''),
     (base_uuid ''00000069'', CT ''CarbonMonoxideDetected''),
     (base_uuid ''0000006a'', CT ''ContactSensorState''),
     (base_uuid ''0000006b'', CT ''CurrentAmbientLightLevel''),
     (base_uuid ''0000006c'', CT ''CurrentHorizontalTiltAngle''),
     (base_uuid ''0000006d'', CT ''CurrentPosition''),
     (base_uuid ''0000006e'', CT ''CurrentVerticalTiltAngle''),
     (base_uuid ''0000006f'', CT ''HoldPosition''),
     (base_uuid ''00000070'', CT ''LeakDetected''),
     (base_uuid ''00000071'', CT ''OccupancyDetected''),
     (base_uuid ''00000072'', CT ''PositionState''),
     (base_uuid ''00000073'', CT ''ProgrammableSwitchEvent''),
     (base_uuid ''00000075'', CT ''StatusActive''),
     (base_uuid ''00000076'', CT ''SmokeDetected''),
     (base_uuid ''00000077'', CT ''StatusFault''),
     (base_uuid ''00000078'', CT ''StatusJammed''),
     (base_uuid ''00000079'', CT ''StatusLowBattery''),
     (base_uuid ''0000007a'', CT ''StatusTampered''),
     (base_uuid ''0000007b'', CT ''TargetHorizontalTiltAngle''),
     (base_uuid ''0000007c'', CT ''TargetPosition''),
     (base_uuid ''0000007d'', CT ''TargetVerticalTiltAngle''),
     (base_uuid ''0000008e'', CT ''SecuritySystemAlarmType''),
     (base_uuid ''0000008f'', CT ''ChargingState''),
     (base_uuid ''00000090'', CT ''CarbonMonoxideLevel''),
     (base_uuid ''00000091'', CT ''CarbonMonoxidePeakLevel''),
     (base_uuid ''00000092'', CT ''CarbonDioxideDetected''),
     (base_uuid ''00000093'', CT ''CarbonDioxideLevel''),
     (base_uuid ''00000094'', CT ''CarbonDioxidePeakLevel''),
     (base_uuid ''00000095'', CT ''AirQuality''),
     (base_uuid ''000000a6'', CT ''AccessoryFlags''),
     (base_uuid ''000000a7'', CT ''LockPhysicalControls''),
     (base_uuid ''000000a8'', CT ''TargetAirPurifierState''),
     (base_uuid ''000000a9'', CT ''CurrentAirPurifierState''),
     (base_uuid ''000000aa'', CT ''CurrentSlatState''),
     (base_uuid ''000000ab'', CT ''FilterLifeLevel''),
     (base_uuid ''000000ac'', CT ''FilterChangeIndication''),
     (base_uuid ''000000ad'', CT ''ResetFilterIndication''),
     (base_uuid ''000000ae'', CT ''TargetAirQuality''),
     (base_uuid ''000000af'', CT ''CurrentFanState''), (base_uuid ''000000b0'', CT ''Active''),
     (base_uuid ''000000b1'', CT ''CurrentHeaterCoolerState''),
     (base_uuid ''000000b2'', CT ''TargetHeaterCoolerState''),
     (base_uuid ''000000b3'', CT ''CurrentHumidifierDehumidifierState''),
     (base_uuid ''000000b4'', CT ''TargetHumidifierDehumidifierState''),
     (base_uuid ''000000b5'', CT ''WaterLevel''), (base_uuid ''000000b6'', CT ''SwingMode''),
     (base_uuid ''000000be'', CT ''TargetSlatState''),
     (base_uuid ''000000bf'', CT ''TargetFanState''), (base_uuid ''000000c0'', CT ''SlatType''),
     (base_uuid ''000000c1'', CT ''CurrentTiltAngle''),
     (base_uuid ''000000c2'', CT ''TargetTiltAngle''),
     (base_uuid ''000000c3'', CT ''OzoneDensity''),
     (base_uuid ''000000c4'', CT ''NitrogenDioxideDensity''),
     (base_uuid ''000000c5'', CT ''SulphurDioxideDensity''),
     (base_uuid ''000000c6'', CT ''Pm25Density''), (base_uuid ''000000c7'', CT ''Pm10Density''),
     (base_uuid ''000000c8'', CT ''VocDensity''),
     (base_uuid ''000000c9'', CT ''RelativeHumidityDehumidifierThreshold''),
     (base_uuid ''000000ca'', CT ''RelativeHumidityHumidifierThreshold''),
     (base_uuid ''000000cb'', CT ''ServiceLabelIndex''),
     (base_uuid ''000000cd'', CT ''ServiceLabelNamespace''),
     (base_uuid ''000000ce'', CT ''ColorTemperature''),
     (base_uuid ''000000d1'', CT ''ProgramMode''), (base_uuid ''000000d2'', CT ''InUse''),
     (base_uuid ''000000d3'', CT ''SetDuration''),
     (base_uuid ''000000d4'', CT ''RemainingDuration''),
     (base_uuid ''000000d5'', CT ''ValveType''), (base_uuid ''000000d6'', CT ''IsConfigured''),
     (base_uuid ''00000114'', CT ''SupportedVideoStreamConfiguration''),
     (base_uuid ''00000115'', CT ''SupportedAudioStreamConfiguration''),
     (base_uuid ''00000116'', CT ''SupportedRtpConfiguration''),
     (base_uuid ''00000117'', CT ''SelectedRtpStreamConfiguration''),
     (base_uuid ''00000118'', CT ''SetupEndpoints''), (base_uuid ''00000119'', CT ''Volume''),
     (base_uuid ''0000011a'', CT ''Mute''), (base_uuid ''0000011b'', CT ''NightVision''),
     (base_uuid ''0000011c'', CT ''OpticalZoom''), (base_uuid ''0000011d'', CT ''DigitalZoom''),
     (base_uuid ''0000011e'', CT ''ImageRotation''),
     (base_uuid ''0000011f'', CT ''ImageMirroring''),
     (base_uuid ''00000120'', CT ''StreamingStatus''),
     (base_uuid ''00000702'', CT ''ThreadNodeCapabilities''),
     (base_uuid ''00000703'', CT ''ThreadStatus'')]"

definition CharacteristicType_from_uuid :: "Uuid \<Rightarrow> CharacteristicType" where
  "CharacteristicType_from_uuid u =
     (case map_of characteristic_from_uuid (as_full u) of Some t \<Rightarrow> t | None \<Rightarrow> CT_Unknown u)"

definition characteristic_uuids_1 :: "(string \<times> str) list" where
  "characteristic_uuids_1 =
    [(''AdministratorOnlyAccess'', base_uuid ''00000001''),
     (''AudioFeedback'', base_uuid ''00000005''), (''Brightness'', base_uuid ''00000008''),
     (''CoolingThresholdTemperature'', base_uuid ''0000000d''),
     (''CurrentDoorState'', base_uuid ''0000000e''),
     (''CurrentHeatingCoolingState'', base_uuid ''0000000f''),
     (''CurrentRelativeHumidity'', base_uuid ''00000010''),
     (''CurrentTemperature'', base_uuid ''00000011''),
     (''HeatingThresholdTemperature'', base_uuid ''00000012''),
     (''Hue'', base_uuid ''00000013''), (''Identify'', base_uuid ''00000014''),
     (''LockControlPoint'', base_uuid ''00000019''),
     (''LockManagementAutoSecurityTimeout'', base_uuid ''0000001a''),
     (''LockLastKnownAction'', base_uuid ''0000001c''),
     (''LockCurrentState'', base_uuid ''0000001d''),
     (''LockTargetState'', base_uuid ''0000001e''), (''Logs'', base_uuid ''0000001f''),
     (''Manufacturer'', base_uuid ''00000020''), (''Model'', base_uuid ''00000021''),
     (''MotionDetected'', base_uuid ''00000022''), (''Name'', base_uuid ''00000023''),
     (''ObstructionDetected'', base_uuid ''00000024''), (''On'', base_uuid ''00000025''),
     (''OutletInUse'', base_uuid ''00000026''), (''RotationDirection'', base_uuid ''00000028''),
     (''RotationSpeed'', base_uuid ''00000029''), (''Saturation'', base_uuid ''0000002f''),
     (''SerialNumber'', base_uuid ''00000030''), (''TargetDoorState'', base_uuid ''00000032''),
     (''TargetHeatingCoolingState'', base_uuid ''00000033''),
     (''TargetRelativeHumidity'', base_uuid ''00000034''),
     (''TargetTemperature'', base_uuid ''00000035''),
     (''TemperatureDisplayUnits'', base_uuid ''00000036''),
     (''Version'', base_uuid ''00000037''), (''PairSetup'', base_uuid ''0000004c''),
     (''PairVerify'', base_uuid ''0000004e''), (''PairingFeatures'', base_uuid ''0000004f''),
     (''PairingPairings'', base_uuid ''00000050''),
     (''FirmwareRevision'', base_uuid ''00000052''),
     (''HardwareRevision'', base_uuid ''00000053''),
     (''AirParticulateDensity'', base_uuid ''00000064''),
     (''AirParticulateSize'', base_uuid ''00000065''),
     (''SecuritySystemCurrentState'', base_uuid ''00000066''),
     (''SecuritySystemTargetState'', base_uuid ''00000067''),
     (''BatteryLevel'', base_uuid ''00000068''),
     (''CarbonMonoxideDetected'', base_uuid ''00000069''),
     (''ContactSensorState'', base_uuid ''0000006a''),
     (''CurrentAmbientLightLevel'', base_uuid ''0000006b''),
     (''CurrentHorizontalTiltAngle'', base_uuid ''0000006c'')]"

definition characteristic_uuids_2 :: "(string \<times> str) list" where
  "characteristic_uuids_2 =
    [(''CurrentPosition'', base_uuid ''0000006d''),
     (''CurrentVerticalTiltAngle'', base_uuid ''0000006e''),
     (''HoldPosition'', base_uuid ''0000006f''), (''LeakDetected'', base_uuid ''00000070''),
     (''OccupancyDetected'', base_uuid ''00000071''),
     (''PositionState'', base_uuid ''00000072''),
     (''ProgrammableSwitchEvent'', base_uuid ''00000073''),
     (''StatusActive'', base_uuid ''00000075''), (''SmokeDetected'', base_uuid ''00000076''),
     (''StatusFault'', base_uuid ''00000077''), (''StatusJammed'', base_uuid ''00000078''),
     (''StatusLowBattery'', base_uuid ''00000079''),
     (''StatusTampered'', base_uuid ''0000007a''),
     (''TargetHorizontalTiltAngle'', base_uuid ''0000007b''),
     (''TargetPosition'', base_uuid ''0000007c''),
     (''TargetVerticalTiltAngle'', base_uuid ''0000007d''),
     (''SecuritySystemAlarmType'', base_uuid ''0000008e''),
     (''ChargingState'', base_uuid ''0000008f''),
     (''CarbonMonoxideLevel'', base_uuid ''00000090''),
     (''CarbonMonoxidePeakLevel'', base_uuid ''00000091''),
     (''CarbonDioxideDetected'', base_uuid ''00000092''),
     (''CarbonDioxideLevel'', base_uuid ''00000093''),
     (''CarbonDioxidePeakLevel'', base_uuid ''00000094''),
     (''AirQuality'', base_uuid ''00000095''), (''AccessoryFlags'', base_uuid ''000000a6''),
     (''LockPhysicalControls'', base_uuid ''000000a7''),
     (''TargetAirPurifierState'', base_uuid ''000000a8''),
     (''CurrentAirPurifierState'', base_uuid ''000000a9''),
     (''CurrentSlatState'', base_uuid ''000000aa''),
     (''FilterLifeLevel'', base_uuid ''000000ab''),
     (''FilterChangeIndication'', base_uuid ''000000ac''),
     (''ResetFilterIndication'', base_uuid ''000000ad''),
     (''TargetAirQuality'', base_uuid ''000000ae''),
     (''CurrentFanState'', base_uuid ''000000af''), (''Active'', base_uuid ''000000b0''),
     (''CurrentHeaterCoolerState'', base_uuid ''000000b1''),
     (''TargetHeaterCoolerState'', base_uuid ''000000b2''),
     (''CurrentHumidifierDehumidifierState'', base_uuid ''000000b3''),
     (''TargetHumidifierDehumidifierState'', base_uuid ''000000b4''),
     (''WaterLevel'', base_uuid ''000000b5''), (''SwingMode'', base_uuid ''000000b6''),
     (''TargetSlatState'', base_uuid ''000000be''),
     (''TargetFanState'', base_uuid ''000000bf''), (''SlatType'', base_uuid ''000000c0''),
     (''CurrentTiltAngle'', base_uuid ''000000c1''),
     (''TargetTiltAngle'', base_uuid ''000000c2''), (''OzoneDensity'', base_uuid ''000000c3''),
     (''NitrogenDioxideDensity'', base_uuid ''000000c4''),
     (''SulphurDioxideDensity'', base_uuid ''000000c5'')]"

definition characteristic_uuids_3 :: "(string \<times> str) list" where
  "characteristic_uuids_3 =
    [(''Pm25Density'', base_uuid ''000000c6''), (''Pm10Density'', base_uuid ''000000c7''),
     (''VocDensity'', base_uuid ''000000c8''),
     (''RelativeHumidityDehumidifierThreshold'', base_uuid ''000000c9''),
     (''RelativeHumidityHumidifierThreshold'', base_uuid ''000000ca''),
     (''ServiceLabelIndex'', base_uuid ''000000cb''),
     (''ServiceLabelNamespace'', base_uuid ''000000cd''),
     (''ColorTemperature'', base_uuid ''000000ce''), (''ProgramMode'', base_uuid ''000000d1''),
     (''InUse'', base_uuid ''000000d2''), (''SetDuration'', base_uuid ''000000d3''),
     (''RemainingDuration'', base_uuid ''000000d4''), (''ValveType'', base_uuid ''000000d5''),
     (''IsConfigured'', base_uuid ''000000d6''),
     (''SupportedVideoStreamConfiguration'', base_uuid ''00000114''),
     (''SupportedAudioStreamConfiguration'', base_uuid ''00000115''),
     (''SupportedRtpConfiguration'', base_uuid ''00000116''),
     (''SelectedRtpStreamConfiguration'', base_uuid ''00000117''),
     (''SetupEndpoints'', base_uuid ''00000118''), (''Volume'', base_uuid ''00000119''),
     (''Mute'', base_uuid ''0000011a''), (''NightVision'', base_uuid ''0000011b''),
     (''OpticalZoom'', base_uuid ''0000011c''), (''DigitalZoom'', base_uuid ''0000011d''),
     (''ImageRotation'', base_uuid ''0000011e''), (''ImageMirroring'', base_uuid ''0000011f''),
     (''StreamingStatus'', base_uuid ''00000120''),
     (''ThreadNodeCapabilities'', base_uuid ''00000702''),
     (''ThreadStatus'', base_uuid ''00000703'')]"

definition characteristic_uuids :: "(string \<times> str) list" where
  "characteristic_uuids = characteristic_uuids_1 @ characteristic_uuids_2 @ characteristic_uuids_3"

definition CharacteristicType_uuid :: "CharacteristicType \<Rightarrow> Uuid" where
  "CharacteristicType_uuid t =
     (case t of
        CT v \<Rightarrow> (case map_of characteristic_uuids v of Some s \<Rightarrow> from_full_unchecked s | None \<Rightarrow> from_full_unchecked [])
      | CT_Unknown u \<Rightarrow> u)"

section \<open>Formats, units and named values\<close>

definition default_formats :: "(string \<times> CharFormat) list" where
  "default_formats =
    [(''AdministratorOnlyAccess'', FBool), (''AudioFeedback'', FBool), (''Brightness'', FInt),
     (''CoolingThresholdTemperature'', FFloat), (''CurrentDoorState'', FUint8),
     (''CurrentHeatingCoolingState'', FUint8), (''CurrentRelativeHumidity'', FFloat),
     (''CurrentTemperature'', FFloat), (''HeatingThresholdTemperature'', FFloat),
     (''Hue'', FFloat), (''Identify'', FBool), (''LockControlPoint'', FTlv8),
     (''LockManagementAutoSecurityTimeout'', FUint32), (''LockLastKnownAction'', FUint8),
     (''LockCurrentState'', FUint8), (''LockTargetState'', FUint8), (''Logs'', FTlv8),
     (''Manufacturer'', FString), (''Model'', FString), (''MotionDetected'', FBool),
     (''Name'', FString), (''ObstructionDetected'', FBool), (''On'', FBool),
     (''OutletInUse'', FBool), (''RotationDirection'', FInt), (''RotationSpeed'', FFloat),
     (''Saturation'', FFloat), (''SerialNumber'', FString), (''TargetDoorState'', FUint8),
     (''TargetHeatingCoolingState'', FUint8), (''TargetRelativeHumidity'', FFloat),
     (''TargetTemperature'', FFloat), (''TemperatureDisplayUnits'', FUint8),
     (''Version'', FString), (''PairSetup'', FTlv8), (''PairVerify'', FTlv8),
     (''PairingFeatures'', FUint8), (''PairingPairings'', FTlv8),
     (''FirmwareRevision'', FString), (''HardwareRevision'', FString),
     (''AirParticulateDensity'', FFloat), (''AirParticulateSize'', FUint8),
     (''SecuritySystemCurrentState'', FUint8), (''SecuritySystemTargetState'', FUint8),
     (''BatteryLevel'', FUint8), (''CarbonMonoxideDetected'', FUint8),
     (''ContactSensorState'', FUint8), (''CurrentAmbientLightLevel'', FFloat),
     (''CurrentHorizontalTiltAngle'', FInt), (''CurrentPosition'', FUint8),
     (''CurrentVerticalTiltAngle'', FInt), (''HoldPosition'', FBool),
     (''LeakDetected'', FUint8), (''OccupancyDetected'', FUint8), (''PositionState'', FUint8),
     (''ProgrammableSwitchEvent'', FUint8), (''StatusActive'', FBool),
     (''SmokeDetected'', FUint8), (''StatusFault'', FUint8), (''StatusJammed'', FUint8),
     (''StatusLowBattery'', FUint8), (''StatusTampered'', FUint8),
     (''TargetHorizontalTiltAngle'', FInt), (''TargetPosition'', FUint8),
     (''TargetVerticalTiltAngle'', FInt), (''SecuritySystemAlarmType'', FUint8),
     (''ChargingState'', FUint8), (''CarbonMonoxideLevel'', FFloat),
     (''CarbonMonoxidePeakLevel'', FFloat), (''CarbonDioxideDetected'', FUint8),
     (''CarbonDioxideLevel'', FFloat), (''CarbonDioxidePeakLevel'', FFloat),
     (''AirQuality'', FUint8), (''AccessoryFlags'', FUint32),
     (''LockPhysicalControls'', FUint8), (''TargetAirPurifierState'', FUint8),
     (''CurrentAirPurifierState'', FUint8), (''CurrentSlatState'', FUint8),
     (''FilterLifeLevel'', FFloat), (''FilterChangeIndication'', FUint8),
     (''ResetFilterIndication'', FUint8), (''TargetAirQuality'', FUint8),
     (''CurrentFanState'', FUint8), (''Active'', FUint8),
     (''CurrentHeaterCoolerState'', FUint8), (''TargetHeaterCoolerState'', FUint8),
     (''CurrentHumidifierDehumidifierState'', FUint8),
     (''TargetHumidifierDehumidifierState'', FUint8), (''WaterLevel'', FFloat),
     (''SwingMode'', FUint8), (''TargetSlatState'', FUint8), (''TargetFanState'', FUint8),
     (''SlatType'', FUint8), (''CurrentTiltAngle'', FInt), (''TargetTiltAngle'', FInt),
     (''OzoneDensity'', FFloat), (''NitrogenDioxideDensity'', FFloat),
     (''SulphurDioxideDensity'', FFloat), (''Pm25Density'', FFloat), (''Pm10Density'', FFloat),
     (''VocDensity'', FFloat), (''RelativeHumidityDehumidifierThreshold'', FFloat),
     (''RelativeHumidityHumidifierThreshold'', FFloat), (''ServiceLabelIndex'', FUint8),
     (''ServiceLabelNamespace'', FUint8), (''ColorTemperature'', FUint32),
     (''ProgramMode'', FUint8), (''InUse'', FUint8), (''SetDuration'', FUint32),
     (''RemainingDuration'', FUint32), (''ValveType'', FUint8), (''IsConfigured'', FUint8),
     (''SupportedVideoStreamConfiguration'', FTlv8),
     (''SupportedAudioStreamConfiguration'', FTlv8), (''SupportedRtpConfiguration'', FTlv8),
     (''SelectedRtpStreamConfiguration'', FTlv8), (''SetupEndpoints'', FTlv8),
     (''Volume'', FUint8), (''Mute'', FBool), (''NightVision'', FBool),
     (''OpticalZoom'', FFloat), (''DigitalZoom'', FFloat), (''ImageRotation'', FFloat),
     (''ImageMirroring'', FBool), (''StreamingStatus'', FTlv8),
     (''ThreadNodeCapabilities'', FUint16), (''ThreadStatus'', FUint16)]"

definition default_format :: "CharacteristicType \<Rightarrow> CharFormat option" where
  "default_format t = (case t of CT v \<Rightarrow> map_of default_formats v | _ \<Rightarrow> None)"

definition characteristic_units :: "(string \<times> Unit) list" where
  "characteristic_units =
    [(''Brightness'', Percentage), (''CoolingThresholdTemperature'', Celsius),
     (''CurrentRelativeHumidity'', Percentage), (''CurrentTemperature'', Celsius),
     (''HeatingThresholdTemperature'', Celsius), (''Hue'', ArcDegrees),
     (''LockManagementAutoSecurityTimeout'', Seconds), (''RotationSpeed'', Percentage),
     (''Saturation'', Percentage), (''TargetRelativeHumidity'', Percentage),
     (''TargetTemperature'', Celsius), (''BatteryLevel'', Percentage),
     (''CurrentAmbientLightLevel'', Lux), (''CurrentHorizontalTiltAngle'', ArcDegrees),
     (''CurrentPosition'', Percentage), (''CurrentVerticalTiltAngle'', ArcDegrees),
     (''TargetHorizontalTiltAngle'', ArcDegrees), (''TargetPosition'', Percentage),
     (''TargetVerticalTiltAngle'', ArcDegrees), (''WaterLevel'', Percentage),
     (''CurrentTiltAngle'', ArcDegrees), (''TargetTiltAngle'', ArcDegrees),
     (''RelativeHumidityDehumidifierThreshold'', Percentage),
     (''RelativeHumidityHumidifierThreshold'', Percentage), (''Volume'', Percentage),
     (''ImageRotation'', ArcDegrees)]"

definition CharacteristicType_unit :: "CharacteristicType \<Rightarrow> Unit option" where
  "CharacteristicType_unit t = (case t of CT v \<Rightarrow> map_of characteristic_units v | _ \<Rightarrow> None)"

definition named_values :: "(string \<times> (i64 \<times> string) list) list" where
  "named_values =
    [(''CurrentDoorState'', [(0, ''Open''), (1, ''Closed''), (2, ''Opening''), (3, ''Closing''), (4, ''Stopped'')]),
     (''CurrentHeatingCoolingState'', [(0, ''Off''), (1, ''Heat''), (2, ''Cool'')]),
     (''LockLastKnownAction'', [(0, ''LastDeadbolted''), (1, ''LastUnlocked''), (2, ''LastLockedRemotely''), (3, ''LastUnlockedRemotely''), (4, ''LastLockedManual''), (5, ''LastUnlockedManual''), (6, ''AutoLock''), (7, ''AutoUnlock''), (8, ''Locked''), (9, ''Unlocked'')]),
     (''LockCurrentState'', [(0, ''Unsecured''), (1, ''Secured''), (2, ''Jammed''), (3, ''Unknown'')]),
     (''LockTargetState'', [(0, ''Unsecured''), (1, ''Secured'')]),
     (''RotationDirection'', [(0, ''Clockwise''), (1, ''CounterClockwise'')]),
     (''TargetDoorState'', [(0, ''Open''), (1, ''Closed'')]),
     (''TargetHeatingCoolingState'', [(0, ''Off''), (1, ''Heat''), (2, ''Cool''), (3, ''Auto'')]),
     (''TemperatureDisplayUnits'', [(0, ''Celsius''), (1, ''Fahrenheit'')]),
     (''SecuritySystemCurrentState'', [(0, ''StayArm''), (1, ''AwayArm''), (2, ''NightArm''), (3, ''Disarmed''), (4, ''AlarmTriggered'')]),
     (''SecuritySystemTargetState'', [(0, ''StayArm''), (1, ''AwayArm''), (2, ''NightArm''), (3, ''Disarmed'')]),
     (''CarbonMonoxideDetected'', [(0, ''NotDetected''), (1, ''Detected'')]),
     (''ContactSensorState'', [(0, ''ContactDetected''), (1, ''ContactNotDetected'')]),
     (''LeakDetected'', [(0, ''LeakNotDetected''), (1, ''LeakDetected'')]),
     (''OccupancyDetected'', [(0, ''OccupancyNotDetected''), (1, ''OccupancyDetected'')]),
     (''PositionState'', [(0, ''Decreasing''), (1, ''Increasing''), (2, ''Stopped'')]),
     (''ProgrammableSwitchEvent'', [(0, ''SinglePress''), (1, ''DoublePress''), (2, ''LongPress'')]),
     (''SmokeDetected'', [(0, ''SmokeNotDetected''), (1, ''SmokeDetected'')]),
     (''StatusFault'', [(0, ''NoFault''), (1, ''GeneralFault'')]),
     (''StatusJammed'', [(0, ''NotJammed''), (1, ''Jammed'')]),
     (''StatusLowBattery'', [(0, ''Normal''), (1, ''Low'')]),
     (''StatusTampered'', [(0, ''NotTampered''), (1, ''Tampered'')]),
     (''ChargingState'', [(0, ''NotCharging''), (1, ''Charging''), (2, ''NotChargeable'')]),
     (''CarbonDioxideDetected'', [(0, ''CarbonDioxideNotDetected''), (1, ''CarbonDioxideDetected'')]),
     (''AirQuality'', [(0, ''Unknown''), (1, ''Excellent''), (2, ''Good''), (3, ''Fair''), (4, ''Inferior''), (5, ''Poor'')]),
     (''LockPhysicalControls'', [(0, ''ControlLockDisabled''), (1, ''ControlLockEnabled'')]),
     (''TargetAirPurifierState'', [(0, ''Manual''), (1, ''Automatic'')]),
     (''CurrentAirPurifierState'', [(0, ''Inactive''), (1, ''Idle''), (2, ''PurgingAir'')]),
     (''CurrentSlatState'', [(0, ''Fixed''), (1, ''Jammed''), (2, ''Swinging'')]),
     (''FilterChangeIndication'', [(0, ''FilterOk''), (1, ''ChangeFilter'')]),
     (''TargetAirQuality'', [(0, ''Excellent''), (1, ''Good''), (2, ''Fair'')]),
     (''CurrentFanState'', [(0, ''Inactive''), (1, ''Idle''), (2, ''BlowingAir'')]),
     (''Active'', [(0, ''Inactive''), (1, ''Active'')]),
     (''CurrentHeaterCoolerState'', [(0, ''Inactive''), (1, ''Idle''), (2, ''Heating''), (3, ''Cooling'')]),
     (''TargetHeaterCoolerState'', [(0, ''Automatic''), (1, ''Heat''), (2, ''Cool'')]),
     (''CurrentHumidifierDehumidifierState'', [(0, ''Inactive''), (1, ''Idle''), (2, ''Humidifying''), (3, ''Dehumidifying'')]),
     (''TargetHumidifierDehumidifierState'', [(0, ''Humidifier''), (1, ''Dehumidifier''), (2, ''HumidifierOrDehumidifier'')]),
     (''SwingMode'', [(0, ''Disabled''), (1, ''Enabled'')]),
     (''TargetSlatState'', [(0, ''Manual''), (1, ''Auto'')]),
     (''TargetFanState'', [(0, ''Manual''), (1, ''Auto'')]),
     (''SlatType'', [(0, ''Horizontal''), (1, ''Vertical'')]),
     (''ServiceLabelNamespace'', [(0, ''Dots''), (1, ''ArabicNumerals'')]),
     (''ProgramMode'', [(0, ''NoProgramScheduled''), (1, ''ProgramScheduled''), (2, ''ProgramScheduledManualMode'')]),
     (''InUse'', [(0, ''NotInUse''), (1, ''InUse'')]),
     (''ValveType'', [(0, ''GenericValve''), (1, ''Irrigation''), (2, ''ShowerHead''), (3, ''WaterFaucet'')]),
     (''IsConfigured'', [(0, ''NotConfigured''), (1, ''Configured'')])]"

definition valid_values :: "CharacteristicType \<Rightarrow> (i64 \<times> string) list option" where
  "valid_values t = (case t of CT v \<Rightarrow> map_of named_values v | _ \<Rightarrow> None)"

section \<open>The tables agree\<close>

lemma of_char_u8_inject: "(of_char c :: u8) = of_char d \<longleftrightarrow> c = d"
proof -
  have "unat (of_char c :: u8) = (of_char c :: nat)" for c
    by (metis of_nat_of_char of_char_mod_256 unat_of_nat_u8)
  then show ?thesis by (metis of_char_eq_iff)
qed

lemma base_uuid_inject [simp]: "base_uuid s = base_uuid t \<longleftrightarrow> s = t"
  by (simp add: base_uuid_def ascii_def inj_map_eq_map inj_def of_char_u8_inject)

lemma service_table:
  "distinct (map fst service_from_uuid)"
  "list_all (\<lambda>(s, t). ServiceType_uuid t = Uuid s) service_from_uuid"
  by (simp_all add: service_from_uuid_def from_full_unchecked_def)

lemma service_complete: "(\<exists>u. t = ST_Unknown u) \<or> (as_full (ServiceType_uuid t), t) \<in> set service_from_uuid"
  by (cases t) (simp_all add: service_from_uuid_def from_full_unchecked_def)

lemma characteristic_from_uuid_distinct: "distinct (map fst characteristic_from_uuid)"
  by (simp add: characteristic_from_uuid_def)

lemma characteristic_from_uuid_eq:
  "characteristic_from_uuid = map (\<lambda>(v, s). (s, CT v)) characteristic_uuids"
  by (simp add: characteristic_from_uuid_def characteristic_uuids_def
      characteristic_uuids_1_def characteristic_uuids_2_def characteristic_uuids_3_def)

lemma characteristic_names:
  "map fst characteristic_uuids = characteristic_variants" "map fst default_formats = characteristic_variants"
  by (simp_all add: characteristic_uuids_def characteristic_uuids_1_def characteristic_uuids_2_def
      characteristic_uuids_3_def characteristic_variants_def characteristic_variants_1_def
      characteristic_variants_2_def default_formats_def)

lemma characteristic_variants_distinct: "distinct characteristic_variants"
  by code_simp

lemma ServiceType_uuid_from: "ServiceType_uuid (ServiceType_from_uuid u) = u"
  using service_table(2)
  by (cases u) (auto simp: ServiceType_from_uuid_def list_all_iff split: option.split dest!: map_of_SomeD)

lemma ServiceType_from_uuid: "(\<exists>u. t = ST_Unknown u) \<or> ServiceType_from_uuid (ServiceType_uuid t) = t"
  using service_complete [of t] map_of_is_SomeI [OF service_table(1)]
  by (auto simp: ServiceType_from_uuid_def)

lemma variant_uuid:
  "(v, s) \<in> set characteristic_uuids \<Longrightarrow> CharacteristicType_uuid (CT v) = Uuid s"
  using map_of_is_SomeI [of characteristic_uuids v s] characteristic_variants_distinct
  by (simp add: characteristic_names CharacteristicType_uuid_def from_full_unchecked_def)

lemma variant_in: "(v, s) \<in> set characteristic_uuids \<Longrightarrow> v \<in> set characteristic_variants"
  using characteristic_names(1) by (metis fst_conv image_eqI list.set_map)

lemma CharacteristicType_uuid_from:
  "CharacteristicType_uuid (CharacteristicType_from_uuid u) = u \<and> CT_ok (CharacteristicType_from_uuid u)"
proof (cases "map_of characteristic_from_uuid (as_full u)")
  case None
  then show ?thesis by (simp add: CharacteristicType_from_uuid_def CharacteristicType_uuid_def)
next
  case (Some t)
  then obtain v where "t = CT v" "(v, as_full u) \<in> set characteristic_uuids"
    using map_of_SomeD [OF Some] by (auto simp: characteristic_from_uuid_eq)
  then show ?thesis
    using Some by (simp add: CharacteristicType_from_uuid_def variant_uuid variant_in)
qed

lemma CharacteristicType_from_uuid:
  assumes "v \<in> set characteristic_variants"
  shows "CharacteristicType_from_uuid (CharacteristicType_uuid (CT v)) = CT v"
proof -
  obtain s where s: "(v, s) \<in> set characteristic_uuids"
    using assms characteristic_names(1) by (metis (no_types) imageE list.set_map prod.collapse)
  then have "(s, CT v) \<in> set characteristic_from_uuid" by (force simp: characteristic_from_uuid_eq)
  then have "map_of characteristic_from_uuid s = Some (CT v)"
    by (rule map_of_is_SomeI [OF characteristic_from_uuid_distinct])
  then show ?thesis using variant_uuid [OF s] by (simp add: CharacteristicType_from_uuid_def)
qed

lemma default_format_total: "v \<in> set characteristic_variants \<Longrightarrow> default_format (CT v) \<noteq> None"
  using characteristic_names(2) by (simp add: default_format_def map_of_eq_None_iff flip: list.set_map)

lemma named_values_formats:
  "list_all (\<lambda>(v, vs). (case map_of default_formats v of None \<Rightarrow> False | Some f \<Rightarrow> f = FUint8 \<or> f = FInt) \<and>
      map fst vs = map of_nat [0..<length vs]) named_values"
  by code_simp

text \<open>The type tables of the attribute model agree with each other: the UUID of the type that a UUID
  maps to is that UUID, known or not; every named service and characteristic type is found again
  under its UUID; every named characteristic has a default format, and where it has named values
  they are numbered from zero without a gap and are values of an integer default format.\<close>

theorem hap_types_consistent:
  "ServiceType_uuid (ServiceType_from_uuid u) = u \<and>
   ((\<exists>x. t = ST_Unknown x) \<or> ServiceType_from_uuid (ServiceType_uuid t) = t) \<and>
   CharacteristicType_uuid (CharacteristicType_from_uuid u) = u \<and> CT_ok (CharacteristicType_from_uuid u) \<and>
   list_all (\<lambda>v. CharacteristicType_from_uuid (CharacteristicType_uuid (CT v)) = CT v \<and>
      (case (default_format (CT v), valid_values (CT v)) of
         (Some f, Some vs) \<Rightarrow> (f = FUint8 \<or> f = FInt) \<and> map fst vs = map of_nat [0..<length vs]
       | (Some f, None) \<Rightarrow> True
       | (None, _) \<Rightarrow> False)) characteristic_variants"
proof -
  have "(f = FUint8 \<or> f = FInt) \<and> map fst vs = map of_nat [0..<length vs]"
    if "default_format (CT v) = Some f" "valid_values (CT v) = Some vs" for v f vs
    using that named_values_formats
    by (auto simp: default_format_def valid_values_def list_all_iff dest!: map_of_SomeD [of named_values])
  then show ?thesis
    using ServiceType_uuid_from ServiceType_from_uuid CharacteristicType_uuid_from CharacteristicType_from_uuid
      default_format_total
    by (auto simp: list_all_iff split: option.split)
qed

end
