(* ===== verification/Hap_Model.thy ===== *)
theory Hap_Model
  imports Hap_Types
begin

text \<open>
  The attribute model of \<open>hap-model\<close>: the accessory tree (\<open>tree.rs\<close>), the parser of \<open>/accessories\<close>
  (\<open>accessories.rs\<close>), the requests and responses of \<open>/characteristics\<close> (\<open>characteristics.rs\<close>) and the
  typed database over a request executor (\<open>database.rs\<close>).  The JSON deserialiser is a field of
  \<open>model_lib\<close> that yields the wire structures with UUIDs and permissions still as text; the two hand
  written \<open>Deserialize\<close> implementations then run on them.  The executor is a state with a function.
\<close>

section \<open>The tree\<close>

record Characteristic =
  ch_iid :: u64
  char_type :: CharacteristicType
  ch_format :: CharFormat
  ch_perms :: Perms
  ch_value :: "CharValue option"
  ch_unit :: "str option"
  min_value :: "f64 option"
  max_value :: "f64 option"
  min_step :: "f64 option"
  max_len :: "u64 option"

record Service =
  svc_iid :: u64
  service_type :: ServiceType
  characteristics :: "Characteristic list"

record Accessory =
  acc_aid :: u64
  services :: "Service list"

record ('u, 'p, 'n) WireCharacteristic =
  wc_iid :: u64
  wc_type :: 'u
  wc_format :: CharFormat
  wc_perms :: 'p
  wc_value :: "'n json option"
  wc_unit :: "str option"
  wc_min_value :: "f64 option"
  wc_max_value :: "f64 option"
  wc_min_step :: "f64 option"
  wc_max_len :: "u64 option"

record ('u, 'p, 'n) WireService =
  ws_iid :: u64
  ws_type :: 'u
  ws_characteristics :: "('u, 'p, 'n) WireCharacteristic list"

record ('u, 'p, 'n) WireAccessory =
  wa_aid :: u64
  wa_services :: "('u, 'p, 'n) WireService list"

record 'n WireReadEntry =
  re_aid :: u64
  re_iid :: u64
  re_value :: "'n json option"
  re_status :: "i64 option"
  re_format :: "CharFormat option"

record 'n model_lib = "'n json_lib" +
  de_accessories :: "bytes \<Rightarrow> str + (str, str list, 'n) WireAccessory list"
  de_read_response :: "bytes \<Rightarrow> str + 'n WireReadEntry list"
  de_custom :: "ModelError \<Rightarrow> str"
  json_to_vec :: "'n json \<Rightarrow> bytes"

section \<open>The accessories response\<close>

definition Uuid_deserialize :: "('n, 'x) model_lib_scheme \<Rightarrow> str \<Rightarrow> ModelError + Uuid" where
  "Uuid_deserialize J raw = map_err (\<lambda>e. Json (de_custom J e)) (Uuid_parse raw)"

definition wire_characteristic ::
    "('n, 'x) model_lib_scheme \<Rightarrow> (str, str list, 'n) WireCharacteristic \<Rightarrow>
     ModelError + (Uuid, Perms, 'n) WireCharacteristic" where
  "wire_characteristic J c =
     and_then (Uuid_deserialize J (wc_type c)) (\<lambda>u.
       Inr \<lparr>wc_iid = wc_iid c, wc_type = u, wc_format = wc_format c, wc_perms = visit_seq (wc_perms c),
            wc_value = wc_value c, wc_unit = wc_unit c, wc_min_value = wc_min_value c,
            wc_max_value = wc_max_value c, wc_min_step = wc_min_step c, wc_max_len = wc_max_len c\<rparr>)"

definition wire_service ::
    "('n, 'x) model_lib_scheme \<Rightarrow> (str, str list, 'n) WireService \<Rightarrow> ModelError + (Uuid, Perms, 'n) WireService" where
  "wire_service J s =
     and_then (Uuid_deserialize J (ws_type s)) (\<lambda>u.
     and_then (map_results (wire_characteristic J) (ws_characteristics s)) (\<lambda>cs.
       Inr \<lparr>ws_iid = ws_iid s, ws_type = u, ws_characteristics = cs\<rparr>))"

definition wire_accessory ::
    "('n, 'x) model_lib_scheme \<Rightarrow> (str, str list, 'n) WireAccessory \<Rightarrow> ModelError + (Uuid, Perms, 'n) WireAccessory" where
  "wire_accessory J a =
     and_then (map_results (wire_service J) (wa_services a)) (\<lambda>ss.
       Inr \<lparr>wa_aid = wa_aid a, wa_services = ss\<rparr>)"

definition convert_characteristic ::
    "('n, 'x) model_lib_scheme \<Rightarrow> (Uuid, Perms, 'n) WireCharacteristic \<Rightarrow> ModelError + Characteristic" where
  "convert_characteristic J c =
     and_then
       (case wc_value c of
          Some v \<Rightarrow> and_then (value_from_json J (wc_format c) v) (\<lambda>x. Inr (Some x))
        | None \<Rightarrow> Inr None) (\<lambda>value.
       Inr \<lparr>ch_iid = wc_iid c, char_type = CharacteristicType_from_uuid (wc_type c), ch_format = wc_format c,
            ch_perms = wc_perms c, ch_value = value, ch_unit = wc_unit c, min_value = wc_min_value c,
            max_value = wc_max_value c, min_step = wc_min_step c, max_len = wc_max_len c\<rparr>)"

definition convert_service ::
    "('n, 'x) model_lib_scheme \<Rightarrow> (Uuid, Perms, 'n) WireService \<Rightarrow> ModelError + Service" where
  "convert_service J s =
     and_then (map_results (convert_characteristic J) (ws_characteristics s)) (\<lambda>cs.
       Inr \<lparr>svc_iid = ws_iid s, service_type = ServiceType_from_uuid (ws_type s), characteristics = cs\<rparr>)"

definition parse_accessories :: "('n, 'x) model_lib_scheme \<Rightarrow> bytes \<Rightarrow> ModelError + Accessory list" where
  "parse_accessories J json =
     and_then (map_err Json (de_accessories J json)) (\<lambda>raw.
     and_then (map_results (wire_accessory J) raw) (\<lambda>wire.
       map_results (\<lambda>a.
         and_then (map_results (convert_service J) (wa_services a)) (\<lambda>ss.
           Inr \<lparr>acc_aid = wa_aid a, services = ss\<rparr>)) wire))"

section \<open>Characteristic requests and responses\<close>

definition id_text :: "u64 \<times> u64 \<Rightarrow> str" where
  "id_text p = show_nat (unat (fst p)) @ ascii ''.'' @ show_nat (unat (snd p))"

fun push_ids :: "nat \<Rightarrow> (u64 \<times> u64) list \<Rightarrow> str \<Rightarrow> str" where
  "push_ids i [] path = path"
| "push_ids i (p # ids) path =
     push_ids (Suc i) ids ((if 0 < i then path @ ascii '','' else path) @ id_text p)"

definition build_read_request :: "(u64 \<times> u64) list \<Rightarrow> str" where
  "build_read_request ids = push_ids 0 ids (ascii ''/characteristics?id='')"

definition infer_value :: "('n, 'x) json_lib_scheme \<Rightarrow> 'n json \<Rightarrow> ModelError + CharValue" where
  "infer_value J v =
     (case v of
        JBool b \<Rightarrow> Inr (VBool b)
      | JString s \<Rightarrow> Inr (VStr s)
      | JNumber n \<Rightarrow>
          (case num_as_u64 J n of
             Some u \<Rightarrow> Inr (VUint u)
           | None \<Rightarrow>
               (case num_as_i64 J n of
                  Some i \<Rightarrow> Inr (VInt i)
                | None \<Rightarrow>
                    (case num_as_f64 J n of
                       Some f \<Rightarrow> Inr (VFloat f)
                     | None \<Rightarrow> Inl (ValueType (ascii ''unknown'') (ascii ''uninterpretable number '' @ json_show J v)))))
      | _ \<Rightarrow> Inl (ValueType (ascii ''unknown'') (ascii ''got JSON '' @ json_show J v)))"

definition read_entry ::
    "('n, 'x) json_lib_scheme \<Rightarrow> 'n WireReadEntry \<Rightarrow> ModelError + ((u64 \<times> u64) \<times> CharValue) option" where
  "read_entry J e =
     and_then
       (case re_status e of
          Some s \<Rightarrow> require (s = 0) (CharacteristicStatus (re_aid e) (re_iid e) s)
        | None \<Rightarrow> Inr ()) (\<lambda>_.
       case re_value e of
         None \<Rightarrow> Inr None
       | Some raw \<Rightarrow>
           and_then (case re_format e of Some fmt \<Rightarrow> value_from_json J fmt raw | None \<Rightarrow> infer_value J raw) (\<lambda>x.
             Inr (Some ((re_aid e, re_iid e), x))))"

fun read_entries ::
    "('n, 'x) json_lib_scheme \<Rightarrow> 'n WireReadEntry list \<Rightarrow> ModelError + ((u64 \<times> u64) \<times> CharValue) list" where
  "read_entries J [] = Inr []"
| "read_entries J (e # es) =
     and_then (read_entry J e) (\<lambda>r.
     and_then (read_entries J es) (\<lambda>out.
       Inr (case r of None \<Rightarrow> out | Some x \<Rightarrow> x # out)))"

definition parse_read_response ::
    "('n, 'x) model_lib_scheme \<Rightarrow> bytes \<Rightarrow> ModelError + ((u64 \<times> u64) \<times> CharValue) list" where
  "parse_read_response J json = and_then (map_err Json (de_read_response J json)) (read_entries J)"

definition json_id :: "('n, 'x) json_lib_scheme \<Rightarrow> u64 \<times> u64 \<Rightarrow> (str \<times> 'n json) list" where
  "json_id J p =
     [(ascii ''aid'', JNumber (num_from_u64 J (fst p))), (ascii ''iid'', JNumber (num_from_u64 J (snd p)))]"

definition characteristics_body :: "('n, 'x) model_lib_scheme \<Rightarrow> (str \<times> 'n json) list list \<Rightarrow> bytes" where
  "characteristics_body J entries =
     json_to_vec J (JObject [(ascii ''characteristics'', JArray (map JObject entries))])"

definition build_write_request :: "('n, 'x) model_lib_scheme \<Rightarrow> ((u64 \<times> u64) \<times> CharValue) list \<Rightarrow> bytes" where
  "build_write_request J writes =
     characteristics_body J (map (\<lambda>(p, v). json_id J p @ [(ascii ''value'', to_json J v)]) writes)"

definition build_subscribe_request :: "('n, 'x) model_lib_scheme \<Rightarrow> (u64 \<times> u64) list \<Rightarrow> bool \<Rightarrow> bytes" where
  "build_subscribe_request J ids enable =
     characteristics_body J (map (\<lambda>p. json_id J p @ [(ascii ''ev'', JBool enable)]) ids)"

definition build_prepare_request :: "('n, 'x) model_lib_scheme \<Rightarrow> u64 \<Rightarrow> u64 \<Rightarrow> bytes" where
  "build_prepare_request J ttl_ms pid =
     json_to_vec J (JObject [(ascii ''ttl'', JNumber (num_from_u64 J ttl_ms)), (ascii ''pid'', JNumber (num_from_u64 J pid))])"

definition build_timed_write_request ::
    "('n, 'x) model_lib_scheme \<Rightarrow> ((u64 \<times> u64) \<times> CharValue) list \<Rightarrow> u64 \<Rightarrow> bytes" where
  "build_timed_write_request J writes pid =
     characteristics_body J
       (map (\<lambda>(p, v). json_id J p @ [(ascii ''value'', to_json J v), (ascii ''pid'', JNumber (num_from_u64 J pid))]) writes)"

definition build_write_request_with_response ::
    "('n, 'x) model_lib_scheme \<Rightarrow> ((u64 \<times> u64) \<times> CharValue) list \<Rightarrow> bytes" where
  "build_write_request_with_response J writes =
     characteristics_body J
       (map (\<lambda>(p, v). json_id J p @ [(ascii ''value'', to_json J v), (ascii ''r'', JBool True)]) writes)"

section \<open>The database\<close>

datatype Request = Get (req_path: str) | Put (req_path: str) (req_body: bytes)

type_synonym 'e executor = "'e \<Rightarrow> Request \<Rightarrow> (ModelError + bytes) \<times> 'e"

record 'e AccessoryDatabase =
  db_executor :: 'e
  db_accessories :: "Accessory list"

definition db_fetch ::
    "('n, 'x) model_lib_scheme \<Rightarrow> 'e executor \<Rightarrow> 'e \<Rightarrow> (ModelError + 'e AccessoryDatabase) \<times> 'e" where
  "db_fetch J exec ex =
     (let (r, ex) = exec ex (Get (ascii ''/accessories'')) in
      (and_then (and_then r (parse_accessories J)) (\<lambda>accs. Inr \<lparr>db_executor = ex, db_accessories = accs\<rparr>), ex))"

definition db_read ::
    "('n, 'x) model_lib_scheme \<Rightarrow> 'e executor \<Rightarrow> 'e AccessoryDatabase \<Rightarrow> (u64 \<times> u64) list \<Rightarrow>
     (ModelError + ((u64 \<times> u64) \<times> CharValue) list) \<times> 'e AccessoryDatabase" where
  "db_read J exec db ids =
     (let (r, ex) = exec (db_executor db) (Get (build_read_request ids)) in
      (and_then r (parse_read_response J), db\<lparr>db_executor := ex\<rparr>))"

definition db_write ::
    "('n, 'x) model_lib_scheme \<Rightarrow> 'e executor \<Rightarrow> 'e AccessoryDatabase \<Rightarrow> ((u64 \<times> u64) \<times> CharValue) list \<Rightarrow>
     (ModelError + unit) \<times> 'e AccessoryDatabase" where
  "db_write J exec db writes =
     (let (r, ex) = exec (db_executor db) (Put (ascii ''/characteristics'') (build_write_request J writes)) in
      (and_then r (\<lambda>_. Inr ()), db\<lparr>db_executor := ex\<rparr>))"

definition db_subscribe ::
    "('n, 'x) model_lib_scheme \<Rightarrow> 'e executor \<Rightarrow> 'e AccessoryDatabase \<Rightarrow> (u64 \<times> u64) list \<Rightarrow> bool \<Rightarrow>
     (ModelError + unit) \<times> 'e AccessoryDatabase" where
  "db_subscribe J exec db ids enable =
     (let (r, ex) = exec (db_executor db) (Put (ascii ''/characteristics'') (build_subscribe_request J ids enable)) in
      (and_then r (\<lambda>_. Inr ()), db\<lparr>db_executor := ex\<rparr>))"

section \<open>Typing\<close>

definition typed_characteristic :: "Characteristic \<Rightarrow> bool" where
  "typed_characteristic c \<longleftrightarrow>
     CT_ok (char_type c) \<and> (case ch_value c of None \<Rightarrow> True | Some x \<Rightarrow> well_typed (ch_format c) x)"

definition typed_tree :: "Accessory list \<Rightarrow> bool" where
  "typed_tree accs \<longleftrightarrow> list_all (\<lambda>a. list_all (\<lambda>s. list_all typed_characteristic (characteristics s)) (services a)) accs"

lemma map_results_all:
  assumes "map_results f xs = Inr ys" and "\<And>x y. f x = Inr y \<Longrightarrow> Q y"
  shows "list_all Q ys"
  using assms(1) by (induction xs arbitrary: ys) (auto simp: result_simps intro: assms(2))

lemma convert_characteristic_typed: "convert_characteristic J c = Inr d \<Longrightarrow> typed_characteristic d"
  by (auto simp: convert_characteristic_def typed_characteristic_def result_simps CharacteristicType_uuid_from
      dest: value_from_json_typed split: option.splits)

lemma convert_service_typed:
  "convert_service J s = Inr t \<Longrightarrow> list_all typed_characteristic (characteristics t)"
  by (auto simp: convert_service_def result_simps intro: map_results_all convert_characteristic_typed)

lemma parse_accessories_typed: "parse_accessories J body = Inr accs \<Longrightarrow> typed_tree accs"
  by (auto simp: parse_accessories_def typed_tree_def result_simps
      intro!: map_results_all convert_service_typed elim!: map_results_all [where f = "\<lambda>a. and_then _ _"])

lemma read_entries_exact:
  "read_entries J es = Inr out \<Longrightarrow>
     list_all (\<lambda>e. re_status e = None \<or> re_status e = Some 0) es \<and>
     map fst out = map (\<lambda>e. (re_aid e, re_iid e)) (filter (\<lambda>e. re_value e \<noteq> None) es)"
  by (induction es arbitrary: out)
    (auto simp: read_entry_def result_simps split: option.splits)

text \<open>The value that an entry of a read response stands for: of the declared format where it has one, and
  otherwise the one that its JSON form suggests.\<close>

definition entry_value :: "('n, 'x) json_lib_scheme \<Rightarrow> 'n WireReadEntry \<Rightarrow> (u64 \<times> u64) \<times> CharValue \<Rightarrow> bool" where
  "entry_value J e out \<longleftrightarrow>
     fst out = (re_aid e, re_iid e) \<and>
     (\<exists>raw. re_value e = Some raw \<and>
        (case re_format e of
           Some f \<Rightarrow> well_typed f (snd out) \<and> value_from_json J f raw = Inr (snd out)
         | None \<Rightarrow> infer_value J raw = Inr (snd out)))"

lemma read_entries_decoded:
  "read_entries J es = Inr out \<Longrightarrow> list_all2 (entry_value J) (filter (\<lambda>e. re_value e \<noteq> None) es) out"
  by (induction es arbitrary: out)
    (auto simp: read_entry_def result_simps entry_value_def dest: value_from_json_typed split: option.splits)

lemma read_entries_first_error:
  "read_entries J es = Inl e \<Longrightarrow> \<exists>x\<in>set es. read_entry J x = Inl e"
  by (induction es) (auto simp: result_simps)

text \<open>A small instance of the libraries: numbers as \<open>serde_json\<close> documents them, base64 as the
  identity, and a deserialiser that knows one database and one response.\<close>

datatype toy_num = PosInt u64 | NegInt i64 | Real64 f64

definition toy_json :: "toy_num model_lib" where
  "toy_json =
     \<lparr>num_as_u64 = (\<lambda>n. case n of PosInt u \<Rightarrow> Some u | _ \<Rightarrow> None),
      num_as_i64 = (\<lambda>n. case n of PosInt u \<Rightarrow> (if unat u < 2 ^ 63 then Some u else None) | NegInt i \<Rightarrow> Some i | _ \<Rightarrow> None),
      num_as_f64 = (\<lambda>n. case n of PosInt u \<Rightarrow> Some (f64_from_u64 u) | NegInt i \<Rightarrow> Some (f64_from_i64 i) | Real64 f \<Rightarrow> Some f),
      num_from_u64 = PosInt, num_from_i64 = (\<lambda>n. if unat n < 2 ^ 63 then PosInt n else NegInt n),
      num_from_f64 = (\<lambda>f. if f64_is_finite f then Some (Real64 f) else None),
      json_show = (\<lambda>v. []), b64_encode = (\<lambda>b. b), b64_decode = Inr,
      de_accessories = (\<lambda>body. Inr [\<lparr>wa_aid = 1, wa_services =
        [\<lparr>ws_iid = 8, ws_type = ascii ''43'', ws_characteristics =
           [\<lparr>wc_iid = 9, wc_type = ascii ''8'', wc_format = FUint8, wc_perms = [ascii ''pr''],
             wc_value = Some (JNumber (PosInt 200)), wc_unit = None, wc_min_value = None,
             wc_max_value = None, wc_min_step = None, wc_max_len = None\<rparr>]\<rparr>]\<rparr>]),
      de_read_response = (\<lambda>body. Inr [\<lparr>re_aid = 1, re_iid = 9, re_value = Some (JBool True),
        re_status = Some 0, re_format = Some FBool\<rparr>]),
      de_custom = (\<lambda>e. []), json_to_vec = (\<lambda>v. [])\<rparr>"

lemma toy_json_laws [simp]: "json_laws toy_json"
  by (simp add: json_laws_def toy_json_def)

text \<open>C38. Values that enter the attribute model are typed.  Every value of a parsed accessory database, every
  value decoded under a declared format, and every value of a read response whose entry declares a
  format, has the shape of that format: a flag, an unsigned number within the 8, 16, 32 or 64 bits of
  its name, a signed number of 64 bits (the width the code takes for \<open>int\<close>), a float, a text or bytes.
  Writing such a value out as JSON and reading it back under the format gives the value again.  A read
  response is accepted only if no characteristic in it failed, and then has, in order, one value for
  each entry that carries one, with its identifiers: the decoded value for a declared format, and the
  one inferred from the JSON otherwise.\<close>

theorem model_values_typed:
  assumes "json_laws J"
  shows "(parse_accessories J body = Inr accs \<longrightarrow> typed_tree accs) \<and>
    (value_from_json J f v = Inr x \<longrightarrow> well_typed f x) \<and>
    (well_typed f x \<and> (\<forall>y. x = VFloat y \<longrightarrow> f64_is_finite y) \<longrightarrow> value_from_json J f (to_json J x) = Inr x) \<and>
    (parse_read_response J body' = Inr out \<longrightarrow>
       (\<exists>es. de_read_response J body' = Inr es \<and> list_all (\<lambda>e. re_status e = None \<or> re_status e = Some 0) es \<and>
         list_all2 (entry_value J) (filter (\<lambda>e. re_value e \<noteq> None) es) out))"
  using assms parse_accessories_typed [of J body accs] value_from_json_typed [of J f v x]
    value_from_json_to_json [of J f x] read_entries_exact [of J _ out] read_entries_decoded [of J _ out]
  by (auto simp: parse_read_response_def result_simps)

theorem model_values_typed_witness:
  "\<exists>accs. parse_accessories toy_json [] = Inr accs \<and> typed_tree accs \<and> accs \<noteq> [] \<and>
     value_from_json toy_json FUint8 (JNumber (PosInt 200)) = Inr (VUint 200) \<and> well_typed FUint8 (VUint 200) \<and>
     value_from_json toy_json FUint8 (to_json toy_json (VUint 200)) = Inr (VUint 200) \<and>
     parse_read_response toy_json [] = Inr [((1, 9), VBool True)]"
proof -
  obtain accs where a: "parse_accessories toy_json [] = Inr accs" "accs \<noteq> []"
  proof -
    have "Uuid_parse (ascii ''43'') = Inr (Uuid (base_uuid ''00000043''))"
      "Uuid_parse (ascii ''8'') = Inr (Uuid (base_uuid ''00000008''))"
      by code_simp+
    then have "\<exists>accs. parse_accessories toy_json [] = Inr accs \<and> accs \<noteq> []"
      by (simp add: parse_accessories_def toy_json_def wire_accessory_def wire_service_def wire_characteristic_def
          Uuid_deserialize_def convert_service_def convert_characteristic_def value_from_json_def
          uint_from_json_def uint_max_def value_as_def)
    then show ?thesis using that by blast
  qed
  moreover have "value_from_json toy_json FUint8 (JNumber (PosInt 200)) = Inr (VUint 200)"
    by (simp add: toy_json_def value_from_json_def uint_from_json_def uint_max_def value_as_def)
  moreover have "parse_read_response toy_json [] = Inr [((1, 9), VBool True)]"
    by (simp add: parse_read_response_def read_entry_def toy_json_def value_from_json_def)
  ultimately show ?thesis
    using model_values_typed [of toy_json "[]" accs FUint8 "JNumber (PosInt 200)" "VUint 200" "[]"]
    by auto
qed

end
