(* ===== verification/Ble_Pdu.thy ===== *)
theory Ble_Pdu
  imports Hap_Model Crypto_Prims
begin

text \<open>
  HAP over Bluetooth LE: the PDU codec, fragmentation and the request loop of \<open>hap-ble/src/pdu.rs\<close>,
  over the GATT trait of \<open>hap-ble/src/gatt.rs\<close>.  A GATT connection is a state with the trait's
  operations as a record of functions.  The loop that reads response fragments is written over any
  reader, since the plain and the encrypted request differ only in how a fragment is read.
\<close>

section \<open>Errors and the GATT seam\<close>

datatype BleError =
    BTlv8 Tlv8Error
  | BCrypto CryptoError
  | BModel ModelError
  | AccessoryNotFound
  | CharacteristicNotFound u64 u64
  | MalformedPdu string
  | PairingRejected u8
  | RequestRejected u8
  | Disconnected
  | Backend str
  | NoAdvertSource

record GattCharacteristic =
  gc_uuid :: str
  gc_iid :: u16

record GattService =
  gs_uuid :: str
  gs_iid :: u16
  gs_characteristics :: "GattCharacteristic list"

record 'g gatt =
  gatt_write :: "'g \<Rightarrow> str \<Rightarrow> bytes \<Rightarrow> (BleError + unit) \<times> 'g"
  gatt_read :: "'g \<Rightarrow> str \<Rightarrow> (BleError + bytes) \<times> 'g"
  gatt_instance_id :: "'g \<Rightarrow> str \<Rightarrow> (BleError + u16) \<times> 'g"
  gatt_enumerate :: "'g \<Rightarrow> (BleError + GattService list) \<times> 'g"
  gatt_max_write :: "'g \<Rightarrow> nat \<times> 'g"
  gatt_generation :: "'g \<Rightarrow> u64 \<times> 'g"

definition SERVICE_SIGNATURE_CHAR :: str where
  "SERVICE_SIGNATURE_CHAR = ascii ''000000a5-0000-1000-8000-0026bb765291''"

definition PROTOCOL_INFO_SERVICE :: str where
  "PROTOCOL_INFO_SERVICE = ascii ''000000a2-0000-1000-8000-0026bb765291''"

definition u16_le :: "bytes \<Rightarrow> u16 option" where
  "u16_le v = (case v of lo # hi # _ \<Rightarrow> Some (u16_from_le lo hi) | _ \<Rightarrow> None)"

section \<open>The codec\<close>

datatype BleOpCode =
    CharacteristicSignatureRead | CharacteristicWrite | CharacteristicRead | CharacteristicConfig | ProtocolConfig

primrec ble_opcode_u8 :: "BleOpCode \<Rightarrow> u8" where
  "ble_opcode_u8 CharacteristicSignatureRead = 0x01"
| "ble_opcode_u8 CharacteristicWrite = 0x02"
| "ble_opcode_u8 CharacteristicRead = 0x03"
| "ble_opcode_u8 CharacteristicConfig = 0x07"
| "ble_opcode_u8 ProtocolConfig = 0x08"

definition BLE_VALUE :: u8 where "BLE_VALUE = 0x01"
definition CHAR_TYPE :: u8 where "CHAR_TYPE = 0x04"
definition RETURN_RESPONSE :: u8 where "RETURN_RESPONSE = 0x09"
definition PROPERTIES :: u8 where "PROPERTIES = 0x0A"
definition PRESENTATION_FORMAT :: u8 where "PRESENTATION_FORMAT = 0x0C"

lemmas ble_params = BLE_VALUE_def CHAR_TYPE_def RETURN_RESPONSE_def PROPERTIES_def PRESENTATION_FORMAT_def

definition ble_encode_request :: "BleOpCode \<Rightarrow> u8 \<Rightarrow> u16 \<Rightarrow> bytes \<Rightarrow> bytes" where
  "ble_encode_request op tid iid body =
     [0x00, ble_opcode_u8 op, tid] @ u16_to_le iid @
     (if body \<noteq> [] then u16_to_le (u16_sat (length body)) @ body else [])"

definition encode_write_body :: "bytes \<Rightarrow> bytes" where
  "encode_write_body v = Tlv8Writer_push (push_u8 [] RETURN_RESPONSE 1) BLE_VALUE v"

definition value_param :: "bytes \<Rightarrow> BleError + bytes" where
  "value_param body =
     and_then (map_err BTlv8 (Tlv8Map_parse body)) (\<lambda>m.
       ok_or (MalformedPdu ''missing value param (0x01)'') (Tlv8Map_get m BLE_VALUE))"

record BleResponse =
  br_tid :: u8
  br_status :: u8
  br_body :: bytes

definition decode_response :: "bytes \<Rightarrow> BleError + BleResponse" where
  "decode_response pdu =
     (if length pdu < 3 then Inl (MalformedPdu ''response shorter than 3 bytes'')
      else
        and_then
          (if 3 < length pdu then
             (if length pdu < 5 then Inl (MalformedPdu ''response body length truncated'')
              else
                let len = unat (u16_from_le (pdu ! 3) (pdu ! 4)) in
                if length pdu < 5 + len then Inl (MalformedPdu ''response body shorter than declared'')
                else Inr (slice pdu 5 (5 + len)))
           else Inr []) (\<lambda>body.
          Inr \<lparr>br_tid = pdu ! 1, br_status = pdu ! 2, br_body = body\<rparr>))"

section \<open>Fragments\<close>

function continuation :: "nat \<Rightarrow> u8 \<Rightarrow> bytes \<Rightarrow> bytes list" where
  "continuation cont_payload tid rest =
     (if rest = [] \<or> cont_payload = 0 then []
      else
        let t = min (length rest) cont_payload in
        ([0x80, tid] @ take t rest) # continuation cont_payload tid (drop t rest))"
  by pat_completeness auto
termination by (relation "measure (\<lambda>(n, t, r). length r)") auto

declare continuation.simps [simp del]

definition fragment :: "bytes \<Rightarrow> nat \<Rightarrow> bytes list" where
  "fragment pdu frag_size =
     (let frag_size = max frag_size 3 in
      if length pdu \<le> frag_size then [pdu]
      else
        let tid = pdu ! 2;
            cont_payload = max (frag_size - 2) 1 in
        take frag_size pdu # continuation cont_payload tid (drop frag_size pdu))"

fun append_conts :: "bytes \<Rightarrow> bytes list \<Rightarrow> BleError + bytes" where
  "append_conts out [] = Inr out"
| "append_conts out (f # fs) =
     (if length f < 2 then Inl (MalformedPdu ''continuation fragment too short'')
      else append_conts (out @ drop 2 f) fs)"

definition reassemble :: "bytes list \<Rightarrow> BleError + bytes" where
  "reassemble frags =
     (case frags of
        [] \<Rightarrow> Inl (MalformedPdu ''no fragments to reassemble'')
      | first # rest \<Rightarrow> append_conts first rest)"

definition declared_total :: "bytes \<Rightarrow> nat" where
  "declared_total first =
     (if 5 \<le> length first then 5 + unat (u16_from_le (first ! 3) (first ! 4)) else length first)"

definition MAX_RESPONSE_FRAGMENTS :: nat where
  "MAX_RESPONSE_FRAGMENTS = 64"

section \<open>The request loop\<close>

type_synonym 's frag_writer = "'s \<Rightarrow> bytes \<Rightarrow> (BleError + unit) \<times> 's"
type_synonym 's frag_reader = "'s \<Rightarrow> (BleError + bytes) \<times> 's"

fun write_frags :: "'s frag_writer \<Rightarrow> 's \<Rightarrow> bytes list \<Rightarrow> (BleError + unit) \<times> 's" where
  "write_frags wr s [] = (Inr (), s)"
| "write_frags wr s (f # fs) =
     (case wr s f of
        (Inl e, s') \<Rightarrow> (Inl e, s')
      | (Inr _, s') \<Rightarrow> write_frags wr s' fs)"

function read_frags :: "'s frag_reader \<Rightarrow> 's \<Rightarrow> bytes list \<Rightarrow> (BleError + BleResponse) \<times> 's" where
  "read_frags rd s frags =
     (case reassemble frags of
        Inl e \<Rightarrow> (Inl e, s)
      | Inr pdu \<Rightarrow>
          if length pdu < declared_total (hd frags) then
            (if MAX_RESPONSE_FRAGMENTS \<le> length frags then (Inl (MalformedPdu ''too many response fragments''), s)
             else
               case rd s of
                 (Inl e, s') \<Rightarrow> (Inl e, s')
               | (Inr f, s') \<Rightarrow> read_frags rd s' (frags @ [f]))
          else (decode_response pdu, s))"
  by pat_completeness auto
termination
  by (relation "measure (\<lambda>(rd, s, frags). MAX_RESPONSE_FRAGMENTS - length frags)") auto

declare read_frags.simps [simp del]

definition exchange_frags ::
    "'s frag_writer \<Rightarrow> 's frag_reader \<Rightarrow> 's \<Rightarrow> bytes list \<Rightarrow> (BleError + BleResponse) \<times> 's" where
  "exchange_frags wr rd s frags =
     (case write_frags wr s frags of
        (Inl e, s) \<Rightarrow> (Inl e, s)
      | (Inr _, s) \<Rightarrow>
          (case rd s of
             (Inl e, s) \<Rightarrow> (Inl e, s)
           | (Inr f, s) \<Rightarrow> read_frags rd s [f]))"

definition ble_request ::
    "('g, 'x) gatt_scheme \<Rightarrow> 'g \<Rightarrow> str \<Rightarrow> BleOpCode \<Rightarrow> u8 \<Rightarrow> u16 \<Rightarrow> bytes \<Rightarrow> nat \<Rightarrow>
     (BleError + BleResponse) \<times> 'g" where
  "ble_request G g char_uuid op tid iid body frag_size =
     exchange_frags (\<lambda>g. gatt_write G g char_uuid) (\<lambda>g. gatt_read G g char_uuid) g
       (fragment (ble_encode_request op tid iid body) frag_size)"

section \<open>Fragmentation loses nothing\<close>

lemma append_conts_append:
  "append_conts out (fs @ gs) = and_then (append_conts out fs) (\<lambda>o'. append_conts o' gs)"
  by (induction fs arbitrary: out) auto

lemma append_conts_continuation: "0 < n \<Longrightarrow> append_conts out (continuation n tid rest) = Inr (out @ rest)"
proof (induction n tid rest arbitrary: out rule: continuation.induct)
  case (1 n tid rest)
  show ?case
  proof (cases "rest = []")
    case True
    then show ?thesis by (simp add: continuation.simps)
  next
    case False
    then show ?thesis
      using 1 by (simp add: continuation.simps [of n tid rest] Let_def)
  qed
qed

lemma reassemble_fragment: "reassemble (fragment pdu n) = Inr pdu"
  by (simp add: fragment_def reassemble_def Let_def append_conts_continuation)

lemma fragment_sizes:
  assumes "f \<in> set (fragment pdu n)"
  shows "length f \<le> max n 3"
proof -
  have "length f \<le> k + 2" if "f \<in> set (continuation k t r)" for k t r
    using that
  proof (induction k t r rule: continuation.induct)
    case (1 k t r)
    then show ?case
      by (cases "r = [] \<or> k = 0") (auto simp: continuation.simps [of k t r] Let_def)
  qed
  then show ?thesis
    using assms by (fastforce simp: fragment_def Let_def split: if_splits)
qed

lemma decode_response_encode:
  assumes "length body < 65536"
  shows "decode_response ([ctl, tid, status] @ (if body \<noteq> [] then u16_to_le (u16_sat (length body)) @ body else [])) =
    Inr \<lparr>br_tid = tid, br_status = status, br_body = body\<rparr>"
proof -
  obtain a b where ab: "u16_to_le (u16_sat (length body)) = [a, b]" "u16_from_le a b = u16_sat (length body)"
    using u16_to_le_Cons by blast
  then have "unat (u16_from_le a b) = length body" using unat_u16_sat [OF assms] by simp
  then show ?thesis using ab(1) by (simp add: decode_response_def slice_def Let_def del: unat_u16_from_le)
qed

section \<open>The far end of a link\<close>

text \<open>How an accessory sends a response: the first fragment with at least the five header bytes, then
  continuations.\<close>

definition response_frags :: "nat \<Rightarrow> bytes \<Rightarrow> bytes list" where
  "response_frags n pdu =
     take n pdu # map (\<lambda>c. [0x82, pdu ! 1] @ c) (chunks (n - 2) (drop n pdu))"

text \<open>An operation over a link either gives its result, or reports a dropped link, which only a lossy
  one does.\<close>

definition link_step ::
    "('s \<Rightarrow> bool) \<Rightarrow> 's \<Rightarrow> (BleError + 'r) \<times> 's \<Rightarrow> 'r \<Rightarrow> ('s \<Rightarrow> bool) \<Rightarrow> ('s \<Rightarrow> bool) \<Rightarrow> bool" where
  "link_step lossy s out r good lost \<longleftrightarrow>
     (\<exists>s'. out = (Inr r, s') \<and> good s' \<and> (lossy s' \<longrightarrow> lossy s)) \<or>
     (\<exists>s'. out = (Inl Disconnected, s') \<and> lost s' \<and> lossy s)"

lemma link_step_simps [simp]:
  "link_step lossy s (Inr r', s') r good lost \<longleftrightarrow> r' = r \<and> good s' \<and> (lossy s' \<longrightarrow> lossy s)"
  "link_step lossy s (Inl e, s') r good lost \<longleftrightarrow> e = Disconnected \<and> lost s' \<and> lossy s"
  by (auto simp: link_step_def)

lemma link_step_cases [consumes 1, case_names ok drop]:
  assumes "link_step lossy s out r good lost"
  obtains s' where "out = (Inr r, s')" "good s'" "lossy s' \<longrightarrow> lossy s"
    | s' where "out = (Inl Disconnected, s')" "lost s'" "lossy s"
  using assms unfolding link_step_def by blast

lemma link_step_after:
  assumes "link_step lossy s' out r good lost" and "lossy s' \<longrightarrow> lossy s" and "\<And>t. lost t \<Longrightarrow> lost' t"
  shows "link_step lossy s out r good lost'"
  using assms unfolding link_step_def by blast

text \<open>What the request loop needs of a link: a state that the accessory's view describes by the
  fragments it has received, the fragments it still has to send and its own state, where the first
  read after a request makes the accessory answer it.\<close>

locale frag_link =
  fixes wr :: "'s frag_writer"
    and rd :: "'s frag_reader"
    and view :: "'s \<Rightarrow> bytes list \<Rightarrow> bytes list \<Rightarrow> 'a \<Rightarrow> bool"
    and answered :: "'a \<Rightarrow> 's \<Rightarrow> bool"
    and lost :: "'a \<Rightarrow> 's \<Rightarrow> bool"
    and lossy :: "'s \<Rightarrow> bool"
    and answer :: "'a \<Rightarrow> bytes list \<Rightarrow> bytes list \<times> 'a"
    and fits :: "bytes \<Rightarrow> bool"
  assumes wr_ok: "view s rs [] a \<Longrightarrow> fits f \<Longrightarrow>
      link_step lossy s (wr s f) () (\<lambda>s'. view s' (rs @ [f]) [] a) (lost a)"
    and rd_first: "view s rs [] a \<Longrightarrow> answer a rs = (p # ps, a') \<Longrightarrow> list_all fits (p # ps) \<Longrightarrow>
      link_step lossy s (rd s) p (\<lambda>s'. if ps = [] then answered a' s' else view s' [] ps a') (lost a)"
    and rd_next: "view s [] (p # ps) a \<Longrightarrow> list_all fits (p # ps) \<Longrightarrow>
      link_step lossy s (rd s) p (\<lambda>s'. if ps = [] then answered a s' else view s' [] ps a) (lost a)"
begin

lemma write_frags_ok:
  "view s rs [] a \<Longrightarrow> list_all fits fs \<Longrightarrow>
     link_step lossy s (write_frags wr s fs) () (\<lambda>s'. view s' (rs @ fs) [] a) (lost a)"
proof (induction fs arbitrary: s rs)
  case Nil
  then show ?case by simp
next
  case (Cons f fs)
  have "link_step lossy s (wr s f) () (\<lambda>s'. view s' (rs @ [f]) [] a) (lost a)"
    using wr_ok [OF Cons.prems(1), of f] Cons.prems(2) by simp
  then show ?case
  proof (cases rule: link_step_cases)
    case (ok s1)
    then show ?thesis using Cons.IH [OF ok(2)] Cons.prems(2) by (auto intro: link_step_after)
  next
    case (drop s1)
    then show ?thesis by simp
  qed
qed

text \<open>The read loop after the fragments \<open>f # fs\<close>, with \<open>ps\<close> still to come.\<close>

lemma read_frags_ok:
  assumes "if ps = [] then answered a s else view s [] ps a" and "list_all fits ps"
    and "length (f # fs @ ps) \<le> MAX_RESPONSE_FRAGMENTS"
    and "append_conts f (fs @ ps) = Inr pdu" and "declared_total f = length pdu"
    and "list_all (\<lambda>p. 2 < length p) ps" and "decode_response pdu = Inr r"
  shows "link_step lossy s (read_frags rd s (f # fs)) r (answered a) (lost a)"
  using assms
proof (induction ps arbitrary: s fs)
  case Nil
  then show ?case by (simp add: read_frags.simps reassemble_def)
next
  case (Cons p ps)
  have len: "append_conts o1 gs = Inr o2 \<Longrightarrow> length o1 \<le> length o2" for o1 gs o2
    by (induction gs arbitrary: o1) (fastforce split: if_splits)+
  obtain m where m: "append_conts f fs = Inr m" and m2: "append_conts (m @ drop 2 p) ps = Inr pdu"
    using Cons.prems(4,6) by (auto simp: append_conts_append result_simps split: if_splits)
  have more: "length m < length pdu" using len [OF m2] Cons.prems(6) by auto
  have "link_step lossy s (rd s) p (\<lambda>s'. if ps = [] then answered a s' else view s' [] ps a) (lost a)"
    using rd_next [of s p ps a] Cons.prems(1,2) by simp
  then show ?case
  proof (cases rule: link_step_cases)
    case (ok s1)
    then have "read_frags rd s (f # fs) = read_frags rd s1 (f # fs @ [p])"
      using Cons.prems(3,5) m more by (simp add: read_frags.simps [of rd s] reassemble_def)
    then show ?thesis
      using Cons.IH [OF ok(2), of "fs @ [p]"] Cons.prems ok(3) by (auto intro: link_step_after)
  next
    case (drop s1)
    then show ?thesis
      using Cons.prems(3,5) m more by (simp add: read_frags.simps [of rd s] reassemble_def)
  qed
qed

lemma exchange_ok:
  assumes "view s [] [] a" and "list_all fits fs" and "answer a fs = (f # ps, a')"
    and "list_all fits (f # ps)" and "length (f # ps) \<le> MAX_RESPONSE_FRAGMENTS"
    and "append_conts f ps = Inr pdu" and "declared_total f = length pdu" and "list_all (\<lambda>p. 2 < length p) ps"
    and "decode_response pdu = Inr r"
  shows "link_step lossy s (exchange_frags wr rd s fs) r (answered a') (\<lambda>s'. lost a s' \<or> lost a' s')"
  using write_frags_ok [OF assms(1,2)]
proof (cases rule: link_step_cases)
  case (ok s1)
  then have "view s1 fs [] a" by simp
  from rd_first [OF this assms(3,4)] show ?thesis
  proof (cases rule: link_step_cases)
    case ok2: (ok s2)
    have "link_step lossy s2 (read_frags rd s2 [f]) r (answered a') (lost a')"
      by (rule read_frags_ok [OF ok2(2)]) (use assms in simp_all)
    then show ?thesis
      using ok(1,3) ok2(1,3) by (auto simp: exchange_frags_def intro: link_step_after)
  next
    case (drop s2)
    then show ?thesis using ok(1,3) by (auto simp: exchange_frags_def)
  qed
next
  case (drop s1)
  then show ?thesis by (auto simp: exchange_frags_def)
qed

end

text \<open>The fragments of a response satisfy what \<open>exchange_ok\<close> asks of them.\<close>

definition response_pdu :: "u8 \<Rightarrow> u8 \<Rightarrow> bytes \<Rightarrow> bytes" where
  "response_pdu tid status body =
     [0x02, tid, status] @ (if body \<noteq> [] then u16_to_le (u16_sat (length body)) @ body else [])"

lemma append_conts_map: "append_conts out (map (\<lambda>c. x # y # c) cs) = Inr (out @ concat cs)"
  by (induction cs arbitrary: out) auto

lemma response_pdu_total:
  assumes "length body < 65536" and "5 \<le> n"
  shows "declared_total (take n (response_pdu tid status body)) = length (response_pdu tid status body)"
proof (cases "body = []")
  case True
  then show ?thesis using assms by (simp add: declared_total_def response_pdu_def)
next
  case False
  obtain a b where ab: "u16_to_le (u16_sat (length body)) = [a, b]" "u16_from_le a b = u16_sat (length body)"
    using u16_to_le_Cons by blast
  then have "unat (u16_from_le a b) = length body" using unat_u16_sat [OF assms(1)] by simp
  then show ?thesis
    using False ab(1) assms by (simp add: declared_total_def response_pdu_def del: unat_u16_from_le)
qed

lemma response_frags_facts:
  assumes "length body < 65536" and "5 \<le> n"
  shows "append_conts (hd (response_frags n (response_pdu tid status body))) (tl (response_frags n (response_pdu tid status body))) =
      Inr (response_pdu tid status body)"
    and "list_all (\<lambda>p. 2 < length p) (tl (response_frags n (response_pdu tid status body)))"
    and "list_all (\<lambda>p. length p \<le> n) (response_frags n (response_pdu tid status body))"
  using assms
  by (auto simp: response_frags_def append_conts_map concat_chunks list_all_iff dest: chunks_length_le)

end
