(* ===== verification/Ble_Session.thy ===== *)
theory Ble_Session
  imports Ble_Pdu Channel Pair_Verify
begin

text \<open>
  The encrypted Bluetooth session of \<open>hap-ble/src/session.rs\<close> and the encrypted request of
  \<open>hap-ble/src/pdu.rs\<close>, which seals and opens every fragment on its own.
\<close>

section \<open>The session\<close>

definition ble_nonce :: "u64 \<Rightarrow> bytes" where
  "ble_nonce counter = take 4 (replicate 12 0) @ u64_to_le counter"

record BleSession =
  bs_keys :: SessionKeys
  bs_send_counter :: u64
  bs_recv_counter :: u64

definition BleSession_new :: "SessionKeys \<Rightarrow> BleSession" where
  "BleSession_new keys = \<lparr>bs_keys = keys, bs_send_counter = 0, bs_recv_counter = 0\<rparr>"

definition ble_seal :: "prims \<Rightarrow> BleSession \<Rightarrow> bytes \<Rightarrow> (BleError + bytes) \<times> BleSession" where
  "ble_seal P s pdu =
     (case chacha20poly1305_seal P (write_key (bs_keys s)) (ble_nonce (bs_send_counter s)) [] pdu of
        Inl e \<Rightarrow> (Inl (BCrypto e), s)
      | Inr out \<Rightarrow> (Inr out, s\<lparr>bs_send_counter := bs_send_counter s + 1\<rparr>))"

definition ble_open :: "prims \<Rightarrow> BleSession \<Rightarrow> bytes \<Rightarrow> (BleError + bytes) \<times> BleSession" where
  "ble_open P s data =
     (case chacha20poly1305_open P (read_key (bs_keys s)) (ble_nonce (bs_recv_counter s)) [] data of
        Inl e \<Rightarrow> (Inl (BCrypto e), s)
      | Inr out \<Rightarrow> (Inr out, s\<lparr>bs_recv_counter := bs_recv_counter s + 1\<rparr>))"

definition ble_sync :: "BleSession \<Rightarrow> BleSession \<Rightarrow> bool" where
  "ble_sync s r \<longleftrightarrow> write_key (bs_keys s) = read_key (bs_keys r) \<and> bs_send_counter s = bs_recv_counter r"

lemma ble_seal_open:
  assumes "aead_laws P" and "ble_sync s r" and "length m \<le> aead_max"
  shows "\<exists>ct. ble_seal P s m = (Inr ct, s\<lparr>bs_send_counter := bs_send_counter s + 1\<rparr>) \<and>
              ble_open P r ct = (Inr m, r\<lparr>bs_recv_counter := bs_recv_counter r + 1\<rparr>)"
proof -
  obtain ct where "aead_encrypt P (write_key (bs_keys s)) (ble_nonce (bs_send_counter s)) [] m = Inr ct"
      "aead_decrypt P (write_key (bs_keys s)) (ble_nonce (bs_send_counter s)) [] ct = Inr m"
    using aead_encrypt_ok [OF assms(1,3)] by blast
  then show ?thesis
    using assms(2)
    by (simp add: ble_seal_def ble_open_def chacha20poly1305_seal_def chacha20poly1305_open_def ble_sync_def)
qed

interpretation ble: counter_channel ble_seal ble_open ble_sync "\<lambda>m. length m \<le> aead_max"
proof
  fix P s r and m :: bytes
  assume "aead_laws P" "ble_sync s r" "length m \<le> aead_max"
  from ble_seal_open [OF this] \<open>ble_sync s r\<close>
  show "\<exists>ct s' r'. ble_seal P s m = (Inr ct, s') \<and> ble_open P r ct = (Inr m, r') \<and> ble_sync s' r'"
    by (auto simp: ble_sync_def)
qed (auto simp: ble_seal_def ble_open_def split: sum.splits)

section \<open>The encrypted request\<close>

definition sealed_write :: "prims \<Rightarrow> ('g, 'x) gatt_scheme \<Rightarrow> str \<Rightarrow> ('g \<times> BleSession) frag_writer" where
  "sealed_write P G char_uuid st frag =
     (case ble_seal P (snd st) frag of
        (Inl e, session) \<Rightarrow> (Inl e, (fst st, session))
      | (Inr sealed, session) \<Rightarrow>
          let (r, g) = gatt_write G (fst st) char_uuid sealed in (r, (g, session)))"

definition sealed_read :: "prims \<Rightarrow> ('g, 'x) gatt_scheme \<Rightarrow> str \<Rightarrow> ('g \<times> BleSession) frag_reader" where
  "sealed_read P G char_uuid st =
     (case gatt_read G (fst st) char_uuid of
        (Inl e, g) \<Rightarrow> (Inl e, (g, snd st))
      | (Inr data, g) \<Rightarrow>
          let (r, session) = ble_open P (snd st) data in (r, (g, session)))"

definition request_secure ::
    "prims \<Rightarrow> ('g, 'x) gatt_scheme \<Rightarrow> 'g \<Rightarrow> BleSession \<Rightarrow> str \<Rightarrow> BleOpCode \<Rightarrow> u8 \<Rightarrow> u16 \<Rightarrow> bytes \<Rightarrow> nat \<Rightarrow>
     (BleError + BleResponse) \<times> 'g \<times> BleSession" where
  "request_secure P G g session char_uuid op tid iid body frag_size =
     exchange_frags (sealed_write P G char_uuid) (sealed_read P G char_uuid) (g, session)
       (fragment (ble_encode_request op tid iid body) (max (frag_size - 16) 1))"

end
