(* ===== verification/Ble_Values.thy ===== *)
theory Ble_Values
  imports Ble_Pdu
begin

text \<open>
  Typed values and the attribute database over Bluetooth LE: the wire form of values and the
  database sweep of \<open>hap-ble/src/db.rs\<close>, and the characteristic signatures of \<open>hap-ble/src/pdu.rs\<close>.
\<close>

unbundle bit_operations_syntax

section \<open>The wire form of a value\<close>

definition mismatch :: BleError where
  "mismatch = MalformedPdu ''value does not match characteristic format''"

text \<open>\<open>u8::try_from\<close>, \<open>u16::try_from\<close> and \<open>u32::try_from\<close> on a \<open>u64\<close>, followed by \<open>to_le_bytes\<close>.\<close>

definition narrow_le :: "nat \<Rightarrow> u64 \<Rightarrow> BleError + bytes" where
  "narrow_le width n = (if unat n < 256 ^ width then Inr (le_bytes width (unat n)) else Inl mismatch)"

fun encode_value :: "CharFormat \<Rightarrow> CharValue \<Rightarrow> BleError + bytes" where
  "encode_value FBool (VBool b) = Inr [if b then 1 else 0]"
| "encode_value FUint8 (VUint n) = narrow_le 1 n"
| "encode_value FUint16 (VUint n) = narrow_le 2 n"
| "encode_value FUint32 (VUint n) = narrow_le 4 n"
| "encode_value FUint64 (VUint n) = Inr (u64_to_le n)"
| "encode_value FInt (VInt n) = and_then (ok_or mismatch (try_i32 n)) (\<lambda>m. Inr (u32_to_le m))"
| "encode_value FFloat (VFloat f) = Inr (u32_to_le (f32_from_f64 f))"
| "encode_value FString (VStr s) = Inr s"
| "encode_value FTlv8 (VBytes b) = Inr b"
| "encode_value FData (VBytes b) = Inr b"
| "encode_value f v = Inl mismatch"

definition need :: "bytes \<Rightarrow> nat \<Rightarrow> BleError + unit" where
  "need raw n = require (n \<le> length raw) (MalformedPdu ''value shorter than its format width'')"

definition uint_from_le :: "bytes \<Rightarrow> nat \<Rightarrow> u64" where
  "uint_from_le raw width = of_nat (le_val (take width raw))"

definition u32_from_le :: "bytes \<Rightarrow> u32" where
  "u32_from_le raw = of_nat (le_val (take 4 raw))"

definition decode_value :: "CharFormat \<Rightarrow> bytes \<Rightarrow> BleError + CharValue" where
  "decode_value f raw =
     (case f of
        FBool \<Rightarrow> and_then (need raw 1) (\<lambda>_. Inr (VBool (raw ! 0 \<noteq> 0)))
      | FUint8 \<Rightarrow> and_then (need raw 1) (\<lambda>_. Inr (VUint (uint_from_le raw 1)))
      | FUint16 \<Rightarrow> and_then (need raw 2) (\<lambda>_. Inr (VUint (uint_from_le raw 2)))
      | FUint32 \<Rightarrow> and_then (need raw 4) (\<lambda>_. Inr (VUint (uint_from_le raw 4)))
      | FUint64 \<Rightarrow> and_then (need raw 8) (\<lambda>_. Inr (VUint (uint_from_le raw 8)))
      | FInt \<Rightarrow> and_then (need raw 4) (\<lambda>_. Inr (VInt (scast (u32_from_le raw))))
      | FFloat \<Rightarrow> and_then (need raw 4) (\<lambda>_. Inr (VFloat (f64_from_f32 (u32_from_le raw))))
      | FString \<Rightarrow> Inr (VStr (utf8_lossy raw))
      | FTlv8 \<Rightarrow> Inr (VBytes raw)
      | FData \<Rightarrow> Inr (VBytes raw))"

section \<open>Characteristic signatures\<close>

record Signature =
  sig_char_type :: CharacteristicType
  sig_format :: CharFormat
  sig_perms :: Perms
  sig_properties :: u16

definition PROP_BROADCAST_NOTIFY :: u16 where "PROP_BROADCAST_NOTIFY = 0x0200"

definition supports_broadcast_notify :: "u16 \<Rightarrow> bool" where
  "supports_broadcast_notify properties \<longleftrightarrow> properties AND PROP_BROADCAST_NOTIFY \<noteq> 0"

definition char_format_from_gatt :: "u8 \<Rightarrow> CharFormat option" where
  "char_format_from_gatt b =
     (if b = 0x01 then Some FBool
      else if b = 0x04 then Some FUint8
      else if b = 0x06 then Some FUint16
      else if b = 0x08 then Some FUint32
      else if b = 0x0A then Some FUint64
      else if b = 0x10 then Some FInt
      else if b = 0x14 then Some FFloat
      else if b = 0x19 then Some FString
      else if b = 0x1B then Some FData
      else None)"

definition perms_from_properties :: "u16 \<Rightarrow> Perms" where
  "perms_from_properties bs =
     Perms_default
       \<lparr>perm_read := bs AND 0x0001 \<noteq> 0 \<or> bs AND 0x0010 \<noteq> 0,
        perm_write := bs AND 0x0002 \<noteq> 0 \<or> bs AND 0x0020 \<noteq> 0,
        perm_events := bs AND 0x0080 \<noteq> 0,
        hidden := bs AND 0x0040 \<noteq> 0\<rparr>"

definition le_bytes_to_uuid :: "bytes \<Rightarrow> BleError + str" where
  "le_bytes_to_uuid le =
     (if length le \<noteq> 16 then Inl (MalformedPdu ''characteristic type uuid not 16 bytes'')
      else
        let h = hex_lower (rev le) in
        Inr (slice h 0 8 @ ascii ''-'' @ slice h 8 12 @ ascii ''-'' @ slice h 12 16 @ ascii ''-'' @
             slice h 16 20 @ ascii ''-'' @ slice h 20 32))"

definition parse_signature :: "bytes \<Rightarrow> BleError + Signature" where
  "parse_signature body =
     and_then (map_err BTlv8 (Tlv8Map_parse body)) (\<lambda>m.
     and_then (ok_or (MalformedPdu ''signature missing char type'') (Tlv8Map_get m CHAR_TYPE)) (\<lambda>type_le.
     and_then (le_bytes_to_uuid type_le) (\<lambda>text.
     and_then (map_err BModel (Uuid_parse text)) (\<lambda>uuid.
     let char_type = CharacteristicType_from_uuid uuid in
     and_then (ok_or (MalformedPdu ''signature missing properties'') (Tlv8Map_get m PROPERTIES)) (\<lambda>prop_bytes.
     if length prop_bytes < 2 then Inl (MalformedPdu ''properties descriptor too short'')
     else
       let properties = u16_from_le (prop_bytes ! 0) (prop_bytes ! 1);
           declared =
             Option.bind (Tlv8Map_get m PRESENTATION_FORMAT) (\<lambda>pf.
             Option.bind (get_at pf 0) char_format_from_gatt) in
       and_then
         (ok_or (MalformedPdu ''no usable characteristic format'')
            (case declared of Some f \<Rightarrow> Some f | None \<Rightarrow> default_format char_type)) (\<lambda>f.
         Inr \<lparr>sig_char_type = char_type, sig_format = f, sig_perms = perms_from_properties properties,
              sig_properties = properties\<rparr>))))))"

section \<open>The database sweep\<close>

definition service_type_of :: "str \<Rightarrow> BleError + ServiceType" where
  "service_type_of uuid = and_then (map_err BModel (Uuid_parse uuid)) (\<lambda>u. Inr (ServiceType_from_uuid u))"

definition signature_characteristic :: "GattCharacteristic \<Rightarrow> Signature \<Rightarrow> Characteristic" where
  "signature_characteristic gc sig =
     \<lparr>ch_iid = ucast (gc_iid gc), char_type = sig_char_type sig, ch_format = sig_format sig,
      ch_perms = sig_perms sig, ch_value = None, ch_unit = None, min_value = None, max_value = None,
      min_step = None, max_len = None\<rparr>"

text \<open>The transaction id runs on through the services.\<close>

fun sweep_characteristics ::
    "('g, 'x) gatt_scheme \<Rightarrow> nat \<Rightarrow> 'g \<times> u8 \<Rightarrow> GattCharacteristic list \<Rightarrow>
     (BleError + Characteristic list) \<times> 'g \<times> u8" where
  "sweep_characteristics G frag_size st [] = (Inr [], st)"
| "sweep_characteristics G frag_size (g, tid) (gc # gcs) =
     (if eq_ignore_ascii_case (gc_uuid gc) SERVICE_SIGNATURE_CHAR
      then sweep_characteristics G frag_size (g, tid) gcs
      else
        let tid = tid + 1 in
        case ble_request G g (gc_uuid gc) CharacteristicSignatureRead tid (gc_iid gc) [] frag_size of
          (Inl e, g) \<Rightarrow> (Inl e, g, tid)
        | (Inr resp, g) \<Rightarrow>
            (case parse_signature (br_body resp) of
               Inl e \<Rightarrow> (Inl e, g, tid)
             | Inr sig \<Rightarrow>
                 let (r, st) = sweep_characteristics G frag_size (g, tid) gcs in
                 (and_then r (\<lambda>cs. Inr (signature_characteristic gc sig # cs)), st)))"

fun sweep_services ::
    "('g, 'x) gatt_scheme \<Rightarrow> nat \<Rightarrow> 'g \<times> u8 \<Rightarrow> GattService list \<Rightarrow> (BleError + Service list) \<times> 'g \<times> u8" where
  "sweep_services G frag_size st [] = (Inr [], st)"
| "sweep_services G frag_size st (gs # gss) =
     (case service_type_of (gs_uuid gs) of
        Inl e \<Rightarrow> (Inl e, st)
      | Inr svc_type \<Rightarrow>
          (case sweep_characteristics G frag_size st (gs_characteristics gs) of
             (Inl e, st) \<Rightarrow> (Inl e, st)
           | (Inr cs, st) \<Rightarrow>
               let (r, st) = sweep_services G frag_size st gss in
               (and_then r (\<lambda>ss.
                  Inr (\<lparr>svc_iid = ucast (gs_iid gs), service_type = svc_type, characteristics = cs\<rparr> # ss)), st)))"

definition build_db ::
    "('g, 'x) gatt_scheme \<Rightarrow> 'g \<Rightarrow> GattService list \<Rightarrow> nat \<Rightarrow> (BleError + Accessory list) \<times> 'g" where
  "build_db G g gatt_services frag_size =
     (let (r, g, tid) = sweep_services G frag_size (g, 0) gatt_services in
      (and_then r (\<lambda>ss. Inr [\<lparr>acc_aid = 1, services = ss\<rparr>]), g))"

section \<open>Values survive the wire\<close>

text \<open>The values that the wire form can carry: a 32-bit \<open>int\<close>, a float that is a widened \<open>f32\<close> other
  than a NaN, and text.\<close>

fun wire_exact :: "CharValue \<Rightarrow> bool" where
  "wire_exact (VInt n) = (try_i32 n \<noteq> None)"
| "wire_exact (VFloat f) = (\<exists>x. f = f64_from_f32 x \<and> \<not> f32_is_nan x)"
| "wire_exact (VStr s) = utf8_valid s"
| "wire_exact v = True"

lemma uint_from_le_to: "n < 256 ^ w \<Longrightarrow> n < 2 ^ 64 \<Longrightarrow> unat (uint_from_le (le_bytes w n @ r) w) = n"
  by (simp add: uint_from_le_def le_val_le_bytes unat_of_nat)

lemma u32_from_le_to: "u32_from_le (u32_to_le v @ r) = v"
  by (simp add: u32_from_le_def)

lemma narrow_le_round:
  assumes "narrow_le w n = Inr raw"
  shows "length raw = w" "uint_from_le raw w = n"
proof -
  have n: "unat n < 256 ^ w" "raw = le_bytes w (unat n)"
    using assms by (auto simp: narrow_le_def split: if_splits)
  show "length raw = w" using n by simp
  have "unat (uint_from_le raw w) = unat n"
    using uint_from_le_to [OF n(1), of "[]"] unat_u64_less [of n] n(2) by simp
  then show "uint_from_le raw w = n" by (simp add: word_unat_eq_iff)
qed

lemma u64_round: "uint_from_le (u64_to_le n) 8 = n"
  using unat_u64_less [of n] by (simp add: uint_from_le_def)

lemma decode_encode:
  assumes "encode_value f v = Inr raw" and "wire_exact v"
  shows "decode_value f raw = Inr v"
  using assms
  by (cases "(f, v)" rule: encode_value.cases)
    (auto simp: decode_value_def need_def narrow_le_round u64_round result_simps
      u32_from_le_to [of _ "[]", simplified] f32_round_trip try_i32_Some split: if_splits)

lemma encode_typed:
  "(\<exists>raw. encode_value f v = Inr raw) \<longleftrightarrow> well_typed f v \<and> (case v of VInt n \<Rightarrow> try_i32 n \<noteq> None | _ \<Rightarrow> True)"
  by (cases "(f, v)" rule: encode_value.cases) (auto simp: narrow_le_def ok_or_def split: option.splits)

lemma uint_from_le_bound: "w \<le> 8 \<Longrightarrow> unat (uint_from_le raw w) < 256 ^ w"
proof -
  assume w: "w \<le> 8"
  have "le_val (take w raw) < 256 ^ length (take w raw)" by (rule le_val_less)
  also have "\<dots> \<le> (256 :: nat) ^ w" by (rule power_increasing) auto
  finally have v: "le_val (take w raw) < 256 ^ w" .
  have "(256 :: nat) ^ w \<le> 256 ^ 8" using w by (rule power_increasing) simp
  then have "le_val (take w raw) < 2 ^ 64" using v by simp
  then show ?thesis using v by (simp add: uint_from_le_def unat_of_nat)
qed

lemma decode_typed:
  assumes "decode_value f raw = Inr v"
  shows "well_typed f v \<and> (\<exists>raw'. encode_value f v = Inr raw')"
  using assms uint_from_le_bound [of 1 raw] uint_from_le_bound [of 2 raw] uint_from_le_bound [of 4 raw]
  by (cases f) (auto simp: decode_value_def need_def narrow_le_def result_simps)

text \<open>A 16-byte UUID is always accepted, and its text is what the parser keeps.\<close>

lemma le_bytes_to_uuid_parses:
  assumes "le_bytes_to_uuid le = Inr t"
  shows "\<exists>u. Uuid_parse t = Inr u"
proof -
  have len: "length le = 16" using assms by (auto simp: le_bytes_to_uuid_def split: if_splits)
  define h where "h = hex_lower (rev le)"
  have h: "length h = 32" "set h \<subseteq> Collect is_ascii_hexdigit"
    using len hex_lower_class by (auto simp: h_def)
  have t: "t = slice h 0 8 @ ascii ''-'' @ slice h 8 12 @ ascii ''-'' @ slice h 12 16 @ ascii ''-'' @
      slice h 16 20 @ ascii ''-'' @ slice h 20 32"
    using assms len by (simp add: le_bytes_to_uuid_def h_def Let_def)
  have sub: "set (slice h i j) \<subseteq> Collect is_ascii_hexdigit" for i j
    using h(2) by (auto simp: slice_def dest!: in_set_takeD in_set_dropD)
  have "list_all uuid_char t"
    unfolding t list_all_iff using sub by (auto simp: uuid_char_def ascii_def dest!: subsetD [OF sub])
  moreover have "length t = 36" "t ! 8 = 0x2D"
    using h(1) by (simp_all add: t nth_append ascii_def)
  ultimately show ?thesis
    by (simp add: Uuid_parse_def trim_uuid_chars uuid_char_def [abs_def])
qed

section \<open>The database mirrors the GATT tree\<close>

lemma sweep_characteristics_shape:
  "sweep_characteristics G k st gcs = (Inr cs, st') \<Longrightarrow>
     map ch_iid cs = map (\<lambda>gc. ucast (gc_iid gc))
       (filter (\<lambda>gc. \<not> eq_ignore_ascii_case (gc_uuid gc) SERVICE_SIGNATURE_CHAR) gcs) \<and>
     list_all typed_characteristic cs"
proof (induction G k st gcs arbitrary: cs st' rule: sweep_characteristics.induct)
  case (2 G k g tid gc gcs)
  show ?case
  proof (cases "eq_ignore_ascii_case (gc_uuid gc) SERVICE_SIGNATURE_CHAR")
    case True
    then show ?thesis using "2.IH"(1) [OF True, of cs st'] "2.prems" by simp
  next
    case False
    obtain resp g1 sig cs1 where
        r: "ble_request G g (gc_uuid gc) CharacteristicSignatureRead (tid + 1) (gc_iid gc) [] k = (Inr resp, g1)"
      and s: "parse_signature (br_body resp) = Inr sig"
      and cs1: "sweep_characteristics G k (g1, tid + 1) gcs = (Inr cs1, st')"
      and cs: "cs = signature_characteristic gc sig # cs1"
      using "2.prems" False by (auto simp: Let_def result_simps split: prod.splits sum.splits)
    have "CT_ok (sig_char_type sig)"
      using s CharacteristicType_uuid_from by (auto simp: parse_signature_def Let_def result_simps split: if_splits)
    then show ?thesis
      using "2.IH"(2) [OF False refl r [symmetric] refl s cs1] False
      by (simp add: cs signature_characteristic_def typed_characteristic_def)
  qed
qed simp

lemma sweep_services_shape:
  "sweep_services G k st gss = (Inr ss, st') \<Longrightarrow>
     map svc_iid ss = map (\<lambda>gs. ucast (gs_iid gs)) gss \<and>
     list_all (\<lambda>s. list_all typed_characteristic (characteristics s)) ss \<and>
     map (\<lambda>s. map ch_iid (characteristics s)) ss =
       map (\<lambda>gs. map (\<lambda>gc. ucast (gc_iid gc))
         (filter (\<lambda>gc. \<not> eq_ignore_ascii_case (gc_uuid gc) SERVICE_SIGNATURE_CHAR) (gs_characteristics gs))) gss"
proof (induction G k st gss arbitrary: ss st' rule: sweep_services.induct)
  case (2 G k st gs gss)
  then show ?case
    by (fastforce simp: Let_def result_simps dest: sweep_characteristics_shape split: prod.splits sum.splits)
qed simp

lemma build_db_shape:
  assumes "build_db G g gss k = (Inr accs, g')"
  shows "typed_tree accs \<and>
      (\<exists>ss. accs = [\<lparr>acc_aid = 1, services = ss\<rparr>] \<and> map svc_iid ss = map (\<lambda>gs. ucast (gs_iid gs)) gss \<and>
        map (\<lambda>s. map ch_iid (characteristics s)) ss =
          map (\<lambda>gs. map (\<lambda>gc. ucast (gc_iid gc))
            (filter (\<lambda>gc. \<not> eq_ignore_ascii_case (gc_uuid gc) SERVICE_SIGNATURE_CHAR) (gs_characteristics gs))) gss)"
proof -
  obtain ss st where "sweep_services G k (g, 0) gss = (Inr ss, st)" "accs = [\<lparr>acc_aid = 1, services = ss\<rparr>]"
    using assms by (auto simp: build_db_def result_simps split: prod.splits)
  then show ?thesis using sweep_services_shape [of G k "(g, 0)" gss ss st] by (simp add: typed_tree_def)
qed

text \<open>C39. The typed layer over Bluetooth.  A value is encoded exactly if it is a value of its format (and a
  32-bit one for \<open>int\<close>), and every value the wire form can carry decodes to itself; whatever decodes
  is a value of the format that can be encoded.  The database of a successful sweep is typed and
  mirrors the GATT tree: one service each, in order, with the instance ids of its characteristics
  other than service signatures.\<close>

theorem ble_values_and_database:
  "((\<exists>raw. encode_value f v = Inr raw) \<longleftrightarrow> well_typed f v \<and> (case v of VInt n \<Rightarrow> try_i32 n \<noteq> None | _ \<Rightarrow> True)) \<and>
   (encode_value f v = Inr raw \<and> wire_exact v \<longrightarrow> decode_value f raw = Inr v) \<and>
   (decode_value f raw' = Inr v' \<longrightarrow> well_typed f v' \<and> (\<exists>raw''. encode_value f v' = Inr raw'')) \<and>
   (build_db G g gss k = (Inr accs, g') \<longrightarrow>
      typed_tree accs \<and>
      (\<exists>ss. accs = [\<lparr>acc_aid = 1, services = ss\<rparr>] \<and> map svc_iid ss = map (\<lambda>gs. ucast (gs_iid gs)) gss \<and>
        map (\<lambda>s. map ch_iid (characteristics s)) ss =
          map (\<lambda>gs. map (\<lambda>gc. ucast (gc_iid gc))
            (filter (\<lambda>gc. \<not> eq_ignore_ascii_case (gc_uuid gc) SERVICE_SIGNATURE_CHAR) (gs_characteristics gs))) gss))"
  using encode_typed [of f v] decode_encode [of f v raw] decode_typed [of f raw' v'] build_db_shape [of G g gss k accs g']
  by blast

text \<open>A GATT database with one switch whose \<open>On\<close> characteristic answers every request with its signature.\<close>

definition toy_signature :: bytes where
  "toy_signature =
     enc_items [(CHAR_TYPE, rev [0, 0, 0, 0x25, 0, 0, 0x10, 0, 0x80, 0, 0, 0x26, 0xBB, 0x76, 0x52, 0x91]),
       (PROPERTIES, [0x93, 0x02]), (PRESENTATION_FORMAT, [0x01, 0, 0, 0, 1, 0, 0])]"

definition toy_sig_gatt :: "unit gatt" where
  "toy_sig_gatt =
     \<lparr>gatt_write = (\<lambda>g u d. (Inr (), g)),
      gatt_read = (\<lambda>g u. (Inr ([0x02, 1, 0] @ u16_to_le (of_nat (length toy_signature)) @ toy_signature), g)),
      gatt_instance_id = (\<lambda>g u. (Inr 1, g)), gatt_enumerate = (\<lambda>g. (Inr [], g)),
      gatt_max_write = (\<lambda>g. (180, g)), gatt_generation = (\<lambda>g. (0, g))\<rparr>"

definition toy_gatt_services :: "GattService list" where
  "toy_gatt_services =
     [\<lparr>gs_uuid = ascii ''00000049-0000-1000-8000-0026bb765291'', gs_iid = 8, gs_characteristics =
        [\<lparr>gc_uuid = SERVICE_SIGNATURE_CHAR, gc_iid = 9\<rparr>,
         \<lparr>gc_uuid = ascii ''00000025-0000-1000-8000-0026bb765291'', gc_iid = 10\<rparr>]\<rparr>]"

lemma toy_signature_parses: "\<exists>sig. parse_signature toy_signature = Inr sig"
proof -
  let ?uuid = "rev [0, 0, 0, 0x25, 0, 0, 0x10, 0, 0x80, 0, 0, 0x26, 0xBB, 0x76, 0x52, 0x91] :: bytes"
  have p: "Tlv8Map_parse toy_signature = Inr (from_items
      [(CHAR_TYPE, ?uuid), (PROPERTIES, [0x93, 0x02]), (PRESENTATION_FORMAT, [0x01, 0, 0, 0, 1, 0, 0])])"
    unfolding toy_signature_def by (rule Tlv8Map_parse_enc_items) (simp add: ble_params SEPARATOR_def)
  obtain t where t: "le_bytes_to_uuid ?uuid = Inr t" by (simp add: le_bytes_to_uuid_def Let_def)
  obtain u where "Uuid_parse t = Inr u" using le_bytes_to_uuid_parses [OF t] by blast
  then show ?thesis
    using t by (simp add: parse_signature_def p ble_params char_format_from_gatt_def get_at_def Let_def)
qed

lemma toy_signature_request:
  "ble_request toy_sig_gatt () u op tid iid [] 180 = (Inr \<lparr>br_tid = 1, br_status = 0, br_body = toy_signature\<rparr>, ())"
proof -
  have len: "length toy_signature = 31" by code_simp
  have "declared_total ([0x02, 1, 0] @ u16_to_le 31 @ toy_signature) = 36"
    using u16_to_le_Cons [of 31] len by (auto simp: declared_total_def simp del: unat_u16_from_le)
  moreover have "decode_response ([0x02, 1, 0] @ u16_to_le 31 @ toy_signature) =
      Inr \<lparr>br_tid = 1, br_status = 0, br_body = toy_signature\<rparr>"
  proof -
    have "u16_sat (length toy_signature) = 31" "toy_signature \<noteq> []"
      using len by (auto simp: u16_sat_def try_u16_def)
    then show ?thesis using decode_response_encode [of toy_signature "0x02" 1 0] len by simp
  qed
  ultimately show ?thesis
    using len by (simp add: ble_request_def exchange_frags_def toy_sig_gatt_def fragment_def ble_encode_request_def
        read_frags.simps reassemble_def)
qed

lemma toy_services_facts:
  "eq_ignore_ascii_case SERVICE_SIGNATURE_CHAR SERVICE_SIGNATURE_CHAR"
  "\<not> eq_ignore_ascii_case (ascii ''00000025-0000-1000-8000-0026bb765291'') SERVICE_SIGNATURE_CHAR"
  by (simp_all add: eq_ignore_ascii_case_def SERVICE_SIGNATURE_CHAR_def str_lowercase_def ascii_def
      to_ascii_lowercase_def in_range_def)

lemma toy_service_type: "\<exists>t. service_type_of (ascii ''00000049-0000-1000-8000-0026bb765291'') = Inr t"
proof -
  have "Uuid_parse (ascii ''49'') = Inr (Uuid (ascii ''00000049-0000-1000-8000-0026bb765291''))" by code_simp
  then have "Uuid_parse (ascii ''00000049-0000-1000-8000-0026bb765291'') =
      Inr (Uuid (ascii ''00000049-0000-1000-8000-0026bb765291''))"
    using Uuid_parse_full [OF Uuid_parse_wf] by fastforce
  then show ?thesis by (simp add: service_type_of_def)
qed

lemma toy_build_db: "\<exists>accs. build_db toy_sig_gatt () toy_gatt_services 180 = (Inr accs, ())"
  using toy_signature_parses toy_services_facts toy_service_type
  by (auto simp: build_db_def toy_gatt_services_def toy_signature_request Let_def split: prod.splits)

theorem ble_values_and_database_witness:
  "encode_value FUint8 (VUint 200) = Inr [200] \<and> decode_value FUint8 [200] = Inr (VUint 200) \<and>
   (\<exists>accs. build_db toy_sig_gatt () toy_gatt_services 180 = (Inr accs, ()) \<and> typed_tree accs \<and>
     (\<exists>ss. accs = [\<lparr>acc_aid = 1, services = ss\<rparr>] \<and> map (\<lambda>s. map ch_iid (characteristics s)) ss = [[10]]))"
proof -
  have e: "encode_value FUint8 (VUint 200) = Inr [200]" by (simp add: narrow_le_def)
  obtain accs where b: "build_db toy_sig_gatt () toy_gatt_services 180 = (Inr accs, ())"
    using toy_build_db by blast
  have c: "map (\<lambda>gs. map (\<lambda>gc. ucast (gc_iid gc) :: u64)
      (filter (\<lambda>gc. \<not> eq_ignore_ascii_case (gc_uuid gc) SERVICE_SIGNATURE_CHAR) (gs_characteristics gs)))
      toy_gatt_services = [[10]]"
    using toy_services_facts by (simp add: toy_gatt_services_def)
  note T = ble_values_and_database [of FUint8 "VUint 200" "[200]" "[200]" "VUint 200" toy_sig_gatt "()"
      toy_gatt_services 180 accs "()", unfolded c]
  have w: "wire_exact (VUint 200)" by simp
  have d: "decode_value FUint8 [200] = Inr (VUint 200)"
    by (rule T [THEN conjunct2, THEN conjunct1, rule_format, OF conjI [OF e w]])
  have "typed_tree accs \<and>
      (\<exists>ss. accs = [\<lparr>acc_aid = 1, services = ss\<rparr>] \<and> map (\<lambda>s. map ch_iid (characteristics s)) ss = [[10]])"
    using T [THEN conjunct2, THEN conjunct2, THEN conjunct2, rule_format, OF b] by (elim conjE exE) (intro conjI exI)
  then show ?thesis by (intro conjI exI [of _ accs] e d b) (elim conjE, assumption)+
qed

end
