(* ===== verification/Ble_Accessory.thy ===== *)
theory Ble_Accessory
  imports Ble_Session Ble_Values Pairing_Driver "HOL-Library.AList"
begin

text \<open>
  The accessory handle over Bluetooth LE: the pairing drivers of \<open>hap-ble/src/pairing.rs\<close>, the handle's
  operations of \<open>hap-ble/src/accessory.rs\<close> with the session that is renewed after a reconnect, and the
  controller of \<open>hap-ble/src/controller.rs\<close>.  The GATT connection is a state and a record of operations;
  every step returns the result, the connection and the session state.  The ephemeral keys of Pair
  Verify are an argument, one per attempt.  A hash map is its list of entries.
\<close>

section \<open>Pairing\<close>

definition ble_exchange ::
    "('g, 'x) gatt_scheme \<Rightarrow> 'g \<Rightarrow> str \<Rightarrow> u8 \<Rightarrow> u16 \<Rightarrow> bytes \<Rightarrow> nat \<Rightarrow> (BleError + bytes) \<times> 'g" where
  "ble_exchange G g char_uuid tid iid tlv frag_size =
     (let (r, g) = ble_request G g char_uuid CharacteristicWrite tid iid (encode_write_body tlv) frag_size in
      (and_then r (\<lambda>resp.
         if br_status resp \<noteq> 0 then Inl (PairingRejected (br_status resp)) else value_param (br_body resp)), g))"

definition tid_exchange ::
    "('g, 'x) gatt_scheme \<Rightarrow> str \<Rightarrow> u16 \<Rightarrow> nat \<Rightarrow> 'g \<times> u8 \<Rightarrow> bytes \<Rightarrow> (BleError + bytes) \<times> 'g \<times> u8" where
  "tid_exchange G char_uuid iid frag_size net out =
     (let tid = snd net + 1;
          (r, g) = ble_exchange G (fst net) char_uuid tid iid out frag_size in
      (r, (g, tid)))"

definition ble_pair_setup ::
    "prims \<Rightarrow> ('g, 'x) gatt_scheme \<Rightarrow> 'g \<Rightarrow> str \<Rightarrow> u16 \<Rightarrow> str \<Rightarrow> ControllerKeypair \<Rightarrow> nat \<Rightarrow> bytes \<Rightarrow>
     ((BleError + AccessoryPairing) \<times> 'g) option" where
  "ble_pair_setup P G g char_uuid iid setup_code controller frag_size rng_a =
     (case PairSetupClient_new setup_code controller rng_a of
        Inl e \<Rightarrow> Some (Inl (BCrypto e), g)
      | Inr client \<Rightarrow>
          let (out, client) = ps_start client in
          map_option (\<lambda>(r, _, net). (r, fst net))
            (drive (ps_handle P) (tid_exchange G char_uuid iid frag_size) BCrypto SETUP_EXCHANGES client (g, 0) out))"

definition ble_pair_verify ::
    "prims \<Rightarrow> ('g, 'x) gatt_scheme \<Rightarrow> 'g \<Rightarrow> str \<Rightarrow> u16 \<Rightarrow> ControllerKeypair \<Rightarrow> AccessoryPairing \<Rightarrow> nat \<Rightarrow> bytes \<Rightarrow>
     ((BleError + BleSession \<times> BroadcastKey) \<times> 'g) option" where
  "ble_pair_verify P G g char_uuid iid controller accessory frag_size eph =
     (let (out, client) = pv_start (PairVerifyClient_new_with_ephemeral P controller accessory eph) in
      map_option (\<lambda>(r, client, net).
          (and_then r (\<lambda>keys.
           and_then (map_err BCrypto (broadcast_key P client (ltpk P controller))) (\<lambda>bkey.
             Inr (BleSession_new keys, bkey))), fst net))
        (drive (pv_handle P) (tid_exchange G char_uuid iid frag_size) BCrypto VERIFY_EXCHANGES client (g, 0) out))"

lemma ble_pair_verify_returns: "ble_pair_verify P G g u iid kp acc k eph \<noteq> None"
proof -
  let ?c = "PairVerifyClient_new_with_ephemeral P kp acc eph"
  have "drive (pv_handle P) (tid_exchange G u iid k) BCrypto VERIFY_EXCHANGES (snd (pv_start ?c)) (g, 0) (fst (pv_start ?c)) \<noteq> None"
    by (rule pvm.drive_returns) (simp add: start_ranks VERIFY_EXCHANGES_def)
  then show ?thesis by (simp add: ble_pair_verify_def case_prod_beta)
qed

section \<open>The secure session and its renewal\<close>

record Secure =
  sec_session :: BleSession
  sec_tid :: u8
  sec_generation :: u64

record Reviver =
  rv_keypair :: ControllerKeypair
  rv_pairing :: AccessoryPairing
  rv_verify_char :: str
  rv_verify_iid :: u16
  rv_frag_size :: nat

definition MAX_REVIVE_RETRIES :: nat where
  "MAX_REVIVE_RETRIES = 3"

definition revive_if_stale ::
    "prims \<Rightarrow> ('g, 'x) gatt_scheme \<Rightarrow> bytes \<Rightarrow> 'g \<Rightarrow> Secure \<Rightarrow> Reviver \<Rightarrow> (BleError + unit) \<times> 'g \<times> Secure" where
  "revive_if_stale P G eph g s reviver =
     (let (gen, g) = gatt_generation G g in
      if gen \<le> sec_generation s then (Inr (), g, s)
      else
        case ble_pair_verify P G g (rv_verify_char reviver) (rv_verify_iid reviver) (rv_keypair reviver)
            (rv_pairing reviver) (rv_frag_size reviver) eph of
          None \<Rightarrow> (Inl Disconnected, g, s)
        | Some (Inl e, g) \<Rightarrow> (Inl e, g, s)
        | Some (Inr (session, _), g) \<Rightarrow>
            let (gen, g) = gatt_generation G g in
            (Inr (), g, s\<lparr>sec_session := session, sec_tid := 0, sec_generation := gen\<rparr>))"

definition secure_attempt ::
    "prims \<Rightarrow> ('g, 'x) gatt_scheme \<Rightarrow> 'g \<Rightarrow> Secure \<Rightarrow> str \<Rightarrow> BleOpCode \<Rightarrow> u16 \<Rightarrow> bytes \<Rightarrow> nat \<Rightarrow>
     (BleError + BleResponse) \<times> 'g \<times> Secure" where
  "secure_attempt P G g s uuid op iid body frag_size =
     (let s = s\<lparr>sec_tid := sec_tid s + 1\<rparr>;
          (r, g, session) = request_secure P G g (sec_session s) uuid op (sec_tid s) iid body frag_size in
      (r, g, s\<lparr>sec_session := session\<rparr>))"

text \<open>The retry loop of \<open>read_char_raw\<close> and \<open>write_char_raw\<close>: \<open>Inl\<close> the error to return, \<open>Inr\<close> the
  response.\<close>

function secure_retry ::
    "prims \<Rightarrow> ('g, 'x) gatt_scheme \<Rightarrow> (nat \<Rightarrow> bytes) \<Rightarrow> Reviver \<Rightarrow> str \<Rightarrow> BleOpCode \<Rightarrow> u16 \<Rightarrow> bytes \<Rightarrow> nat \<Rightarrow>
     nat \<Rightarrow> 'g \<Rightarrow> Secure \<Rightarrow> (BleError + BleResponse) \<times> 'g \<times> Secure" where
  "secure_retry P G ephs reviver uuid op iid body frag_size attempts g s =
     (case revive_if_stale P G (ephs attempts) g s reviver of
        (Inl e, g, s) \<Rightarrow> (Inl e, g, s)
      | (Inr _, g, s) \<Rightarrow>
          (case secure_attempt P G g s uuid op iid body frag_size of
             (Inr resp, g, s) \<Rightarrow> (Inr resp, g, s)
           | (Inl e, g, s) \<Rightarrow>
               if Suc attempts < MAX_REVIVE_RETRIES then
                 (let (gen, g) = gatt_generation G g in
                  if sec_generation s < gen
                  then secure_retry P G ephs reviver uuid op iid body frag_size (Suc attempts) g s
                  else (Inl e, g, s))
               else (Inl e, g, s)))"
  by pat_completeness auto
termination
  by (relation "measure (\<lambda>(P, G, ephs, rv, u, op, iid, b, k, attempts, g, s). MAX_REVIVE_RETRIES - attempts)") auto

declare secure_retry.simps [simp del]

definition try_iid16 :: "u64 \<Rightarrow> BleError + u16" where
  "try_iid16 iid = ok_or (CharacteristicNotFound 0 iid) (try_u16 (unat iid))"

definition read_char_raw ::
    "prims \<Rightarrow> ('g, 'x) gatt_scheme \<Rightarrow> (nat \<Rightarrow> bytes) \<Rightarrow> 'g \<Rightarrow> Secure \<Rightarrow> Reviver \<Rightarrow> str \<Rightarrow> u64 \<Rightarrow> nat \<Rightarrow>
     (BleError + bytes) \<times> 'g \<times> Secure" where
  "read_char_raw P G ephs g s reviver uuid iid frag_size =
     (case try_iid16 iid of
        Inl e \<Rightarrow> (Inl e, g, s)
      | Inr iid16 \<Rightarrow>
          let (r, g, s) = secure_retry P G ephs reviver uuid CharacteristicRead iid16 [] frag_size 0 g s in
          (and_then r (\<lambda>resp. value_param (br_body resp)), g, s))"

definition write_char_raw ::
    "prims \<Rightarrow> ('g, 'x) gatt_scheme \<Rightarrow> (nat \<Rightarrow> bytes) \<Rightarrow> 'g \<Rightarrow> Secure \<Rightarrow> Reviver \<Rightarrow> str \<Rightarrow> u64 \<Rightarrow> bytes \<Rightarrow> nat \<Rightarrow>
     (BleError + unit) \<times> 'g \<times> Secure" where
  "write_char_raw P G ephs g s reviver uuid iid value_bytes frag_size =
     (case try_iid16 iid of
        Inl e \<Rightarrow> (Inl e, g, s)
      | Inr iid16 \<Rightarrow>
          let (r, g, s) = secure_retry P G ephs reviver uuid CharacteristicWrite iid16
                (encode_write_body value_bytes) frag_size 0 g s in
          (and_then r (\<lambda>resp. require (br_status resp = 0) (RequestRejected (br_status resp))), g, s))"

section \<open>The handle\<close>

record 'g BleAccessory =
  ba_gatt :: 'g
  ba_secure :: Secure
  ba_reviver :: Reviver
  ba_pairings :: "str \<times> u16"
  ba_frag_size :: nat
  ba_accessories :: "Accessory list"
  ba_chars :: "((u64 \<times> u64) \<times> (str \<times> CharFormat)) list"
  ba_last_gsn :: u16
  ba_emitted :: "(u64 \<times> u16) list"
  ba_broadcast_key :: BroadcastKey

record SecureContext =
  sx_session :: BleSession
  sx_session_generation :: u64
  sx_keypair :: ControllerKeypair
  sx_pairing :: AccessoryPairing
  sx_verify_char :: str
  sx_verify_iid :: u16
  sx_pairings_char :: str
  sx_pairings_iid :: u16
  sx_broadcast_key :: BroadcastKey
  sx_initial_gsn :: u16

definition uuid_by_iid :: "GattService list \<Rightarrow> (u64 \<times> str) list" where
  "uuid_by_iid gatt_services =
     fold (\<lambda>gs m. fold (\<lambda>gc m. AList.update (ucast (gc_iid gc)) (gc_uuid gc) m) (gs_characteristics gs) m)
       gatt_services []"

definition char_map ::
    "GattService list \<Rightarrow> Accessory list \<Rightarrow> ((u64 \<times> u64) \<times> (str \<times> CharFormat)) list" where
  "char_map gatt_services accs =
     fold (\<lambda>acc. fold (\<lambda>svc. fold (\<lambda>ch m.
       case map_of (uuid_by_iid gatt_services) (ch_iid ch) of
         None \<Rightarrow> m
       | Some uuid \<Rightarrow> AList.update (acc_aid acc, ch_iid ch) (uuid, ch_format ch) m)
       (characteristics svc)) (services acc)) accs []"

definition BleAccessory_new ::
    "'g \<Rightarrow> SecureContext \<Rightarrow> nat \<Rightarrow> GattService list \<Rightarrow> Accessory list \<Rightarrow> 'g BleAccessory" where
  "BleAccessory_new g ctx frag_size gatt_services accs =
     \<lparr>ba_gatt = g,
      ba_secure = \<lparr>sec_session = sx_session ctx, sec_tid = 0, sec_generation = sx_session_generation ctx\<rparr>,
      ba_reviver = \<lparr>rv_keypair = sx_keypair ctx, rv_pairing = sx_pairing ctx, rv_verify_char = sx_verify_char ctx,
        rv_verify_iid = sx_verify_iid ctx, rv_frag_size = frag_size\<rparr>,
      ba_pairings = (sx_pairings_char ctx, sx_pairings_iid ctx), ba_frag_size = frag_size,
      ba_accessories = accs, ba_chars = char_map gatt_services accs, ba_last_gsn = sx_initial_gsn ctx,
      ba_emitted = [], ba_broadcast_key = sx_broadcast_key ctx\<rparr>"

text \<open>The search of \<open>find\<close> over accessories, services and characteristics, in order.\<close>

definition find_char :: "Accessory list \<Rightarrow> ServiceType \<Rightarrow> CharacteristicType \<Rightarrow> (u64 \<times> u64) option" where
  "find_char accs svc chr =
     (case concat (map (\<lambda>acc. concat (map (\<lambda>s.
         if service_type s = svc
         then map (\<lambda>ch. (acc_aid acc, ch_iid ch)) (filter (\<lambda>ch. char_type ch = chr) (characteristics s))
         else []) (services acc))) accs) of
        [] \<Rightarrow> None
      | x # _ \<Rightarrow> Some x)"

definition ble_find :: "'g BleAccessory \<Rightarrow> ServiceType \<Rightarrow> CharacteristicType \<Rightarrow> BleError + u64 \<times> u64" where
  "ble_find a svc chr = ok_or (CharacteristicNotFound 0 0) (find_char (ba_accessories a) svc chr)"

definition char_of :: "'g BleAccessory \<Rightarrow> u64 \<Rightarrow> u64 \<Rightarrow> BleError + str \<times> CharFormat" where
  "char_of a aid iid = ok_or (CharacteristicNotFound aid iid) (map_of (ba_chars a) (aid, iid))"

definition ble_read ::
    "prims \<Rightarrow> ('g, 'x) gatt_scheme \<Rightarrow> (nat \<Rightarrow> bytes) \<Rightarrow> 'g BleAccessory \<Rightarrow> u64 \<Rightarrow> u64 \<Rightarrow>
     (BleError + CharValue) \<times> 'g BleAccessory" where
  "ble_read P G ephs a aid iid =
     (case char_of a aid iid of
        Inl e \<Rightarrow> (Inl e, a)
      | Inr (uuid, f) \<Rightarrow>
          let (r, g, s) = read_char_raw P G ephs (ba_gatt a) (ba_secure a) (ba_reviver a) uuid iid (ba_frag_size a) in
          (and_then r (decode_value f), a\<lparr>ba_gatt := g, ba_secure := s\<rparr>))"

definition ble_write ::
    "prims \<Rightarrow> ('g, 'x) gatt_scheme \<Rightarrow> (nat \<Rightarrow> bytes) \<Rightarrow> 'g BleAccessory \<Rightarrow> u64 \<Rightarrow> u64 \<Rightarrow> CharValue \<Rightarrow>
     (BleError + unit) \<times> 'g BleAccessory" where
  "ble_write P G ephs a aid iid v =
     (case char_of a aid iid of
        Inl e \<Rightarrow> (Inl e, a)
      | Inr (uuid, f) \<Rightarrow>
          (case encode_value f v of
             Inl e \<Rightarrow> (Inl e, a)
           | Inr raw \<Rightarrow>
               let (r, g, s) = write_char_raw P G ephs (ba_gatt a) (ba_secure a) (ba_reviver a) uuid iid raw (ba_frag_size a) in
               (r, a\<lparr>ba_gatt := g, ba_secure := s\<rparr>)))"

section \<open>Removing a pairing\<close>

definition METHOD_REMOVE :: u8 where [tlv_types]: "METHOD_REMOVE = 0x04"

definition ble_encode_remove_pairing :: "str \<Rightarrow> bytes" where
  "ble_encode_remove_pairing controller_id =
     Tlv8Writer_push (push_u8 (push_u8 [] STATE STATE_M1) METHOD METHOD_REMOVE) IDENTIFIER controller_id"

definition expect_remove_m2 :: "bytes \<Rightarrow> BleError + unit" where
  "expect_remove_m2 tlv =
     and_then (map_err BTlv8 (Tlv8Map_parse tlv)) (\<lambda>m.
       case Tlv8Map_get m ERROR of
         Some err \<Rightarrow> Inl (PairingRejected (case get_at err 0 of Some e \<Rightarrow> e | None \<Rightarrow> 1))
       | None \<Rightarrow>
           require (Option.bind (Tlv8Map_get m STATE) (\<lambda>s. get_at s 0) = Some STATE_M2)
             (MalformedPdu ''remove-pairing reply not state M2''))"

definition ble_remove_pairing ::
    "prims \<Rightarrow> ('g, 'x) gatt_scheme \<Rightarrow> bytes \<Rightarrow> 'g BleAccessory \<Rightarrow> str \<Rightarrow> (BleError + unit) \<times> 'g BleAccessory" where
  "ble_remove_pairing P G eph a controller_id =
     (let (uuid, iid) = ba_pairings a;
          removing_self = (controller_id = kp_id (rv_keypair (ba_reviver a)));
          body = encode_write_body (ble_encode_remove_pairing controller_id) in
      case revive_if_stale P G eph (ba_gatt a) (ba_secure a) (ba_reviver a) of
        (Inl e, g, s) \<Rightarrow> (Inl e, a\<lparr>ba_gatt := g, ba_secure := s\<rparr>)
      | (Inr _, g, s) \<Rightarrow>
          let (r, g, s) = secure_attempt P G g s uuid CharacteristicWrite iid body (ba_frag_size a) in
          (case r of
             Inr resp \<Rightarrow>
               if br_status resp \<noteq> 0 then Inl (PairingRejected (br_status resp))
               else and_then (value_param (br_body resp)) expect_remove_m2
           | Inl e \<Rightarrow>
               if removing_self \<and> (e = Disconnected \<or> (\<exists>c. e = BCrypto c)) then Inr () else Inl e,
           a\<lparr>ba_gatt := g, ba_secure := s\<rparr>))"

section \<open>Thread commissioning\<close>

definition THREAD_CONTROL_POINT_UUID :: str where
  "THREAD_CONTROL_POINT_UUID = ascii ''00000704-0000-1000-8000-0026bb765291''"

record ThreadDataset =
  network_name :: str
  td_channel :: u8
  pan_id :: u16
  ext_pan_id :: bytes
  network_key :: bytes

definition encode_query :: bytes where
  "encode_query = Tlv8Writer_push [] 1 [0x03]"

definition encode_provision :: "ThreadDataset \<Rightarrow> bytes" where
  "encode_provision d =
     (let inner = Tlv8Writer_push [] 1 (network_name d);
          inner = Tlv8Writer_push inner 2 [td_channel d];
          inner = Tlv8Writer_push inner 3 (u16_to_le (pan_id d));
          inner = Tlv8Writer_push inner 4 (ext_pan_id d);
          inner = Tlv8Writer_push inner 5 (network_key d) in
      Tlv8Writer_push (Tlv8Writer_push (Tlv8Writer_push [] 1 [0x01]) 2 inner) 3 [0x01])"

definition thread_control_point :: "'g BleAccessory \<Rightarrow> BleError + str \<times> u64" where
  "thread_control_point a =
     ok_or (CharacteristicNotFound 0 0)
       (map_option (\<lambda>((aid, iid), (uuid, f)). (uuid, iid))
         (find (\<lambda>(_, (uuid, _)). eq_ignore_ascii_case uuid THREAD_CONTROL_POINT_UUID) (ba_chars a)))"

definition thread_provision ::
    "prims \<Rightarrow> ('g, 'x) gatt_scheme \<Rightarrow> (nat \<Rightarrow> bytes) \<Rightarrow> (nat \<Rightarrow> bytes) \<Rightarrow> 'g BleAccessory \<Rightarrow> ThreadDataset \<Rightarrow>
     (BleError + unit) \<times> 'g BleAccessory" where
  "thread_provision P G ephs ephs' a dataset =
     (case thread_control_point a of
        Inl e \<Rightarrow> (Inl e, a)
      | Inr (uuid, iid) \<Rightarrow>
          (case write_char_raw P G ephs (ba_gatt a) (ba_secure a) (ba_reviver a) uuid iid encode_query (ba_frag_size a) of
             (Inl e, g, s) \<Rightarrow> (Inl e, a\<lparr>ba_gatt := g, ba_secure := s\<rparr>)
           | (Inr _, g, s) \<Rightarrow>
               let (r, g, s) = write_char_raw P G ephs' g s (ba_reviver a) uuid iid (encode_provision dataset) (ba_frag_size a) in
               (Inr (), a\<lparr>ba_gatt := g, ba_secure := s\<rparr>)))"

section \<open>Broadcasts and notifications\<close>

definition ENABLE_BROADCAST_BODY :: bytes where
  "ENABLE_BROADCAST_BODY = [0x01, 0x02, 0x01, 0x00, 0x02, 0x01, 0x01]"

fun enable_broadcasts ::
    "prims \<Rightarrow> ('g, 'x) gatt_scheme \<Rightarrow> (u64 \<Rightarrow> bytes) \<Rightarrow> 'g BleAccessory \<Rightarrow> u64 list \<Rightarrow>
     (BleError + unit) \<times> 'g BleAccessory" where
  "enable_broadcasts P G ephs a [] = (Inr (), a)"
| "enable_broadcasts P G ephs a (iid # iids) =
     (case map_of (ba_chars a) (1, iid) of
        None \<Rightarrow> enable_broadcasts P G ephs a iids
      | Some (uuid, _) \<Rightarrow>
          (case try_u16 (unat iid) of
             None \<Rightarrow> enable_broadcasts P G ephs a iids
           | Some iid16 \<Rightarrow>
               (case revive_if_stale P G (ephs iid) (ba_gatt a) (ba_secure a) (ba_reviver a) of
                  (Inl e, g, s) \<Rightarrow> (Inl e, a\<lparr>ba_gatt := g, ba_secure := s\<rparr>)
                | (Inr _, g, s) \<Rightarrow>
                    let (_, g, s) = secure_attempt P G g s uuid CharacteristicConfig iid16 ENABLE_BROADCAST_BODY
                          (ba_frag_size a) in
                    enable_broadcasts P G ephs (a\<lparr>ba_gatt := g, ba_secure := s\<rparr>) iids)))"

record BleEvent =
  ev_aid :: u64
  ev_iid :: u64
  ev_value :: CharValue

text \<open>One turn of the task that \<open>subscribe\<close> spawns, after a notification.\<close>

definition on_notification ::
    "prims \<Rightarrow> ('g, 'x) gatt_scheme \<Rightarrow> (nat \<Rightarrow> bytes) \<Rightarrow> 'g BleAccessory \<Rightarrow> u64 \<Rightarrow> u64 \<Rightarrow>
     (BleEvent option) \<times> 'g BleAccessory" where
  "on_notification P G ephs a aid iid =
     (let (r, a) = ble_read P G ephs a aid iid in
      (map_option (\<lambda>v. \<lparr>ev_aid = aid, ev_iid = iid, ev_value = v\<rparr>) (ok r), a))"

record BleBroadcastState =
  bb_key :: BroadcastKey
  bb_gsn :: u16

definition broadcast_state :: "'g BleAccessory \<Rightarrow> BleBroadcastState" where
  "broadcast_state a = \<lparr>bb_key = ba_broadcast_key a, bb_gsn = ba_last_gsn a\<rparr>"

section \<open>The controller\<close>

definition PAIR_SETUP_CHAR :: str where
  "PAIR_SETUP_CHAR = ascii ''0000004c-0000-1000-8000-0026bb765291''"

definition PAIR_VERIFY_CHAR :: str where
  "PAIR_VERIFY_CHAR = ascii ''0000004e-0000-1000-8000-0026bb765291''"

definition PAIRINGS_CHAR :: str where
  "PAIRINGS_CHAR = ascii ''00000050-0000-1000-8000-0026bb765291''"

definition GENERATE_BROADCAST_KEY_BODY :: bytes where
  "GENERATE_BROADCAST_KEY_BODY = [0x01, 0x00]"

definition protocol_info_service_iid :: "GattService list \<Rightarrow> u16 option" where
  "protocol_info_service_iid svcs =
     Option.bind (find (\<lambda>s. eq_ignore_ascii_case (gs_uuid s) PROTOCOL_INFO_SERVICE) svcs) (\<lambda>svc.
       if list_ex (\<lambda>c. eq_ignore_ascii_case (gc_uuid c) SERVICE_SIGNATURE_CHAR) (gs_characteristics svc)
       then Some (gs_iid svc) else None)"

definition iid_of :: "GattService list \<Rightarrow> str \<Rightarrow> BleError + u16" where
  "iid_of svcs char_uuid =
     ok_or (CharacteristicNotFound 0 0)
       (map_option gc_iid
         (find (\<lambda>c. eq_ignore_ascii_case (gc_uuid c) char_uuid) (concat (map gs_characteristics svcs))))"

definition request_broadcast_key ::
    "prims \<Rightarrow> ('g, 'x) gatt_scheme \<Rightarrow> 'g \<Rightarrow> BleSession \<Rightarrow> GattService list \<Rightarrow> nat \<Rightarrow> 'g \<times> BleSession" where
  "request_broadcast_key P G g session svcs frag =
     (case protocol_info_service_iid svcs of
        None \<Rightarrow> (g, session)
      | Some service_iid \<Rightarrow>
          snd (request_secure P G g session SERVICE_SIGNATURE_CHAR ProtocolConfig 1 service_iid
            GENERATE_BROADCAST_KEY_BODY frag))"

definition verify_and_build ::
    "prims \<Rightarrow> ('g, 'x) gatt_scheme \<Rightarrow> 'g \<Rightarrow> ControllerKeypair \<Rightarrow> AccessoryPairing \<Rightarrow> u16 \<Rightarrow> bytes \<Rightarrow>
     (BleError + 'g BleAccessory) \<times> 'g" where
  "verify_and_build P G g keypair pairing initial_gsn eph =
     (let (frag, g) = gatt_max_write G g in
      case gatt_enumerate G g of
        (Inl e, g) \<Rightarrow> (Inl e, g)
      | (Inr svcs, g) \<Rightarrow>
          (case build_db G g svcs frag of
             (Inl e, g) \<Rightarrow> (Inl e, g)
           | (Inr accs, g) \<Rightarrow>
               (case iid_of svcs PAIR_VERIFY_CHAR of
                  Inl e \<Rightarrow> (Inl e, g)
                | Inr verify_iid \<Rightarrow>
                    (case ble_pair_verify P G g PAIR_VERIFY_CHAR verify_iid keypair pairing frag eph of
                       None \<Rightarrow> (Inl Disconnected, g)
                     | Some (Inl e, g) \<Rightarrow> (Inl e, g)
                     | Some (Inr (session, bkey), g) \<Rightarrow>
                         let (g, session) = request_broadcast_key P G g session svcs frag;
                             (session_generation, g) = gatt_generation G g in
                         (case iid_of svcs PAIRINGS_CHAR of
                            Inl e \<Rightarrow> (Inl e, g)
                          | Inr pairings_iid \<Rightarrow>
                              (Inr (BleAccessory_new g
                                 \<lparr>sx_session = session, sx_session_generation = session_generation,
                                  sx_keypair = keypair, sx_pairing = pairing, sx_verify_char = PAIR_VERIFY_CHAR,
                                  sx_verify_iid = verify_iid, sx_pairings_char = PAIRINGS_CHAR,
                                  sx_pairings_iid = pairings_iid, sx_broadcast_key = bkey,
                                  sx_initial_gsn = initial_gsn\<rparr> frag svcs accs), g))))))"

record 'g Paired =
  pd_accessory :: "'g BleAccessory"
  pd_pairing :: AccessoryPairing
  pd_broadcast :: BleBroadcastState

definition ble_pair ::
    "prims \<Rightarrow> ('g, 'x) gatt_scheme \<Rightarrow> 'g \<Rightarrow> ControllerKeypair \<Rightarrow> str \<Rightarrow> bytes \<Rightarrow> bytes \<Rightarrow> (BleError + 'g Paired) \<times> 'g" where
  "ble_pair P G g keypair setup_code rng_a eph =
     (let (frag, g) = gatt_max_write G g in
      case gatt_instance_id G g PAIR_SETUP_CHAR of
        (Inl e, g) \<Rightarrow> (Inl e, g)
      | (Inr setup_iid, g) \<Rightarrow>
          (case ble_pair_setup P G g PAIR_SETUP_CHAR setup_iid setup_code keypair frag rng_a of
             None \<Rightarrow> (Inl Disconnected, g)
           | Some (Inl e, g) \<Rightarrow> (Inl e, g)
           | Some (Inr pairing, g) \<Rightarrow>
               let (r, g) = verify_and_build P G g keypair pairing 0 eph in
               (and_then r (\<lambda>a. Inr \<lparr>pd_accessory = a, pd_pairing = pairing, pd_broadcast = broadcast_state a\<rparr>), g)))"

definition ble_connect ::
    "prims \<Rightarrow> ('g, 'x) gatt_scheme \<Rightarrow> 'g \<Rightarrow> ControllerKeypair \<Rightarrow> AccessoryPairing \<Rightarrow> BleBroadcastState option \<Rightarrow>
     bytes \<Rightarrow> (BleError + 'g BleAccessory) \<times> 'g" where
  "ble_connect P G g keypair pairing broadcast eph =
     verify_and_build P G g keypair pairing (case broadcast of None \<Rightarrow> 0 | Some b \<Rightarrow> bb_gsn b) eph"

end
