(* ===== verification/Ble_Peer.thy ===== *)
theory Ble_Peer
  imports Ble_Session
begin

text \<open>
  The far end of a Bluetooth link, specified by a handler of requests: it reassembles what it
  receives, fragments what the handler answers, and with a session opens and seals every fragment.
  The session that a handler offers with its answer (at the end of Pair Verify) starts when the
  answer has been read.  The link may drop: the \<open>peer_drops\<close> say after how many operations, one by one.
  A drop is reported as \<open>Disconnected\<close>, loses the session and what was under way, and advances the
  link generation, as \<open>GattConnection::generation\<close> of \<open>hap-ble/src/gatt.rs\<close> documents.  The request loop
  of \<open>hap-ble/src/pdu.rs\<close>, plain or encrypted, then is a call of that handler, or a dropped link.
\<close>

section \<open>The link\<close>

text \<open>A handler gets the characteristic, the opcode, the instance id and the body, and gives a status,
  a body and possibly a session.\<close>

type_synonym 'a ble_handler =
  "'a \<Rightarrow> str \<Rightarrow> u8 \<Rightarrow> u16 \<Rightarrow> bytes \<Rightarrow> (u8 \<times> bytes \<times> BleSession option) \<times> 'a"

record 'a ble_peer =
  peer_session :: "BleSession option"
  peer_next :: "BleSession option"
  peer_generation :: u64
  peer_drops :: "nat list"
  peer_in :: "bytes list"
  peer_out :: "bytes list"
  peer_app :: 'a

definition peer_answer ::
    "'a ble_handler \<Rightarrow> nat \<Rightarrow> str \<Rightarrow> 'a \<times> BleSession option \<Rightarrow> bytes list \<Rightarrow> bytes list \<times> 'a \<times> BleSession option" where
  "peer_answer h n char_uuid a frags =
     (case reassemble frags of
        Inr (ctl # op # tid # lo # hi # rest) \<Rightarrow>
          let body = (case rest of l # m # b \<Rightarrow> take (unat (u16_from_le l m)) b | _ \<Rightarrow> []);
              ((status, body, next), app) = h (fst a) char_uuid op (u16_from_le lo hi) body in
          (response_frags n (response_pdu tid status body), app, next)
      | _ \<Rightarrow> ([], a))"

text \<open>One operation of the link: \<open>Inl\<close> if it drops.\<close>

definition peer_tick :: "'a ble_peer \<Rightarrow> 'a ble_peer + 'a ble_peer" where
  "peer_tick p =
     (case peer_drops p of
        [] \<Rightarrow> Inr p
      | 0 # ds \<Rightarrow>
          Inl (p\<lparr>peer_session := None, peer_next := None, peer_generation := peer_generation p + 1,
                 peer_drops := ds, peer_in := [], peer_out := []\<rparr>)
      | Suc k # ds \<Rightarrow> Inr (p\<lparr>peer_drops := k # ds\<rparr>))"

definition peer_receive :: "prims \<Rightarrow> 'a ble_peer \<Rightarrow> bytes \<Rightarrow> (BleError + unit) \<times> 'a ble_peer" where
  "peer_receive P p data =
     (case peer_session p of
        None \<Rightarrow> (Inr (), p\<lparr>peer_in := peer_in p @ [data]\<rparr>)
      | Some s \<Rightarrow>
          (case ble_open P s data of
             (Inl e, _) \<Rightarrow> (Inl (Backend (ascii ''refused'')), p)
           | (Inr f, s) \<Rightarrow> (Inr (), p\<lparr>peer_session := Some s, peer_in := peer_in p @ [f]\<rparr>)))"

definition peer_send :: "prims \<Rightarrow> 'a ble_handler \<Rightarrow> nat \<Rightarrow> 'a ble_peer \<Rightarrow> str \<Rightarrow> (BleError + bytes) \<times> 'a ble_peer" where
  "peer_send P h n p char_uuid =
     (let (out, app, next) =
            (if peer_out p = [] then peer_answer h n char_uuid (peer_app p, peer_next p) (peer_in p)
             else (peer_out p, peer_app p, peer_next p)) in
      case out of
        [] \<Rightarrow> (Inl (Backend (ascii ''refused'')), p)
      | f # fs \<Rightarrow>
          let p = p\<lparr>peer_in := [], peer_out := fs, peer_app := app\<rparr> in
          (case peer_session p of
             None \<Rightarrow>
               (Inr f, if fs = [] then p\<lparr>peer_session := next, peer_next := None\<rparr> else p\<lparr>peer_next := next\<rparr>)
           | Some s \<Rightarrow> let (r, s) = ble_seal P s f in (r, p\<lparr>peer_session := Some s\<rparr>)))"

definition peer_write :: "prims \<Rightarrow> 'a ble_peer \<Rightarrow> str \<Rightarrow> bytes \<Rightarrow> (BleError + unit) \<times> 'a ble_peer" where
  "peer_write P p char_uuid data =
     (case peer_tick p of Inl p \<Rightarrow> (Inl Disconnected, p) | Inr p \<Rightarrow> peer_receive P p data)"

definition peer_read :: "prims \<Rightarrow> 'a ble_handler \<Rightarrow> nat \<Rightarrow> 'a ble_peer \<Rightarrow> str \<Rightarrow> (BleError + bytes) \<times> 'a ble_peer" where
  "peer_read P h n p char_uuid =
     (case peer_tick p of Inl p \<Rightarrow> (Inl Disconnected, p) | Inr p \<Rightarrow> peer_send P h n p char_uuid)"

definition peer_gatt :: "prims \<Rightarrow> 'a ble_handler \<Rightarrow> nat \<Rightarrow> GattService list \<Rightarrow> 'a ble_peer gatt" where
  "peer_gatt P h n svcs =
     \<lparr>gatt_write = peer_write P, gatt_read = peer_read P h n,
      gatt_instance_id = (\<lambda>p u. (Inl AccessoryNotFound, p)), gatt_enumerate = (\<lambda>p. (Inr svcs, p)),
      gatt_max_write = (\<lambda>p. (n, p)), gatt_generation = (\<lambda>p. (peer_generation p, p))\<rparr>"

lemma peer_gatt_simps [simp]:
  "gatt_write (peer_gatt P h n svcs) = peer_write P" "gatt_read (peer_gatt P h n svcs) = peer_read P h n"
  "gatt_enumerate (peer_gatt P h n svcs) p = (Inr svcs, p)" "gatt_max_write (peer_gatt P h n svcs) p = (n, p)"
  "gatt_generation (peer_gatt P h n svcs) p = (peer_generation p, p)"
  by (simp_all add: peer_gatt_def)

section \<open>What each end knows of the other\<close>

text \<open>The generation of the link; it does not wrap around before all drops have happened.\<close>

definition at_generation :: "u64 \<Rightarrow> 'a ble_peer \<Rightarrow> bool" where
  "at_generation gen p \<longleftrightarrow> peer_generation p = gen \<and> unat gen + length (peer_drops p) < 2 ^ 64"

abbreviation lossy :: "'a ble_peer \<Rightarrow> bool" where
  "lossy p \<equiv> peer_drops p \<noteq> []"

definition plain_view ::
    "u64 \<Rightarrow> 'a ble_peer \<Rightarrow> bytes list \<Rightarrow> bytes list \<Rightarrow> 'a \<times> BleSession option \<Rightarrow> bool" where
  "plain_view gen p rs ps a \<longleftrightarrow> at_generation gen p \<and>
     peer_session p = None \<and> peer_next p = snd a \<and> peer_in p = rs \<and> peer_out p = ps \<and> peer_app p = fst a"

definition plain_answered :: "u64 \<Rightarrow> 'a \<times> BleSession option \<Rightarrow> 'a ble_peer \<Rightarrow> bool" where
  "plain_answered gen a p \<longleftrightarrow> at_generation gen p \<and>
     peer_session p = snd a \<and> peer_next p = None \<and> peer_in p = [] \<and> peer_out p = [] \<and> peer_app p = fst a"

definition link_lost :: "u64 \<Rightarrow> 'a \<times> BleSession option \<Rightarrow> 'a ble_peer \<Rightarrow> bool" where
  "link_lost gen a p \<longleftrightarrow> gen < gen + 1 \<and> plain_view (gen + 1) p [] [] (fst a, None)"

definition sealed_view ::
    "prims \<Rightarrow> u64 \<Rightarrow> 'a ble_peer \<times> BleSession \<Rightarrow> bytes list \<Rightarrow> bytes list \<Rightarrow> 'a \<times> BleSession option \<Rightarrow> bool" where
  "sealed_view P gen st rs ps a \<longleftrightarrow> aead_laws P \<and> at_generation gen (fst st) \<and>
     (\<exists>s. peer_session (fst st) = Some s \<and> ble_sync (snd st) s \<and> ble_sync s (snd st)) \<and>
     peer_next (fst st) = None \<and> peer_in (fst st) = rs \<and> peer_out (fst st) = ps \<and> peer_app (fst st) = fst a"

lemma at_generation_simps [simp]:
  "at_generation gen (p\<lparr>peer_session := s\<rparr>) = at_generation gen p"
  "at_generation gen (p\<lparr>peer_next := s\<rparr>) = at_generation gen p"
  "at_generation gen (p\<lparr>peer_in := fs\<rparr>) = at_generation gen p"
  "at_generation gen (p\<lparr>peer_out := fs\<rparr>) = at_generation gen p"
  "at_generation gen (p\<lparr>peer_app := a\<rparr>) = at_generation gen p"
  by (simp_all add: at_generation_def)

lemma peer_tick_cases [consumes 1, case_names up down]:
  assumes "at_generation gen p"
  obtains ds where "peer_tick p = Inr (p\<lparr>peer_drops := ds\<rparr>)" "at_generation gen (p\<lparr>peer_drops := ds\<rparr>)"
      "ds \<noteq> [] \<longrightarrow> lossy p"
    | p' where "peer_tick p = Inl p'" "link_lost gen (peer_app p, x) p'" "lossy p"
proof (cases "peer_drops p")
  case Nil
  then have "peer_tick p = Inr (p\<lparr>peer_drops := []\<rparr>)" by (simp add: peer_tick_def)
  then show thesis using that(1) [of "[]"] assms Nil by (simp add: at_generation_def)
next
  case (Cons d ds)
  show thesis
  proof (cases d)
    case 0
    have "unat gen + 1 < 2 ^ 64" using assms Cons by (simp add: at_generation_def)
    then have "unat (gen + 1) = unat gen + 1" by (simp add: unat_word_ariths)
    then show thesis
      using that(2) assms Cons 0
      by (simp add: peer_tick_def link_lost_def plain_view_def at_generation_def word_less_nat_alt)
  next
    case (Suc k)
    then show thesis using that(1) [of "k # ds"] assms Cons by (simp add: peer_tick_def at_generation_def)
  qed
qed

interpretation plain: frag_link "\<lambda>g. peer_write P g u" "\<lambda>g. peer_read P h n g u"
    "plain_view gen" "plain_answered gen" "link_lost gen" lossy "peer_answer h n u" "\<lambda>f. length f \<le> aead_max"
  for P :: prims and h :: "'a ble_handler" and n :: nat and u :: str and gen :: u64
proof
  fix p :: "'a ble_peer" and rs a and f :: bytes
  assume "plain_view gen p rs [] a"
  then have v: "at_generation gen p" "plain_view gen p rs [] a" by (auto simp: plain_view_def)
  from v(1) show "link_step lossy p (peer_write P p u f) () (\<lambda>p'. plain_view gen p' (rs @ [f]) [] a) (link_lost gen a)"
    by (cases rule: peer_tick_cases [where x = "snd a"])
      (use v(2) in \<open>auto simp: Let_def peer_write_def peer_receive_def plain_view_def\<close>)
next
  fix p :: "'a ble_peer" and rs a a' and f :: bytes and fs
  assume "plain_view gen p rs [] a" and ans: "peer_answer h n u a rs = (f # fs, a')"
  then have v: "at_generation gen p" "plain_view gen p rs [] a" by (auto simp: plain_view_def)
  have a: "(peer_app p, peer_next p) = a" using v(2) by (simp add: plain_view_def prod_eq_iff)
  from v(1) show "link_step lossy p (peer_read P h n p u) f
      (\<lambda>p'. if fs = [] then plain_answered gen a' p' else plain_view gen p' [] fs a') (link_lost gen a)"
    by (cases rule: peer_tick_cases [where x = "snd a"])
      (use v(2) a ans in \<open>auto simp: Let_def peer_read_def peer_send_def plain_view_def plain_answered_def
         case_prod_beta\<close>)
next
  fix p :: "'a ble_peer" and a and f :: bytes and fs
  assume "plain_view gen p [] (f # fs) a"
  then have v: "at_generation gen p" "plain_view gen p [] (f # fs) a" by (auto simp: plain_view_def)
  from v(1) show "link_step lossy p (peer_read P h n p u) f
      (\<lambda>p'. if fs = [] then plain_answered gen a p' else plain_view gen p' [] fs a) (link_lost gen a)"
    by (cases rule: peer_tick_cases [where x = "snd a"])
      (use v(2) in \<open>auto simp: Let_def peer_read_def peer_send_def plain_view_def plain_answered_def
         case_prod_beta\<close>)
qed

text \<open>Sealing and opening one fragment, in either direction, keeps the two sessions in step.\<close>

lemma sealed_view_facts:
  assumes "sealed_view P gen st rs ps a"
  obtains s where "at_generation gen (fst st)" "peer_session (fst st) = Some s"
    and "length f \<le> aead_max \<Longrightarrow>
      \<exists>ct s' t'. ble_seal P (snd st) f = (Inr ct, t') \<and> ble_open P s ct = (Inr f, s') \<and> ble_sync t' s' \<and> ble_sync s' t'"
    and "length f \<le> aead_max \<Longrightarrow>
      \<exists>ct s' t'. ble_seal P s f = (Inr ct, s') \<and> ble_open P (snd st) ct = (Inr f, t') \<and> ble_sync t' s' \<and> ble_sync s' t'"
proof -
  obtain s where s: "peer_session (fst st) = Some s" "ble_sync (snd st) s" "ble_sync s (snd st)" "aead_laws P"
      "at_generation gen (fst st)"
    using assms by (auto simp: sealed_view_def)
  show thesis
  proof (rule that [OF s(5,1)])
    assume "length f \<le> aead_max"
    from ble_seal_open [OF s(4,2) this]
    show "\<exists>ct s' t'. ble_seal P (snd st) f = (Inr ct, t') \<and> ble_open P s ct = (Inr f, s') \<and> ble_sync t' s' \<and> ble_sync s' t'"
      using s(2,3) by (auto simp: ble_sync_def)
  next
    assume "length f \<le> aead_max"
    from ble_seal_open [OF s(4,3) this]
    show "\<exists>ct s' t'. ble_seal P s f = (Inr ct, s') \<and> ble_open P (snd st) ct = (Inr f, t') \<and> ble_sync t' s' \<and> ble_sync s' t'"
      using s(2,3) by (auto simp: ble_sync_def)
  qed
qed

abbreviation sealed_lost :: "u64 \<Rightarrow> 'a \<times> BleSession option \<Rightarrow> 'a ble_peer \<times> BleSession \<Rightarrow> bool" where
  "sealed_lost gen a st \<equiv> link_lost gen a (fst st)"

interpretation sealed: frag_link "sealed_write P (peer_gatt P h n svcs) u" "sealed_read P (peer_gatt P h n svcs) u"
    "sealed_view P gen" "\<lambda>a st. sealed_view P gen st [] [] a" "sealed_lost gen" "\<lambda>st. lossy (fst st)"
    "peer_answer h n u" "\<lambda>f. length f \<le> aead_max"
  for P :: prims and h :: "'a ble_handler" and n :: nat and svcs :: "GattService list" and u :: str and gen :: u64
proof
  fix st :: "'a ble_peer \<times> BleSession" and rs a and f :: bytes
  assume v: "sealed_view P gen st rs [] a" and f: "length f \<le> aead_max"
  obtain s where s: "at_generation gen (fst st)" "peer_session (fst st) = Some s"
      "\<exists>ct s' t'. ble_seal P (snd st) f = (Inr ct, t') \<and> ble_open P s ct = (Inr f, s') \<and> ble_sync t' s' \<and> ble_sync s' t'"
    by (rule sealed_view_facts [OF v, of f]) (use f in blast)
  from s(1) show "link_step (\<lambda>st. lossy (fst st)) st (sealed_write P (peer_gatt P h n svcs) u st f) ()
      (\<lambda>st'. sealed_view P gen st' (rs @ [f]) [] a) (sealed_lost gen a)"
    by (cases rule: peer_tick_cases [where x = "snd a"])
      (use v s(2,3) in \<open>auto simp: Let_def sealed_write_def peer_write_def peer_receive_def sealed_view_def\<close>)
next
  fix st :: "'a ble_peer \<times> BleSession" and rs a a' and f :: bytes and fs
  assume v: "sealed_view P gen st rs [] a" and ans: "peer_answer h n u a rs = (f # fs, a')"
    and f: "list_all (\<lambda>f. length f \<le> aead_max) (f # fs)"
  have a: "peer_answer h n u (peer_app (fst st), x) rs = (f # fs, a')" for x
    using v ans by (auto simp: sealed_view_def peer_answer_def split: sum.splits list.splits prod.splits)
  obtain s where s: "at_generation gen (fst st)" "peer_session (fst st) = Some s"
      "\<exists>ct s' t'. ble_seal P s f = (Inr ct, s') \<and> ble_open P (snd st) ct = (Inr f, t') \<and> ble_sync t' s' \<and> ble_sync s' t'"
    by (rule sealed_view_facts [OF v, of f]) (use f in auto)
  from s(1) show "link_step (\<lambda>st. lossy (fst st)) st (sealed_read P (peer_gatt P h n svcs) u st) f
      (\<lambda>st'. if fs = [] then sealed_view P gen st' [] [] a' else sealed_view P gen st' [] fs a') (sealed_lost gen a)"
    by (cases rule: peer_tick_cases [where x = "snd a"])
      (use v s(2,3) a in \<open>auto simp: Let_def sealed_read_def peer_read_def peer_send_def sealed_view_def case_prod_beta\<close>)
next
  fix st :: "'a ble_peer \<times> BleSession" and a and f :: bytes and fs
  assume v: "sealed_view P gen st [] (f # fs) a" and f: "list_all (\<lambda>f. length f \<le> aead_max) (f # fs)"
  obtain s where s: "at_generation gen (fst st)" "peer_session (fst st) = Some s"
      "\<exists>ct s' t'. ble_seal P s f = (Inr ct, s') \<and> ble_open P (snd st) ct = (Inr f, t') \<and> ble_sync t' s' \<and> ble_sync s' t'"
    by (rule sealed_view_facts [OF v, of f]) (use f in auto)
  from s(1) show "link_step (\<lambda>st. lossy (fst st)) st (sealed_read P (peer_gatt P h n svcs) u st) f
      (\<lambda>st'. if fs = [] then sealed_view P gen st' [] [] a else sealed_view P gen st' [] fs a) (sealed_lost gen a)"
    by (cases rule: peer_tick_cases [where x = "snd a"])
      (use v s(2,3) in \<open>auto simp: Let_def sealed_read_def peer_read_def peer_send_def sealed_view_def case_prod_beta\<close>)
qed

section \<open>Requests\<close>

lemma length_chunks_le: "length xs \<le> m * k \<Longrightarrow> length (chunks k xs) \<le> m"
proof (induction k xs arbitrary: m rule: chunks.induct)
  case (1 k xs)
  show ?case
  proof (cases "k = 0 \<or> xs = []")
    case True
    then show ?thesis by (auto simp: chunks.simps)
  next
    case False
    then obtain j where "m = Suc j" using 1(2) by (cases m) auto
    then show ?thesis using False 1 by (simp add: chunks.simps [of k xs])
  qed
qed

definition peer_ok :: "nat \<Rightarrow> bytes \<Rightarrow> bool" where
  "peer_ok n rbody \<longleftrightarrow> 5 \<le> n \<and> n \<le> aead_max \<and> length rbody < 65536 \<and> length rbody + 5 \<le> 63 * (n - 2)"

lemma peer_answer_request:
  assumes "length body < 65536"
  shows "peer_answer h n u a (fragment (ble_encode_request op tid iid body) k) =
     (let ((status, rbody, nx), app) = h (fst a) u (ble_opcode_u8 op) iid body in
      (response_frags n (response_pdu tid status rbody), app, nx))"
proof -
  obtain lo hi where "u16_to_le iid = [lo, hi]" "u16_from_le lo hi = iid" using u16_to_le_Cons by blast
  moreover obtain x y where xy: "u16_to_le (u16_sat (length body)) = [x, y]" "u16_from_le x y = u16_sat (length body)"
    using u16_to_le_Cons by blast
  moreover have "unat (u16_from_le x y) = length body" using xy(2) unat_u16_sat [OF assms] by simp
  ultimately show ?thesis
    by (simp add: peer_answer_def reassemble_fragment ble_encode_request_def del: unat_u16_from_le)
qed

lemma peer_response_ok:
  assumes "peer_ok n rbody" and "p = response_pdu tid status rbody"
  obtains f fs where "response_frags n p = f # fs" and "list_all (\<lambda>f. length f \<le> aead_max) (f # fs)"
    and "length (f # fs) \<le> MAX_RESPONSE_FRAGMENTS" and "append_conts f fs = Inr p"
    and "declared_total f = length p" and "list_all (\<lambda>p. 2 < length p) fs"
    and "decode_response p = Inr \<lparr>br_tid = tid, br_status = status, br_body = rbody\<rparr>"
proof -
  have ok: "length rbody < 65536" "5 \<le> n" "n \<le> aead_max" using assms(1) by (auto simp: peer_ok_def)
  let ?f = "hd (response_frags n p)" and ?fs = "tl (response_frags n p)"
  have split: "response_frags n p = ?f # ?fs" by (simp add: response_frags_def)
  have "length p \<le> length rbody + 5" by (simp add: assms(2) response_pdu_def)
  then have "length (drop n p) \<le> 63 * (n - 2)" using assms(1) by (auto simp: peer_ok_def)
  then have "length ?fs \<le> 63" by (simp add: response_frags_def length_chunks_le)
  moreover have "declared_total ?f = length p"
    using response_pdu_total [OF ok(1,2)] by (simp add: response_frags_def assms(2))
  moreover have "list_all (\<lambda>f. length f \<le> aead_max) (?f # ?fs)"
    using response_frags_facts(3) [OF ok(1,2), of tid status] ok(3) split
    by (auto simp: list_all_iff assms(2))
  moreover have "decode_response p = Inr \<lparr>br_tid = tid, br_status = status, br_body = rbody\<rparr>"
    unfolding assms(2) response_pdu_def by (rule decode_response_encode [OF ok(1)])
  ultimately show ?thesis
    using that [OF split] response_frags_facts(1,2) [OF ok(1,2), of tid status]
    by (simp add: assms(2) MAX_RESPONSE_FRAGMENTS_def)
qed

lemma request_frags_fit:
  assumes "k \<le> aead_max"
  shows "list_all (\<lambda>f. length f \<le> aead_max) (fragment pdu k)"
proof -
  have "max k 3 \<le> aead_max" using assms by (simp add: aead_max_def)
  then show ?thesis using fragment_sizes by (fastforce simp: list_all_iff)
qed

lemma ble_request_peer:
  assumes "plain_view gen p [] [] a" and "k \<le> aead_max" and len: "length body < 65536"
    and "h (fst a) u (ble_opcode_u8 op) iid body = ((status, rbody, nx), app')" and "peer_ok n rbody"
  shows "link_step lossy p (ble_request (peer_gatt P h n svcs) p u op tid iid body k)
      \<lparr>br_tid = tid, br_status = status, br_body = rbody\<rparr> (plain_answered gen (app', nx))
      (\<lambda>p'. link_lost gen a p' \<or> link_lost gen (app', nx) p')"
proof -
  obtain f fs where fs: "response_frags n (response_pdu tid status rbody) = f # fs"
      "list_all (\<lambda>f. length f \<le> aead_max) (f # fs)" "length (f # fs) \<le> MAX_RESPONSE_FRAGMENTS"
      "append_conts f fs = Inr (response_pdu tid status rbody)"
      "declared_total f = length (response_pdu tid status rbody)" "list_all (\<lambda>p. 2 < length p) fs"
      "decode_response (response_pdu tid status rbody) = Inr \<lparr>br_tid = tid, br_status = status, br_body = rbody\<rparr>"
    by (rule peer_response_ok [OF assms(5) refl])
  have "peer_answer h n u a (fragment (ble_encode_request op tid iid body) k) = (f # fs, app', nx)"
    using assms(4) fs(1) by (simp add: peer_answer_request [OF len])
  from plain.exchange_ok [OF assms(1) request_frags_fit [OF assms(2)] this fs(2-7), of P]
  show ?thesis by (simp add: ble_request_def)
qed

lemma request_secure_peer:
  assumes "sealed_view P gen st [] [] a" and "k \<le> aead_max" and len: "length body < 65536"
    and "h (fst a) u (ble_opcode_u8 op) iid body = ((status, rbody, nx), app')" and "peer_ok n rbody"
  shows "link_step (\<lambda>st. lossy (fst st)) st (request_secure P (peer_gatt P h n svcs) (fst st) (snd st) u op tid iid body k)
      \<lparr>br_tid = tid, br_status = status, br_body = rbody\<rparr> (\<lambda>st'. sealed_view P gen st' [] [] (app', nx))
      (\<lambda>st'. sealed_lost gen a st' \<or> sealed_lost gen (app', nx) st')"
proof -
  obtain f fs where fs: "response_frags n (response_pdu tid status rbody) = f # fs"
      "list_all (\<lambda>f. length f \<le> aead_max) (f # fs)" "length (f # fs) \<le> MAX_RESPONSE_FRAGMENTS"
      "append_conts f fs = Inr (response_pdu tid status rbody)"
      "declared_total f = length (response_pdu tid status rbody)" "list_all (\<lambda>p. 2 < length p) fs"
      "decode_response (response_pdu tid status rbody) = Inr \<lparr>br_tid = tid, br_status = status, br_body = rbody\<rparr>"
    by (rule peer_response_ok [OF assms(5) refl])
  have k: "max (k - 16) 1 \<le> aead_max" using assms(2) by (simp add: aead_max_def)
  have "peer_answer h n u a (fragment (ble_encode_request op tid iid body) (max (k - 16) 1)) = (f # fs, app', nx)"
    using assms(4) fs(1) by (simp add: peer_answer_request [OF len])
  from sealed.exchange_ok [OF assms(1) request_frags_fit [OF k] this fs(2-7)]
  show ?thesis by (simp add: request_secure_def)
qed

end
