(* ===== verification/Ble_Link.thy ===== *)
theory Ble_Link
  imports Ble_Accessory Ble_Peer Pairing_Interop
begin

text \<open>
  A Bluetooth accessory over a link that drops at any moment, and the session of the accessory handle
  (\<open>hap-ble/src/accessory.rs\<close>) with it.  The accessory answers Pair Verify with the handlers of
  \<open>hap-thread-dut\<close> and keeps the raw value of every characteristic.  Pair Verify over the link ends with
  both sessions in step, or with a dropped link; a request of the handle, which renews the session
  and retries, is answered, or the link has dropped and the handle can see it.
\<close>

section \<open>The accessory\<close>

record ble_conf =
  cf_keypair :: ControllerKeypair
  cf_id :: str
  cf_controller :: "str \<times> bytes"
  cf_eph :: bytes
  cf_signature :: "u16 \<Rightarrow> bytes"

type_synonym raw_store = "u16 \<Rightarrow> bytes option"

record ble_app =
  ap_verify :: "VerifyInProgress option"
  ap_values :: raw_store

definition ble_mirror :: "AccessorySession \<Rightarrow> BleSession" where
  "ble_mirror s = BleSession_new \<lparr>read_key = as_write_key s, write_key = as_read_key s\<rparr>"

definition REFUSED :: u8 where "REFUSED = 0x05"

definition verify_request ::
    "prims \<Rightarrow> ble_conf \<Rightarrow> ble_app \<Rightarrow> bytes \<Rightarrow> (u8 \<times> bytes \<times> BleSession option) \<times> ble_app" where
  "verify_request P C app tlv =
     (case handle_m1 P (cf_keypair C) (cf_id C) (cf_eph C) tlv of
        Inr (m2, progress) \<Rightarrow> ((0, enc_items [(BLE_VALUE, m2)], None), app\<lparr>ap_verify := Some progress\<rparr>)
      | Inl _ \<Rightarrow>
          (case ap_verify app of
             None \<Rightarrow> ((REFUSED, [], None), app)
           | Some progress \<Rightarrow>
               (case handle_m3 P progress (fst (cf_controller C)) (snd (cf_controller C)) tlv of
                  Inl _ \<Rightarrow> ((REFUSED, [], None), app)
                | Inr (m4, session) \<Rightarrow>
                    ((0, enc_items [(BLE_VALUE, m4)], map_option ble_mirror session), app\<lparr>ap_verify := None\<rparr>))))"

definition app_handle :: "prims \<Rightarrow> ble_conf \<Rightarrow> ble_app ble_handler" where
  "app_handle P C app char_uuid op iid body =
     (if op = ble_opcode_u8 CharacteristicWrite then
        (case value_param body of
           Inl _ \<Rightarrow> ((REFUSED, [], None), app)
         | Inr v \<Rightarrow>
             if char_uuid = PAIR_VERIFY_CHAR then verify_request P C app v
             else if ap_values app iid = None then ((REFUSED, [], None), app)
             else ((0, [], None), app\<lparr>ap_values := (ap_values app)(iid \<mapsto> v)\<rparr>))
      else if op = ble_opcode_u8 CharacteristicRead then
        (case ap_values app iid of
           None \<Rightarrow> ((REFUSED, [], None), app)
         | Some v \<Rightarrow> ((0, enc_items [(BLE_VALUE, v)], None), app))
      else if op = ble_opcode_u8 CharacteristicSignatureRead then ((0, cf_signature C iid, None), app)
      else ((0, [], None), app))"

lemma value_param_body [simp]:
  "value_param (encode_write_body v) = Inr v" "value_param (enc_items [(BLE_VALUE, v)]) = Inr v"
  "value_param [] = Inl (MalformedPdu ''missing value param (0x01)'')"
proof -
  show "value_param (encode_write_body v) = Inr v" "value_param (enc_items [(BLE_VALUE, v)]) = Inr v"
    by (simp_all add: value_param_def encode_write_body_def tlv_build ble_params SEPARATOR_def)
  have "Tlv8Map_parse [] = Inr (from_items [])" using Tlv8Map_parse_enc_items [of "[]"] by (simp add: enc_items.simps)
  then show "value_param [] = Inl (MalformedPdu ''missing value param (0x01)'')" by (simp add: value_param_def)
qed

lemma app_handle_simps:
  "app_handle P C app u 0x02 iid (encode_write_body v) =
     (if u = PAIR_VERIFY_CHAR then verify_request P C app v
      else if ap_values app iid = None then ((REFUSED, [], None), app)
      else ((0, [], None), app\<lparr>ap_values := (ap_values app)(iid \<mapsto> v)\<rparr>))"
  "app_handle P C app u 0x03 iid [] =
     (case ap_values app iid of
        None \<Rightarrow> ((REFUSED, [], None), app)
      | Some v \<Rightarrow> ((0, enc_items [(BLE_VALUE, v)], None), app))"
  "app_handle P C app u 0x01 iid [] = ((0, cf_signature C iid, None), app)"
  "app_handle P C app u 0x08 iid body = ((0, [], None), app)"
  by (simp_all add: app_handle_def)

section \<open>Sizes\<close>

text \<open>Identifiers are at most as long as a UUID, values at most 512 bytes, and an operation of the link
  carries between 20 and 512 bytes, the bounds \<open>max_write\<close> clamps to.\<close>

definition link_ok :: "prims \<Rightarrow> ble_conf \<Rightarrow> ControllerKeypair \<Rightarrow> nat \<Rightarrow> bool" where
  "link_ok P C kp n \<longleftrightarrow>
     aead_laws P \<and> sig_laws P \<and> dh_laws P \<and> kdf_laws P \<and> 20 \<le> n \<and> n \<le> 512 \<and>
     length (cf_id C) \<le> 36 \<and> length (kp_id kp) \<le> 36 \<and> cf_controller C = (kp_id kp, ltpk P kp)"

lemma length_one_item: "length (enc_items [(t, v)]) \<le> 2 * length v + 2"
  using length_enc_items_Cons [of t v "[]"] by simp

lemma peer_ok_value: "20 \<le> n \<Longrightarrow> n \<le> 512 \<Longrightarrow> length v \<le> 512 \<Longrightarrow> peer_ok n (enc_items [(BLE_VALUE, v)])"
  using length_one_item [of BLE_VALUE v] by (simp add: peer_ok_def aead_max_def)

lemma peer_ok_Nil [simp]: "20 \<le> n \<Longrightarrow> n \<le> 512 \<Longrightarrow> peer_ok n []"
  by (simp add: peer_ok_def aead_max_def)

lemma write_body_small: "length v \<le> 1000 \<Longrightarrow> length (encode_write_body v) < 65536"
  using length_enc_items_Cons [of RETURN_RESPONSE "[1]" "[(BLE_VALUE, v)]"] length_one_item [of BLE_VALUE v]
  by (simp add: encode_write_body_def tlv_build)

lemma sealed_sub_length:
  assumes "aead_laws P" and "aead_encrypt P k nonce [] (enc_items [(t1, ident), (t2, s)]) = Inr ct"
    and "length ident \<le> 36" and "length s = 64"
  shows "length ct \<le> 220"
proof -
  have "length (enc_items [(t1, ident), (t2, s)]) \<le> 204"
    using length_enc_items_Cons [of t1 ident "[(t2, s)]"] length_one_item [of t2 s] assms(3,4) by simp
  then show ?thesis
    using aead_decrypt_encrypt(2) [OF assms(1,2)] by (simp add: aead_max_def)
qed

lemma handle_m1_length:
  assumes "aead_laws P" "sig_laws P" "dh_laws P" and "length aid \<le> 36"
    and "handle_m1 P akp aid rng m1 = Inr (m2, progress)"
  shows "length m2 \<le> 512"
proof -
  have sig: "length (kp_sign P akp x) = 64" for x using assms(2) by (simp add: sig_laws_def kp_sign_def)
  have pub: "length (x25519_public P rng) = 32" using assms(3) by (simp add: dh_laws_def)
  obtain k nonce x ct where "aead_encrypt P k nonce [] (enc_items [(IDENTIFIER, aid), (SIGNATURE, kp_sign P akp x)]) = Inr ct"
      "m2 = enc_items [(STATE, [STATE_M2]), (PUBLIC_KEY, x25519_public P rng), (ENCRYPTED_DATA, ct)]"
    using assms(5)
    by (auto simp: handle_m1_def result_simps Let_def tlv_build chacha20poly1305_seal_def from_secret_def)
  then show ?thesis
    using sealed_sub_length [OF assms(1) _ assms(4) sig]
      length_enc_items_Cons [of STATE "[STATE_M2]" "[(PUBLIC_KEY, x25519_public P rng), (ENCRYPTED_DATA, ct)]"]
      length_enc_items_Cons [of PUBLIC_KEY "x25519_public P rng" "[(ENCRYPTED_DATA, ct)]"]
      length_one_item [of ENCRYPTED_DATA ct] pub
    by fastforce
qed

lemma pv_handle_m3_length:
  assumes "aead_laws P" "sig_laws P" and "length (pv_controller_id c) \<le> 36"
    and "pv_handle P c m2 = (Inr (Send m3), c')"
  shows "length m3 \<le> 512"
proof -
  have sig: "length (ed25519_sign P q x) = 64" for q x using assms(2) by (simp add: sig_laws_def)
  obtain k nonce q x ct where "aead_encrypt P k nonce [] (enc_items [(IDENTIFIER, pv_controller_id c), (SIGNATURE, ed25519_sign P q x)]) = Inr ct"
      "m3 = enc_items [(STATE, [STATE_M3]), (ENCRYPTED_DATA, ct)]"
    using assms(4)
    by (auto simp: pv_handle_defs pv_m2_values_def build_m3_def result_simps Let_def tlv_build
        split: PairVerifyState.splits sum.splits if_splits)
  then show ?thesis
    using sealed_sub_length [OF assms(1) _ assms(3) sig]
      length_enc_items_Cons [of STATE "[STATE_M3]" "[(ENCRYPTED_DATA, ct)]"] length_one_item [of ENCRYPTED_DATA ct]
    by fastforce
qed

section \<open>Pair Verify over the link\<close>

abbreviation app_gatt :: "prims \<Rightarrow> ble_conf \<Rightarrow> nat \<Rightarrow> GattService list \<Rightarrow> ble_app ble_peer gatt" where
  "app_gatt P C n svcs \<equiv> peer_gatt P (app_handle P C) n svcs"

abbreviation stored :: "ble_app ble_peer \<Rightarrow> raw_store" where
  "stored p \<equiv> ap_values (peer_app p)"

text \<open>Nothing under way on a link without a session, and with one.\<close>

definition idle_at :: "u64 \<Rightarrow> 'a ble_peer \<Rightarrow> bool" where
  "idle_at gen p \<longleftrightarrow> plain_view gen p [] [] (peer_app p, None)"

definition secure_at :: "prims \<Rightarrow> u64 \<Rightarrow> 'a ble_peer \<Rightarrow> BleSession \<Rightarrow> bool" where
  "secure_at P gen p session \<longleftrightarrow> sealed_view P gen (p, session) [] [] (peer_app p, None)"

definition dropped_at :: "u64 \<Rightarrow> 'a ble_peer \<Rightarrow> bool" where
  "dropped_at gen p \<longleftrightarrow> gen < gen + 1 \<and> idle_at (gen + 1) p"

lemma link_lost_iff: "link_lost gen a p \<longleftrightarrow> dropped_at gen p \<and> peer_app p = fst a"
  by (auto simp: link_lost_def dropped_at_def idle_at_def plain_view_def)

lemma plain_answered_iff:
  "plain_answered gen (app, None) p \<longleftrightarrow> idle_at gen p \<and> peer_app p = app"
  by (auto simp: plain_answered_def idle_at_def plain_view_def)

lemma sealed_view_iff: "sealed_view P gen (p, session) [] [] a \<longleftrightarrow> secure_at P gen p session \<and> peer_app p = fst a"
  by (auto simp: secure_at_def sealed_view_def)

lemma plain_answered_secure:
  assumes "aead_laws P" and "plain_answered gen (app, Some (ble_mirror acc)) p"
    and "acc = AccessorySession_new (read_key keys) (write_key keys) ek"
  shows "secure_at P gen p (BleSession_new keys)" and "peer_app p = app"
  using assms
  by (simp_all add: plain_answered_def secure_at_def sealed_view_def ble_mirror_def ble_sync_def BleSession_new_def
      AccessorySession_new_def)

lemma verify_exchange:
  assumes ok: "link_ok P C kp n" "k \<le> 512" and idle: "idle_at gen p" and "length tlv \<le> 512"
    and req: "verify_request P C (peer_app p) tlv = ((0, enc_items [(BLE_VALUE, reply)], nx), app')"
    and "length reply \<le> 512" and "ap_values app' = stored p"
  shows "link_step lossy p (ble_exchange (app_gatt P C n svcs) p PAIR_VERIFY_CHAR tid iid tlv k) reply
      (plain_answered gen (app', nx)) (\<lambda>p'. dropped_at gen p' \<and> stored p' = stored p)"
proof -
  have n: "20 \<le> n" "n \<le> 512" using ok(1) by (auto simp: link_ok_def)
  have k: "k \<le> aead_max" using ok(2) by (simp add: aead_max_def)
  have len: "length (encode_write_body tlv) < 65536" by (rule write_body_small) (use assms(4) in simp)
  have "link_step lossy p (ble_request (app_gatt P C n svcs) p PAIR_VERIFY_CHAR CharacteristicWrite tid iid
        (encode_write_body tlv) k)
      \<lparr>br_tid = tid, br_status = 0, br_body = enc_items [(BLE_VALUE, reply)]\<rparr> (plain_answered gen (app', nx))
      (\<lambda>p'. link_lost gen (peer_app p, None) p' \<or> link_lost gen (app', nx) p')"
    by (rule ble_request_peer [OF idle [unfolded idle_at_def] k len _ peer_ok_value [OF n assms(6)]])
      (simp add: app_handle_simps req)
  then show ?thesis
    by (cases rule: link_step_cases) (use assms(7) in \<open>auto simp: ble_exchange_def link_lost_iff\<close>)
qed

lemma handle_m1_m3:
  assumes "handle_m3 P progress cid pk m = Inr z"
  shows "\<exists>e. handle_m1 P akp aid rng m = Inl e"
proof (cases "handle_m1 P akp aid rng m")
  case (Inr z')
  then have False
    using assms
    by (auto simp: handle_m1_def handle_m3_def dut_expect_state_def result_simps tlv_types split: if_splits)
  then show ?thesis ..
qed simp

lemma broadcast_key_ok:
  assumes "kdf_laws P" and "event_key P c = Inr ek"
  shows "\<exists>b. broadcast_key P c pk = Inr b"
  using assms(2) hkdf_key [OF assms(1)]
  by (fastforce simp: event_key_def broadcast_key_def BroadcastKey_derive_def result_simps)

lemma ble_pair_verify_link:
  assumes ok: "link_ok P C kp n" "k \<le> 512" and idle: "idle_at gen p"
  shows "(\<exists>session bkey p'. ble_pair_verify P (app_gatt P C n svcs) p PAIR_VERIFY_CHAR iid kp
            \<lparr>pairing_id = cf_id C, acc_ltpk = ltpk P (cf_keypair C)\<rparr> k eph = Some (Inr (session, bkey), p') \<and>
          secure_at P gen p' session \<and> stored p' = stored p \<and> (lossy p' \<longrightarrow> lossy p)) \<or>
         (\<exists>p'. ble_pair_verify P (app_gatt P C n svcs) p PAIR_VERIFY_CHAR iid kp
            \<lparr>pairing_id = cf_id C, acc_ltpk = ltpk P (cf_keypair C)\<rparr> k eph = Some (Inl Disconnected, p') \<and>
          dropped_at gen p' \<and> stored p' = stored p \<and> lossy p)"
proof -
  let ?G = "app_gatt P C n svcs" and ?X = "tid_exchange (app_gatt P C n svcs) PAIR_VERIFY_CHAR iid k"
  let ?acc = "\<lparr>pairing_id = cf_id C, acc_ltpk = ltpk P (cf_keypair C)\<rparr>"
  let ?c0 = "PairVerifyClient_new_with_ephemeral P kp ?acc eph"
  have laws: "aead_laws P" "sig_laws P" "dh_laws P" "kdf_laws P"
    and ids: "id_small (cf_id C)" "id_small (kp_id kp)" "length (cf_id C) \<le> 36" "length (kp_id kp) \<le> 36"
    and ctl: "cf_controller C = (kp_id kp, ltpk P kp)"
    using ok(1) by (auto simp: link_ok_def id_small_def)
  obtain m1 c1 where st: "pv_start ?c0 = (m1, c1)" by fastforce
  obtain m2 progress m3 c2 m4 session keys c3 where
    r: "handle_m1 P (cf_keypair C) (cf_id C) (cf_eph C) m1 = Inr (m2, progress)"
      "pv_handle P c1 m2 = (Inr (Send m3), c2)"
      "handle_m3 P progress (kp_id kp) (ltpk P kp) m3 = Inr (m4, Some session)"
      "pv_handle P c2 m4 = (Inr (Done keys), c3)"
      "session = AccessorySession_new (read_key keys) (write_key keys) (as_event_key session)"
      "event_key P c3 = Inr (as_event_key session)" "m4 = enc_items [(STATE, [STATE_M4])]"
    using pair_verify_honest [OF laws ids(1,2) refl st, of "cf_eph C"]
    by (elim exE conjE) (rule that; assumption)
  have c1: "m1 = enc_items [(STATE, [STATE_M1]), (PUBLIC_KEY, x25519_public P eph)]" "pv_controller_id c1 = kp_id kp"
    using st by (auto simp: pv_start_def PairVerifyClient_new_with_ephemeral_def pv_build_def from_secret_def tlv_build)
  have len: "length m1 \<le> 512" "length m2 \<le> 512" "length m3 \<le> 512" "length m4 \<le> 512"
  proof -
    have "length (x25519_public P eph) = 32" using laws(3) by (simp add: dh_laws_def)
    then show "length m1 \<le> 512"
      using length_enc_items_Cons [of STATE "[STATE_M1]" "[(PUBLIC_KEY, x25519_public P eph)]"]
        length_one_item [of PUBLIC_KEY "x25519_public P eph"] c1(1) by simp
    show "length m2 \<le> 512" by (rule handle_m1_length [OF laws(1-3) ids(3) r(1)])
    show "length m3 \<le> 512" by (rule pv_handle_m3_length [OF laws(1,2) _ r(2)]) (use c1(2) ids(4) in simp)
    show "length m4 \<le> 512" using length_one_item [of STATE "[STATE_M4]"] r(7) by simp
  qed
  obtain bkey where b: "broadcast_key P c3 (ltpk P kp) = Inr bkey" using broadcast_key_ok [OF laws(4) r(6)] by blast
  let ?app1 = "(peer_app p)\<lparr>ap_verify := Some progress\<rparr>" and ?app2 = "(peer_app p)\<lparr>ap_verify := None\<rparr>"
  have q1: "verify_request P C (peer_app p) m1 = ((0, enc_items [(BLE_VALUE, m2)], None), ?app1)"
    using r(1) by (simp add: verify_request_def)
  obtain e where "handle_m1 P (cf_keypair C) (cf_id C) (cf_eph C) m3 = Inl e" using handle_m1_m3 [OF r(3)] by blast
  then have q2: "verify_request P C ?app1 m3 = ((0, enc_items [(BLE_VALUE, m4)], Some (ble_mirror session)), ?app2)"
    using r(3) ctl by (simp add: verify_request_def)
  have drive: "ble_pair_verify P ?G p PAIR_VERIFY_CHAR iid kp ?acc k eph =
      map_option (\<lambda>(r, client, net). (and_then r (\<lambda>keys.
           and_then (map_err BCrypto (broadcast_key P client (ltpk P kp))) (\<lambda>bkey.
             Inr (BleSession_new keys, bkey))), fst net))
        (drive (pv_handle P) ?X BCrypto (Suc (Suc 0)) c1 (p, 0) m1)"
    by (simp add: ble_pair_verify_def st VERIFY_EXCHANGES_def numeral_2_eq_2 del: drive.simps)
  from verify_exchange [OF ok idle len(1) q1 len(2), of svcs 1 iid]
  have "link_step lossy p (ble_exchange ?G p PAIR_VERIFY_CHAR 1 iid m1 k) m2
      (plain_answered gen (?app1, None)) (\<lambda>p'. dropped_at gen p' \<and> stored p' = stored p)" by simp
  then show ?thesis
  proof (cases rule: link_step_cases)
    case (ok p1)
    then have p1: "idle_at gen p1" "peer_app p1 = ?app1" by (simp_all add: plain_answered_iff)
    from verify_exchange [OF assms(1,2) p1(1) len(3) q2 [folded p1(2)] len(4), of svcs 2 iid]
    have "link_step lossy p1 (ble_exchange ?G p1 PAIR_VERIFY_CHAR 2 iid m3 k) m4
        (plain_answered gen (?app2, Some (ble_mirror session))) (\<lambda>p'. dropped_at gen p' \<and> stored p' = stored p1)"
      using p1(2) by simp
    then show ?thesis
    proof (cases rule: link_step_cases)
      case ok2: (ok p2)
      note s = plain_answered_secure [OF laws(1) ok2(2) r(5)]
      show ?thesis
        by (rule disjI1, rule exI [of _ "BleSession_new keys"], rule exI [of _ bkey], rule exI [of _ p2])
          (use ok(1,3) ok2(1,3) s r(2,4) b in \<open>simp add: drive tid_exchange_def\<close>)
    next
      case (drop p2)
      show ?thesis
        by (rule disjI2, rule exI [of _ p2]) (use ok(1,3) drop p1(2) r(2) in \<open>simp add: drive tid_exchange_def\<close>)
    qed
  next
    case (drop p1)
    show ?thesis by (rule disjI2, rule exI [of _ p1]) (use drop in \<open>simp add: drive tid_exchange_def\<close>)
  qed
qed

section \<open>Renewal and retry\<close>

text \<open>The session of the handle is in step with the accessory's, or the handle can see that it is stale.\<close>

definition fresh :: "prims \<Rightarrow> 'a ble_peer \<times> Secure \<Rightarrow> bool" where
  "fresh P st \<longleftrightarrow> secure_at P (sec_generation (snd st)) (fst st) (sec_session (snd st))"

definition stale :: "'a ble_peer \<times> Secure \<Rightarrow> bool" where
  "stale st \<longleftrightarrow> sec_generation (snd st) < peer_generation (fst st) \<and> idle_at (peer_generation (fst st)) (fst st)"

definition recoverable :: "prims \<Rightarrow> 'a ble_peer \<times> Secure \<Rightarrow> bool" where
  "recoverable P st \<longleftrightarrow> fresh P st \<or> stale st"

definition reviver_ok :: "prims \<Rightarrow> ble_conf \<Rightarrow> ControllerKeypair \<Rightarrow> Reviver \<Rightarrow> bool" where
  "reviver_ok P C kp rv \<longleftrightarrow> rv_keypair rv = kp \<and> rv_verify_char rv = PAIR_VERIFY_CHAR \<and> rv_frag_size rv \<le> 512 \<and>
     rv_pairing rv = \<lparr>pairing_id = cf_id C, acc_ltpk = ltpk P (cf_keypair C)\<rparr>"

abbreviation losing :: "'a ble_peer \<times> Secure \<Rightarrow> bool" where
  "losing st \<equiv> lossy (fst st)"

lemma secure_at_generation: "secure_at P gen p session \<Longrightarrow> peer_generation p = gen"
  by (auto simp: secure_at_def sealed_view_def at_generation_def)

lemma dropped_at_stale: "dropped_at gen p \<Longrightarrow> sec_generation s \<le> gen \<Longrightarrow> stale (p, s)"
  by (auto simp: dropped_at_def stale_def idle_at_def plain_view_def at_generation_def)

lemma revive_link:
  assumes ok: "link_ok P C kp n" and rv: "reviver_ok P C kp rv" and rec: "recoverable P (p, s)"
  shows "link_step losing (p, s) (revive_if_stale P (app_gatt P C n svcs) eph p s rv) ()
      (\<lambda>st. fresh P st \<and> stored (fst st) = stored p) (\<lambda>st. recoverable P st \<and> stored (fst st) = stored p)"
proof (cases "fresh P (p, s)")
  case True
  then have "peer_generation p = sec_generation s" by (simp add: fresh_def secure_at_generation)
  then show ?thesis using True by (simp add: revive_if_stale_def)
next
  case False
  then have st: "sec_generation s < peer_generation p" "idle_at (peer_generation p) p"
    using rec by (simp_all add: recoverable_def stale_def)
  from ble_pair_verify_link [OF ok _ st(2), of "rv_frag_size rv" svcs "rv_verify_iid rv" eph] rv
  consider (verified) session bkey p' where
      "ble_pair_verify P (app_gatt P C n svcs) p (rv_verify_char rv) (rv_verify_iid rv) (rv_keypair rv) (rv_pairing rv)
         (rv_frag_size rv) eph = Some (Inr (session, bkey), p')"
      "secure_at P (peer_generation p) p' session" "stored p' = stored p" "lossy p' \<longrightarrow> lossy p"
    | (lost) p' where
      "ble_pair_verify P (app_gatt P C n svcs) p (rv_verify_char rv) (rv_verify_iid rv) (rv_keypair rv) (rv_pairing rv)
         (rv_frag_size rv) eph = Some (Inl Disconnected, p')"
      "dropped_at (peer_generation p) p'" "stored p' = stored p" "lossy p"
    by (auto simp: reviver_ok_def)
  then show ?thesis
  proof cases
    case verified
    then show ?thesis
      using st(1) secure_at_generation [OF verified(2)] by (auto simp: revive_if_stale_def fresh_def)
  next
    case lost
    then show ?thesis
      using st(1) dropped_at_stale [OF lost(2), of s] by (auto simp: revive_if_stale_def recoverable_def)
  qed
qed

lemma secure_attempt_link:
  assumes fr: "fresh P (p, s)" and "k \<le> 512" and len: "length body < 65536"
    and h: "h (peer_app p) u (ble_opcode_u8 op) iid body = ((status, rbody, nx), app')" and "peer_ok n rbody"
  shows "link_step losing (p, s) (secure_attempt P (peer_gatt P h n svcs) p s u op iid body k)
      \<lparr>br_tid = sec_tid s + 1, br_status = status, br_body = rbody\<rparr>
      (\<lambda>st. fresh P st \<and> peer_app (fst st) = app')
      (\<lambda>st. stale st \<and> (peer_app (fst st) = peer_app p \<or> peer_app (fst st) = app'))"
proof -
  have k: "k \<le> aead_max" using assms(2) by (simp add: aead_max_def)
  have v: "sealed_view P (sec_generation s) (p, sec_session s) [] [] (peer_app p, None)"
    using fr by (simp add: fresh_def secure_at_def)
  have "h (fst (peer_app p, None :: BleSession option)) u (ble_opcode_u8 op) iid body = ((status, rbody, nx), app')"
    using h by simp
  from request_secure_peer [where h = h and op = op and u = u, OF v k len this assms(5), of svcs "sec_tid s + 1"]
  have "link_step (\<lambda>st. lossy (fst st)) (p, sec_session s)
      (request_secure P (peer_gatt P h n svcs) p (sec_session s) u op (sec_tid s + 1) iid body k)
      \<lparr>br_tid = sec_tid s + 1, br_status = status, br_body = rbody\<rparr>
      (\<lambda>st'. sealed_view P (sec_generation s) st' [] [] (app', nx))
      (\<lambda>st'. sealed_lost (sec_generation s) (peer_app p, None) st' \<or> sealed_lost (sec_generation s) (app', nx) st')"
    by simp
  then show ?thesis
  proof (cases rule: link_step_cases)
    case (ok st)
    then show ?thesis by (cases st) (simp add: secure_attempt_def fresh_def sealed_view_iff)
  next
    case (drop st)
    then show ?thesis
      by (cases st) (auto simp: secure_attempt_def link_lost_iff intro: dropped_at_stale)
  qed
qed

text \<open>A request that may be run more than once: after the first time the accessory answers the same and
  changes nothing.\<close>

definition repeatable ::
    "ble_app ble_handler \<Rightarrow> str \<Rightarrow> u8 \<Rightarrow> u16 \<Rightarrow> bytes \<Rightarrow> raw_store \<Rightarrow> u8 \<times> bytes \<Rightarrow> raw_store \<Rightarrow> bool" where
  "repeatable h u op iid body vals answer vals' \<longleftrightarrow>
     (\<forall>app. ap_values app = vals \<or> ap_values app = vals' \<longrightarrow>
        (\<exists>app'. h app u op iid body = ((fst answer, snd answer, None), app') \<and> ap_values app' = vals'))"

lemma secure_retry_link:
  assumes ok: "link_ok P C kp n" and rv: "reviver_ok P C kp rv" and k: "k \<le> 512"
    and len: "length body < 65536" and rep: "repeatable (app_handle P C) u (ble_opcode_u8 op) iid body vals (status, rbody) vals'"
    and fits: "peer_ok n rbody"
    and "recoverable P (p, s)" and "stored p = vals \<or> stored p = vals'" and "attempts < MAX_REVIVE_RETRIES"
  shows "\<exists>tid. link_step losing (p, s)
      (secure_retry P (app_gatt P C n svcs) ephs rv u op iid body k attempts p s)
      \<lparr>br_tid = tid, br_status = status, br_body = rbody\<rparr>
      (\<lambda>st. recoverable P st \<and> stored (fst st) = vals')
      (\<lambda>st. recoverable P st \<and> (stored (fst st) = vals \<or> stored (fst st) = vals'))"
  using assms(7-9)
proof (induction "MAX_REVIVE_RETRIES - attempts" arbitrary: attempts p s rule: less_induct)
  case less
  from revive_link [OF ok rv less.prems(1), of svcs "ephs attempts"] show ?case
  proof (cases rule: link_step_cases)
    case (drop st)
    then show ?thesis using less.prems(2) by (cases st) (auto simp: secure_retry.simps)
  next
    case r: (ok st)
    obtain p1 s1 where st: "st = (p1, s1)" by (cases st)
    obtain app' where h: "app_handle P C (peer_app p1) u (ble_opcode_u8 op) iid body = ((status, rbody, None), app')"
        "ap_values app' = vals'"
      using rep less.prems(2) r(2) st by (fastforce simp: repeatable_def)
    have "fresh P (p1, s1)" using r(2) st by simp
    from secure_attempt_link [where h = "app_handle P C" and op = op and u = u, OF this k len h(1) fits, of svcs] show ?thesis
    proof (cases rule: link_step_cases)
      case a: (ok st2)
      obtain p2 s2 where st2: "st2 = (p2, s2)" by (cases st2)
      show ?thesis
        using a r st st2 h(2) by (intro exI [of _ "sec_tid s1 + 1"]) (auto simp: secure_retry.simps recoverable_def)
    next
      case a: (drop st2)
      obtain p2 s2 where st2: "st2 = (p2, s2)" by (cases st2)
      have stl: "stale (p2, s2)" and v2: "stored p2 = vals \<or> stored p2 = vals'"
        using a(2) st2 h(2) r(2) st less.prems(2) by auto
      show ?thesis
      proof (cases "Suc attempts < MAX_REVIVE_RETRIES")
        case True
        have eq: "secure_retry P (app_gatt P C n svcs) ephs rv u op iid body k attempts p s =
            secure_retry P (app_gatt P C n svcs) ephs rv u op iid body k (Suc attempts) p2 s2"
          using r(1) a(1) st st2 True stl by (simp add: secure_retry.simps [of _ _ _ _ _ _ _ _ _ attempts] stale_def)
        have fewer: "MAX_REVIVE_RETRIES - Suc attempts < MAX_REVIVE_RETRIES - attempts" using True by simp
        have rec2: "recoverable P (p2, s2)" using stl by (simp add: recoverable_def)
        have losing: "losing (p, s)" using a(3) r(3) st by simp
        from less.hyps [OF fewer rec2 v2 True] obtain tid where
          "link_step losing (p2, s2) (secure_retry P (app_gatt P C n svcs) ephs rv u op iid body k (Suc attempts) p2 s2)
            \<lparr>br_tid = tid, br_status = status, br_body = rbody\<rparr>
            (\<lambda>st. recoverable P st \<and> stored (fst st) = vals')
            (\<lambda>st. recoverable P st \<and> (stored (fst st) = vals \<or> stored (fst st) = vals'))" ..
        then show ?thesis unfolding eq using losing by (intro exI [of _ tid]) (rule link_step_after; simp)
      next
        case False
        then show ?thesis
          using r a st st2 stl v2 by (auto simp: secure_retry.simps recoverable_def)
      qed
    qed
  qed
qed

end
