(* ===== verification/Ble_Interop.thy ===== *)
theory Ble_Interop
  imports Ble_Link
begin

text \<open>
  The accessory handle of \<open>hap-ble/src/accessory.rs\<close> and the controller of \<open>hap-ble/src/controller.rs\<close>
  against the accessory of \<open>Ble_Link\<close>.  Whatever the link does, a read or write of the handle has the
  result of a typed store, or reports the dropped link; the handle can go on either way, since it runs
  Pair Verify again on the next operation.  Connecting builds such a handle.
\<close>

section \<open>The store behind the handle\<close>

datatype ble_op = BRead u64 u64 | BWrite u64 u64 CharValue

datatype ble_result = RRead "BleError + CharValue" | RWrote "BleError + unit"

type_synonym char_table = "((u64 \<times> u64) \<times> (str \<times> CharFormat)) list"

definition spec_read :: "char_table \<Rightarrow> raw_store \<Rightarrow> u64 \<Rightarrow> u64 \<Rightarrow> BleError + CharValue" where
  "spec_read chars vals aid iid =
     and_then (ok_or (CharacteristicNotFound aid iid) (map_of chars (aid, iid))) (\<lambda>(u, f).
     and_then (try_iid16 iid) (\<lambda>i.
     and_then (ok_or (MalformedPdu ''missing value param (0x01)'') (vals i)) (decode_value f)))"

definition spec_write :: "char_table \<Rightarrow> raw_store \<Rightarrow> u64 \<Rightarrow> u64 \<Rightarrow> CharValue \<Rightarrow> (BleError + unit) \<times> raw_store" where
  "spec_write chars vals aid iid v =
     (case and_then (ok_or (CharacteristicNotFound aid iid) (map_of chars (aid, iid))) (\<lambda>(u, f).
           and_then (encode_value f v) (\<lambda>raw.
           and_then (try_iid16 iid) (\<lambda>i. Inr (i, raw)))) of
        Inl e \<Rightarrow> (Inl e, vals)
      | Inr (i, raw) \<Rightarrow>
          if vals i = None then (Inl (RequestRejected REFUSED), vals) else (Inr (), vals(i \<mapsto> raw)))"

fun spec_op :: "char_table \<Rightarrow> raw_store \<Rightarrow> ble_op \<Rightarrow> ble_result \<times> raw_store" where
  "spec_op chars vals (BRead aid iid) = (RRead (spec_read chars vals aid iid), vals)"
| "spec_op chars vals (BWrite aid iid v) = (let (r, vals') = spec_write chars vals aid iid v in (RWrote r, vals'))"

fun dropped :: "ble_op \<Rightarrow> ble_result" where
  "dropped (BRead aid iid) = RRead (Inl Disconnected)"
| "dropped (BWrite aid iid v) = RWrote (Inl Disconnected)"

text \<open>What a step of the store may look like over a link that drops: the operation takes place and its
  result arrives, or the link drops before or after it takes place.\<close>

inductive store_step :: "char_table \<Rightarrow> raw_store \<Rightarrow> ble_op \<Rightarrow> ble_result \<Rightarrow> raw_store \<Rightarrow> bool"
  for chars :: char_table where
  arrives: "spec_op chars vals op = (r, vals') \<Longrightarrow> store_step chars vals op r vals'"
| drops_before: "store_step chars vals op (dropped op) vals"
| drops_after: "spec_op chars vals op = (r, vals') \<Longrightarrow> store_step chars vals op (dropped op) vals'"

inductive store_steps :: "char_table \<Rightarrow> raw_store \<Rightarrow> ble_op list \<Rightarrow> ble_result list \<Rightarrow> raw_store \<Rightarrow> bool"
  for chars :: char_table where
  none: "store_steps chars vals [] [] vals"
| more: "store_step chars vals op r vals' \<Longrightarrow> store_steps chars vals' ops rs vals'' \<Longrightarrow>
     store_steps chars vals (op # ops) (r # rs) vals''"

inductive_cases store_steps_ConsE: "store_steps chars vals (op # ops) rs vals'"

fun spec_ops :: "char_table \<Rightarrow> raw_store \<Rightarrow> ble_op list \<Rightarrow> ble_result list \<times> raw_store" where
  "spec_ops chars vals [] = ([], vals)"
| "spec_ops chars vals (op # ops) =
     (let (r, vals) = spec_op chars vals op; (rs, vals) = spec_ops chars vals ops in (r # rs, vals))"

text \<open>The same operations on the handle; \<open>ephs\<close> are the ephemeral keys of the operations, one function
  each.\<close>

fun handle_op ::
    "prims \<Rightarrow> ('g, 'x) gatt_scheme \<Rightarrow> (nat \<Rightarrow> bytes) \<Rightarrow> 'g BleAccessory \<Rightarrow> ble_op \<Rightarrow> ble_result \<times> 'g BleAccessory" where
  "handle_op P G ephs a (BRead aid iid) = (let (r, a) = ble_read P G ephs a aid iid in (RRead r, a))"
| "handle_op P G ephs a (BWrite aid iid v) = (let (r, a) = ble_write P G ephs a aid iid v in (RWrote r, a))"

fun handle_ops ::
    "prims \<Rightarrow> ('g, 'x) gatt_scheme \<Rightarrow> (nat \<Rightarrow> nat \<Rightarrow> bytes) \<Rightarrow> 'g BleAccessory \<Rightarrow> ble_op list \<Rightarrow>
     ble_result list \<times> 'g BleAccessory" where
  "handle_ops P G ephs a [] = ([], a)"
| "handle_ops P G ephs a (op # ops) =
     (let (r, a) = handle_op P G (ephs 0) a op; (rs, a) = handle_ops P G (\<lambda>i. ephs (Suc i)) a ops in (r # rs, a))"

text \<open>An operation within the bounds: not on the Pair Verify characteristic, and writing at most 512 bytes.\<close>

fun op_ok :: "char_table \<Rightarrow> ble_op \<Rightarrow> bool" where
  "op_ok chars (BRead aid iid) \<longleftrightarrow> True"
| "op_ok chars (BWrite aid iid v) \<longleftrightarrow>
     (case map_of chars (aid, iid) of
        None \<Rightarrow> True
      | Some (u, f) \<Rightarrow> u \<noteq> PAIR_VERIFY_CHAR \<and> (case encode_value f v of Inl _ \<Rightarrow> True | Inr raw \<Rightarrow> length raw \<le> 512))"

definition values_ok :: "raw_store \<Rightarrow> bool" where
  "values_ok vals \<longleftrightarrow> (\<forall>i v. vals i = Some v \<longrightarrow> length v \<le> 512)"

definition linked :: "prims \<Rightarrow> ble_conf \<Rightarrow> ControllerKeypair \<Rightarrow> ble_app ble_peer BleAccessory \<Rightarrow> bool" where
  "linked P C kp a \<longleftrightarrow> recoverable P (ba_gatt a, ba_secure a) \<and> reviver_ok P C kp (ba_reviver a) \<and>
     ba_frag_size a \<le> 512 \<and> values_ok (stored (ba_gatt a))"

lemma repeatable_read:
  "repeatable (app_handle P C) u (ble_opcode_u8 CharacteristicRead) iid [] vals
     (case vals iid of None \<Rightarrow> (REFUSED, []) | Some v \<Rightarrow> (0, enc_items [(BLE_VALUE, v)])) vals"
  by (auto simp: repeatable_def app_handle_simps split: option.splits)

lemma repeatable_write:
  assumes "u \<noteq> PAIR_VERIFY_CHAR"
  shows "repeatable (app_handle P C) u (ble_opcode_u8 CharacteristicWrite) iid (encode_write_body v) vals
     (if vals iid = None then (REFUSED, []) else (0, [])) (if vals iid = None then vals else vals(iid \<mapsto> v))"
  using assms by (auto simp: repeatable_def app_handle_simps)

lemma values_ok_write: "values_ok vals \<Longrightarrow> length v \<le> 512 \<Longrightarrow> values_ok (vals(i \<mapsto> v))"
  by (simp add: values_ok_def)

lemma read_char_raw_link:
  assumes ok: "link_ok P C kp n" and rv: "reviver_ok P C kp rv" and k: "k \<le> 512" and rec: "recoverable P (p, s)"
    and vals: "values_ok (stored p)" and iid: "try_iid16 iid = Inr i"
  obtains p' s' where "read_char_raw P (app_gatt P C n svcs) ephs p s rv u iid k =
      (ok_or (MalformedPdu ''missing value param (0x01)'') (stored p i), p', s')"
      "recoverable P (p', s')" "stored p' = stored p" "lossy p' \<longrightarrow> lossy p"
    | p' s' where "read_char_raw P (app_gatt P C n svcs) ephs p s rv u iid k = (Inl Disconnected, p', s')"
      "recoverable P (p', s')" "stored p' = stored p" "lossy p"
proof -
  obtain st rb where a: "(case stored p i of None \<Rightarrow> (REFUSED, []) | Some v \<Rightarrow> (0, enc_items [(BLE_VALUE, v)])) = (st, rb)"
    by fastforce
  have n: "20 \<le> n" "n \<le> 512" using ok by (auto simp: link_ok_def)
  have fits: "peer_ok n rb"
    using a n vals peer_ok_value [OF n] by (auto simp: values_ok_def split: option.splits)
  have v: "value_param rb = ok_or (MalformedPdu ''missing value param (0x01)'') (stored p i)"
    using a by (auto split: option.splits)
  obtain tid where "link_step losing (p, s)
      (secure_retry P (app_gatt P C n svcs) ephs rv u CharacteristicRead i [] k 0 p s)
      \<lparr>br_tid = tid, br_status = st, br_body = rb\<rparr>
      (\<lambda>st. recoverable P st \<and> stored (fst st) = stored p)
      (\<lambda>st. recoverable P st \<and> (stored (fst st) = stored p \<or> stored (fst st) = stored p))"
    using secure_retry_link [OF ok rv k _ repeatable_read [of P C u i "stored p", unfolded a] fits rec, of 0 svcs ephs]
    by (auto simp: MAX_REVIVE_RETRIES_def)
  then show ?thesis
  proof (cases rule: link_step_cases)
    case (ok st)
    then show ?thesis by (intro that(1) [of "fst st" "snd st"]) (auto simp: read_char_raw_def iid v case_prod_beta)
  next
    case (drop st)
    then show ?thesis by (intro that(2) [of "fst st" "snd st"]) (auto simp: read_char_raw_def iid case_prod_beta)
  qed
qed

lemma write_char_raw_link:
  assumes ok: "link_ok P C kp n" and rv: "reviver_ok P C kp rv" and k: "k \<le> 512" and rec: "recoverable P (p, s)"
    and u: "u \<noteq> PAIR_VERIFY_CHAR" and len: "length raw \<le> 512" and iid: "try_iid16 iid = Inr i"
  obtains p' s' where "write_char_raw P (app_gatt P C n svcs) ephs p s rv u iid raw k =
      (if stored p i = None then Inl (RequestRejected REFUSED) else Inr (), p', s')"
      "recoverable P (p', s')" "stored p' = (if stored p i = None then stored p else (stored p)(i \<mapsto> raw))" "lossy p' \<longrightarrow> lossy p"
    | p' s' where "write_char_raw P (app_gatt P C n svcs) ephs p s rv u iid raw k = (Inl Disconnected, p', s')"
      "recoverable P (p', s')"
      "stored p' = stored p \<or> stored p' = (if stored p i = None then stored p else (stored p)(i \<mapsto> raw))" "lossy p"
proof -
  let ?st = "if stored p i = None then REFUSED else 0" and ?vals = "if stored p i = None then stored p else (stored p)(i \<mapsto> raw)"
  have n: "20 \<le> n" "n \<le> 512" using ok by (auto simp: link_ok_def)
  have body: "length (encode_write_body raw) < 65536" by (rule write_body_small) (use len in simp)
  have rep: "repeatable (app_handle P C) u (ble_opcode_u8 CharacteristicWrite) i (encode_write_body raw) (stored p)
      (?st, []) ?vals"
    using repeatable_write [OF u, of P C i raw "stored p"] by (simp split: if_splits)
  obtain tid where "link_step losing (p, s)
      (secure_retry P (app_gatt P C n svcs) ephs rv u CharacteristicWrite i (encode_write_body raw) k 0 p s)
      \<lparr>br_tid = tid, br_status = ?st, br_body = []\<rparr>
      (\<lambda>st. recoverable P st \<and> stored (fst st) = ?vals)
      (\<lambda>st. recoverable P st \<and> (stored (fst st) = stored p \<or> stored (fst st) = ?vals))"
    using secure_retry_link [OF ok rv k body rep peer_ok_Nil [OF n] rec, of 0 svcs ephs]
    by (auto simp: MAX_REVIVE_RETRIES_def)
  then show ?thesis
  proof (cases rule: link_step_cases)
    case (ok st)
    then show ?thesis
      by (intro that(1) [of "fst st" "snd st"])
        (auto simp: write_char_raw_def iid require_def REFUSED_def case_prod_beta)
  next
    case (drop st)
    then show ?thesis by (intro that(2) [of "fst st" "snd st"]) (auto simp: write_char_raw_def iid case_prod_beta)
  qed
qed

lemma handle_op_link:
  assumes ok: "link_ok P C kp n" and lk: "linked P C kp a" and op: "op_ok (ba_chars a) op"
    and run: "handle_op P (app_gatt P C n svcs) ephs a op = (r, a')"
  shows "store_step (ba_chars a) (stored (ba_gatt a)) op r (stored (ba_gatt a'))"
    and "linked P C kp a'" and "ba_chars a' = ba_chars a"
    and "\<not> lossy (ba_gatt a) \<Longrightarrow>
      \<not> lossy (ba_gatt a') \<and> spec_op (ba_chars a) (stored (ba_gatt a)) op = (r, stored (ba_gatt a'))"
proof -
  let ?vals = "stored (ba_gatt a)" and ?vals' = "stored (ba_gatt a')"
  have lk': "recoverable P (ba_gatt a, ba_secure a)" "reviver_ok P C kp (ba_reviver a)" "ba_frag_size a \<le> 512" "values_ok ?vals"
    using lk by (simp_all add: linked_def)
  have "store_step (ba_chars a) ?vals op r ?vals' \<and> linked P C kp a' \<and> ba_chars a' = ba_chars a \<and>
      (\<not> lossy (ba_gatt a) \<longrightarrow> \<not> lossy (ba_gatt a') \<and> spec_op (ba_chars a) ?vals op = (r, ?vals'))"
  proof (cases op)
    case (BRead aid iid)
    show ?thesis
    proof (cases "map_of (ba_chars a) (aid, iid)")
      case None
      then show ?thesis
        using run lk BRead by (auto simp: ble_read_def char_of_def ok_or_def spec_read_def intro: store_step.arrives)
    next
      case (Some uf)
      obtain u f where uf: "uf = (u, f)" by (cases uf)
      show ?thesis
      proof (cases "try_iid16 iid")
        case (Inl e)
        then show ?thesis
          using run lk BRead Some uf
          by (auto simp: ble_read_def char_of_def read_char_raw_def spec_read_def intro: store_step.arrives)
      next
        case (Inr i)
        show ?thesis
          by (rule read_char_raw_link [OF ok lk'(2,3,1,4) Inr, of svcs ephs u])
            (use run lk BRead Some uf Inr in
              \<open>auto simp: ble_read_def char_of_def spec_read_def linked_def
                 intro: store_step.arrives store_step.drops_before [of _ _ "BRead aid iid", simplified]\<close>)
      qed
    qed
  next
    case (BWrite aid iid v)
    show ?thesis
    proof (cases "map_of (ba_chars a) (aid, iid)")
      case None
      then show ?thesis
        using run lk BWrite by (auto simp: ble_write_def char_of_def ok_or_def spec_write_def intro: store_step.arrives)
    next
      case (Some uf)
      obtain u f where uf: "uf = (u, f)" by (cases uf)
      show ?thesis
      proof (cases "encode_value f v")
        case (Inl e)
        then show ?thesis
          using run lk BWrite Some uf by (auto simp: ble_write_def char_of_def spec_write_def intro: store_step.arrives)
      next
        case raw: (Inr raw)
        have u: "u \<noteq> PAIR_VERIFY_CHAR" and len: "length raw \<le> 512" using op BWrite Some uf raw by simp_all
        show ?thesis
        proof (cases "try_iid16 iid")
          case (Inl e)
          then show ?thesis
            using run lk BWrite Some uf raw
            by (auto simp: ble_write_def char_of_def write_char_raw_def spec_write_def intro: store_step.arrives)
        next
          case (Inr i)
          have spec: "spec_op (ba_chars a) ?vals op =
              (RWrote (if ?vals i = None then Inl (RequestRejected REFUSED) else Inr ()),
               if ?vals i = None then ?vals else ?vals(i \<mapsto> raw))"
            using BWrite Some uf raw Inr by (simp add: spec_write_def)
          show ?thesis
          proof (rule write_char_raw_link [OF ok lk'(2,3,1) u len Inr, of svcs ephs], goal_cases)
            case (1 p' s')
            then show ?case
              using run lk BWrite Some uf raw spec len values_ok_write [OF lk'(4) len, of i]
              by (auto simp: ble_write_def char_of_def linked_def intro!: store_step.arrives)
          next
            case (2 p' s')
            then have "r = dropped op" "?vals' = ?vals \<or> ?vals' = snd (spec_op (ba_chars a) ?vals op)" "ba_chars a' = ba_chars a"
              using run BWrite Some uf raw spec by (auto simp: ble_write_def char_of_def)
            then have "store_step (ba_chars a) ?vals op r ?vals'"
              by (metis store_step.drops_before store_step.drops_after surjective_pairing)
            then show ?case
              using 2 run lk BWrite Some uf raw values_ok_write [OF lk'(4) len, of i]
              by (auto simp: ble_write_def char_of_def linked_def split: if_splits)
          qed
        qed
      qed
    qed
  qed
  then show "store_step (ba_chars a) ?vals op r ?vals'" "linked P C kp a'" "ba_chars a' = ba_chars a"
    "\<not> lossy (ba_gatt a) \<Longrightarrow> \<not> lossy (ba_gatt a') \<and> spec_op (ba_chars a) ?vals op = (r, ?vals')" by auto
qed

lemma handle_ops_link:
  assumes ok: "link_ok P C kp n"
  shows "linked P C kp a \<Longrightarrow> list_all (op_ok (ba_chars a)) ops \<Longrightarrow>
    handle_ops P (app_gatt P C n svcs) ephs a ops = (rs, a') \<Longrightarrow>
    store_steps (ba_chars a) (stored (ba_gatt a)) ops rs (stored (ba_gatt a')) \<and> linked P C kp a' \<and>
    (\<not> lossy (ba_gatt a) \<longrightarrow> spec_ops (ba_chars a) (stored (ba_gatt a)) ops = (rs, stored (ba_gatt a')))"
proof (induction ops arbitrary: ephs a rs)
  case Nil
  then show ?case by (auto intro: store_steps.none)
next
  case (Cons op ops)
  obtain r a1 where h: "handle_op P (app_gatt P C n svcs) (ephs 0) a op = (r, a1)" by fastforce
  obtain rs1 where t: "handle_ops P (app_gatt P C n svcs) (\<lambda>i. ephs (Suc i)) a1 ops = (rs1, a')" "rs = r # rs1"
    using Cons.prems(3) h by (auto simp: Let_def split: prod.splits)
  have op: "op_ok (ba_chars a) op" "list_all (op_ok (ba_chars a)) ops" using Cons.prems(2) by simp_all
  note step = handle_op_link [OF ok Cons.prems(1) op(1) h]
  note rest = Cons.IH [OF step(2) _ t(1), unfolded step(3), OF op(2)]
  show ?case
    using step(1,4) rest t(2) by (auto intro: store_steps.more)
qed

section \<open>Connecting\<close>

text \<open>A GATT tree whose services have types and whose characteristics have signatures.\<close>

definition signed :: "ble_conf \<Rightarrow> nat \<Rightarrow> GattCharacteristic \<Rightarrow> bool" where
  "signed C n gc \<longleftrightarrow> (\<exists>sig. parse_signature (cf_signature C (gc_iid gc)) = Inr sig) \<and> peer_ok n (cf_signature C (gc_iid gc))"

definition modelled :: "GattService \<Rightarrow> GattCharacteristic list" where
  "modelled gs = filter (\<lambda>gc. \<not> eq_ignore_ascii_case (gc_uuid gc) SERVICE_SIGNATURE_CHAR) (gs_characteristics gs)"

definition tree_ok :: "ble_conf \<Rightarrow> nat \<Rightarrow> GattService list \<Rightarrow> bool" where
  "tree_ok C n svcs \<longleftrightarrow>
     list_all (\<lambda>gs. (\<exists>t. service_type_of (gs_uuid gs) = Inr t) \<and> list_all (signed C n) (modelled gs)) svcs"

definition signature_of :: "ble_conf \<Rightarrow> GattCharacteristic \<Rightarrow> Characteristic" where
  "signature_of C gc = (case parse_signature (cf_signature C (gc_iid gc)) of Inr sig \<Rightarrow> signature_characteristic gc sig)"

text \<open>A link that has dropped for the last time, without a session.\<close>

definition quiet :: "u64 \<Rightarrow> 'a ble_peer \<Rightarrow> bool" where
  "quiet gen p \<longleftrightarrow> idle_at gen p \<and> \<not> lossy p"

lemma signature_request:
  assumes "quiet gen p" and "signed C n gc" and "k \<le> 512"
  shows "\<exists>p'. ble_request (app_gatt P C n svcs) p u CharacteristicSignatureRead tid (gc_iid gc) [] k =
      (Inr \<lparr>br_tid = tid, br_status = 0, br_body = cf_signature C (gc_iid gc)\<rparr>, p') \<and>
      quiet gen p' \<and> peer_app p' = peer_app p"
proof -
  have v: "plain_view gen p [] [] (peer_app p, None)" using assms(1) by (simp add: quiet_def idle_at_def)
  have k: "k \<le> aead_max" using assms(3) by (simp add: aead_max_def)
  have h: "app_handle P C (fst (peer_app p, None :: BleSession option)) u (ble_opcode_u8 CharacteristicSignatureRead)
      (gc_iid gc) [] = ((0, cf_signature C (gc_iid gc), None), peer_app p)"
    by (simp add: app_handle_simps)
  have "peer_ok n (cf_signature C (gc_iid gc))" using assms(2) by (simp add: signed_def)
  from ble_request_peer [where h = "app_handle P C" and op = CharacteristicSignatureRead and u = u, OF v k _ h this,
      of P svcs tid]
  have "link_step lossy p (ble_request (app_gatt P C n svcs) p u CharacteristicSignatureRead tid (gc_iid gc) [] k)
      \<lparr>br_tid = tid, br_status = 0, br_body = cf_signature C (gc_iid gc)\<rparr> (plain_answered gen (peer_app p, None))
      (\<lambda>p'. link_lost gen (peer_app p, None) p' \<or> link_lost gen (peer_app p, None) p')" by simp
  then show ?thesis
    by (cases rule: link_step_cases) (use assms(1) in \<open>auto simp: quiet_def plain_answered_iff\<close>)
qed

lemma sweep_characteristics_peer:
  assumes "k \<le> 512"
  shows "quiet gen p \<Longrightarrow>
    list_all (signed C n) (filter (\<lambda>gc. \<not> eq_ignore_ascii_case (gc_uuid gc) SERVICE_SIGNATURE_CHAR) gcs) \<Longrightarrow>
    \<exists>p' tid'. sweep_characteristics (app_gatt P C n svcs) k (p, tid) gcs =
      (Inr (map (signature_of C) (filter (\<lambda>gc. \<not> eq_ignore_ascii_case (gc_uuid gc) SERVICE_SIGNATURE_CHAR) gcs)), p', tid') \<and>
      quiet gen p' \<and> peer_app p' = peer_app p"
proof (induction gcs arbitrary: p tid)
  case (Cons gc gcs)
  show ?case
  proof (cases "eq_ignore_ascii_case (gc_uuid gc) SERVICE_SIGNATURE_CHAR")
    case True
    then show ?thesis using Cons by simp
  next
    case False
    obtain sig where sig: "parse_signature (cf_signature C (gc_iid gc)) = Inr sig"
      using Cons.prems(2) False by (auto simp: signed_def)
    have "signed C n gc" using Cons.prems(2) False by simp
    from signature_request [OF Cons.prems(1) this assms, of P svcs "gc_uuid gc" "tid + 1"] obtain p1 where
      p1: "ble_request (app_gatt P C n svcs) p (gc_uuid gc) CharacteristicSignatureRead (tid + 1) (gc_iid gc) [] k =
        (Inr \<lparr>br_tid = tid + 1, br_status = 0, br_body = cf_signature C (gc_iid gc)\<rparr>, p1)"
        "quiet gen p1" "peer_app p1 = peer_app p"
      by blast
    from Cons.IH [OF p1(2), of "tid + 1"] Cons.prems(2) False obtain p2 tid2 where
      "sweep_characteristics (app_gatt P C n svcs) k (p1, tid + 1) gcs =
        (Inr (map (signature_of C) (filter (\<lambda>gc. \<not> eq_ignore_ascii_case (gc_uuid gc) SERVICE_SIGNATURE_CHAR) gcs)), p2, tid2)"
        "quiet gen p2" "peer_app p2 = peer_app p1"
      by auto
    then show ?thesis using False p1 sig by (simp add: signature_of_def)
  qed
qed simp

text \<open>The services of the database for a tree.\<close>

definition db_services :: "ble_conf \<Rightarrow> GattService list \<Rightarrow> Service list" where
  "db_services C svcs =
     map (\<lambda>gs. \<lparr>svc_iid = ucast (gs_iid gs),
               service_type = (case service_type_of (gs_uuid gs) of Inr t \<Rightarrow> t),
               characteristics = map (signature_of C) (modelled gs)\<rparr>) svcs"

lemma sweep_services_peer:
  assumes "k \<le> 512"
  shows "quiet gen p \<Longrightarrow> tree_ok C n gss \<Longrightarrow>
    \<exists>p' tid'. sweep_services (app_gatt P C n svcs) k (p, tid) gss = (Inr (db_services C gss), p', tid') \<and>
      quiet gen p' \<and> peer_app p' = peer_app p"
proof (induction gss arbitrary: p tid)
  case (Cons gs gss)
  obtain t where t: "service_type_of (gs_uuid gs) = Inr t" using Cons.prems(2) by (auto simp: tree_ok_def)
  from sweep_characteristics_peer [OF assms Cons.prems(1), of C n "gs_characteristics gs" P svcs tid] Cons.prems(2)
  obtain p1 tid1 where p1: "sweep_characteristics (app_gatt P C n svcs) k (p, tid) (gs_characteristics gs) =
      (Inr (map (signature_of C) (modelled gs)), p1, tid1)" "quiet gen p1" "peer_app p1 = peer_app p"
    by (auto simp: tree_ok_def modelled_def)
  from Cons.IH [OF p1(2), of tid1] Cons.prems(2) obtain p2 tid2 where
    "sweep_services (app_gatt P C n svcs) k (p1, tid1) gss = (Inr (db_services C gss), p2, tid2)"
      "quiet gen p2" "peer_app p2 = peer_app p1"
    by (auto simp: tree_ok_def)
  then show ?case using t p1 by (simp add: db_services_def)
qed (simp add: db_services_def)

lemma build_db_peer:
  assumes "quiet gen p" and "tree_ok C n svcs" and "k \<le> 512"
  shows "\<exists>p'. build_db (app_gatt P C n svcs') p svcs k = (Inr [\<lparr>acc_aid = 1, services = db_services C svcs\<rparr>], p') \<and>
      quiet gen p' \<and> peer_app p' = peer_app p"
  using sweep_services_peer [OF assms(3,1,2), of P svcs' 0] by (auto simp: build_db_def)

lemma request_broadcast_key_peer:
  assumes "secure_at P gen p session" and "\<not> lossy p" and n: "20 \<le> n" "n \<le> 512"
  shows "\<exists>p' session'. request_broadcast_key P (app_gatt P C n svcs) p session svcs' n = (p', session') \<and>
      secure_at P gen p' session' \<and> \<not> lossy p' \<and> peer_app p' = peer_app p"
proof (cases "protocol_info_service_iid svcs'")
  case None
  then show ?thesis using assms by (simp add: request_broadcast_key_def)
next
  case (Some iid)
  have v: "sealed_view P gen (p, session) [] [] (peer_app p, None)" using assms(1) by (simp add: secure_at_def)
  have k: "n \<le> aead_max" using n by (simp add: aead_max_def)
  have h: "app_handle P C (fst (peer_app p, None :: BleSession option)) SERVICE_SIGNATURE_CHAR
      (ble_opcode_u8 ProtocolConfig) iid GENERATE_BROADCAST_KEY_BODY = ((0, [], None), peer_app p)"
    by (simp add: app_handle_simps)
  have len: "length GENERATE_BROADCAST_KEY_BODY < 65536" by (simp add: GENERATE_BROADCAST_KEY_BODY_def)
  from request_secure_peer [where h = "app_handle P C" and op = ProtocolConfig and u = SERVICE_SIGNATURE_CHAR,
      OF v k len h peer_ok_Nil [OF n], of svcs 1]
  show ?thesis
    by (cases rule: link_step_cases)
      (use assms(2) Some in \<open>auto simp: request_broadcast_key_def sealed_view_iff split: prod.splits\<close>)
qed

text \<open>A table filled entry by entry, with a key each.\<close>

lemma fold_fold: "fold (\<lambda>x. fold f (g x)) xs m = fold f (concat (map g xs)) m"
  by (induction xs arbitrary: m) auto

lemma fold_insert_lookup:
  assumes step: "\<And>x m. map_of (f x m) = (case val x of None \<Rightarrow> map_of m | Some v \<Rightarrow> (map_of m)(key x \<mapsto> v))"
    and "distinct (map key xs)" and "x \<in> set xs" and "val x = Some v"
  shows "map_of (fold f xs m) (key x) = Some v"
proof -
  have other: "map_of (fold f ys m) k = map_of m k" if "k \<notin> key ` set ys" for ys m k
    using that by (induction ys arbitrary: m) (auto simp: step split: option.splits)
  obtain ys zs where xs: "xs = ys @ x # zs" using split_list [OF assms(3)] by blast
  then have "key x \<notin> key ` set zs" using assms(2) by auto
  then show ?thesis by (simp add: xs other step assms(4))
qed

lemma ucast_u16_eq [simp]: "(ucast (x :: u16) :: u64) = ucast y \<longleftrightarrow> x = y"
proof
  assume "(ucast x :: u64) = ucast y"
  moreover have "unat (ucast z :: u64) = unat z" for z :: u16
  proof -
    have "unat z < 2 ^ 64" using unat_u16_less [of z] by simp
    then show ?thesis by (simp add: unsigned_ucast_eq take_bit_nat_eq_self)
  qed
  ultimately show "x = y" by (metis word_unat_eq_iff)
qed simp

definition iids_distinct :: "GattService list \<Rightarrow> bool" where
  "iids_distinct svcs \<longleftrightarrow> distinct (map gc_iid (concat (map gs_characteristics svcs)))"

lemma uuid_by_iid_lookup:
  assumes "iids_distinct svcs" and "gs \<in> set svcs" and "gc \<in> set (gs_characteristics gs)"
  shows "map_of (uuid_by_iid svcs) (ucast (gc_iid gc)) = Some (gc_uuid gc)"
proof -
  have "distinct (map (\<lambda>gc. ucast (gc_iid gc) :: u64) (concat (map gs_characteristics svcs)))"
    using assms(1) by (auto simp: iids_distinct_def distinct_map inj_on_def)
  then show ?thesis
    unfolding uuid_by_iid_def fold_fold
    by (intro fold_insert_lookup [where key = "\<lambda>gc. ucast (gc_iid gc)" and val = "\<lambda>gc. Some (gc_uuid gc)"])
      (use assms(2,3) in \<open>auto simp: update_conv\<close>)
qed

lemma signature_of_signed:
  assumes "signed C n gc" and "parse_signature (cf_signature C (gc_iid gc)) = Inr sig"
  shows "ch_iid (signature_of C gc) = ucast (gc_iid gc)" and "ch_format (signature_of C gc) = sig_format sig"
  using assms by (simp_all add: signature_of_def signature_characteristic_def)

lemma char_map_lookup:
  assumes tree: "tree_ok C n svcs" "iids_distinct svcs" and gs: "gs \<in> set svcs" and gc: "gc \<in> set (modelled gs)"
    and sig: "parse_signature (cf_signature C (gc_iid gc)) = Inr sig"
  shows "map_of (char_map svcs [\<lparr>acc_aid = 1, services = db_services C svcs\<rparr>]) (1, ucast (gc_iid gc)) =
    Some (gc_uuid gc, sig_format sig)"
proof -
  let ?chs = "concat (map (\<lambda>gs. map (signature_of C) (modelled gs)) svcs)"
  have chs: "concat (map characteristics (db_services C svcs)) = ?chs" by (simp add: db_services_def comp_def)
  have iid: "ch_iid (signature_of C gc) = ucast (gc_iid gc)" if "gs \<in> set svcs" "gc \<in> set (modelled gs)" for gs gc
    using tree(1) that signature_of_signed(1) [of C n gc] by (fastforce simp: tree_ok_def list_all_iff signed_def)
  have "map ch_iid ?chs = map (\<lambda>gc. ucast (gc_iid gc)) (concat (map modelled svcs))"
    using iid by (simp add: map_concat comp_def cong: map_cong)
  moreover have "distinct (map (\<lambda>gc. ucast (gc_iid gc) :: u64) (concat (map modelled svcs)))"
  proof -
    have "concat (map modelled svcs) =
        filter (\<lambda>gc. \<not> eq_ignore_ascii_case (gc_uuid gc) SERVICE_SIGNATURE_CHAR) (concat (map gs_characteristics svcs))"
      by (simp add: filter_concat modelled_def [abs_def] comp_def)
    then show ?thesis
      using tree(2) by (auto simp: iids_distinct_def distinct_map inj_on_def)
  qed
  ultimately have "distinct (map ch_iid ?chs)" by simp
  then have "distinct (map (Pair (1 :: u64)) (map ch_iid ?chs))" by (subst distinct_map) (simp add: inj_on_def)
  then have dist: "distinct (map (\<lambda>ch. (1 :: u64, ch_iid ch)) ?chs)" by (simp only: map_map comp_def)
  have "map_of (uuid_by_iid svcs) (ucast (gc_iid gc)) = Some (gc_uuid gc)"
    by (rule uuid_by_iid_lookup [OF tree(2) gs]) (use gc in \<open>simp add: modelled_def\<close>)
  then have val: "map_option (\<lambda>uuid. (uuid, ch_format (signature_of C gc))) (map_of (uuid_by_iid svcs) (ch_iid (signature_of C gc))) =
      Some (gc_uuid gc, sig_format sig)"
    using iid [OF gs gc] sig by (simp add: signature_of_def signature_characteristic_def)
  have "map_of (char_map svcs [\<lparr>acc_aid = 1, services = db_services C svcs\<rparr>]) (1, ch_iid (signature_of C gc)) =
      Some (gc_uuid gc, sig_format sig)"
    unfolding char_map_def fold_simps Accessory.simps id_apply fold_fold chs
    by (intro fold_insert_lookup [where key = "\<lambda>ch. (1, ch_iid ch)" and
        val = "\<lambda>ch. map_option (\<lambda>uuid. (uuid, ch_format ch)) (map_of (uuid_by_iid svcs) (ch_iid ch))" and
        x = "signature_of C gc"] dist val)
      (use gs gc in \<open>auto simp: update_conv split: option.splits\<close>)
  then show ?thesis by (simp add: iid [OF gs gc])
qed

lemma ble_pair_verify_new:
  "ble_pair_verify P G g u iid kp acc k eph = Some (Inr (session, bkey), g') \<Longrightarrow>
     bs_send_counter session = 0 \<and> bs_recv_counter session = 0"
  by (auto simp: ble_pair_verify_def BleSession_new_def case_prod_unfold Let_def elim!: and_then_InrE)

text \<open>Both ends hold one session: the keys crosswise equal, each counter that of the other direction's
  end, and the handle's record of the link generation current.\<close>

definition same_session :: "'a ble_peer \<Rightarrow> Secure \<Rightarrow> bool" where
  "same_session p sec \<longleftrightarrow>
     (\<exists>s. peer_session p = Some s \<and>
        write_key (bs_keys s) = read_key (bs_keys (sec_session sec)) \<and> read_key (bs_keys s) = write_key (bs_keys (sec_session sec)) \<and>
        bs_send_counter s = bs_recv_counter (sec_session sec) \<and> bs_recv_counter s = bs_send_counter (sec_session sec)) \<and>
     sec_generation sec = peer_generation p"

lemma fresh_same_session: "fresh P (p, sec) \<Longrightarrow> same_session p sec"
  by (auto simp: fresh_def secure_at_def sealed_view_def same_session_def ble_sync_def at_generation_def)

lemma ble_connect_peer:
  assumes ok: "link_ok P C kp n" and q: "quiet gen p" and tree: "tree_ok C n svcs"
    and iids: "iid_of svcs PAIR_VERIFY_CHAR = Inr vi" "iid_of svcs PAIRINGS_CHAR = Inr pi" and vals: "values_ok (stored p)"
  shows "\<exists>a. ble_connect P (app_gatt P C n svcs) p kp \<lparr>pairing_id = cf_id C, acc_ltpk = ltpk P (cf_keypair C)\<rparr> bc eph =
      (Inr a, ba_gatt a) \<and> linked P C kp a \<and> fresh P (ba_gatt a, ba_secure a) \<and> \<not> lossy (ba_gatt a) \<and> stored (ba_gatt a) = stored p \<and>
      (protocol_info_service_iid svcs = None \<longrightarrow>
         bs_send_counter (sec_session (ba_secure a)) = 0 \<and> bs_recv_counter (sec_session (ba_secure a)) = 0) \<and>
      ba_last_gsn a = (case bc of None \<Rightarrow> 0 | Some b \<Rightarrow> bb_gsn b) \<and>
      ba_accessories a = [\<lparr>acc_aid = 1, services = db_services C svcs\<rparr>] \<and> ba_chars a = char_map svcs (ba_accessories a)"
proof -
  let ?G = "app_gatt P C n svcs" and ?acc = "\<lparr>pairing_id = cf_id C, acc_ltpk = ltpk P (cf_keypair C)\<rparr>"
  have n: "20 \<le> n" "n \<le> 512" using ok by (auto simp: link_ok_def)
  obtain p1 where p1: "build_db ?G p svcs n = (Inr [\<lparr>acc_aid = 1, services = db_services C svcs\<rparr>], p1)"
      "quiet gen p1" "peer_app p1 = peer_app p"
    using build_db_peer [OF q tree n(2), of P svcs] by blast
  have idle1: "idle_at gen p1" "\<not> lossy p1" using p1(2) by (simp_all add: quiet_def)
  obtain session bkey p2 where p2: "ble_pair_verify P ?G p1 PAIR_VERIFY_CHAR vi kp ?acc n eph = Some (Inr (session, bkey), p2)"
      "secure_at P gen p2 session" "stored p2 = stored p1" "\<not> lossy p2"
    using ble_pair_verify_link [OF ok n(2) idle1(1), of svcs vi eph] idle1(2) by auto
  obtain p3 session3 where p3: "request_broadcast_key P ?G p2 session svcs n = (p3, session3)"
      "secure_at P gen p3 session3" "\<not> lossy p3" "peer_app p3 = peer_app p2"
    using request_broadcast_key_peer [OF p2(2,4) n, of C svcs svcs] by blast
  have new: "protocol_info_service_iid svcs = None \<Longrightarrow> bs_send_counter session3 = 0 \<and> bs_recv_counter session3 = 0"
    using ble_pair_verify_new [OF p2(1)] p3(1) by (simp add: request_broadcast_key_def)
  show ?thesis
    using p1 p2 p3 iids n vals secure_at_generation [OF p3(2)] new
    by (simp add: ble_connect_def verify_and_build_def BleAccessory_new_def linked_def recoverable_def fresh_def
        reviver_ok_def split: option.splits)
qed

section \<open>Properties\<close>

text \<open>A paired accessory for the examples: a switch whose \<open>On\<close> is off, on a link at generation 1.\<close>

definition toy_conf :: ble_conf where
  "toy_conf = \<lparr>cf_keypair = toy_akp, cf_id = ascii ''acc'', cf_controller = (kp_id toy_kp, ltpk toy_prims toy_kp),
     cf_eph = [3], cf_signature = (\<lambda>_. toy_signature)\<rparr>"

definition toy_peer :: "ble_app ble_peer" where
  "toy_peer = \<lparr>peer_session = None, peer_next = None, peer_generation = 1, peer_drops = [], peer_in = [], peer_out = [],
     peer_app = \<lparr>ap_verify = None, ap_values = [10 \<mapsto> [0]]\<rparr>\<rparr>"

definition toy_tree :: "GattService list" where
  "toy_tree =
     [\<lparr>gs_uuid = ascii ''00000049-0000-1000-8000-0026bb765291'', gs_iid = 8, gs_characteristics =
        [\<lparr>gc_uuid = ascii ''00000025-0000-1000-8000-0026bb765291'', gc_iid = 10\<rparr>,
         \<lparr>gc_uuid = PAIR_VERIFY_CHAR, gc_iid = 11\<rparr>, \<lparr>gc_uuid = PAIRINGS_CHAR, gc_iid = 12\<rparr>]\<rparr>]"

text \<open>A handle whose session was made at generation 0.\<close>

definition toy_handle :: "ble_app ble_peer BleAccessory" where
  "toy_handle = BleAccessory_new toy_peer
     \<lparr>sx_session = BleSession_new \<lparr>read_key = [], write_key = []\<rparr>, sx_session_generation = 0, sx_keypair = toy_kp,
      sx_pairing = \<lparr>pairing_id = ascii ''acc'', acc_ltpk = ltpk toy_prims toy_akp\<rparr>, sx_verify_char = PAIR_VERIFY_CHAR,
      sx_verify_iid = 11, sx_pairings_char = PAIRINGS_CHAR, sx_pairings_iid = 12, sx_broadcast_key = [],
      sx_initial_gsn = 0\<rparr> 20 [] []
     \<lparr>ba_chars := [((1, 10), (ascii ''00000025-0000-1000-8000-0026bb765291'', FBool))]\<rparr>"

lemma toy_link_ok: "link_ok toy_prims toy_conf toy_kp 20"
  by (simp add: link_ok_def toy_conf_def toy_kp_def from_seed_def ascii_def)

lemma toy_quiet: "quiet 1 toy_peer"
  by (simp add: quiet_def idle_at_def plain_view_def at_generation_def toy_peer_def)

lemma toy_values_ok: "values_ok (stored toy_peer)"
  by (simp add: values_ok_def toy_peer_def)

lemma toy_linked: "linked toy_prims toy_conf toy_kp toy_handle"
  using toy_quiet toy_values_ok
  by (simp add: linked_def toy_handle_def BleAccessory_new_def recoverable_def stale_def quiet_def reviver_ok_def
      toy_conf_def) (simp add: toy_peer_def)

text \<open>C7. The Bluetooth handle is a typed store over a link that drops at any moment.  For every sequence of
  reads and writes, each result is that of the store, or the operation reports the dropped link and
  the store has its value from before or after it; nothing else happens, and the handle goes on
  working, since it notices the lost session and runs Pair Verify again.  Without drops, even
  with a session that was lost before, the results are exactly those of the store.\<close>

theorem ble_client_refines_store:
  assumes "link_ok P C kp n" and "linked P C kp a" and "list_all (op_ok (ba_chars a)) ops"
    and "handle_ops P (app_gatt P C n svcs) ephs a ops = (rs, a')"
  shows "store_steps (ba_chars a) (stored (ba_gatt a)) ops rs (stored (ba_gatt a')) \<and> linked P C kp a' \<and>
    (\<not> lossy (ba_gatt a) \<longrightarrow> spec_ops (ba_chars a) (stored (ba_gatt a)) ops = (rs, stored (ba_gatt a')))"
  by (rule handle_ops_link [OF assms])

theorem ble_client_refines_store_witness:
  "\<exists>a'. handle_ops toy_prims (app_gatt toy_prims toy_conf 20 []) (\<lambda>_ _. [4]) toy_handle
      [BWrite 1 10 (VBool True), BRead 1 10, BRead 1 11] =
      ([RWrote (Inr ()), RRead (Inr (VBool True)), RRead (Inl (CharacteristicNotFound 1 11))], a') \<and>
    stored (ba_gatt a') 10 = Some [1]"
proof -
  let ?ops = "[BWrite 1 10 (VBool True), BRead 1 10, BRead 1 11]"
  obtain rs a' where h: "handle_ops toy_prims (app_gatt toy_prims toy_conf 20 []) (\<lambda>_ _. [4]) toy_handle ?ops = (rs, a')"
    by fastforce
  have chars: "ba_chars toy_handle = [((1, 10), (ascii ''00000025-0000-1000-8000-0026bb765291'', FBool))]"
      "stored (ba_gatt toy_handle) = [10 \<mapsto> [0]]" "\<not> lossy (ba_gatt toy_handle)"
    by (simp_all add: toy_handle_def BleAccessory_new_def toy_peer_def)
  have ops: "list_all (op_ok (ba_chars toy_handle)) ?ops"
    by (simp add: chars PAIR_VERIFY_CHAR_def ascii_def)
  have "spec_ops (ba_chars toy_handle) (stored (ba_gatt toy_handle)) ?ops = (rs, stored (ba_gatt a'))"
    using ble_client_refines_store [OF toy_link_ok toy_linked ops h] chars(3) by blast
  moreover have "spec_ops (ba_chars toy_handle) (stored (ba_gatt toy_handle)) ?ops =
      ([RWrote (Inr ()), RRead (Inr (VBool True)), RRead (Inl (CharacteristicNotFound 1 11))], [10 \<mapsto> [1]])"
    by (simp add: chars spec_write_def spec_read_def try_iid16_def try_u16_def decode_value_def need_def ok_or_def)
  ultimately show ?thesis using h by auto
qed

text \<open>C12. Connecting to a paired accessory over a link that stays up succeeds: the database is read, Pair
  Verify run and the broadcast key requested.  The accessory had no session before; afterwards both
  ends hold one session, with the same keys in each direction, counters that agree in each direction
  (both zero if the accessory has no characteristic to request a broadcast key from, so that nothing
  was sent yet) and the current generation of the link.  The handle takes up the stored state number,
  holds the accessory's database, and addresses every characteristic by the UUID of the GATT tree and
  the format of its signature; the accessory's values are untouched.\<close>

theorem ble_connect_links:
  assumes "link_ok P C kp n" and "quiet gen p" and "tree_ok C n svcs" and "iids_distinct svcs"
    and "iid_of svcs PAIR_VERIFY_CHAR = Inr vi" and "iid_of svcs PAIRINGS_CHAR = Inr pi" and "values_ok (stored p)"
  shows "peer_session p = None \<and>
    (\<exists>a. ble_connect P (app_gatt P C n svcs) p kp \<lparr>pairing_id = cf_id C, acc_ltpk = ltpk P (cf_keypair C)\<rparr> bc eph =
        (Inr a, ba_gatt a) \<and> same_session (ba_gatt a) (ba_secure a) \<and>
      (protocol_info_service_iid svcs = None \<longrightarrow>
         bs_send_counter (sec_session (ba_secure a)) = 0 \<and> bs_recv_counter (sec_session (ba_secure a)) = 0) \<and>
      linked P C kp a \<and> stored (ba_gatt a) = stored p \<and>
      ba_last_gsn a = (case bc of None \<Rightarrow> 0 | Some b \<Rightarrow> bb_gsn b) \<and>
      ba_accessories a = [\<lparr>acc_aid = 1, services = db_services C svcs\<rparr>] \<and>
      (\<forall>gs\<in>set svcs. \<forall>gc\<in>set (modelled gs). \<exists>sig. parse_signature (cf_signature C (gc_iid gc)) = Inr sig \<and>
         map_of (ba_chars a) (1, ucast (gc_iid gc)) = Some (gc_uuid gc, sig_format sig)))"
proof -
  obtain a where a: "ble_connect P (app_gatt P C n svcs) p kp \<lparr>pairing_id = cf_id C, acc_ltpk = ltpk P (cf_keypair C)\<rparr> bc eph =
        (Inr a, ba_gatt a)" "linked P C kp a" "fresh P (ba_gatt a, ba_secure a)" "stored (ba_gatt a) = stored p"
      "protocol_info_service_iid svcs = None \<longrightarrow>
         bs_send_counter (sec_session (ba_secure a)) = 0 \<and> bs_recv_counter (sec_session (ba_secure a)) = 0"
      "ba_last_gsn a = (case bc of None \<Rightarrow> 0 | Some b \<Rightarrow> bb_gsn b)"
      "ba_accessories a = [\<lparr>acc_aid = 1, services = db_services C svcs\<rparr>]" "ba_chars a = char_map svcs (ba_accessories a)"
    using ble_connect_peer [OF assms(1-3,5-7), of bc eph] by (elim exE conjE) (rule that)
  have "\<exists>sig. parse_signature (cf_signature C (gc_iid gc)) = Inr sig \<and>
      map_of (ba_chars a) (1, ucast (gc_iid gc)) = Some (gc_uuid gc, sig_format sig)"
    if m: "gs \<in> set svcs" "gc \<in> set (modelled gs)" for gs gc
  proof -
    obtain sig where "parse_signature (cf_signature C (gc_iid gc)) = Inr sig"
      using assms(3) m by (fastforce simp: tree_ok_def signed_def list_all_iff)
    then show ?thesis using char_map_lookup [OF assms(3,4) m] a(7,8) by auto
  qed
  moreover have "peer_session p = None" using assms(2) by (simp add: quiet_def idle_at_def plain_view_def)
  ultimately show ?thesis
    using a(1,2,4-7) fresh_same_session [OF a(3)] by (intro conjI exI [of _ a] ballI; simp)
qed

lemma toy_tree_facts:
  "eq_ignore_ascii_case PAIR_VERIFY_CHAR PAIR_VERIFY_CHAR" "eq_ignore_ascii_case PAIRINGS_CHAR PAIRINGS_CHAR"
  "\<not> eq_ignore_ascii_case (ascii ''00000025-0000-1000-8000-0026bb765291'') PAIR_VERIFY_CHAR"
  "\<not> eq_ignore_ascii_case (ascii ''00000025-0000-1000-8000-0026bb765291'') PAIRINGS_CHAR"
  "\<not> eq_ignore_ascii_case PAIR_VERIFY_CHAR PAIRINGS_CHAR"
  by (simp_all add: eq_ignore_ascii_case_def PAIR_VERIFY_CHAR_def PAIRINGS_CHAR_def str_lowercase_def ascii_def
      to_ascii_lowercase_def in_range_def)

lemma toy_tree_ok: "tree_ok toy_conf 20 toy_tree" "iids_distinct toy_tree"
    "iid_of toy_tree PAIR_VERIFY_CHAR = Inr 11" "iid_of toy_tree PAIRINGS_CHAR = Inr 12"
proof -
  have "length toy_signature = 31" by code_simp
  then have "signed toy_conf 20 gc" for gc
    using toy_signature_parses by (simp add: signed_def toy_conf_def peer_ok_def aead_max_def)
  then show "tree_ok toy_conf 20 toy_tree"
    using toy_service_type by (simp add: tree_ok_def toy_tree_def list_all_iff)
  show "iids_distinct toy_tree" by (simp add: iids_distinct_def toy_tree_def)
  show "iid_of toy_tree PAIR_VERIFY_CHAR = Inr 11" "iid_of toy_tree PAIRINGS_CHAR = Inr 12"
    using toy_tree_facts by (simp_all add: iid_of_def toy_tree_def)
qed

theorem ble_connect_links_witness:
  "\<exists>a. ble_connect toy_prims (app_gatt toy_prims toy_conf 20 toy_tree) toy_peer toy_kp
        \<lparr>pairing_id = ascii ''acc'', acc_ltpk = ltpk toy_prims toy_akp\<rparr> None [4] = (Inr a, ba_gatt a) \<and>
      same_session (ba_gatt a) (ba_secure a) \<and> stored (ba_gatt a) 10 = Some [0]"
proof -
  have "\<lparr>pairing_id = cf_id toy_conf, acc_ltpk = ltpk toy_prims (cf_keypair toy_conf)\<rparr> =
      \<lparr>pairing_id = ascii ''acc'', acc_ltpk = ltpk toy_prims toy_akp\<rparr>" by (simp add: toy_conf_def)
  note connects = ble_connect_links [OF toy_link_ok toy_quiet toy_tree_ok toy_values_ok, of None "[4]", unfolded this]
  have "stored toy_peer 10 = Some [0]" by (simp add: toy_peer_def)
  then show ?thesis using connects by metis
qed

end
