(* ===== verification/Record_Layer.thy ===== *)
theory Record_Layer
  imports Channel
begin

text \<open>
  The record layer of the IP transport, \<open>hap-transport/src/record.rs\<close>, and the transport's error
  type, \<open>hap-transport/src/error.rs\<close>.  A method that advances the counter returns the new one.
\<close>

datatype TransportError =
    IoError
  | Mdns str
  | DiscoveryTxt str
  | MalformedHttp str
  | UnsupportedEncoding str
  | InvalidFrameLength nat
  | Decrypt
  | ConnectionClosed
  | SessionClosed
  | NoResponse

definition MAX_BLOCK :: nat where "MAX_BLOCK = 1024"
definition TAG_LEN :: nat where "TAG_LEN = 16"
definition LEN_PREFIX :: nat where "LEN_PREFIX = 2"

type_synonym NonceCounter = u64

definition NonceCounter_new :: NonceCounter where
  "NonceCounter_new = 0"

definition NonceCounter_nonce :: "NonceCounter \<Rightarrow> bytes" where
  "NonceCounter_nonce c = take 4 (replicate 12 0) @ u64_to_le c"

definition NonceCounter_advance :: "NonceCounter \<Rightarrow> NonceCounter" where
  "NonceCounter_advance c = c + 1"

definition encrypt_frame ::
    "prims \<Rightarrow> bytes \<Rightarrow> NonceCounter \<Rightarrow> bytes \<Rightarrow> (TransportError + bytes) \<times> NonceCounter" where
  "encrypt_frame P key counter block =
     (if length block > MAX_BLOCK then (Inl (InvalidFrameLength (length block)), counter)
      else
        case try_u16 (length block) of
          None \<Rightarrow> (Inl (InvalidFrameLength (length block)), counter)
        | Some len \<Rightarrow>
            let aad = u16_to_le len;
                nonce = NonceCounter_nonce counter in
            (case chacha20poly1305_seal P key nonce aad block of
               Inl _ \<Rightarrow> (Inl (InvalidFrameLength (length block)), counter)
             | Inr ciphertext_and_tag \<Rightarrow>
                 (Inr (aad @ ciphertext_and_tag), NonceCounter_advance counter)))"

definition decrypt_frame ::
    "prims \<Rightarrow> bytes \<Rightarrow> NonceCounter \<Rightarrow> bytes \<Rightarrow> (TransportError + bytes option) \<times> NonceCounter" where
  "decrypt_frame P key counter buf =
     (if length buf < LEN_PREFIX then (Inr None, counter)
      else
        let declared = unat (u16_from_le (buf ! 0) (buf ! 1)) in
        if declared > MAX_BLOCK then (Inl (InvalidFrameLength declared), counter)
        else
          let total = LEN_PREFIX + declared + TAG_LEN in
          if length buf < total then (Inr None, counter)
          else
            let aad = take LEN_PREFIX buf;
                ciphertext_and_tag = slice buf LEN_PREFIX total;
                nonce = NonceCounter_nonce counter in
            (case chacha20poly1305_open P key nonce aad ciphertext_and_tag of
               Inl _ \<Rightarrow> (Inl Decrypt, counter)
             | Inr plaintext \<Rightarrow> (Inr (Some plaintext), NonceCounter_advance counter)))"

definition frame_len :: "nat \<Rightarrow> nat" where
  "frame_len declared = LEN_PREFIX + declared + TAG_LEN"

lemmas record_consts = MAX_BLOCK_def TAG_LEN_def LEN_PREFIX_def
  chacha20poly1305_seal_def chacha20poly1305_open_def

section \<open>Frames\<close>

text \<open>\<open>frame_of\<close>: what one sealed block looks like on the wire.\<close>

definition frame_of :: "prims \<Rightarrow> bytes \<Rightarrow> NonceCounter \<Rightarrow> bytes \<Rightarrow> bytes \<Rightarrow> bool" where
  "frame_of P key counter block frame \<longleftrightarrow>
     (\<exists>ct. aead_encrypt P key (NonceCounter_nonce counter) (u16_to_le (of_nat (length block))) block = Inr ct \<and>
           frame = u16_to_le (of_nat (length block)) @ ct)"

lemma try_u16_block: "length b \<le> 1024 \<Longrightarrow> try_u16 (length b) = Some (of_nat (length b))"
  by (simp add: try_u16_def)

lemma unat_block: "length b \<le> 1024 \<Longrightarrow> unat (of_nat (length b) :: u16) = length b"
  by (simp add: unat_of_nat)

lemma encrypt_frame_ok:
  assumes "aead_laws P" and "length b \<le> MAX_BLOCK"
  shows "\<exists>frame. encrypt_frame P key c b = (Inr frame, c + 1) \<and> frame_of P key c b frame"
proof -
  have "length b \<le> aead_max" using assms(2) by (simp add: record_consts aead_max_def)
  then obtain ct where "aead_encrypt P key (NonceCounter_nonce c) (u16_to_le (of_nat (length b))) b = Inr ct"
    using aead_encrypt_ok [OF assms(1)] by blast
  then show ?thesis
    using assms(2)
    by (simp add: encrypt_frame_def frame_of_def try_u16_block record_consts NonceCounter_advance_def)
qed

lemma encrypt_frame_Inl: "encrypt_frame P key c b = (Inl e, c') \<Longrightarrow> c' = c"
  by (auto simp: encrypt_frame_def Let_def split: if_splits option.splits sum.splits)

lemma decrypt_frame_not_Some: "decrypt_frame P key c buf = (r, c') \<Longrightarrow> (\<nexists>m. r = Inr (Some m)) \<Longrightarrow> c' = c"
  by (auto simp: decrypt_frame_def Let_def split: if_splits sum.splits)

lemma frame_of_length:
  assumes "aead_laws P" and "frame_of P key c b frame" and "length b \<le> MAX_BLOCK"
  shows "length frame = frame_len (length b)"
proof -
  have "length b \<le> aead_max" using assms(3) by (simp add: record_consts aead_max_def)
  then show ?thesis
    using assms(2) aead_decrypt_encrypt(2) [OF assms(1)]
    by (auto simp: frame_of_def frame_len_def record_consts)
qed

lemma decrypt_frame_of:
  assumes laws: "aead_laws P" and f: "frame_of P key c b frame" and len: "length b \<le> MAX_BLOCK"
  shows "decrypt_frame P key c (frame @ rest) = (Inr (Some b), c + 1)"
proof -
  let ?l = "of_nat (length b) :: u16"
  obtain ct where ct: "aead_encrypt P key (NonceCounter_nonce c) (u16_to_le ?l) b = Inr ct"
    and frame: "frame = u16_to_le ?l @ ct"
    using f by (auto simp: frame_of_def)
  have "length b \<le> aead_max" using len by (simp add: record_consts aead_max_def)
  then have dec: "aead_decrypt P key (NonceCounter_nonce c) (u16_to_le ?l) ct = Inr b"
    and lct: "length ct = length b + 16"
    using aead_decrypt_encrypt [OF laws ct] by auto
  obtain x y where xy: "u16_to_le ?l = [x, y]" "u16_from_le x y = ?l"
    using u16_to_le_Cons by blast
  have "unat ?l = length b" using len unat_block by (simp add: record_consts)
  then show ?thesis
    using dec lct len unfolding frame xy(1)
    by (simp add: decrypt_frame_def record_consts slice_def NonceCounter_advance_def xy
        del: unat_u16_from_le)
qed

lemma decrypt_frame_partial:
  assumes "aead_laws P" and "frame_of P key c b frame" and "length b \<le> MAX_BLOCK"
    and "k < length frame"
  shows "decrypt_frame P key c (take k frame) = (Inr None, c)"
proof (cases "k < 2")
  case True
  then have "length (take k frame) < 2" by (simp add: min_less_iff_disj)
  then show ?thesis by (simp add: decrypt_frame_def record_consts)
next
  case False
  let ?l = "of_nat (length b) :: u16"
  obtain ct where frame: "frame = u16_to_le ?l @ ct"
    using assms(2) by (auto simp: frame_of_def)
  obtain x y where xy: "u16_to_le ?l = [x, y]" "u16_from_le x y = ?l"
    using u16_to_le_Cons by blast
  have hd: "take k frame ! 0 = x" "take k frame ! 1 = y"
    using False frame xy by simp_all
  have "unat ?l = length b" using assms(3) unat_block by (simp add: record_consts)
  then show ?thesis
    using hd xy(2) assms(3,4) frame_of_length [OF assms(1-3)] False
    by (simp add: decrypt_frame_def frame_len_def record_consts del: unat_u16_from_le)
qed

lemma decrypt_frame_Some:
  assumes "aead_laws P" and "decrypt_frame P key c buf = (Inr (Some b), c')"
  shows "c' = c + 1" and "\<exists>frame rest. buf = frame @ rest \<and> frame_of P key c b frame \<and> length b \<le> MAX_BLOCK"
proof -
  show "c' = c + 1"
    using assms(2) by (auto simp: decrypt_frame_def Let_def NonceCounter_advance_def split: if_splits sum.splits)
  let ?d = "unat (u16_from_le (buf ! 0) (buf ! 1))"
  have len: "2 + ?d + 16 \<le> length buf" and d: "?d \<le> 1024"
    and dec: "aead_decrypt P key (NonceCounter_nonce c) (take 2 buf) (slice buf 2 (2 + ?d + 16)) = Inr b"
    using assms(2)
    by (auto simp: decrypt_frame_def Let_def record_consts split: if_splits sum.splits
        simp del: unat_u16_from_le)
  let ?frame = "take (2 + ?d + 16) buf"
  have lb: "length b = ?d" using aead_decrypt_Inr(2) [OF assms(1) dec] len by simp
  obtain x y r where buf: "buf = x # y # r"
    using len by (cases buf; cases "tl buf") auto
  have aad: "take 2 buf = u16_to_le (of_nat (length b))"
    unfolding lb by (simp add: buf del: unat_u16_from_le)
  have "?frame = take 2 buf @ slice buf 2 (2 + ?d + 16)"
    by (simp only: slice_def add.assoc take_add diff_add_inverse)
  then have "frame_of P key c b ?frame"
    using aead_decrypt_Inr(1) [OF assms(1) dec] aad by (simp add: frame_of_def)
  moreover have "length b \<le> MAX_BLOCK" using lb d by (simp add: MAX_BLOCK_def)
  ultimately show "\<exists>frame rest. buf = frame @ rest \<and> frame_of P key c b frame \<and> length b \<le> MAX_BLOCK"
    by (intro exI [of _ ?frame] exI [of _ "drop (2 + ?d + 16) buf"])
      (simp only: append_take_drop_id simp_thms)
qed

section \<open>The record layer as a channel\<close>

text \<open>One direction: the key and the counter of each end.\<close>

definition seal_record ::
    "prims \<Rightarrow> bytes \<times> NonceCounter \<Rightarrow> bytes \<Rightarrow> (TransportError + bytes) \<times> bytes \<times> NonceCounter" where
  "seal_record P = (\<lambda>(key, counter) block.
     let (r, counter') = encrypt_frame P key counter block in (r, key, counter'))"

definition open_record ::
    "prims \<Rightarrow> bytes \<times> NonceCounter \<Rightarrow> bytes \<Rightarrow> (TransportError option + bytes) \<times> bytes \<times> NonceCounter" where
  "open_record P = (\<lambda>(key, counter) buf.
     let (r, counter') = decrypt_frame P key counter buf in
     (case r of Inl e \<Rightarrow> Inl (Some e) | Inr None \<Rightarrow> Inl None | Inr (Some b) \<Rightarrow> Inr b, key, counter'))"

interpretation rec: counter_channel seal_record open_record "(=)" "\<lambda>b. length b \<le> MAX_BLOCK"
proof
  fix P and s r :: "bytes \<times> NonceCounter" and m :: bytes
  assume laws: "aead_laws P" and s: "s = r" and m: "length m \<le> MAX_BLOCK"
  obtain key c where k: "r = (key, c)" by fastforce
  obtain frame where "encrypt_frame P key c m = (Inr frame, c + 1)" "frame_of P key c m frame"
    using encrypt_frame_ok [OF laws m] by blast
  then show "\<exists>c s' r'. seal_record P s m = (Inr c, s') \<and> open_record P r c = (Inr m, r') \<and> s' = r'"
    using decrypt_frame_of [OF laws _ m, of key c frame "[]"]
    by (simp add: k s seal_record_def open_record_def)
next
  fix P and r r' :: "bytes \<times> NonceCounter" and c e
  assume "open_record P r c = (Inl e, r')"
  then show "r' = r"
    using decrypt_frame_not_Some [of P "fst r" "snd r" c]
    by (cases r) (auto simp: open_record_def Let_def split: prod.splits sum.splits option.splits)
next
  fix P and s s' :: "bytes \<times> NonceCounter" and m e
  assume "seal_record P s m = (Inl e, s')"
  then show "s' = s"
    using encrypt_frame_Inl [of P "fst s" "snd s" m]
    by (cases s) (auto simp: seal_record_def Let_def split: prod.splits)
qed

section \<open>Properties\<close>

lemma encrypt_frame_iff:
  assumes "aead_laws P"
  shows "encrypt_frame P key c b = (Inr frame, c') \<longleftrightarrow>
         length b \<le> MAX_BLOCK \<and> frame_of P key c b frame \<and> c' = c + 1"
proof (cases "length b \<le> MAX_BLOCK")
  case True
  then obtain f where "encrypt_frame P key c b = (Inr f, c + 1)" "frame_of P key c b f"
    using encrypt_frame_ok [OF assms] by blast
  then show ?thesis using True by (auto simp: frame_of_def)
next
  case False
  then show ?thesis by (simp add: encrypt_frame_def)
qed

text \<open>The receiver accepts a block exactly when the buffer starts with the frame that sealing that
  block with the same key and counter produces; it then advances the counter by one.  A buffer that
  holds only part of such a frame is reported as incomplete with the counter unchanged, however it
  was cut, and a block above 1024 bytes is never sealed.\<close>

theorem record_frame_exact:
  assumes "aead_laws P"
  shows "(decrypt_frame P key c buf = (Inr (Some b), c') \<longleftrightarrow>
            c' = c + 1 \<and> (\<exists>frame rest. encrypt_frame P key c b = (Inr frame, c + 1) \<and> buf = frame @ rest)) \<and>
         (encrypt_frame P key c b = (Inr frame, c'') \<longrightarrow>
            length b \<le> MAX_BLOCK \<and> length frame = frame_len (length b) \<and>
            (k < length frame \<longrightarrow> decrypt_frame P key c (take k frame) = (Inr None, c)))"
proof -
  have "decrypt_frame P key c buf = (Inr (Some b), c') \<longleftrightarrow>
      c' = c + 1 \<and> (\<exists>frame rest. encrypt_frame P key c b = (Inr frame, c + 1) \<and> buf = frame @ rest)"
    using decrypt_frame_Some [OF assms, of key c buf b c'] decrypt_frame_of [OF assms]
    by (auto simp: encrypt_frame_iff [OF assms])
  then show ?thesis
    using frame_of_length [OF assms] decrypt_frame_partial [OF assms]
    unfolding encrypt_frame_iff [OF assms] by blast
qed

theorem record_frame_exact_witness:
  "\<exists>frame. encrypt_frame toy_prims [9] 3 [1, 2] = (Inr frame, 4) \<and>
     decrypt_frame toy_prims [9] 3 (frame @ [7]) = (Inr (Some [1, 2]), 4) \<and>
     decrypt_frame toy_prims [9] 3 (take 5 frame) = (Inr None, 3)"
proof -
  obtain frame where f: "encrypt_frame toy_prims [9] 3 [1, 2] = (Inr frame, 4)"
    using encrypt_frame_ok [OF toy_aead_laws, of "[1, 2]" "[9]" 3] by (auto simp: MAX_BLOCK_def)
  have "decrypt_frame toy_prims [9] 3 (frame @ [7]) = (Inr (Some [1, 2]), 4)"
    using record_frame_exact [OF toy_aead_laws, of "[9]" 3 "frame @ [7]" "[1, 2]" 4] f by auto
  moreover have "decrypt_frame toy_prims [9] 3 (take 5 frame) = (Inr None, 3)"
    using record_frame_exact [OF toy_aead_laws, of "[9]" 3 _ "[1, 2]" _ frame 4 5] f
    by (auto simp: frame_len_def record_consts)
  ultimately show ?thesis using f by blast
qed

text \<open>C26. Over one direction of a session, blocks sealed in order and delivered in order are received
  exactly and in order, even with forged, replayed or truncated payloads in between that the
  receiver refuses: a refusal changes neither counter, and both ends stay in step.\<close>

theorem record_in_order_delivery:
  assumes "aead_laws P" and "list_all (\<lambda>b. length b \<le> MAX_BLOCK) blocks"
    and "delivery (open_record P) (key, c) frames wire"
    and "seal_all (seal_record P) (key, c) blocks = (Inr frames, tx)"
  shows "open_each (open_record P) (key, c) wire = (blocks, tx)"
  using rec.in_order [OF assms(1) refl assms(2,4,3)] by auto

theorem record_in_order_delivery_witness:
  "\<exists>frames tx. seal_all (seal_record toy_prims) ([9], 0) [[1], [2, 3]] = (Inr frames, tx) \<and>
     open_each (open_record toy_prims) ([9], 0) ([] # frames) = ([[1], [2, 3]], tx)"
proof -
  obtain frames tx where s: "seal_all (seal_record toy_prims) ([9], 0) [[1], [2, 3]] = (Inr frames, tx)"
    using rec.seal_all_ok [OF toy_aead_laws refl, of "[[1], [2, 3]]" "([9], 0)"]
    by (auto simp: MAX_BLOCK_def)
  have garbage: "open_record toy_prims ([9], 0) [] = (Inl None, [9], 0)"
    by (simp add: open_record_def decrypt_frame_def LEN_PREFIX_def)
  obtain f1 f2 where frames: "frames = [f1, f2]"
    using s by (auto split: prod.splits sum.splits)
  have "delivery (open_record toy_prims) ([9], 0) frames ([] # frames)"
    by (simp add: frames garbage)
  then have "open_each (open_record toy_prims) ([9], 0) ([] # frames) = ([[1], [2, 3]], tx)"
    by (intro record_in_order_delivery [OF toy_aead_laws _ _ s]) (simp_all add: MAX_BLOCK_def)
  then show ?thesis using s by blast
qed

end
