(* ===== verification/Http.thy ===== *)
theory Http
  imports Record_Layer
begin

text \<open>
  The HTTP codec of the IP transport, \<open>hap-transport/src/http.rs\<close>.  A fault is a returned error or a
  panic; \<open>oc\<close> says whether the build checks integer overflow (a debug build) or wraps (a release
  build).  \<open>usize\<close> is 64 bits wide, and a slice is at most \<open>isize::MAX\<close> bytes long.
\<close>

datatype fault = Fault TransportError | Panic

record HapResponse =
  resp_status :: nat
  resp_content_type :: str
  resp_body :: bytes

datatype ParseOutcome = Complete HapResponse nat | Incomplete

definition CRLF :: bytes where "CRLF = [0x0D, 0x0A]"
definition EVENT_PREFIX :: bytes where "EVENT_PREFIX = ascii ''EVENT/1.0''"
definition HTTP_PREFIX :: bytes where "HTTP_PREFIX = ascii ''HTTP/1.1''"

definition encode_request :: "str \<Rightarrow> str \<Rightarrow> str \<Rightarrow> bytes \<Rightarrow> bytes" where
  "encode_request method path content_type body =
     (let head = method @ ascii '' '' @ path @ ascii '' HTTP/1.1'' @ CRLF @
                 ascii ''Content-Type: '' @ content_type @ CRLF @
                 ascii ''Content-Length: '' @ show_nat (length body) @ CRLF @ CRLF in
      head @ body)"

definition usize_add :: "bool \<Rightarrow> nat \<Rightarrow> nat \<Rightarrow> fault + nat" where
  "usize_add oc a b =
     (if a + b \<le> usize_max then Inr (a + b)
      else if oc then Inl Panic else Inr (a + b - Suc usize_max))"

definition malformed :: "string \<Rightarrow> fault" where
  "malformed msg = Fault (MalformedHttp (ascii msg))"

definition parse_status_code :: "bytes \<Rightarrow> fault + nat" where
  "parse_status_code start_line =
     (case split_on 0x20 start_line of
        _ # code # _ \<Rightarrow>
          ok_or (malformed ''non-numeric status code'')
            (if utf8_valid code then from_str_radix 10 65535 code else None)
      | _ \<Rightarrow> Inl (malformed ''missing status code''))"

definition strip_cr :: "bytes \<Rightarrow> bytes" where
  "strip_cr l = (if l \<noteq> [] \<and> last l = 0x0D then butlast l else l)"

definition split_crlf :: "bytes \<Rightarrow> bytes list" where
  "split_crlf block = map strip_cr (split_on 0x0A block)"

definition eq_ignore_ascii_case :: "str \<Rightarrow> str \<Rightarrow> bool" where
  "eq_ignore_ascii_case a b \<longleftrightarrow> map to_ascii_lowercase a = map to_ascii_lowercase b"

text \<open>The three variables the header loop assigns.\<close>

record headers =
  h_content_type :: str
  h_content_length :: "nat option"
  h_chunked :: bool

definition header_line :: "headers \<Rightarrow> bytes \<Rightarrow> fault + headers" where
  "header_line h line =
     (if 0x3A \<notin> set line then Inl (malformed ''header without colon'')
      else
        let name = map to_ascii_lowercase (trim (utf8_lossy (takeWhile (\<lambda>b. b \<noteq> 0x3A) line)));
            value = trim (utf8_lossy (tl (dropWhile (\<lambda>b. b \<noteq> 0x3A) line))) in
        if name = ascii ''content-type'' then Inr (h\<lparr>h_content_type := value\<rparr>)
        else if name = ascii ''content-length'' then
          and_then (ok_or (malformed ''bad Content-Length'') (from_str_radix 10 usize_max value)) (\<lambda>n.
          Inr (h\<lparr>h_content_length := Some n\<rparr>))
        else if name = ascii ''transfer-encoding'' then
          (if eq_ignore_ascii_case value (ascii ''chunked'') then Inr (h\<lparr>h_chunked := True\<rparr>)
           else Inl (Fault (UnsupportedEncoding value)))
        else Inr h)"

fun header_lines :: "headers \<Rightarrow> bytes list \<Rightarrow> fault + headers" where
  "header_lines h [] = Inr h"
| "header_lines h (l # ls) = and_then (header_line h l) (\<lambda>h'. header_lines h' ls)"

definition chunk_size :: "bytes \<Rightarrow> fault + nat" where
  "chunk_size line =
     and_then (require (utf8_valid line) (malformed ''bad chunk size'')) (\<lambda>_.
     ok_or (malformed ''bad chunk size'') (from_str_radix 16 usize_max (trim line)))"

text \<open>Where a chunk's end was computed without a panic and its data is inside the slice, nothing
  wrapped.\<close>

lemma chunk_end_exact:
  assumes "and_then (usize_add oc a n) (\<lambda>t. and_then (usize_add oc t 2) (\<lambda>ce. Inr (t, ce))) = Inr (t, ce)"
    and "\<not> t < a" and "\<not> l < t" and "\<not> isize_max < l" and "n \<le> usize_max"
  shows "t = a + n \<and> ce = a + n + 2"
proof -
  have "usize_add oc a n = Inr t" "usize_add oc t 2 = Inr ce" using assms(1) by (auto simp: result_simps)
  then show ?thesis
    using assms(2-5) by (auto simp: usize_add_def usize_max_def isize_max_def split: if_splits)
qed

lemma chunk_size_le: "chunk_size line = Inr n \<Longrightarrow> n \<le> usize_max"
  by (auto simp: chunk_size_def from_str_radix_def result_simps split: if_splits option.splits)

text \<open>No slice is longer than \<open>isize::MAX\<close> bytes; the loop's last guard says so for a buffer of the model.\<close>

function decode_chunked_loop :: "bool \<Rightarrow> bytes \<Rightarrow> bytes \<Rightarrow> nat \<Rightarrow> fault + (bytes \<times> nat) option" where
  "decode_chunked_loop oc rest body consumed =
     (case find_subslice rest CRLF of
        None \<Rightarrow> Inr None
      | Some nl \<Rightarrow>
          (case chunk_size (take nl rest) of
             Inl e \<Rightarrow> Inl e
           | Inr sz \<Rightarrow>
               let after_size = nl + 2 in
               if sz = 0 then
                 (let en = after_size + 2 in
                  if length rest < en then Inr None else Inr (Some (body, consumed + en)))
               else
                 (case and_then (usize_add oc after_size sz) (\<lambda>t.
                       and_then (usize_add oc t 2) (\<lambda>ce. Inr (t, ce))) of
                    Inl e \<Rightarrow> Inl e
                  | Inr (data_end, chunk_end) \<Rightarrow>
                      if length rest < chunk_end then Inr None
                      else if data_end < after_size \<or> length rest < data_end \<or> isize_max < length rest
                      then Inl Panic
                      else decode_chunked_loop oc (drop chunk_end rest)
                             (body @ slice rest after_size data_end) (consumed + chunk_end))))"
  by pat_completeness auto

termination
proof (relation "measure (\<lambda>(oc, rest, body, consumed). length rest)", simp, goal_cases)
  case (1 oc rest body consumed nl n after x t ce)
  then have "ce = nl + 2 + n + 2"
    using chunk_end_exact [of oc "nl + 2" n t ce "length rest"] chunk_size_le by auto
  then show ?case using 1 by auto
qed

declare decode_chunked_loop.simps [simp del]

definition decode_chunked :: "bool \<Rightarrow> bytes \<Rightarrow> fault + (bytes \<times> nat) option" where
  "decode_chunked oc rest = decode_chunked_loop oc rest [] 0"

definition parse_message :: "bool \<Rightarrow> bytes \<Rightarrow> bytes \<Rightarrow> fault + ParseOutcome" where
  "parse_message oc buf expected_prefix =
     (case find_subslice buf (CRLF @ CRLF) of
        None \<Rightarrow> Inr Incomplete
      | Some headers_end \<Rightarrow>
          let header_block = take headers_end buf;
              body_start = headers_end + 4;
              lines = split_crlf header_block in
          (case lines of
             [] \<Rightarrow> Inl (malformed ''empty start line'')
           | start_line # lines \<Rightarrow>
               if \<not> starts_with start_line expected_prefix
               then Inl (Fault (MalformedHttp (ascii ''unexpected start line: '' @ utf8_lossy start_line)))
               else
                 and_then (parse_status_code start_line) (\<lambda>status.
                 and_then (header_lines \<lparr>h_content_type = [], h_content_length = None, h_chunked = False\<rparr> lines) (\<lambda>h.
                 let rest = drop body_start buf in
                 and_then
                   (if h_chunked h then decode_chunked oc rest
                    else
                      let len = (case h_content_length h of Some n \<Rightarrow> n | None \<Rightarrow> 0) in
                      if length rest < len then Inr None else Inr (Some (take len rest, len))) (\<lambda>r.
                 case r of
                   None \<Rightarrow> Inr Incomplete
                 | Some (body, body_len) \<Rightarrow>
                     Inr (Complete \<lparr>resp_status = status, resp_content_type = h_content_type h,
                                    resp_body = body\<rparr> (body_start + body_len)))))))"

definition parse_response :: "bool \<Rightarrow> bytes \<Rightarrow> fault + ParseOutcome" where
  "parse_response oc buf = parse_message oc buf HTTP_PREFIX"


section \<open>More input does not change a decision\<close>

lemma CRLF_not_Nil [simp]: "CRLF \<noteq> []" "length CRLF = 2"
  by (simp_all add: CRLF_def)

lemma decode_chunked_loop_bound:
  "decode_chunked_loop oc rest body c = Inr (Some (b, n)) \<Longrightarrow> c < n \<and> n \<le> c + length rest"
proof (induction oc rest body c rule: decode_chunked_loop.induct)
  case (1 oc rest body c)
  obtain nl where nl: "find_subslice rest CRLF = Some nl"
    using "1.prems" by (auto simp: decode_chunked_loop.simps [of oc rest] split: option.splits)
  obtain k where k: "chunk_size (take nl rest) = Inr k"
    using "1.prems" nl by (auto simp: decode_chunked_loop.simps [of oc rest] split: sum.splits)
  show ?case
  proof (cases "k = 0")
    case True
    then show ?thesis
      using "1.prems" nl k by (auto simp: decode_chunked_loop.simps [of oc rest] split: if_splits)
  next
    case False
    obtain t ce where add: "and_then (usize_add oc (nl + 2) k) (\<lambda>t. and_then (usize_add oc t 2) (\<lambda>ce. Inr (t, ce)))
        = Inr (t, ce)"
      and bounds: "\<not> length rest < ce" "\<not> (t < nl + 2 \<or> length rest < t \<or> isize_max < length rest)"
      and rec: "decode_chunked_loop oc (drop ce rest) (body @ slice rest (nl + 2) t) (c + ce) = Inr (Some (b, n))"
      using "1.prems" nl k False
      by (auto simp: decode_chunked_loop.simps [of oc rest] split: if_splits sum.splits)
    show ?thesis
      using "1.IH" [OF nl k refl False add refl bounds(1) bounds(2) rec] bounds(1) by simp
  qed
qed

lemma decode_chunked_loop_extend:
  "decode_chunked_loop oc rest body c = r \<Longrightarrow> r \<noteq> Inr None \<Longrightarrow> length (rest @ nxt) \<le> isize_max \<Longrightarrow>
     decode_chunked_loop oc (rest @ nxt) body c = r"
proof (induction oc rest body c rule: decode_chunked_loop.induct)
  case (1 oc rest body c)
  obtain nl where nl: "find_subslice rest CRLF = Some nl"
    using "1.prems"(1,2) by (auto simp: decode_chunked_loop.simps [of oc rest] split: option.splits)
  have nl': "find_subslice (rest @ nxt) CRLF = Some nl" and nl_len: "nl + 2 \<le> length rest"
    using find_subslice_extend [OF nl] find_subslice_Some [OF nl] by auto
  have take_nl: "nl - length rest = 0" using nl_len by simp
  note unfold = decode_chunked_loop.simps [of oc rest] decode_chunked_loop.simps [of oc "rest @ nxt"]
  show ?case
  proof (cases "chunk_size (take nl rest)")
    case (Inl e)
    then show ?thesis using "1.prems"(1) nl nl' take_nl by (simp add: unfold)
  next
    case n: (Inr n)
    let ?add = "and_then (usize_add oc (nl + 2) n) (\<lambda>t. and_then (usize_add oc t 2) (\<lambda>ce. Inr (t, ce)))"
    show ?thesis
    proof (cases "n = 0 \<or> isl ?add")
      case True
      then show ?thesis
        using "1.prems"(1,2) nl nl' n take_nl by (auto simp: unfold isl_def split: if_splits)
    next
      case False
      then obtain t ce where add: "?add = Inr (t, ce)" by (cases ?add) auto
      have len: "\<not> length rest < ce" using "1.prems"(1,2) nl n False add by (auto simp: unfold)
      have short: "\<not> isize_max < length rest" "\<not> isize_max < length (rest @ nxt)"
        using "1.prems"(3) by auto
      show ?thesis
      proof (cases "t < nl + 2 \<or> length rest < t")
        case True
        have "t < nl + 2 \<or> isize_max < t"
        proof (rule ccontr)
          assume no: "\<not> (t < nl + 2 \<or> isize_max < t)"
          then have "ce = nl + 2 + n + 2 \<and> t = nl + 2 + n"
            using chunk_end_exact [OF add, of isize_max] chunk_size_le [OF n] by simp
          then show False using len True no by simp
        qed
        then have "t < nl + 2 \<or> length (rest @ nxt) < t" using "1.prems"(3) by linarith
        then show ?thesis
          using "1.prems"(1) nl nl' n take_nl False add len True by (auto simp: unfold)
      next
        case inside: False
        have rec: "decode_chunked_loop oc (drop ce rest) (body @ slice rest (nl + 2) t) (c + ce) = r"
          using "1.prems"(1) nl n False add len inside short by (simp add: unfold)
        have "slice (rest @ nxt) (nl + 2) t = slice rest (nl + 2) t"
          using inside by (simp add: slice_append1 not_less)
        then show ?thesis
          using "1.IH" [OF nl n refl _ add refl len _ rec "1.prems"(2)] "1.prems"(3)
            nl' n take_nl False add len inside short
          by (simp add: unfold)
      qed
    qed
  qed
qed

lemma decode_chunked_extend:
  "decode_chunked oc rest \<noteq> Inr None \<Longrightarrow> length (rest @ nxt) \<le> isize_max \<Longrightarrow>
     decode_chunked oc (rest @ nxt) = decode_chunked oc rest"
  by (simp add: decode_chunked_def decode_chunked_loop_extend)

text \<open>The body part of a message as a function of the headers and the bytes after them.\<close>

definition message_body :: "bool \<Rightarrow> headers \<Rightarrow> bytes \<Rightarrow> fault + (bytes \<times> nat) option" where
  "message_body oc h rest =
     (if h_chunked h then decode_chunked oc rest
      else
        let len = (case h_content_length h of Some n \<Rightarrow> n | None \<Rightarrow> 0) in
        if length rest < len then Inr None else Inr (Some (take len rest, len)))"

definition message_head :: "bytes \<Rightarrow> bytes \<Rightarrow> fault + nat \<times> headers" where
  "message_head header_block expected_prefix =
     (case split_crlf header_block of
        [] \<Rightarrow> Inl (malformed ''empty start line'')
      | start_line # lines \<Rightarrow>
          if \<not> starts_with start_line expected_prefix
          then Inl (Fault (MalformedHttp (ascii ''unexpected start line: '' @ utf8_lossy start_line)))
          else
            and_then (parse_status_code start_line) (\<lambda>status.
            and_then (header_lines \<lparr>h_content_type = [], h_content_length = None, h_chunked = False\<rparr> lines) (\<lambda>h.
            Inr (status, h))))"

lemma parse_message_eq:
  "parse_message oc buf p =
     (case find_subslice buf (CRLF @ CRLF) of
        None \<Rightarrow> Inr Incomplete
      | Some k \<Rightarrow>
          and_then (message_head (take k buf) p) (\<lambda>(status, h).
          and_then (message_body oc h (drop (k + 4) buf)) (\<lambda>r.
          case r of
            None \<Rightarrow> Inr Incomplete
          | Some (body, n) \<Rightarrow>
              Inr (Complete \<lparr>resp_status = status, resp_content_type = h_content_type h, resp_body = body\<rparr>
                     (k + 4 + n)))))"
  unfolding parse_message_def message_head_def message_body_def Let_def
  by (simp add: and_then_assoc split: option.split list.split)

lemma message_body_extend:
  assumes "message_body oc h rest \<noteq> Inr None" and "length (rest @ nxt) \<le> isize_max"
  shows "message_body oc h (rest @ nxt) = message_body oc h rest"
  using assms decode_chunked_extend [of oc rest nxt]
  by (auto simp: message_body_def Let_def split: if_splits)

lemma message_body_bound: "message_body oc h rest = Inr (Some (b, n)) \<Longrightarrow> n \<le> length rest"
  using decode_chunked_loop_bound [of oc rest "[]" 0]
  by (auto simp: message_body_def decode_chunked_def Let_def split: if_splits)

lemma parse_message_extend:
  assumes "parse_message oc buf p \<noteq> Inr Incomplete" and "length (buf @ nxt) \<le> isize_max"
  shows "parse_message oc (buf @ nxt) p = parse_message oc buf p"
proof -
  obtain k where k: "find_subslice buf (CRLF @ CRLF) = Some k"
    using assms(1) by (auto simp: parse_message_eq split: option.splits)
  have k': "find_subslice (buf @ nxt) (CRLF @ CRLF) = Some k" and len: "k + 4 \<le> length buf"
    using find_subslice_extend [OF k] find_subslice_Some [OF k] by auto
  have d: "drop (k + 4) (buf @ nxt) = drop (k + 4) buf @ nxt" "take k (buf @ nxt) = take k buf"
    using len by simp_all
  show ?thesis
  proof (cases "message_head (take k buf) p")
    case (Inl e)
    then show ?thesis using k k' by (simp only: parse_message_eq option.case d and_then.simps)
  next
    case (Inr sh)
    obtain st h where sh: "sh = (st, h)" by fastforce
    have "message_body oc h (drop (k + 4) buf) \<noteq> Inr None"
      using assms(1) k Inr sh by (auto simp: parse_message_eq)
    moreover have "length (drop (k + 4) buf @ nxt) \<le> isize_max" using assms(2) by simp
    ultimately have "message_body oc h (drop (k + 4) buf @ nxt) = message_body oc h (drop (k + 4) buf)"
      by (rule message_body_extend)
    then show ?thesis using k k' d Inr sh by (simp only: parse_message_eq option.case d and_then.simps prod.case)
  qed
qed

lemma parse_message_bound:
  assumes "parse_message oc buf p = Inr (Complete r n)"
  shows "4 \<le> n \<and> n \<le> length buf"
proof -
  obtain k where k: "find_subslice buf (CRLF @ CRLF) = Some k"
    using assms by (auto simp: parse_message_eq split: option.splits)
  then have "k + 4 \<le> length buf" using find_subslice_Some [OF k] by simp
  then show ?thesis
    using assms k message_body_bound [of oc _ "drop (k + 4) buf"]
    by (fastforce simp: parse_message_eq result_simps split: option.splits prod.splits)
qed

section \<open>Parsing a complete message\<close>

lemma find_subslice_skip:
  "n \<noteq> [] \<Longrightarrow> hd n \<notin> set l \<Longrightarrow>
     find_subslice (l @ bs) n = map_option (\<lambda>i. length l + i) (find_subslice bs n)"
proof (induction l)
  case (Cons a l)
  obtain x xs where n: "n = x # xs" using Cons.prems by (cases n) auto
  then show ?case using Cons by (auto simp: option.map_comp comp_def)
next
  case Nil
  then show ?case by (cases "find_subslice bs n") auto
qed

lemma find_end_next_line:
  assumes "x \<noteq> 0x0D"
  shows "find_subslice (CRLF @ x # bs) (CRLF @ CRLF) = map_option (\<lambda>i. 2 + i) (find_subslice (x # bs) (CRLF @ CRLF))"
  using assms by (simp add: CRLF_def option.map_comp comp_def)

lemma find_end_here: "find_subslice (CRLF @ CRLF @ bs) (CRLF @ CRLF) = Some 0"
  by (simp add: CRLF_def)

text \<open>Header text: printable, without line breaks.\<close>

definition plain :: "str \<Rightarrow> bool" where
  "plain s \<longleftrightarrow> list_all (\<lambda>b. is_ascii b \<and> b \<noteq> 0x0D \<and> b \<noteq> 0x0A) s"

text \<open>A message as an accessory writes it: start line, content type, content length, body.\<close>

definition message_bytes :: "bytes \<Rightarrow> nat \<Rightarrow> str \<Rightarrow> str \<Rightarrow> bytes \<Rightarrow> bytes" where
  "message_bytes prefix code reason content_type body =
     (prefix @ ascii '' '' @ show_nat code @ ascii '' '' @ reason) @ CRLF @
     (ascii ''Content-Type: '' @ content_type) @ CRLF @
     (ascii ''Content-Length: '' @ show_nat (length body)) @ CRLF @ CRLF @ body"

lemma plain_simps [simp]:
  "plain []" "plain (a @ b) \<longleftrightarrow> plain a \<and> plain b"
  by (simp_all add: plain_def)

lemma plain_no_break: "plain s \<Longrightarrow> 0x0D \<notin> set s \<and> 0x0A \<notin> set s"
  by (auto simp: plain_def list_all_iff)

lemma plain_ascii: "plain s \<Longrightarrow> list_all is_ascii s"
  by (auto simp: plain_def list_all_iff)

lemma plain_show_nat [simp]: "plain (show_nat n)"
  using digits_in_range [of n] by (auto simp: plain_def list_all_iff is_ascii_def in_range_def)

lemma plain_words [simp]:
  "plain (ascii '' '')" "plain (ascii ''Content-Type: '')" "plain (ascii ''Content-Length: '')"
  "plain HTTP_PREFIX" "plain EVENT_PREFIX"
  by (simp_all add: plain_def ascii_def is_ascii_def in_range_def HTTP_PREFIX_def EVENT_PREFIX_def)

lemma strip_cr_line: "0x0D \<notin> set l \<Longrightarrow> strip_cr (l @ [0x0D]) = l"
  by (simp add: strip_cr_def)

lemma strip_cr_plain: "0x0D \<notin> set l \<Longrightarrow> strip_cr l = l"
  by (auto simp: strip_cr_def dest: last_in_set)

lemma split_crlf_line:
  assumes "plain l"
  shows "split_crlf (l @ CRLF @ bs) = l # split_crlf bs"
proof -
  have "split_on 0x0A ((l @ [0x0D]) @ 0x0A # bs) = (l @ [0x0D]) # split_on 0x0A bs"
    by (rule split_on_append_sep) (use plain_no_break [OF assms] in auto)
  then show ?thesis
    using plain_no_break [OF assms] by (simp add: split_crlf_def CRLF_def strip_cr_line)
qed

lemma split_crlf_last: "plain l \<Longrightarrow> split_crlf l = [l]"
  using plain_no_break [of l] by (simp add: split_crlf_def split_on_single strip_cr_plain)

lemma parse_status_line:
  assumes "plain reason" and "code \<le> 65535" and "0x20 \<notin> set prefix"
  shows "parse_status_code (prefix @ ascii '' '' @ show_nat code @ ascii '' '' @ reason) = Inr code"
proof -
  have sp: "ascii '' '' = [0x20]" by (simp add: ascii_def)
  have no: "0x20 \<notin> set (show_nat code)"
    using digits_in_range [of code] by (auto simp: list_all_iff in_range_def)
  have "utf8_valid (show_nat code)"
    using plain_ascii [OF plain_show_nat] by (rule utf8_valid_ascii)
  moreover have "split_on 0x20 (prefix @ ascii '' '' @ show_nat code @ ascii '' '' @ reason) =
      prefix # show_nat code # split_on 0x20 reason"
    using assms(3) no by (simp add: sp split_on_append_sep)
  ultimately show ?thesis using assms(2) by (simp add: parse_status_code_def from_str_radix_show)
qed

lemma is_ascii_less: "is_ascii b \<Longrightarrow> unat b < 128"
  by (simp add: is_ascii_def in_range_def)

lemma ws_front_ascii: "is_ascii a \<Longrightarrow> \<not> ws1 a \<Longrightarrow> ws_front (a # r) = 0"
  by (auto simp: ws_front_def ws3_def dest!: is_ascii_less split: list.split)

lemma ws_back_ascii: "is_ascii c \<Longrightarrow> \<not> ws1 c \<Longrightarrow> ws_back (c # r) = 0"
  by (auto simp: ws_back_def ws3_def in_range_def dest!: is_ascii_less split: list.split)

text \<open>ASCII text that starts and ends with a visible character.\<close>

definition trimmed_ascii :: "str \<Rightarrow> bool" where
  "trimmed_ascii s \<longleftrightarrow> list_all is_ascii s \<and> (s \<noteq> [] \<longrightarrow> \<not> ws1 (hd s) \<and> \<not> ws1 (last s))"

lemma trimmed_no_ws: "trimmed_ascii s \<Longrightarrow> no_ws_ends s"
proof (cases "s = []")
  case False
  assume t: "trimmed_ascii s"
  obtain a r where f: "s = a # r" using False by (cases s) auto
  obtain c q where b: "rev s = c # q" using False by (cases "rev s") auto
  have "c = last s" using b by (metis hd_rev list.sel(1))
  moreover have "is_ascii (last s)" using t False by (simp add: trimmed_ascii_def list_all_iff)
  ultimately have "is_ascii a" "\<not> ws1 a" "is_ascii c" "\<not> ws1 c"
    using t f False by (simp_all add: trimmed_ascii_def)
  then have "ws_front s = 0" "ws_back (rev s) = 0"
    unfolding b unfolding f by (simp_all add: ws_front_ascii ws_back_ascii)
  then show ?thesis by (simp add: no_ws_ends_def)
qed (simp add: no_ws_ends_def ws_front_def ws_back_def)

lemma trimmed_digits: "trimmed_ascii (show_nat n)"
proof -
  have "in_range 0x30 0x39 b \<Longrightarrow> \<not> ws1 b" for b by (auto simp: ws1_def in_range_def)
  moreover have "in_range 0x30 0x39 (hd (show_nat n))" "in_range 0x30 0x39 (last (show_nat n))"
    using digits_in_range [of n] by (simp_all add: list_all_iff)
  ultimately show ?thesis using plain_ascii [OF plain_show_nat] by (simp add: trimmed_ascii_def)
qed

lemma header_value:
  assumes "trimmed_ascii v"
  shows "trim (utf8_lossy (0x20 # v)) = v"
proof -
  have "list_all is_ascii (0x20 # v)"
    using assms by (simp add: trimmed_ascii_def is_ascii_def in_range_def)
  then show ?thesis using trim_space [OF trimmed_no_ws [OF assms]] by simp
qed

lemma header_line_name:
  assumes "trimmed_ascii name" and "0x3A \<notin> set name" and "trimmed_ascii v"
  shows "header_line h (name @ 0x3A # 0x20 # v) =
    (let nm = map to_ascii_lowercase name in
     if nm = ascii ''content-type'' then Inr (h\<lparr>h_content_type := v\<rparr>)
     else if nm = ascii ''content-length'' then
       and_then (ok_or (malformed ''bad Content-Length'') (from_str_radix 10 usize_max v)) (\<lambda>n.
       Inr (h\<lparr>h_content_length := Some n\<rparr>))
     else if nm = ascii ''transfer-encoding'' then
       (if eq_ignore_ascii_case v (ascii ''chunked'') then Inr (h\<lparr>h_chunked := True\<rparr>)
        else Inl (Fault (UnsupportedEncoding v)))
     else Inr h)"
proof -
  have "takeWhile (\<lambda>b. b \<noteq> 0x3A) (name @ 0x3A # 0x20 # v) = name"
    "tl (dropWhile (\<lambda>b. b \<noteq> 0x3A) (name @ 0x3A # 0x20 # v)) = 0x20 # v"
    using assms(2) by (induction name) auto
  moreover have "utf8_lossy name = name" using assms(1) by (simp add: trimmed_ascii_def)
  moreover have "trim name = name" using trimmed_no_ws [OF assms(1)] by (rule trim_id)
  ultimately show ?thesis
    using header_value [OF assms(3)] by (simp add: header_line_def Let_def)
qed

lemma header_names:
  "ascii ''Content-Type: '' @ v = ascii ''Content-Type'' @ 0x3A # 0x20 # v"
  "ascii ''Content-Length: '' @ v = ascii ''Content-Length'' @ 0x3A # 0x20 # v"
  "trimmed_ascii (ascii ''Content-Type'')" "trimmed_ascii (ascii ''Content-Length'')"
  "0x3A \<notin> set (ascii ''Content-Type'')" "0x3A \<notin> set (ascii ''Content-Length'')"
  "map to_ascii_lowercase (ascii ''Content-Type'') = ascii ''content-type''"
  "map to_ascii_lowercase (ascii ''Content-Length'') = ascii ''content-length''"
  "ascii ''content-length'' \<noteq> ascii ''content-type''"
  by (simp_all add: ascii_def trimmed_ascii_def is_ascii_def in_range_def ws1_def to_ascii_lowercase_def)

lemma header_line_type:
  "trimmed_ascii v \<Longrightarrow> header_line h (ascii ''Content-Type: '' @ v) = Inr (h\<lparr>h_content_type := v\<rparr>)"
  unfolding header_names(1) by (simp add: header_line_name header_names)

lemma header_line_length:
  "n \<le> usize_max \<Longrightarrow>
     header_line h (ascii ''Content-Length: '' @ show_nat n) = Inr (h\<lparr>h_content_length := Some n\<rparr>)"
  unfolding header_names(2)
  by (simp add: header_line_name header_names trimmed_digits from_str_radix_show)

lemma find_next_line:
  assumes "plain l" and "plain m" and "m \<noteq> []"
  shows "find_subslice (l @ CRLF @ m @ bs) (CRLF @ CRLF) =
         map_option (\<lambda>i. length l + 2 + i) (find_subslice (m @ bs) (CRLF @ CRLF))"
proof -
  have hdC: "hd (CRLF @ CRLF) = 0x0D" by (simp add: CRLF_def)
  obtain x xs where m: "m = x # xs" using assms(3) by (cases m) auto
  have "x \<noteq> 0x0D" using plain_no_break [OF assms(2)] m by auto
  then have "find_subslice (CRLF @ m @ bs) (CRLF @ CRLF) =
      map_option (\<lambda>i. 2 + i) (find_subslice (m @ bs) (CRLF @ CRLF))"
    using find_end_next_line [of x "xs @ bs"] m by simp
  moreover have "find_subslice (l @ CRLF @ m @ bs) (CRLF @ CRLF) =
      map_option (\<lambda>i. length l + i) (find_subslice (CRLF @ m @ bs) (CRLF @ CRLF))"
    using plain_no_break [OF assms(1)] by (intro find_subslice_skip) (simp_all add: hdC)
  ultimately show ?thesis by (simp add: option.map_comp comp_def add.assoc)
qed

lemma find_last_line:
  assumes "plain l"
  shows "find_subslice (l @ CRLF @ CRLF @ bs) (CRLF @ CRLF) = Some (length l)"
proof -
  have hdC: "hd (CRLF @ CRLF) = 0x0D" by (simp add: CRLF_def)
  have "find_subslice (l @ CRLF @ CRLF @ bs) (CRLF @ CRLF) =
      map_option (\<lambda>i. length l + i) (find_subslice (CRLF @ CRLF @ bs) (CRLF @ CRLF))"
    using plain_no_break [OF assms] by (intro find_subslice_skip) (simp_all add: hdC)
  then show ?thesis by (simp add: find_end_here)
qed

lemma after_head:
  "take (length h) (h @ bs) = h" "drop (length h + 4) (h @ CRLF @ CRLF @ bs) = bs"
  by (simp_all add: CRLF_def)

lemma find_three_lines:
  assumes "plain l1" "plain l2" "plain l3" "l2 \<noteq> []" "l3 \<noteq> []"
  shows "find_subslice (l1 @ CRLF @ l2 @ CRLF @ l3 @ CRLF @ CRLF @ bs) (CRLF @ CRLF) =
         Some (length (l1 @ CRLF @ l2 @ CRLF @ l3))"
  using assms by (simp add: find_next_line find_last_line)

lemma parse_message_bytes:
  assumes "prefix \<in> {HTTP_PREFIX, EVENT_PREFIX}" and "code \<le> 65535" and "plain reason"
    and "plain ct" and "trimmed_ascii ct" and "length body \<le> usize_max"
  shows "parse_message oc (message_bytes prefix code reason ct body @ nxt) prefix =
    Inr (Complete \<lparr>resp_status = code, resp_content_type = ct, resp_body = body\<rparr>
           (length (message_bytes prefix code reason ct body)))"
proof -
  define l1 where "l1 = prefix @ ascii '' '' @ show_nat code @ ascii '' '' @ reason"
  define l2 where "l2 = ascii ''Content-Type: '' @ ct"
  define l3 where "l3 = ascii ''Content-Length: '' @ show_nat (length body)"
  let ?head = "l1 @ CRLF @ l2 @ CRLF @ l3"
  have plain: "plain l1" "plain l2" "plain l3" "l2 \<noteq> []" "l3 \<noteq> []"
    using assms(1,3,4) by (auto simp: l1_def l2_def l3_def)
  have "0x20 \<notin> set prefix"
    using assms(1) by (auto simp: HTTP_PREFIX_def EVENT_PREFIX_def ascii_def)
  then have status: "parse_status_code l1 = Inr code" "starts_with l1 prefix"
    unfolding l1_def by (auto intro: parse_status_line assms(2,3))
  have lines: "header_line h l2 = Inr (h\<lparr>h_content_type := ct\<rparr>)"
    "header_line h l3 = Inr (h\<lparr>h_content_length := Some (length body)\<rparr>)" for h
    using assms(5,6) by (simp_all only: l2_def l3_def header_line_type header_line_length)
  have msg: "message_bytes prefix code reason ct body @ bs = ?head @ CRLF @ CRLF @ body @ bs" for bs
    by (simp only: message_bytes_def l1_def l2_def l3_def append_assoc)
  have len: "length (message_bytes prefix code reason ct body) = length ?head + 4 + length body"
    using msg [of "[]"] by simp
  have find: "find_subslice (?head @ CRLF @ CRLF @ body @ nxt) (CRLF @ CRLF) = Some (length ?head)"
    using find_three_lines [OF plain] by simp
  have "message_head ?head prefix =
      Inr (code, \<lparr>h_content_type = ct, h_content_length = Some (length body), h_chunked = False\<rparr>)"
    using plain status lines by (simp add: message_head_def split_crlf_line split_crlf_last)
  moreover have "take (length ?head) (?head @ CRLF @ CRLF @ body @ nxt) = ?head"
    "drop (length ?head + 4) (?head @ CRLF @ CRLF @ body @ nxt) = body @ nxt"
    by (rule after_head)+
  ultimately show ?thesis
    unfolding parse_message_eq msg len find option.case
    by (simp only: and_then.simps prod.case) (simp add: message_body_def)
qed

text \<open>C27. A complete message as an accessory writes it, an \<open>HTTP/1.1\<close> response or an \<open>EVENT/1.0\<close> push
  with a content type and a content length, is parsed to its status, content type and body,
  consuming exactly its own bytes whatever follows in the buffer.\<close>

theorem http_message_round_trip:
  assumes "prefix \<in> {HTTP_PREFIX, EVENT_PREFIX}" and "code \<le> 65535" and "plain reason"
    and "plain ct" and "trimmed_ascii ct" and "length body \<le> usize_max"
  shows "parse_message oc (message_bytes prefix code reason ct body @ nxt) prefix =
    Inr (Complete \<lparr>resp_status = code, resp_content_type = ct, resp_body = body\<rparr>
           (length (message_bytes prefix code reason ct body)))"
  using assms by (rule parse_message_bytes)

theorem http_message_round_trip_witness:
  "parse_message True (message_bytes HTTP_PREFIX 200 (ascii ''OK'') (ascii ''application/hap+json'') [1, 2] @ [9])
     HTTP_PREFIX =
   Inr (Complete \<lparr>resp_status = 200, resp_content_type = ascii ''application/hap+json'', resp_body = [1, 2]\<rparr>
     (length (message_bytes HTTP_PREFIX 200 (ascii ''OK'') (ascii ''application/hap+json'') [1, 2])))"
  by (rule http_message_round_trip)
    (simp_all add: plain_def trimmed_ascii_def ascii_def is_ascii_def in_range_def ws1_def usize_max_def)

text \<open>The parser's decision is final: once a buffer parses to a message or to an error, the same
  buffer followed by any further bytes gives the same result, and a complete message ends inside
  the buffer it was found in.  So the outcome does not depend on how the network cuts the stream.\<close>

theorem http_parse_stable:
  assumes "parse_message oc buf p \<noteq> Inr Incomplete" and "length (buf @ nxt) \<le> isize_max"
  shows "parse_message oc (buf @ nxt) p = parse_message oc buf p \<and>
         (\<forall>r n. parse_message oc buf p = Inr (Complete r n) \<longrightarrow> 4 \<le> n \<and> n \<le> length buf)"
  using parse_message_extend [OF assms] parse_message_bound by blast

theorem http_parse_stable_witness:
  "\<exists>e. parse_message True (ascii ''X'' @ CRLF @ CRLF) HTTP_PREFIX = Inl e \<and>
       parse_message True ((ascii ''X'' @ CRLF @ CRLF) @ [1, 2]) HTTP_PREFIX = Inl e"
proof -
  let ?buf = "ascii ''X'' @ CRLF @ CRLF"
  have "find_subslice ?buf (CRLF @ CRLF) = Some 1" by (simp add: CRLF_def ascii_def)
  then have "\<exists>e. parse_message True ?buf HTTP_PREFIX = Inl e"
    by (simp add: parse_message_eq message_head_def split_crlf_def strip_cr_def ascii_def
        starts_with_def HTTP_PREFIX_def)
  then show ?thesis
    using http_parse_stable [of True ?buf HTTP_PREFIX "[1, 2]"]
    by (auto simp: isize_max_def CRLF_def ascii_def)
qed

text \<open>C30. A chunk size so large that the end of the chunk exceeds \<open>usize::MAX\<close> makes the parser panic as
  soon as one byte follows the size line, in debug builds (overflow check) and in release builds
  (the wrapped sum passes the length check and the slice is out of range) alike.\<close>

theorem http_chunk_overflow_panics:
  assumes "find_subslice rest CRLF = Some nl" and "chunk_size (take nl rest) = Inr n"
    and "usize_max < nl + 2 + n + 2" and "nl + 3 \<le> length rest" and "length rest \<le> isize_max"
  shows "decode_chunked oc rest = Inl Panic"
proof -
  have n: "n \<le> usize_max" by (rule chunk_size_le [OF assms(2)])
  have n0: "n \<noteq> 0" using assms(3-5) by (auto simp: usize_max_def isize_max_def)
  let ?add = "and_then (usize_add oc (nl + 2) n) (\<lambda>t. and_then (usize_add oc t 2) (\<lambda>ce. Inr (t, ce)))"
  have "?add = Inl Panic \<or>
      (\<exists>t ce. ?add = Inr (t, ce) \<and> ce \<le> length rest \<and> (t < nl + 2 \<or> length rest < t))"
    using assms(3-5) n by (auto simp: usize_add_def usize_max_def isize_max_def)
  then show ?thesis
    using assms(1,2) n0 unfolding decode_chunked_def
    by (auto simp: decode_chunked_loop.simps [of oc rest])
qed

theorem http_chunk_overflow_panics_witness:
  "decode_chunked True (ascii ''ffffffffffffffff'' @ CRLF @ ascii ''x'') = Inl Panic \<and>
   decode_chunked False (ascii ''ffffffffffffffff'' @ CRLF @ ascii ''x'') = Inl Panic"
proof -
  let ?rest = "ascii ''ffffffffffffffff'' @ CRLF @ ascii ''x''"
  have line: "take 16 ?rest = ascii ''ffffffffffffffff''" by simp
  have nl: "find_subslice ?rest CRLF = Some 16"
    by (simp add: CRLF_def ascii_def)
  have t: "trimmed_ascii (ascii ''ffffffffffffffff'')"
    by (simp add: trimmed_ascii_def ascii_def is_ascii_def in_range_def ws1_def)
  then have "utf8_valid (ascii ''ffffffffffffffff'')" "trim (ascii ''ffffffffffffffff'') = ascii ''ffffffffffffffff''"
    using trim_id [OF trimmed_no_ws [OF t]] by (simp_all add: trimmed_ascii_def utf8_valid_ascii)
  moreover have "from_str_radix 16 usize_max (ascii ''ffffffffffffffff'') = Some 18446744073709551615"
    by (simp add: from_str_radix_def ascii_def digit_val_def in_range_def usize_max_def)
  ultimately have n: "chunk_size (take 16 ?rest) = Inr 18446744073709551615"
    unfolding line by (simp add: chunk_size_def)
  show ?thesis
    by (intro conjI http_chunk_overflow_panics [OF nl n]) (simp_all add: usize_max_def isize_max_def CRLF_def)
qed

end
