(* ===== verification/Secure_Session.thy ===== *)
theory Secure_Session
  imports Http Pair_Verify
begin

text \<open>
  The secure session and the plaintext connection of the IP transport, \<open>hap-transport/src/session.rs\<close>
  and \<open>connection.rs\<close>.  A socket is the list of what successive reads return; the reader task is a
  loop over that list that emits what it sends into its two channels, which are taken to have a
  live receiver.  A panic ends the task without a message.
\<close>

section \<open>Demultiplexing\<close>

record EventNotification =
  ev_body :: bytes

datatype Demuxed = Response HapResponse | Event EventNotification

definition demux_prefix :: "bytes \<Rightarrow> bytes" where
  "demux_prefix rest = (if starts_with rest EVENT_PREFIX then EVENT_PREFIX else HTTP_PREFIX)"

definition demux_message :: "bytes \<Rightarrow> HapResponse \<Rightarrow> Demuxed" where
  "demux_message rest response =
     (if starts_with rest EVENT_PREFIX then Event \<lparr>ev_body = resp_body response\<rparr> else Response response)"

function demux_loop :: "bool \<Rightarrow> bytes \<Rightarrow> Demuxed list \<Rightarrow> nat \<Rightarrow> fault + Demuxed list \<times> nat" where
  "demux_loop oc rest out offset =
     (if rest = [] then Inr (out, offset)
      else if \<not> starts_with rest EVENT_PREFIX \<and> \<not> starts_with rest HTTP_PREFIX then
        (if length rest < max (length EVENT_PREFIX) (length HTTP_PREFIX) then Inr (out, offset)
         else Inl (malformed ''unrecognised start line in secure stream''))
      else
        case parse_message oc rest (demux_prefix rest) of
          Inl e \<Rightarrow> Inl e
        | Inr Incomplete \<Rightarrow> Inr (out, offset)
        | Inr (Complete response consumed) \<Rightarrow>
            demux_loop oc (drop consumed rest) (out @ [demux_message rest response]) (offset + consumed))"
  by pat_completeness auto
termination
proof (relation "measure (\<lambda>(oc, rest, out, offset). length rest)", simp, goal_cases)
  case (1 oc rest out offset x response consumed)
  then show ?case using parse_message_bound [of oc rest "demux_prefix rest" response consumed] by simp
qed

declare demux_loop.simps [simp del]

definition demux_messages :: "bool \<Rightarrow> bytes \<Rightarrow> fault + Demuxed list \<times> nat" where
  "demux_messages oc buf = demux_loop oc buf [] 0"

section \<open>The reader task\<close>

record reader =
  rd_cipher :: bytes
  rd_plain :: bytes
  rd_counter :: NonceCounter

datatype reader_out = OutResponse "TransportError + HapResponse" | OutEvent EventNotification

datatype reader_in = Data bytes | Eof | ReadError

function drain_frames ::
    "prims \<Rightarrow> bytes \<Rightarrow> bytes \<Rightarrow> bytes \<Rightarrow> NonceCounter \<Rightarrow> (TransportError + unit) \<times> reader" where
  "drain_frames P key cipher plain_buf counter =
     (case decrypt_frame P key counter cipher of
        (Inr (Some block), counter') \<Rightarrow>
          drain_frames P key (drop (frame_len (length block)) cipher) (plain_buf @ block) counter'
      | (Inr None, counter') \<Rightarrow>
          (Inr (), \<lparr>rd_cipher = cipher, rd_plain = plain_buf, rd_counter = counter'\<rparr>)
      | (Inl e, counter') \<Rightarrow>
          (Inl e, \<lparr>rd_cipher = cipher, rd_plain = plain_buf, rd_counter = counter'\<rparr>))"
  by pat_completeness auto
termination
proof (relation "measure (\<lambda>(P, key, cipher, p, c). length cipher)", simp, goal_cases)
  case (1 P key cipher plain_buf counter x counter' r block)
  then have "cipher \<noteq> []" by (auto simp: decrypt_frame_def LEN_PREFIX_def)
  then show ?case by (simp add: frame_len_def LEN_PREFIX_def)
qed

declare drain_frames.simps [simp del]

definition route :: "Demuxed \<Rightarrow> reader_out" where
  "route msg = (case msg of Response r \<Rightarrow> OutResponse (Inr r) | Event ev \<Rightarrow> OutEvent ev)"

text \<open>One turn of the loop up to the next read: what it sends, the buffers, and whether it goes on.\<close>

definition reader_turn :: "prims \<Rightarrow> bool \<Rightarrow> bytes \<Rightarrow> reader \<Rightarrow> reader_out list \<times> reader \<times> bool" where
  "reader_turn P oc key r =
     (case drain_frames P key (rd_cipher r) (rd_plain r) (rd_counter r) of
        (Inl e, r') \<Rightarrow> ([OutResponse (Inl e)], r', False)
      | (Inr _, r') \<Rightarrow>
          (case demux_messages oc (rd_plain r') of
             Inl (Fault e) \<Rightarrow> ([OutResponse (Inl e)], r', False)
           | Inl Panic \<Rightarrow> ([], r', False)
           | Inr (messages, consumed) \<Rightarrow>
               (map route messages, r'\<lparr>rd_plain := drop consumed (rd_plain r')\<rparr>, True)))"

fun reader_task :: "prims \<Rightarrow> bool \<Rightarrow> bytes \<Rightarrow> reader \<Rightarrow> reader_in list \<Rightarrow> reader_out list" where
  "reader_task P oc key r [] = fst (reader_turn P oc key r)"
| "reader_task P oc key r (inp # ins) =
     (let (outs, r', alive) = reader_turn P oc key r in
      if \<not> alive then outs
      else
        case inp of
          Eof \<Rightarrow> outs @ [OutResponse (Inl ConnectionClosed)]
        | ReadError \<Rightarrow> outs @ [OutResponse (Inl IoError)]
        | Data bs \<Rightarrow> outs @ reader_task P oc key (r'\<lparr>rd_cipher := rd_cipher r' @ bs\<rparr>) ins)"

definition reader_init :: reader where
  "reader_init = \<lparr>rd_cipher = [], rd_plain = [], rd_counter = NonceCounter_new\<rparr>"

section \<open>Requests\<close>

record WriterState =
  ws_counter :: NonceCounter
  ws_write_key :: bytes

definition SecureSession_writer :: "SessionKeys \<Rightarrow> WriterState" where
  "SecureSession_writer keys = \<lparr>ws_counter = NonceCounter_new, ws_write_key = write_key keys\<rparr>"

text \<open>The bytes that \<open>request\<close> puts on the socket, block by block; \<open>io k\<close> says whether the
  \<open>k\<close>-th write from here (the flush being the last) succeeds.  A failing write still may put part of
  its frame on the wire; the model counts none of it.\<close>

fun write_blocks ::
    "prims \<Rightarrow> (nat \<Rightarrow> bool) \<Rightarrow> WriterState \<Rightarrow> bytes list \<Rightarrow> (TransportError option \<times> bytes) \<times> WriterState" where
  "write_blocks P io w [] = ((if io 0 then None else Some IoError, []), w)"
| "write_blocks P io w (block # blocks) =
     (case encrypt_frame P (ws_write_key w) (ws_counter w) block of
        (Inl e, counter) \<Rightarrow> ((Some e, []), w\<lparr>ws_counter := counter\<rparr>)
      | (Inr frame, counter) \<Rightarrow>
          if \<not> io 0 then ((Some IoError, []), w\<lparr>ws_counter := counter\<rparr>)
          else
            (let ((err, out), w') = write_blocks P (\<lambda>k. io (Suc k)) (w\<lparr>ws_counter := counter\<rparr>) blocks in
             ((err, frame @ out), w')))"

text \<open>\<open>rx.recv()\<close> on what the reader task has sent by then: the next response and what stays queued.\<close>

fun recv_response :: "reader_out list \<Rightarrow> (TransportError + HapResponse) \<times> reader_out list" where
  "recv_response [] = (Inl NoResponse, [])"
| "recv_response (OutResponse r # outs) = (r, outs)"
| "recv_response (OutEvent ev # outs) =
     (let (r, rest) = recv_response outs in (r, OutEvent ev # rest))"

definition SecureSession_request ::
    "prims \<Rightarrow> (nat \<Rightarrow> bool) \<Rightarrow> WriterState \<Rightarrow> reader_out list \<Rightarrow> str \<Rightarrow> str \<Rightarrow> str \<Rightarrow> bytes \<Rightarrow>
     (TransportError + HapResponse) \<times> bytes \<times> WriterState \<times> reader_out list" where
  "SecureSession_request P io w rx method path content_type body =
     (let plaintext = encode_request method path content_type body;
          ((err, wire), w') = write_blocks P io w (chunks MAX_BLOCK plaintext) in
      case err of
        Some e \<Rightarrow> (Inl e, wire, w', rx)
      | None \<Rightarrow> let (result, rx') = recv_response rx in (result, wire, w', rx'))"

text \<open>The plaintext connection: read until a response is complete, and what of the stream is then
  unread. \<open>None\<close>: still waiting.\<close>

fun HapConnection_read :: "bool \<Rightarrow> bytes \<Rightarrow> reader_in list \<Rightarrow> (fault + HapResponse) option \<times> reader_in list" where
  "HapConnection_read oc buf ins =
     (case parse_response oc buf of
        Inl e \<Rightarrow> (Some (Inl e), ins)
      | Inr (Complete response _) \<Rightarrow> (Some (Inr response), ins)
      | Inr Incomplete \<Rightarrow>
          (case ins of
             [] \<Rightarrow> (None, [])
           | Eof # ins' \<Rightarrow> (Some (Inl (Fault ConnectionClosed)), ins')
           | ReadError # ins' \<Rightarrow> (Some (Inl (Fault IoError)), ins')
           | Data bs # ins' \<Rightarrow> HapConnection_read oc (buf @ bs) ins'))"

declare HapConnection_read.simps [simp del]

section \<open>Demultiplexing a growing buffer\<close>

definition demux_app :: "Demuxed list \<Rightarrow> nat \<Rightarrow> Demuxed list \<times> nat \<Rightarrow> Demuxed list \<times> nat" where
  "demux_app out c = (\<lambda>(ms, k). (out @ ms, c + k))"

lemma demux_app_simps [simp]:
  "demux_app out c (ms, k) = (out @ ms, c + k)" "demux_app [] 0 p = p"
  by (simp_all add: demux_app_def split_beta)

lemma map_demux_app [simp]:
  "map_sum id (demux_app [] 0) x = x"
  "map_sum id (demux_app a i) (map_sum id (demux_app b j) x) = map_sum id (demux_app (a @ b) (i + j)) x"
  by (cases x; auto)+

text \<open>One turn of the loop: the next message and its length, or none yet.\<close>

definition demux_step :: "bool \<Rightarrow> bytes \<Rightarrow> fault + (Demuxed \<times> nat) option" where
  "demux_step oc rest =
     (if rest = [] then Inr None
      else if \<not> starts_with rest EVENT_PREFIX \<and> \<not> starts_with rest HTTP_PREFIX then
        (if length rest < max (length EVENT_PREFIX) (length HTTP_PREFIX) then Inr None
         else Inl (malformed ''unrecognised start line in secure stream''))
      else
        case parse_message oc rest (demux_prefix rest) of
          Inl e \<Rightarrow> Inl e
        | Inr Incomplete \<Rightarrow> Inr None
        | Inr (Complete response n) \<Rightarrow> Inr (Some (demux_message rest response, n)))"

lemma demux_loop_step:
  "demux_loop oc rest out c =
     (case demux_step oc rest of
        Inl e \<Rightarrow> Inl e
      | Inr None \<Rightarrow> Inr (out, c)
      | Inr (Some (m, n)) \<Rightarrow> demux_loop oc (drop n rest) (out @ [m]) (c + n))"
  by (auto simp: demux_loop.simps [of oc rest] demux_step_def split: sum.splits ParseOutcome.splits)

lemma demux_step_bound: "demux_step oc rest = Inr (Some (m, n)) \<Longrightarrow> 0 < n \<and> n \<le> length rest"
  using parse_message_bound [of oc rest "demux_prefix rest" _ n]
  by (auto simp: demux_step_def split: if_splits sum.splits ParseOutcome.splits)

lemma starts_with_extend: "starts_with b p \<Longrightarrow> starts_with (b @ x) p"
  by (auto simp: starts_with_iff)

lemma starts_with_append_long: "length p \<le> length b \<Longrightarrow> starts_with (b @ x) p = starts_with b p"
  by (simp add: starts_with_def)

lemma prefixes_differ: "starts_with b HTTP_PREFIX \<Longrightarrow> \<not> starts_with b EVENT_PREFIX"
  by (cases b) (auto simp: starts_with_def HTTP_PREFIX_def EVENT_PREFIX_def ascii_def)

lemma starts_with_prefixes:
  assumes "starts_with rest EVENT_PREFIX \<or> starts_with rest HTTP_PREFIX"
  shows "starts_with (rest @ nxt) EVENT_PREFIX = starts_with rest EVENT_PREFIX"
    and "starts_with (rest @ nxt) HTTP_PREFIX = starts_with rest HTTP_PREFIX"
  using assms prefixes_differ [of "rest @ nxt"] starts_with_extend [of rest EVENT_PREFIX nxt]
    starts_with_extend [of rest HTTP_PREFIX nxt]
  by metis+

lemma starts_with_not_Nil: "starts_with [] EVENT_PREFIX = False" "starts_with [] HTTP_PREFIX = False"
  by (simp_all add: starts_with_def HTTP_PREFIX_def EVENT_PREFIX_def ascii_def)

lemma demux_step_extend:
  assumes "demux_step oc rest \<noteq> Inr None" and "length (rest @ nxt) \<le> isize_max"
  shows "demux_step oc (rest @ nxt) = demux_step oc rest"
proof (cases "starts_with rest EVENT_PREFIX \<or> starts_with rest HTTP_PREFIX")
  case True
  then have ne: "rest \<noteq> []" using starts_with_not_Nil by metis
  note same = starts_with_prefixes [OF True, of nxt]
  have "demux_step oc rest =
      (case parse_message oc rest (demux_prefix rest) of
          Inl e \<Rightarrow> Inl e
        | Inr Incomplete \<Rightarrow> Inr None
        | Inr (Complete response n) \<Rightarrow> Inr (Some (demux_message rest response, n)))"
    using True ne by (simp only: demux_step_def if_False de_Morgan_disj [symmetric] not_True_eq_False)
  moreover from this have "parse_message oc rest (demux_prefix rest) \<noteq> Inr Incomplete"
    using assms(1) by (metis ParseOutcome.simps sum.simps(6))
  moreover have "demux_step oc (rest @ nxt) =
      (case parse_message oc (rest @ nxt) (demux_prefix rest) of
          Inl e \<Rightarrow> Inl e
        | Inr Incomplete \<Rightarrow> Inr None
        | Inr (Complete response n) \<Rightarrow> Inr (Some (demux_message rest response, n)))"
    using True ne
    by (simp only: demux_step_def demux_message_def demux_prefix_def same if_False
        de_Morgan_disj [symmetric] not_True_eq_False append_is_Nil_conv simp_thms)
  ultimately show ?thesis using parse_message_extend [OF _ assms(2)] by metis
next
  case False
  then have long: "length EVENT_PREFIX \<le> length rest" "length HTTP_PREFIX \<le> length rest" and "rest \<noteq> []"
    using assms(1) by (auto simp: demux_step_def split: if_splits)
  then show ?thesis using False by (auto simp: demux_step_def starts_with_append_long)
qed

lemma demux_loop_acc:
  "demux_loop oc rest out c = map_sum id (demux_app out c) (demux_loop oc rest [] 0)"
proof (induction "length rest" arbitrary: rest out c rule: less_induct)
  case less
  show ?case
  proof (cases "demux_step oc rest")
    case (Inr x)
    show ?thesis
    proof (cases x)
      case (Some mn)
      obtain m n where mn: "mn = (m, n)" by fastforce
      have "length (drop n rest) < length rest" using demux_step_bound [of oc rest m n] Inr Some mn by auto
      then show ?thesis
        using less [of "drop n rest" "out @ [m]" "c + n"] less [of "drop n rest" "[m]" n]
        by (simp add: demux_loop_step [of oc rest] Inr Some mn)
    qed (simp add: demux_loop_step [of oc rest] Inr)
  qed (simp add: demux_loop_step [of oc rest])
qed

lemma demux_messages_step:
  "demux_messages oc buf =
     (case demux_step oc buf of
        Inl e \<Rightarrow> Inl e
      | Inr None \<Rightarrow> Inr ([], 0)
      | Inr (Some (m, n)) \<Rightarrow> map_sum id (demux_app [m] n) (demux_messages oc (drop n buf)))"
  unfolding demux_messages_def
  by (subst demux_loop_step) (auto simp: demux_loop_acc [of oc _ "[_]"] split: sum.split option.split)

lemma demux_messages_extend:
  assumes "length (buf @ nxt) \<le> isize_max"
  shows "demux_messages oc (buf @ nxt) =
     (case demux_messages oc buf of
        Inl e \<Rightarrow> Inl e
      | Inr (ms, c) \<Rightarrow> map_sum id (demux_app ms c) (demux_messages oc (drop c buf @ nxt)))"
  using assms
proof (induction "length buf" arbitrary: buf rule: less_induct)
  case less
  show ?case
  proof (cases "demux_step oc buf = Inr None")
    case True
    then show ?thesis by (simp add: demux_messages_step [of oc buf])
  next
    case False
    then have ext: "demux_step oc (buf @ nxt) = demux_step oc buf"
      using less.prems by (rule demux_step_extend)
    show ?thesis
    proof (cases "demux_step oc buf")
      case (Inl e)
      then show ?thesis by (simp add: demux_messages_step [of oc buf] demux_messages_step [of oc "buf @ nxt"] ext)
    next
      case (Inr x)
      then obtain m n where x: "x = Some (m, n)" using False by (cases x) auto
      have n: "0 < n" "n \<le> length buf" using demux_step_bound [of oc buf m n] Inr x by auto
      have "demux_messages oc (drop n buf @ nxt) =
         (case demux_messages oc (drop n buf) of
            Inl e \<Rightarrow> Inl e
          | Inr (ms, c) \<Rightarrow> map_sum id (demux_app ms c) (demux_messages oc (drop c (drop n buf) @ nxt)))"
        using less.prems n by (intro less.hyps) auto
      then show ?thesis
        using n by (cases "demux_messages oc (drop n buf)")
          (auto simp: demux_messages_step [of oc buf] demux_messages_step [of oc "buf @ nxt"] ext Inr x add.commute)
    qed
  qed
qed

lemma demux_messages_bound: "demux_messages oc buf = Inr (ms, c) \<Longrightarrow> c \<le> length buf"
proof (induction "length buf" arbitrary: buf ms c rule: less_induct)
  case less
  show ?case
  proof (cases "\<exists>m n. demux_step oc buf = Inr (Some (m, n))")
    case True
    then obtain m n where st: "demux_step oc buf = Inr (Some (m, n))" by blast
    have n: "0 < n" "n \<le> length buf" using demux_step_bound [OF st] by auto
    obtain ms' c' where "demux_messages oc (drop n buf) = Inr (ms', c')" "c = n + c'"
      using less.prems st by (cases "demux_messages oc (drop n buf)") (auto simp: demux_messages_step [of oc buf])
    then show ?thesis using less.hyps [of "drop n buf" ms' c'] n by fastforce
  next
    case False
    then show ?thesis using less.prems
      by (auto simp: demux_messages_step [of oc buf] split: sum.splits option.splits)
  qed
qed

section \<open>Draining frames\<close>

fun frames_of :: "prims \<Rightarrow> bytes \<Rightarrow> NonceCounter \<Rightarrow> bytes list \<Rightarrow> bytes list \<Rightarrow> bool" where
  "frames_of P key c [] [] = True"
| "frames_of P key c (b # bs) (f # fs) =
     (frame_of P key c b f \<and> length b \<le> MAX_BLOCK \<and> frames_of P key (c + 1) bs fs)"
| "frames_of P key c _ _ = False"

lemma write_blocks_ok:
  assumes "aead_laws P" and "list_all (\<lambda>b. length b \<le> MAX_BLOCK) bs"
  shows "\<exists>fs w'. write_blocks P (\<lambda>_. True) w bs = ((None, concat fs), w') \<and>
           frames_of P (ws_write_key w) (ws_counter w) bs fs \<and>
           ws_counter w' = ws_counter w + of_nat (length bs)"
  using assms(2)
proof (induction bs arbitrary: w)
  case Nil
  then show ?case by (auto intro: exI [of _ "[]"])
next
  case (Cons b bs)
  obtain f where f: "encrypt_frame P (ws_write_key w) (ws_counter w) b = (Inr f, ws_counter w + 1)"
      "frame_of P (ws_write_key w) (ws_counter w) b f"
    using encrypt_frame_ok [OF assms(1)] Cons.prems by fastforce
  obtain fs w' where "write_blocks P (\<lambda>_. True) (w\<lparr>ws_counter := ws_counter w + 1\<rparr>) bs = ((None, concat fs), w')"
      "frames_of P (ws_write_key w) (ws_counter w + 1) bs fs"
      "ws_counter w' = ws_counter w + 1 + of_nat (length bs)"
    using Cons.IH [of "w\<lparr>ws_counter := ws_counter w + 1\<rparr>"] Cons.prems by auto
  then show ?case using f Cons.prems by (auto intro!: exI [of _ "f # fs"])
qed

lemma drain_frames_prefix:
  assumes "aead_laws P" and "frames_of P key c bs fs" and "x @ y = concat fs"
  shows "\<exists>bs1 bs2 fs2 x' c'. bs = bs1 @ bs2 \<and> frames_of P key c' bs2 fs2 \<and> x' @ y = concat fs2 \<and>
     drain_frames P key x p c = (Inr (), \<lparr>rd_cipher = x', rd_plain = p @ concat bs1, rd_counter = c'\<rparr>) \<and>
     (y = [] \<longrightarrow> bs2 = [])"
  using assms(2,3)
proof (induction bs arbitrary: c fs x p)
  case Nil
  then have "fs = []" by (cases fs) auto
  then have "x = []" "y = []" using Nil.prems by auto
  then show ?case using \<open>fs = []\<close>
    by (intro exI [of _ "[]"] exI [of _ c]) (simp add: drain_frames.simps decrypt_frame_def LEN_PREFIX_def)
next
  case (Cons b bs)
  then obtain f fs' where fs: "fs = f # fs'" and f: "frame_of P key c b f" "length b \<le> MAX_BLOCK"
    and rest: "frames_of P key (c + 1) bs fs'" by (cases fs) auto
  have len: "length f = frame_len (length b)" by (rule frame_of_length [OF assms(1) f])
  show ?case
  proof (cases "length f \<le> length x")
    case True
    then obtain x1 where x: "x = f @ x1" "x1 @ y = concat fs'"
      using Cons.prems(2) fs by (auto simp: append_eq_append_conv2)
    have "drain_frames P key x p c = drain_frames P key x1 (p @ b) (c + 1)"
      by (subst drain_frames.simps) (simp add: x(1) decrypt_frame_of [OF assms(1) f] len [symmetric])
    moreover obtain bs1 bs2 fs2 x' c' where "bs = bs1 @ bs2" "frames_of P key c' bs2 fs2"
        "x' @ y = concat fs2" "y = [] \<longrightarrow> bs2 = []"
        "drain_frames P key x1 (p @ b) (c + 1) =
           (Inr (), \<lparr>rd_cipher = x', rd_plain = (p @ b) @ concat bs1, rd_counter = c'\<rparr>)"
      using Cons.IH [OF rest x(2), of "p @ b"] by blast
    ultimately show ?thesis
      by (intro exI [of _ "b # bs1"] exI [of _ bs2] exI [of _ fs2] exI [of _ x'] exI [of _ c']) simp
  next
    case False
    then have "x = take (length x) f" "length x < length f" and "y \<noteq> []"
      using Cons.prems(2) fs by (auto simp: append_eq_append_conv2)
    then have "decrypt_frame P key c x = (Inr None, c)"
      using decrypt_frame_partial [OF assms(1) f] by metis
    then have "drain_frames P key x p c = (Inr (), \<lparr>rd_cipher = x, rd_plain = p, rd_counter = c\<rparr>)"
      by (simp add: drain_frames.simps)
    then show ?thesis using Cons.prems \<open>y \<noteq> []\<close>
      by (intro exI [of _ "[]"] exI [of _ "b # bs"] exI [of _ fs] exI [of _ x] exI [of _ c]) simp
  qed
qed

section \<open>The reader on honest frames\<close>

lemma reader_turn_honest:
  assumes "aead_laws P" and "frames_of P key c bs fs" and "x @ y = concat fs"
    and "demux_messages oc (p @ concat bs) = Inr (ms, k)" and "length (p @ concat bs) \<le> isize_max"
  shows "\<exists>ms1 ms2 k2 bs2 fs2 x' p' c'.
     reader_turn P oc key \<lparr>rd_cipher = x, rd_plain = p, rd_counter = c\<rparr> =
       (map route ms1, \<lparr>rd_cipher = x', rd_plain = p', rd_counter = c'\<rparr>, True) \<and>
     ms = ms1 @ ms2 \<and> frames_of P key c' bs2 fs2 \<and> x' @ y = concat fs2 \<and>
     demux_messages oc (p' @ concat bs2) = Inr (ms2, k2) \<and> length (p' @ concat bs2) \<le> isize_max \<and>
     (y = [] \<longrightarrow> ms2 = [])"
proof -
  obtain bs1 bs2 fs2 x' c' where d: "bs = bs1 @ bs2" "frames_of P key c' bs2 fs2" "x' @ y = concat fs2"
      "y = [] \<longrightarrow> bs2 = []"
      "drain_frames P key x p c = (Inr (), \<lparr>rd_cipher = x', rd_plain = p @ concat bs1, rd_counter = c'\<rparr>)"
    using drain_frames_prefix [OF assms(1-3), of p] by blast
  let ?p = "p @ concat bs1"
  have ext: "Inr (ms, k) = (case demux_messages oc ?p of Inl e \<Rightarrow> Inl e
      | Inr (m1, n) \<Rightarrow> map_sum id (demux_app m1 n) (demux_messages oc (drop n ?p @ concat bs2)))"
    using demux_messages_extend [of ?p "concat bs2" oc] assms(4,5) d(1) by simp
  then obtain ms1 n where m1: "demux_messages oc ?p = Inr (ms1, n)"
    by (cases "demux_messages oc ?p") auto
  obtain ms2 k2 where m2: "demux_messages oc (drop n ?p @ concat bs2) = Inr (ms2, k2)" "ms = ms1 @ ms2"
    using ext m1 by (cases "demux_messages oc (drop n ?p @ concat bs2)") auto
  have len: "length (drop n ?p @ concat bs2) \<le> isize_max" using assms(5) d(1) by simp
  have "ms2 = []" if "y = []"
    using demux_messages_extend [of ?p "[]" oc] m1 m2 d(4) that assms(5) d(1)
    by (auto simp: sum.map_comp)
  then show ?thesis
    using d m1 m2 len
    by (intro exI [of _ ms1] exI [of _ ms2] exI [of _ k2] exI [of _ bs2] exI [of _ fs2] exI [of _ x']
        exI [of _ "drop n ?p"] exI [of _ c']) (simp add: reader_turn_def)
qed

lemma reader_task_honest:
  assumes "aead_laws P" and "frames_of P key c bs fs" and "x @ concat reads = concat fs"
    and "demux_messages oc (p @ concat bs) = Inr (ms, k)" and "length (p @ concat bs) \<le> isize_max"
  shows "reader_task P oc key \<lparr>rd_cipher = x, rd_plain = p, rd_counter = c\<rparr> (map Data reads) = map route ms \<and>
     reader_task P oc key \<lparr>rd_cipher = x, rd_plain = p, rd_counter = c\<rparr> (map Data reads @ [Eof]) =
       map route ms @ [OutResponse (Inl ConnectionClosed)]"
  using assms(2-5)
proof (induction reads arbitrary: c bs fs x p ms k)
  case Nil
  then show ?case using reader_turn_honest [OF assms(1) Nil(1,2,3,4)] by auto
next
  case (Cons r rs)
  obtain ms1 ms2 k2 bs2 fs2 x' p' c' where
      t: "reader_turn P oc key \<lparr>rd_cipher = x, rd_plain = p, rd_counter = c\<rparr> =
            (map route ms1, \<lparr>rd_cipher = x', rd_plain = p', rd_counter = c'\<rparr>, True)"
    and ms: "ms = ms1 @ ms2" and fs2: "frames_of P key c' bs2 fs2" "x' @ r @ concat rs = concat fs2"
    and d: "demux_messages oc (p' @ concat bs2) = Inr (ms2, k2)" "length (p' @ concat bs2) \<le> isize_max"
    using reader_turn_honest [OF assms(1) Cons.prems, unfolded concat.simps] by blast
  have "(x' @ r) @ concat rs = concat fs2" using fs2(2) by simp
  from Cons.IH [OF fs2(1) this d] show ?case using t ms by simp
qed

section \<open>Properties\<close>

text \<open>A message of an accessory: an event or a response, with its wire form and what it demultiplexes to.\<close>

record wire_message =
  wm_event :: bool
  wm_status :: nat
  wm_reason :: str
  wm_type :: str
  wm_body :: bytes

definition wm_prefix :: "wire_message \<Rightarrow> bytes" where
  "wm_prefix m = (if wm_event m then EVENT_PREFIX else HTTP_PREFIX)"

definition wm_bytes :: "wire_message \<Rightarrow> bytes" where
  "wm_bytes m = message_bytes (wm_prefix m) (wm_status m) (wm_reason m) (wm_type m) (wm_body m)"

definition wm_ok :: "wire_message \<Rightarrow> bool" where
  "wm_ok m \<longleftrightarrow> wm_status m \<le> 65535 \<and> plain (wm_reason m) \<and> plain (wm_type m) \<and>
     trimmed_ascii (wm_type m) \<and> length (wm_body m) \<le> usize_max"

definition wm_demuxed :: "wire_message \<Rightarrow> Demuxed" where
  "wm_demuxed m =
     (if wm_event m then Event \<lparr>ev_body = wm_body m\<rparr>
      else Response \<lparr>resp_status = wm_status m, resp_content_type = wm_type m, resp_body = wm_body m\<rparr>)"

lemma demux_step_message:
  assumes "wm_ok m"
  shows "demux_step oc (wm_bytes m @ nxt) = Inr (Some (wm_demuxed m, length (wm_bytes m)))"
proof -
  let ?b = "wm_bytes m @ nxt"
  have pm: "parse_message oc ?b (wm_prefix m) =
      Inr (Complete \<lparr>resp_status = wm_status m, resp_content_type = wm_type m, resp_body = wm_body m\<rparr>
        (length (wm_bytes m)))"
    unfolding wm_bytes_def
    by (rule parse_message_bytes) (use assms in \<open>auto simp: wm_ok_def wm_prefix_def\<close>)
  have st: "starts_with ?b (wm_prefix m)" by (simp add: wm_bytes_def message_bytes_def)
  have e: "starts_with ?b EVENT_PREFIX = wm_event m"
    using st prefixes_differ [of ?b] by (cases "wm_event m") (auto simp: wm_prefix_def)
  have p: "demux_prefix ?b = wm_prefix m" by (simp add: demux_prefix_def wm_prefix_def e)
  have ne: "?b \<noteq> []" using st starts_with_not_Nil by (metis wm_prefix_def)
  have h: "\<not> (\<not> starts_with ?b EVENT_PREFIX \<and> \<not> starts_with ?b HTTP_PREFIX)"
    using st by (auto simp: wm_prefix_def split: if_splits)
  show ?thesis
    unfolding demux_step_def p pm if_not_P [OF ne] if_not_P [OF h]
    by (simp add: demux_message_def e wm_demuxed_def)
qed

lemma demux_messages_all:
  assumes "list_all wm_ok msgs"
  shows "demux_messages oc (concat (map wm_bytes msgs)) =
         Inr (map wm_demuxed msgs, length (concat (map wm_bytes msgs)))"
  using assms
proof (induction msgs)
  case Nil
  then show ?case by (simp add: demux_messages_step demux_step_def)
next
  case (Cons m msgs)
  have "demux_messages oc (concat (map wm_bytes (m # msgs))) =
      map_sum id (demux_app [wm_demuxed m] (length (wm_bytes m)))
        (demux_messages oc (concat (map wm_bytes msgs)))"
    using Cons.prems by (subst demux_messages_step) (simp add: demux_step_message)
  then show ?case using Cons by simp
qed

text \<open>C5. The receive side of a session, end to end.  Whatever responses and events the accessory writes,
  however it cuts their bytes into blocks of at most 1024 bytes, and however the network cuts the
  sealed frames into reads, the reader task hands over exactly those responses and events, in
  order, and reports the closed connection only after them.\<close>

theorem session_delivers_messages:
  assumes "aead_laws P" and "list_all wm_ok msgs"
    and "concat blocks = concat (map wm_bytes msgs)" and "list_all (\<lambda>b. length b \<le> MAX_BLOCK) blocks"
    and "length (concat blocks) \<le> isize_max"
    and "write_blocks P (\<lambda>_. True) \<lparr>ws_counter = NonceCounter_new, ws_write_key = key\<rparr> blocks = ((err, wire), w)"
    and "concat reads = wire"
  shows "err = None \<and>
     reader_task P oc key reader_init (map Data reads @ [Eof]) =
       map (route \<circ> wm_demuxed) msgs @ [OutResponse (Inl ConnectionClosed)]"
proof -
  let ?w = "\<lparr>ws_counter = NonceCounter_new, ws_write_key = key\<rparr>"
  obtain fs where fs: "wire = concat fs" "err = None" "frames_of P key NonceCounter_new blocks fs"
    using write_blocks_ok [OF assms(1,4), of ?w] assms(6) by auto
  have "[] @ concat reads = concat fs" using assms(7) fs(1) by simp
  moreover have "demux_messages oc ([] @ concat blocks) = Inr (map wm_demuxed msgs, length (concat blocks))"
    using demux_messages_all [OF assms(2)] assms(3) by simp
  ultimately show ?thesis
    using reader_task_honest [OF assms(1) fs(3), of "[]" reads oc "[]"] assms(5) fs(2)
    by (simp add: reader_init_def)
qed

lemma frames_of_concat_drain:
  assumes "aead_laws P" and "frames_of P key c bs fs"
  shows "drain_frames P key (concat fs) p c =
    (Inr (), \<lparr>rd_cipher = [], rd_plain = p @ concat bs, rd_counter = c + of_nat (length bs)\<rparr>)"
  using assms(2)
proof (induction bs arbitrary: c fs p)
  case Nil
  then have "fs = []" by (cases fs) auto
  then show ?case by (simp add: drain_frames.simps decrypt_frame_def LEN_PREFIX_def)
next
  case (Cons b bs)
  then obtain f fs' where fs: "fs = f # fs'" and f: "frame_of P key c b f" "length b \<le> MAX_BLOCK"
    and rest: "frames_of P key (c + 1) bs fs'" by (cases fs) auto
  have "drain_frames P key (concat fs) p c = drain_frames P key (concat fs') (p @ b) (c + 1)"
    by (subst drain_frames.simps)
      (simp add: fs decrypt_frame_of [OF assms(1) f] frame_of_length [OF assms(1) f, symmetric])
  then show ?case using Cons.IH [OF rest, of "p @ b"] by (simp add: algebra_simps)
qed

theorem session_delivers_messages_witness:
  "\<exists>wire w. write_blocks toy_prims (\<lambda>_. True) \<lparr>ws_counter = NonceCounter_new, ws_write_key = [5]\<rparr>
       [wm_bytes \<lparr>wm_event = True, wm_status = 200, wm_reason = ascii ''OK'', wm_type = ascii ''a/b'', wm_body = [1, 2]\<rparr>] =
       ((None, wire), w) \<and>
     reader_task toy_prims True [5] reader_init (map Data [take 5 wire, drop 5 wire] @ [Eof]) =
       [OutEvent \<lparr>ev_body = [1, 2]\<rparr>, OutResponse (Inl ConnectionClosed)]"
proof -
  let ?m = "\<lparr>wm_event = True, wm_status = 200, wm_reason = ascii ''OK'', wm_type = ascii ''a/b'', wm_body = [1, 2]\<rparr>"
  have ok: "list_all wm_ok [?m]"
    by (simp add: wm_ok_def plain_def trimmed_ascii_def ascii_def is_ascii_def in_range_def ws1_def usize_max_def)
  have len: "length (wm_bytes ?m) \<le> 100"
    by (simp add: wm_bytes_def message_bytes_def wm_prefix_def EVENT_PREFIX_def ascii_def CRLF_def show_nat.simps)
  obtain wire w err where w: "write_blocks toy_prims (\<lambda>_. True)
      \<lparr>ws_counter = NonceCounter_new, ws_write_key = [5]\<rparr> [wm_bytes ?m] = ((err, wire), w)"
    by (metis prod.exhaust)
  have "err = None \<and> reader_task toy_prims True [5] reader_init (map Data [take 5 wire, drop 5 wire] @ [Eof]) =
      map (route \<circ> wm_demuxed) [?m] @ [OutResponse (Inl ConnectionClosed)]"
    by (rule session_delivers_messages [OF toy_aead_laws ok _ _ _ w])
      (use len in \<open>simp_all add: MAX_BLOCK_def isize_max_def\<close>)
  then show ?thesis using w by (simp add: route_def wm_demuxed_def)
qed

lemma request_drained:
  assumes "aead_laws P"
    and "SecureSession_request P (\<lambda>_. True) w rx method path content_type body = (result, wire, w', rx')"
  shows "drain_frames P (ws_write_key w) wire [] (ws_counter w) =
           (Inr (), \<lparr>rd_cipher = [], rd_plain = encode_request method path content_type body,
                     rd_counter = ws_counter w'\<rparr>) \<and>
         (result, rx') = recv_response rx"
proof -
  let ?e = "encode_request method path content_type body"
  have small: "list_all (\<lambda>b. length b \<le> MAX_BLOCK) (chunks MAX_BLOCK ?e)"
    using chunks_length_le by (auto simp: list_all_iff)
  obtain fs where fs: "write_blocks P (\<lambda>_. True) w (chunks MAX_BLOCK ?e) = ((None, concat fs), w')"
      "frames_of P (ws_write_key w) (ws_counter w) (chunks MAX_BLOCK ?e) fs"
      "ws_counter w' = ws_counter w + of_nat (length (chunks MAX_BLOCK ?e))" "wire = concat fs"
    and r: "(result, rx') = recv_response rx"
    using write_blocks_ok [OF assms(1) small, of w] assms(2)
    by (auto simp: SecureSession_request_def Let_def split: prod.splits)
  have "concat (chunks MAX_BLOCK ?e) = ?e" by (rule concat_chunks) (simp add: MAX_BLOCK_def)
  then show ?thesis using frames_of_concat_drain [OF assms(1) fs(2), of "[]"] fs(3,4) r by simp
qed

text \<open>C28. The send side of a session: a request is split into blocks of at most 1024 bytes, and a peer that
  drains the resulting bytes with the same key and counter recovers exactly the encoded request,
  with nothing left over and its counter in step for the next request; the caller gets the next
  response the reader task delivers, events staying in their queue.\<close>

theorem session_request_reaches_peer:
  assumes "aead_laws P"
    and "SecureSession_request P (\<lambda>_. True) w rx method path content_type body = (result, wire, w', rx')"
  shows "drain_frames P (ws_write_key w) wire [] (ws_counter w) =
           (Inr (), \<lparr>rd_cipher = [], rd_plain = encode_request method path content_type body,
                     rd_counter = ws_counter w'\<rparr>) \<and>
         (result, rx') = recv_response rx"
  by (rule request_drained [OF assms])

theorem session_request_reaches_peer_witness:
  "\<exists>wire w'. SecureSession_request toy_prims (\<lambda>_. True) \<lparr>ws_counter = 7, ws_write_key = [5]\<rparr> [] (ascii ''GET'')
       (ascii ''/accessories'') [] [] = (Inl NoResponse, wire, w', []) \<and>
     drain_frames toy_prims [5] wire [] 7 =
       (Inr (), \<lparr>rd_cipher = [], rd_plain = encode_request (ascii ''GET'') (ascii ''/accessories'') [] [],
                 rd_counter = ws_counter w'\<rparr>)"
proof -
  obtain res wire w' rx' where r: "SecureSession_request toy_prims (\<lambda>_. True)
      \<lparr>ws_counter = 7, ws_write_key = [5]\<rparr> [] (ascii ''GET'') (ascii ''/accessories'') [] [] = (res, wire, w', rx')"
    by (metis prod.exhaust)
  show ?thesis using session_request_reaches_peer [OF toy_aead_laws r] r by auto
qed

lemma parse_response_prefix:
  assumes "wm_ok m" and "\<not> wm_event m" and "buf @ rest = wm_bytes m @ nxt" and "length (buf @ rest) \<le> isize_max"
  shows "parse_response oc buf =
    (if length (wm_bytes m) \<le> length buf
     then Inr (Complete \<lparr>resp_status = wm_status m, resp_content_type = wm_type m, resp_body = wm_body m\<rparr>
                 (length (wm_bytes m)))
     else Inr Incomplete)"
proof -
  let ?c = "Inr (Complete \<lparr>resp_status = wm_status m, resp_content_type = wm_type m, resp_body = wm_body m\<rparr>
              (length (wm_bytes m)))"
  have parse: "parse_message oc (wm_bytes m @ x) HTTP_PREFIX = ?c" for x
    unfolding wm_bytes_def
    using parse_message_bytes [of HTTP_PREFIX "wm_status m"] assms(1,2) by (simp add: wm_ok_def wm_prefix_def)
  show ?thesis
  proof (cases "length (wm_bytes m) \<le> length buf")
    case True
    then have "buf = wm_bytes m @ drop (length (wm_bytes m)) buf"
      using arg_cong [OF assms(3), of "take (length (wm_bytes m))"] append_take_drop_id [of "length (wm_bytes m)" buf]
      by simp
    then obtain x where "buf = wm_bytes m @ x" by blast
    then show ?thesis using parse by (simp add: parse_response_def)
  next
    case False
    have "parse_message oc buf HTTP_PREFIX = Inr Incomplete"
    proof (rule ccontr)
      assume "parse_message oc buf HTTP_PREFIX \<noteq> Inr Incomplete"
      from parse_message_extend [OF this assms(4)] have "parse_message oc buf HTTP_PREFIX = ?c"
        using parse assms(3) by simp
      then show False using parse_message_bound False by blast
    qed
    then show ?thesis using False by (simp add: parse_response_def)
  qed
qed

text \<open>Reads that do not complete the response are consumed; the connection goes on with what they gave.\<close>

lemma HapConnection_read_waits:
  assumes "wm_ok m" and "\<not> wm_event m" and "buf @ concat reads @ rest = wm_bytes m @ nxt"
    and "length (buf @ concat reads @ rest) \<le> isize_max" and "length (buf @ concat (butlast reads)) < length (wm_bytes m)"
  shows "HapConnection_read oc buf (map Data reads @ later) = HapConnection_read oc (buf @ concat reads) later"
  using assms(3-5)
proof (induction reads arbitrary: buf)
  case (Cons r rs)
  have "length buf < length (wm_bytes m)" using Cons.prems(3) by (auto split: if_splits)
  then have "HapConnection_read oc buf (map Data (r # rs) @ later) = HapConnection_read oc (buf @ r) (map Data rs @ later)"
    using parse_response_prefix [OF assms(1,2), of buf "concat (r # rs) @ rest" nxt oc] Cons.prems(1,2)
    by (simp add: HapConnection_read.simps [of oc buf])
  also have "\<dots> = HapConnection_read oc ((buf @ r) @ concat rs) later"
    using Cons.prems by (cases "rs = []") (simp_all add: Cons.IH)
  finally show ?case by simp
qed simp

lemma HapConnection_read_stream:
  assumes "wm_ok m" and "\<not> wm_event m" and "buf @ concat reads @ rest = wm_bytes m @ nxt"
    and "length (buf @ concat reads @ rest) \<le> isize_max" and "length (buf @ concat (butlast reads)) < length (wm_bytes m)"
  shows "HapConnection_read oc buf (map Data reads @ later) =
     (if length (wm_bytes m) \<le> length (buf @ concat reads)
      then (Some (Inr \<lparr>resp_status = wm_status m, resp_content_type = wm_type m, resp_body = wm_body m\<rparr>), later)
      else case later of
        [] \<Rightarrow> (None, [])
      | Eof # ins \<Rightarrow> (Some (Inl (Fault ConnectionClosed)), ins)
      | ReadError # ins \<Rightarrow> (Some (Inl (Fault IoError)), ins)
      | Data bs # ins \<Rightarrow> HapConnection_read oc (buf @ concat reads @ bs) ins)"
  unfolding HapConnection_read_waits [OF assms]
  using parse_response_prefix [OF assms(1,2), of "buf @ concat reads" rest nxt oc] assms(3,4)
  by (subst HapConnection_read.simps) (simp split: list.split reader_in.split)

text \<open>A response that arrives by itself leaves the rest of the stream unread.\<close>

lemma HapConnection_read_exact:
  assumes "wm_ok m" and "\<not> wm_event m" and "buf @ concat reads = wm_bytes m" and "[] \<notin> set reads"
    and "length (wm_bytes m) \<le> isize_max"
  shows "HapConnection_read oc buf (map Data reads @ later) =
     (Some (Inr \<lparr>resp_status = wm_status m, resp_content_type = wm_type m, resp_body = wm_body m\<rparr>), later)"
proof (cases reads rule: rev_cases)
  case Nil
  then show ?thesis
    using parse_response_prefix [OF assms(1,2), of buf "[]" "[]" oc] assms(3,5) by (simp add: HapConnection_read.simps)
next
  case (snoc rs r)
  then have "length (buf @ concat (butlast reads)) < length (wm_bytes m)"
    using assms(4) by (auto simp flip: assms(3))
  then show ?thesis
    using HapConnection_read_stream [OF assms(1,2), of buf reads "[]" "[]" oc later] assms(3,5) by simp
qed

text \<open>C29. Over the plaintext connection, the response to a request is returned with the read that brings its
  last byte, however the network cuts it: nothing that comes after that read is waited for or
  consumed, whatever it is and whether or not the peer ever closes.  As long as the last byte is
  missing the connection waits; a peer that closes it then is reported as a closed connection, and a
  failing read as an input/output error.\<close>

theorem connection_response_any_chunking:
  assumes "wm_ok m" and "\<not> wm_event m" and "concat reads @ rest = wm_bytes m @ nxt"
    and "length (concat reads @ rest) \<le> isize_max" and "length (concat (butlast reads)) < length (wm_bytes m)"
  shows "if length (wm_bytes m) \<le> length (concat reads)
    then HapConnection_read oc [] (map Data reads @ later) =
      (Some (Inr \<lparr>resp_status = wm_status m, resp_content_type = wm_type m, resp_body = wm_body m\<rparr>), later)
    else HapConnection_read oc [] (map Data reads) = (None, []) \<and>
      HapConnection_read oc [] (map Data reads @ Eof # later) = (Some (Inl (Fault ConnectionClosed)), later) \<and>
      HapConnection_read oc [] (map Data reads @ ReadError # later) = (Some (Inl (Fault IoError)), later)"
  using HapConnection_read_stream [OF assms(1,2), of "[]" reads rest nxt oc later]
    HapConnection_read_stream [OF assms(1,2), of "[]" reads rest nxt oc "[]"]
    HapConnection_read_stream [OF assms(1,2), of "[]" reads rest nxt oc "Eof # later"]
    HapConnection_read_stream [OF assms(1,2), of "[]" reads rest nxt oc "ReadError # later"] assms(3-5)
  by simp

theorem connection_response_any_chunking_witness:
  "let m = \<lparr>wm_event = False, wm_status = 200, wm_reason = ascii ''OK'', wm_type = ascii ''a/b'', wm_body = [1, 2]\<rparr>
   in HapConnection_read True [] [Data (take 7 (wm_bytes m)), Data (drop 7 (wm_bytes m) @ [9]), Data [8]] =
        (Some (Inr \<lparr>resp_status = 200, resp_content_type = ascii ''a/b'', resp_body = [1, 2]\<rparr>), [Data [8]]) \<and>
      HapConnection_read True [] [Data (take 7 (wm_bytes m)), Eof] = (Some (Inl (Fault ConnectionClosed)), [])"
proof -
  let ?m = "\<lparr>wm_event = False, wm_status = 200, wm_reason = ascii ''OK'', wm_type = ascii ''a/b'', wm_body = [1, 2]\<rparr>"
  have ok: "wm_ok ?m"
    by (simp add: wm_ok_def plain_def trimmed_ascii_def ascii_def is_ascii_def in_range_def ws1_def usize_max_def)
  have len: "length (wm_bytes ?m) \<le> 100" "7 < length (wm_bytes ?m)"
    by (simp_all add: wm_bytes_def message_bytes_def wm_prefix_def HTTP_PREFIX_def ascii_def CRLF_def show_nat.simps)
  then have "wm_bytes ?m \<noteq> []" by auto
  then show ?thesis
    using connection_response_any_chunking [OF ok, of "[take 7 (wm_bytes ?m), drop 7 (wm_bytes ?m) @ [9]]" "[]" "[9]" True "[Data [8]]"]
      connection_response_any_chunking [OF ok, of "[take 7 (wm_bytes ?m)]" "drop 7 (wm_bytes ?m)" "[]" True "[]"] len
    by (simp add: isize_max_def Let_def)
qed

end
