(* ===== verification/Ip_Pairing.thy ===== *)
theory Ip_Pairing
  imports Secure_Session Pairing_Driver Dut_Interop
begin

text \<open>
  Pairing over IP, \<open>hap-pairing\<close>: its errors, the HTTP exchange of pairing messages (\<open>wire.rs\<close>, over
  \<open>HapConnection::request\<close> of \<open>hap-transport\<close>), the Pair Setup and Pair Verify drivers (\<open>setup.rs\<close>,
  \<open>verify.rs\<close>) and \<open>pair\<close>, which runs both over one connection and upgrades it.  A TCP connection is
  the peer's state with the reads that are still to come; the peer is a function from the bytes
  written to whether the write succeeded and what it makes readable.
\<close>

section \<open>Errors\<close>

datatype PairingError =
    PTlv8 Tlv8Error
  | PCrypto CryptoError
  | PTransport TransportError
  | PStore str
  | PAccessory u8
  | PMalformed string
  | PUnknownAccessory str
  | PWrongTransport

text \<open>How an operation over the network ends without a result: an error, a panic of the response
  parser, or a wait for bytes that never come.\<close>

datatype ip_error = Failed PairingError | Panicked | Waiting

section \<open>One exchange\<close>

record 'n tcp =
  tcp_peer :: 'n
  tcp_reads :: "reader_in list"

type_synonym 'n tcp_peer = "'n \<Rightarrow> bytes \<Rightarrow> (bool \<times> reader_in list) \<times> 'n"

definition PAIRING_TLV8 :: str where "PAIRING_TLV8 = ascii ''application/pairing+tlv8''"
definition PAIR_SETUP :: str where "PAIR_SETUP = ascii ''/pair-setup''"
definition PAIR_VERIFY :: str where "PAIR_VERIFY = ascii ''/pair-verify''"

definition HapConnection_request ::
    "bool \<Rightarrow> 'n tcp_peer \<Rightarrow> 'n tcp \<Rightarrow> str \<Rightarrow> str \<Rightarrow> str \<Rightarrow> bytes \<Rightarrow> (fault + HapResponse) option \<times> 'n tcp" where
  "HapConnection_request oc peer conn method path content_type body =
     (let request = encode_request method path content_type body;
          ((sent, ins), p) = peer (tcp_peer conn) request;
          reads = tcp_reads conn @ ins in
      if \<not> sent then (Some (Inl (Fault IoError)), \<lparr>tcp_peer = p, tcp_reads = reads\<rparr>)
      else
        let (r, rest) = HapConnection_read oc [] reads in
        (r, \<lparr>tcp_peer = p, tcp_reads = rest\<rparr>))"

definition conn_post_tlv8 ::
    "bool \<Rightarrow> 'n tcp_peer \<Rightarrow> 'n tcp \<Rightarrow> str \<Rightarrow> bytes \<Rightarrow> (ip_error + bytes) \<times> 'n tcp" where
  "conn_post_tlv8 oc peer conn path body =
     (let (resp, conn') = HapConnection_request oc peer conn (ascii ''POST'') path PAIRING_TLV8 body in
      (case resp of
         None \<Rightarrow> Inl Waiting
       | Some (Inl Panic) \<Rightarrow> Inl Panicked
       | Some (Inl (Fault e)) \<Rightarrow> Inl (Failed (PTransport e))
       | Some (Inr r) \<Rightarrow> Inr (resp_body r),
       conn'))"

definition check_tlv_error :: "bytes \<Rightarrow> PairingError + unit" where
  "check_tlv_error body =
     and_then (map_err PTlv8 (Tlv8Map_parse body)) (\<lambda>m.
     case Tlv8Map_get m ERROR of
       Some (code # _) \<Rightarrow> Inl (PAccessory code)
     | _ \<Rightarrow> Inr ())"

definition ip_exchange :: "bool \<Rightarrow> 'n tcp_peer \<Rightarrow> str \<Rightarrow> 'n tcp \<Rightarrow> bytes \<Rightarrow> (ip_error + bytes) \<times> 'n tcp" where
  "ip_exchange oc peer path conn request =
     (let (r, conn') = conn_post_tlv8 oc peer conn path request in
      (and_then r (\<lambda>response. and_then (map_err Failed (check_tlv_error response)) (\<lambda>_. Inr response)), conn'))"

section \<open>The drivers\<close>

definition run_pair_setup ::
    "prims \<Rightarrow> bool \<Rightarrow> 'n tcp_peer \<Rightarrow> 'n tcp \<Rightarrow> str \<Rightarrow> ControllerKeypair \<Rightarrow> bytes \<Rightarrow>
     ((ip_error + AccessoryPairing) \<times> 'n tcp) option" where
  "run_pair_setup P oc peer conn setup_code controller rng_a =
     (case PairSetupClient_new setup_code controller rng_a of
        Inl e \<Rightarrow> Some (Inl (Failed (PCrypto e)), conn)
      | Inr client \<Rightarrow>
          let (request, client') = ps_start client in
          map_option (\<lambda>(r, _, conn'). (r, conn'))
            (drive (ps_handle P) (ip_exchange oc peer PAIR_SETUP) (Failed \<circ> PCrypto) SETUP_EXCHANGES client' conn request))"

definition drive_pair_verify ::
    "prims \<Rightarrow> bool \<Rightarrow> 'n tcp_peer \<Rightarrow> 'n tcp \<Rightarrow> PairVerifyClient \<Rightarrow> ((ip_error + SessionKeys) \<times> 'n tcp) option" where
  "drive_pair_verify P oc peer conn client =
     (let (request, client') = pv_start client in
      map_option (\<lambda>(r, _, conn'). (r, conn'))
        (drive (pv_handle P) (ip_exchange oc peer PAIR_VERIFY) (Failed \<circ> PCrypto) VERIFY_EXCHANGES client' conn request))"

definition run_pair_verify ::
    "prims \<Rightarrow> bool \<Rightarrow> 'n tcp_peer \<Rightarrow> 'n tcp \<Rightarrow> AccessoryPairing \<Rightarrow> ControllerKeypair \<Rightarrow> bytes \<Rightarrow>
     ((ip_error + SessionKeys) \<times> 'n tcp) option" where
  "run_pair_verify P oc peer conn pairing controller eph =
     drive_pair_verify P oc peer conn (PairVerifyClient_new_with_ephemeral P controller pairing eph)"

text \<open>\<open>upgrade\<close> hands the rest of the stream to the reader task of a new session.\<close>

record 'n ip_session =
  ip_writer :: WriterState
  ip_reader :: reader
  ip_read_key :: bytes
  ip_tcp :: "'n tcp"

definition upgrade :: "'n tcp \<Rightarrow> SessionKeys \<Rightarrow> 'n ip_session" where
  "upgrade conn keys =
     \<lparr>ip_writer = SecureSession_writer keys, ip_reader = reader_init, ip_read_key = read_key keys, ip_tcp = conn\<rparr>"

definition connect_over ::
    "prims \<Rightarrow> bool \<Rightarrow> 'n tcp_peer \<Rightarrow> 'n tcp \<Rightarrow> AccessoryPairing \<Rightarrow> ControllerKeypair \<Rightarrow> bytes \<Rightarrow>
     (ip_error + 'n ip_session) option" where
  "connect_over P oc peer conn pairing controller eph =
     map_option (\<lambda>(r, conn'). and_then r (\<lambda>keys. Inr (upgrade conn' keys)))
       (run_pair_verify P oc peer conn pairing controller eph)"

definition pair ::
    "prims \<Rightarrow> bool \<Rightarrow> 'n tcp_peer \<Rightarrow> 'n tcp \<Rightarrow> str \<Rightarrow> ControllerKeypair \<Rightarrow> bytes \<Rightarrow> bytes \<Rightarrow>
     (ip_error + AccessoryPairing \<times> 'n ip_session) option" where
  "pair P oc peer conn setup_code controller rng_a eph =
     (case run_pair_setup P oc peer conn setup_code controller rng_a of
        None \<Rightarrow> None
      | Some (Inl e, _) \<Rightarrow> Some (Inl e)
      | Some (Inr pairing, conn') \<Rightarrow>
          map_option (\<lambda>r. and_then r (\<lambda>session. Inr (pairing, session)))
            (connect_over P oc peer conn' pairing controller eph))"

section \<open>An accessory behind HTTP\<close>

text \<open>The far end: an accessory that answers every POST with the reply of the accessory side of Pair
  Setup or Pair Verify, as an HTTP response the network cuts as it likes (\<open>segs\<close>).\<close>

definition http_body :: "bytes \<Rightarrow> bytes" where
  "http_body req = (case find_subslice req (CRLF @ CRLF) of None \<Rightarrow> [] | Some i \<Rightarrow> drop (i + 4) req)"

definition tlv_response :: "nat \<Rightarrow> bytes \<Rightarrow> wire_message" where
  "tlv_response status body =
     \<lparr>wm_event = False, wm_status = status, wm_reason = ascii ''OK'', wm_type = PAIRING_TLV8, wm_body = body\<rparr>"

definition ip_accessory :: "prims \<Rightarrow> dut_rng \<Rightarrow> (bytes \<Rightarrow> bytes list) \<Rightarrow> ReferenceAccessory tcp_peer" where
  "ip_accessory P rng segs a req =
     (let handler = (if starts_with req (ascii ''POST /pair-setup '') then dut_pair_setup else dut_pair_verify);
          ((code, reply), a') = handler P rng a (http_body req) in
      ((True, map Data (segs (wm_bytes (tlv_response (if code = Changed then 200 else 400) reply)))), a'))"

definition segments :: "(bytes \<Rightarrow> bytes list) \<Rightarrow> bool" where
  "segments segs \<longleftrightarrow> (\<forall>bs. concat (segs bs) = bs \<and> [] \<notin> set (segs bs))"

lemma plain_parts:
  "plain (ascii ''POST '')" "plain PAIR_SETUP" "plain PAIR_VERIFY" "plain (ascii '' HTTP/1.1'')"
  "plain (ascii ''Content-Type: application/pairing+tlv8'')" "plain (ascii ''Content-Length: '')"
  by (simp_all add: plain_def ascii_def is_ascii_def in_range_def PAIR_SETUP_def PAIR_VERIFY_def)

lemma request_bytes:
  "encode_request (ascii ''POST'') path PAIRING_TLV8 body =
     (ascii ''POST '' @ path @ ascii '' HTTP/1.1'') @ CRLF @ ascii ''Content-Type: application/pairing+tlv8'' @ CRLF @
     (ascii ''Content-Length: '' @ show_nat (length body)) @ CRLF @ CRLF @ body"
  by (simp add: encode_request_def PAIRING_TLV8_def ascii_def Let_def)

lemma http_body_request:
  assumes "path = PAIR_SETUP \<or> path = PAIR_VERIFY"
  shows "http_body (encode_request (ascii ''POST'') path PAIRING_TLV8 body) = body"
proof -
  let ?l1 = "ascii ''POST '' @ path @ ascii '' HTTP/1.1''"
  let ?h = "?l1 @ CRLF @ ascii ''Content-Type: application/pairing+tlv8'' @ CRLF @ ascii ''Content-Length: '' @ show_nat (length body)"
  have l1: "plain ?l1" using assms plain_parts by auto
  have "find_subslice (encode_request (ascii ''POST'') path PAIRING_TLV8 body) (CRLF @ CRLF) = Some (length ?h)"
    unfolding request_bytes using l1 plain_parts by (subst find_three_lines) simp_all
  moreover have "encode_request (ascii ''POST'') path PAIRING_TLV8 body = ?h @ CRLF @ CRLF @ body" by (simp add: request_bytes)
  ultimately show ?thesis using after_head(2) [of ?h body] by (simp add: http_body_def)
qed

lemma request_path:
  "starts_with (encode_request (ascii ''POST'') PAIR_SETUP PAIRING_TLV8 body) (ascii ''POST /pair-setup '')"
  "\<not> starts_with (encode_request (ascii ''POST'') PAIR_VERIFY PAIRING_TLV8 body) (ascii ''POST /pair-setup '')"
  unfolding request_bytes by (simp_all add: PAIR_SETUP_def PAIR_VERIFY_def starts_with_def ascii_def)

lemma length_message: "length (wm_bytes (tlv_response 200 body)) \<le> length body + length (show_nat (length body)) + 200"
  by (simp add: wm_bytes_def message_bytes_def wm_prefix_def tlv_response_def HTTP_PREFIX_def PAIRING_TLV8_def ascii_def CRLF_def
      show_nat.simps)

lemma length_show_nat: "length (show_nat n) \<le> Suc n"
  by (induction n rule: show_nat.induct) (subst show_nat.simps, auto)

lemma wm_tlv_response:
  assumes "length body \<le> 2 ^ 60"
  shows "wm_ok (tlv_response 200 body)" and "length (wm_bytes (tlv_response 200 body)) \<le> isize_max"
proof -
  have "length (wm_bytes (tlv_response 200 body)) \<le> 2 * length body + 201"
    using length_message [of body] length_show_nat [of "length body"] by linarith
  then show "length (wm_bytes (tlv_response 200 body)) \<le> isize_max" using assms by (simp add: isize_max_def)
  show "wm_ok (tlv_response 200 body)"
    using assms by (simp add: wm_ok_def tlv_response_def plain_def trimmed_ascii_def ascii_def is_ascii_def in_range_def ws1_def
        usize_max_def PAIRING_TLV8_def)
qed

text \<open>A reply that a pairing machine accepts passes the check for an accessory error.\<close>

lemma no_error_item:
  assumes "Tlv8Map_parse r = Inr m" and "ps_check_error m = Inr () \<or> pv_check_error m = Inr ()"
  shows "check_tlv_error r = Inr ()"
  using assms by (auto simp: check_tlv_error_def ps_check_error_def pv_check_error_def split: option.splits list.splits if_splits)

lemma accepted_no_error:
  "ps_handle P c r = (Inr x, c') \<Longrightarrow> check_tlv_error r = Inr ()"
  "pv_handle P d r = (Inr y, d') \<Longrightarrow> check_tlv_error r = Inr ()"
proof -
  assume "ps_handle P c r = (Inr x, c')"
  then obtain m where "Tlv8Map_parse r = Inr m" "ps_check_error m = Inr ()"
    by (cases "ps_response_map r") (auto simp: ps_handle_def ps_response_map_def result_simps)
  then show "check_tlv_error r = Inr ()" by (blast intro: no_error_item)
next
  assume "pv_handle P d r = (Inr y, d')"
  then obtain m where "Tlv8Map_parse r = Inr m" "pv_check_error m = Inr ()"
    by (cases "pv_state d"; cases "pv_m2_values P d r"; cases "pv_m4_keys P d r")
      (auto simp: pv_handle_defs pv_m2_values_def pv_m4_keys_def result_simps)
  then show "check_tlv_error r = Inr ()" by (blast intro: no_error_item)
qed

lemma ip_exchange_accessory:
  assumes "segments segs"
    and "path = PAIR_SETUP \<and> dut_pair_setup P rng a out = ((Changed, reply), a') \<or>
         path = PAIR_VERIFY \<and> dut_pair_verify P rng a out = ((Changed, reply), a')"
    and "length reply \<le> 2 ^ 60" and "check_tlv_error reply = Inr ()"
  shows "ip_exchange oc (ip_accessory P rng segs) path \<lparr>tcp_peer = a, tcp_reads = []\<rparr> out =
     (Inr reply, \<lparr>tcp_peer = a', tcp_reads = []\<rparr>)"
proof -
  let ?m = "tlv_response 200 reply" and ?req = "encode_request (ascii ''POST'') path PAIRING_TLV8 out"
  have "ip_accessory P rng segs a ?req = ((True, map Data (segs (wm_bytes ?m))), a')"
    using assms(2) http_body_request [of path out] request_path [of out] by (auto simp: ip_accessory_def)
  moreover have "HapConnection_read oc [] (map Data (segs (wm_bytes ?m)) @ []) =
      (Some (Inr \<lparr>resp_status = 200, resp_content_type = PAIRING_TLV8, resp_body = reply\<rparr>), [])"
    using HapConnection_read_exact [OF wm_tlv_response(1) [OF assms(3)] _ _ _ wm_tlv_response(2) [OF assms(3)],
        of "[]" "segs (wm_bytes ?m)" oc "[]"] assms(1)
    by (simp add: segments_def tlv_response_def)
  ultimately show ?thesis
    using assms(4) by (simp add: ip_exchange_def conn_post_tlv8_def HapConnection_request_def Let_def)
qed

lemma drive_ip_step:
  assumes "ip_exchange oc peer path conn out = (Inr reply, conn')"
  shows "drive handle (ip_exchange oc peer path) err (Suc fuel) client conn out =
     (case handle client reply of
        (Inl e, client') \<Rightarrow> Some (Inl (err e), client', conn')
      | (Inr (Send next), client') \<Rightarrow> drive handle (ip_exchange oc peer path) err fuel client' conn' next
      | (Inr (Done x), client') \<Rightarrow> Some (Inr x, client', conn'))"
  using assms by simp

section \<open>Pairing over one connection\<close>

lemma ip_pair_setup_honest:
  assumes laws: "aead_laws P" "sig_laws P" "kdf_laws P" and sha: "\<And>x. length (sha512 P x) = 64"
    and cut: "segments segs" and salt: "length (rng_salt rng) \<le> 2 ^ 32"
    and ids: "id_small (ra_pairing_id a)" "id_small (kp_id kp)" "utf8_valid (ra_pairing_id a)" "utf8_valid (kp_id kp)"
    and code: "ra_setup_code a = Some code'" "normalize_setup_code code' = normalize_setup_code code"
    and new: "PairSetupClient_new code kp rng_a = Inr c0"
    and srp: "HapPairSetupSrpServer_new P code' (rng_salt rng) (rng_b rng) = Inr (srv, sv)"
      "premaster (sha512 P) (ps_srp c0) sv (ps_password c0) (be_val (srv_b_pub_bytes srv)) = Inr S"
  shows "run_pair_setup P oc (ip_accessory P rng segs) \<lparr>tcp_peer = a, tcp_reads = []\<rparr> code kp rng_a =
     Some (Inr \<lparr>pairing_id = ra_pairing_id a, acc_ltpk = ltpk P (ra_keypair a)\<rparr>,
       \<lparr>tcp_peer = provision_controller (a\<lparr>ra_setup := None\<rparr>) (kp_id kp) (ltpk P kp), tcp_reads = []\<rparr>)"
proof -
  obtain m1 c1 where st: "ps_start c0 = (m1, c1)" by fastforce
  obtain m2 m3 c2 m4 K m5 c3 m6 c4 where
    r: "ps_handle P c1 m2 = (Inr (Send m3), c2)" "ps_handle P c2 m4 = (Inr (Send m5), c3)"
      "ps_handle P c3 m6 = (Inr (Done \<lparr>pairing_id = ra_pairing_id a, acc_ltpk = ltpk P (ra_keypair a)\<rparr>), c4)"
    and h: "dut_pair_setup P rng a m1 = ((Changed, m2), a\<lparr>ra_setup := Some (AwaitingM3 srv)\<rparr>)"
      "dut_pair_setup P rng (a\<lparr>ra_setup := Some (AwaitingM3 srv)\<rparr>) m3 = ((Changed, m4), a\<lparr>ra_setup := Some (AwaitingM5 K)\<rparr>)"
      "dut_pair_setup P rng (a\<lparr>ra_setup := Some (AwaitingM5 K)\<rparr>) m5 =
         ((Changed, m6), provision_controller (a\<lparr>ra_setup := None\<rparr>) (kp_id kp) (ltpk P kp))"
    and sz: "length m2 \<le> 2 * length (rng_salt rng) + 1000" "length m4 \<le> 200" "length m6 \<le> 2 ^ 40"
    by (rule dut_setup_run [OF laws ids code new srp st]) (rule that; (assumption | (simp add: sha)))
  have len: "length m2 \<le> 2 ^ 60" "length m4 \<le> 2 ^ 60" "length m6 \<le> 2 ^ 60" using sz salt by simp_all
  note ex = ip_exchange_accessory [OF cut disjI1 [OF conjI [OF refl]]]
  note e1 = drive_ip_step [OF ex [OF h(1) len(1) accepted_no_error(1) [OF r(1)]]]
    and e2 = drive_ip_step [OF ex [OF h(2) len(2) accepted_no_error(1) [OF r(2)]]]
    and e3 = drive_ip_step [OF ex [OF h(3) len(3) accepted_no_error(1) [OF r(3)]]]
  show ?thesis
    by (simp add: run_pair_setup_def new st SETUP_EXCHANGES_def numeral_3_eq_3 r e1 e2 e3 del: drive.simps)
qed

lemma ip_pair_verify_honest:
  assumes laws: "aead_laws P" "sig_laws P" "dh_laws P" "kdf_laws P" and cut: "segments segs"
    and ids: "id_small (ra_pairing_id a)" "id_small (kp_id kp)"
    and ctl: "ra_controller a = Some (kp_id kp, ltpk P kp)"
  obtains keys ek where "run_pair_verify P oc (ip_accessory P rng segs) \<lparr>tcp_peer = a, tcp_reads = []\<rparr>
       \<lparr>pairing_id = ra_pairing_id a, acc_ltpk = ltpk P (ra_keypair a)\<rparr> kp e =
     Some (Inr keys, \<lparr>tcp_peer = a\<lparr>ra_verify := None, ra_session := Some (AccessorySession_new (read_key keys) (write_key keys) ek)\<rparr>,
       tcp_reads = []\<rparr>)"
proof -
  obtain m1 c1 where st: "pv_start (PairVerifyClient_new_with_ephemeral P kp
      \<lparr>pairing_id = ra_pairing_id a, acc_ltpk = ltpk P (ra_keypair a)\<rparr> e) = (m1, c1)" by fastforce
  obtain m2 progress m3 c2 m4 session keys c3 where
    r: "pv_handle P c1 m2 = (Inr (Send m3), c2)" "pv_handle P c2 m4 = (Inr (Done keys), c3)"
      "session = AccessorySession_new (read_key keys) (write_key keys) (as_event_key session)"
    and h: "dut_pair_verify P rng a m1 = ((Changed, m2), a\<lparr>ra_verify := Some progress\<rparr>)"
      "dut_pair_verify P rng (a\<lparr>ra_verify := Some progress\<rparr>) m3 = ((Changed, m4), a\<lparr>ra_verify := None, ra_session := Some session\<rparr>)"
    and sz: "length m2 \<le> 2 ^ 40" "m4 = enc_items [(STATE, [STATE_M4])]"
    by (rule dut_verify_run [OF laws ids ctl st]) (rule that; assumption)
  have len: "length m2 \<le> 2 ^ 60" "length m4 \<le> 2 ^ 60"
    using sz length_enc_items_Cons [of STATE "[STATE_M4]" "[]"] by simp_all
  note ex = ip_exchange_accessory [OF cut disjI2 [OF conjI [OF refl]]]
  note e1 = drive_ip_step [OF ex [OF h(1) len(1) accepted_no_error(2) [OF r(1)]]]
    and e2 = drive_ip_step [OF ex [OF h(2) len(2) accepted_no_error(2) [OF r(2)]]]
  show ?thesis
    by (rule that [of keys "as_event_key session"], subst r(3) [symmetric])
      (simp add: run_pair_verify_def drive_pair_verify_def st VERIFY_EXCHANGES_def numeral_2_eq_2 r(1,2) e1 e2 del: drive.simps)
qed

section \<open>Properties\<close>

text \<open>C6. Pairing over IP establishes a working session.  Against an accessory that runs the accessory side
  of the protocols behind HTTP, however its responses are cut into reads, \<open>pair\<close> returns the
  accessory's identifier and long-term key and a session, with no byte of the stream lost; the
  accessory has the controller's key and the same session keys, and it reads every request made on
  the session.\<close>

theorem ip_pair_establishes_session:
  assumes "aead_laws P" "sig_laws P" "dh_laws P" "kdf_laws P" and "\<And>x. length (sha512 P x) = 64"
    and "segments segs" and "length (rng_salt rng) \<le> 2 ^ 32"
    and "id_small (ra_pairing_id a)" "id_small (kp_id kp)" "utf8_valid (ra_pairing_id a)" "utf8_valid (kp_id kp)"
    and "ra_setup_code a = Some code'" "normalize_setup_code code' = normalize_setup_code code"
    and "PairSetupClient_new code kp rng_a = Inr c0"
    and "HapPairSetupSrpServer_new P code' (rng_salt rng) (rng_b rng) = Inr (srv, sv)"
      "premaster (sha512 P) (ps_srp c0) sv (ps_password c0) (be_val (srv_b_pub_bytes srv)) = Inr S"
  shows "\<exists>s a' sess. pair P oc (ip_accessory P rng segs) \<lparr>tcp_peer = a, tcp_reads = []\<rparr> code kp rng_a e =
       Some (Inr (\<lparr>pairing_id = ra_pairing_id a, acc_ltpk = ltpk P (ra_keypair a)\<rparr>, s)) \<and>
     ip_tcp s = \<lparr>tcp_peer = a', tcp_reads = []\<rparr> \<and> ra_controller a' = Some (kp_id kp, ltpk P kp) \<and>
     ra_session a' = Some sess \<and> as_read_key sess = ip_read_key s \<and> as_write_key sess = ws_write_key (ip_writer s) \<and>
     (\<forall>rx method path ct body result wire w' rx'.
        SecureSession_request P (\<lambda>_. True) (ip_writer s) rx method path ct body = (result, wire, w', rx') \<longrightarrow>
        drain_frames P (as_write_key sess) wire [] (as_recv_ctr sess) =
          (Inr (), \<lparr>rd_cipher = [], rd_plain = encode_request method path ct body, rd_counter = ws_counter w'\<rparr>))"
proof -
  let ?b = "provision_controller (a\<lparr>ra_setup := None\<rparr>) (kp_id kp) (ltpk P kp)"
  let ?p = "\<lparr>pairing_id = ra_pairing_id a, acc_ltpk = ltpk P (ra_keypair a)\<rparr>"
  have b: "ra_pairing_id ?b = ra_pairing_id a" "ra_keypair ?b = ra_keypair a" "ra_controller ?b = Some (kp_id kp, ltpk P kp)"
    by (simp_all add: provision_controller_def)
  obtain keys ek where v: "run_pair_verify P oc (ip_accessory P rng segs) \<lparr>tcp_peer = ?b, tcp_reads = []\<rparr> ?p kp e =
      Some (Inr keys, \<lparr>tcp_peer = ?b\<lparr>ra_verify := None, ra_session := Some (AccessorySession_new (read_key keys) (write_key keys) ek)\<rparr>,
        tcp_reads = []\<rparr>)"
    using ip_pair_verify_honest [OF assms(1-4,6), of ?b kp] assms(8,9) b by (metis b)
  let ?sess = "AccessorySession_new (read_key keys) (write_key keys) ek"
  let ?s = "upgrade \<lparr>tcp_peer = ?b\<lparr>ra_verify := None, ra_session := Some ?sess\<rparr>, tcp_reads = []\<rparr> keys"
  have "pair P oc (ip_accessory P rng segs) \<lparr>tcp_peer = a, tcp_reads = []\<rparr> code kp rng_a e = Some (Inr (?p, ?s))"
    using v by (simp add: pair_def connect_over_def ip_pair_setup_honest [OF assms(1,2,4-16)])
  moreover have "drain_frames P (as_write_key ?sess) wire [] (as_recv_ctr ?sess) =
      (Inr (), \<lparr>rd_cipher = [], rd_plain = encode_request meth pth ct body, rd_counter = ws_counter w'\<rparr>)"
    if "SecureSession_request P (\<lambda>_. True) (ip_writer ?s) rx meth pth ct body = (result, wire, w', rx')"
    for rx meth pth ct body result wire w' rx'
    using request_drained [OF assms(1) that]
    by (simp add: upgrade_def SecureSession_writer_def AccessorySession_new_def NonceCounter_new_def)
  ultimately show ?thesis
    using b(3) by (intro exI [of _ ?s] exI [of _ "?b\<lparr>ra_verify := None, ra_session := Some ?sess\<rparr>"] exI [of _ ?sess])
      (simp add: upgrade_def SecureSession_writer_def AccessorySession_new_def)
qed

theorem ip_pair_establishes_session_witness:
  "\<exists>s a'. pair toy_prims True (ip_accessory toy_prims toy_rng (\<lambda>bs. if bs = [] then [] else [bs]))
       \<lparr>tcp_peer = with_setup_code (with_actuator (ascii ''acc'') [9]) (ascii ''123-45-678''), tcp_reads = []\<rparr>
       (ascii ''12345678'') toy_kp [] [4] =
       Some (Inr (\<lparr>pairing_id = ascii ''acc'', acc_ltpk = ltpk toy_prims (from_seed (ascii ''acc'') [9])\<rparr>, s)) \<and>
     tcp_peer (ip_tcp s) = a' \<and> ra_controller a' = Some (kp_id toy_kp, ltpk toy_prims toy_kp)"
proof -
  let ?a = "with_setup_code (with_actuator (ascii ''acc'') [9]) (ascii ''123-45-678'')"
  obtain c0 srv salt S where t: "PairSetupClient_new (ascii ''12345678'') toy_kp [] = Inr c0"
    "HapPairSetupSrpServer_new toy_prims (ascii ''123-45-678'') (rng_salt toy_rng) (rng_b toy_rng) = Inr (srv, salt)"
    "premaster (sha512 toy_prims) (ps_srp c0) salt (ps_password c0) (be_val (srv_b_pub_bytes srv)) = Inr S"
    using toy_setup by (auto simp: toy_rng_def)
  have a: "ra_pairing_id ?a = ascii ''acc''" "ra_setup_code ?a = Some (ascii ''123-45-678'')"
      "ra_keypair ?a = from_seed (ascii ''acc'') [9]"
    by (simp_all add: with_setup_code_def with_actuator_def)
  have sha: "length (sha512 toy_prims x) = 64" for x by (simp add: toy_sha512)
  have cut: "segments (\<lambda>bs. if bs = [] then [] else [bs])" by (simp add: segments_def)
  have salt: "length (rng_salt toy_rng) \<le> 2 ^ 32" by (simp add: toy_rng_def)
  show ?thesis
    using ip_pair_establishes_session [OF toy_aead_laws toy_sig_laws toy_dh_laws toy_kdf_laws sha cut salt,
        of ?a toy_kp, unfolded a, OF toy_ids(2,1,4,3) refl toy_codes t, of True "[4]"]
    by (elim exE conjE) (rule exI, rule exI, intro conjI, assumption, simp_all)
qed

end
