(* ===== verification/Pairing_Store.thy ===== *)
theory Pairing_Store
  imports Ip_Pairing Broadcast Rust_Text
begin

text \<open>
  Persistence of the controller identity and the known accessories, \<open>hap-pairing/src/store.rs\<close>, and
  \<open>connect\<close> of \<open>verify.rs\<close>, which starts from a stored accessory.  A store is the content of its file
  and of the temporary file beside it.  The JSON text of a document is left to \<open>serde_json\<close>, a
  parameter with the law that a written document is read back; socket addresses are a type
  variable.  An input/output failure at any point of a read or a write is an argument of the
  operation.
\<close>

section \<open>What is stored\<close>

record StoredBroadcast =
  sb_key :: BroadcastKey
  sb_gsn :: u16

datatype 'a StoredTransport = Ip 'a | Ble bytes "StoredBroadcast option"

record 'a StoredAccessory =
  sa_pairing :: AccessoryPairing
  sa_transport :: "'a StoredTransport"

record ControllerRecord =
  cr_id :: str
  cr_signing_key_hex :: str

record BroadcastRecord =
  br_key_hex :: str
  br_gsn :: u16

datatype 'a TransportRecord = IpRecord 'a | BleRecord str "BroadcastRecord option"

record 'a AccessoryRecord =
  ar_id :: str
  ar_ltpk_hex :: str
  ar_transport :: "'a TransportRecord option"
  ar_addr :: "'a option"

record 'a Document =
  doc_version :: "u32 option"
  doc_controller :: "ControllerRecord option"
  doc_accessories :: "'a AccessoryRecord list"

definition Document_default :: "'a Document" where
  "Document_default = \<lparr>doc_version = None, doc_controller = None, doc_accessories = []\<rparr>"

section \<open>Text forms\<close>

definition encode_hex :: "bytes \<Rightarrow> str" where
  "encode_hex bs = fold (\<lambda>b s. s @ hex2 b) bs []"

definition hex_digit :: "u8 \<Rightarrow> PairingError + u8" where
  "hex_digit c =
     (if 0x30 \<le> c \<and> c \<le> 0x39 then Inr (c - 0x30)
      else if 0x61 \<le> c \<and> c \<le> 0x66 then Inr (c - 0x61 + 10)
      else if 0x41 \<le> c \<and> c \<le> 0x46 then Inr (c - 0x41 + 10)
      else Inl (PMalformed ''non-hex digit in key''))"

fun decode_pairs :: "bytes \<Rightarrow> PairingError + bytes" where
  "decode_pairs (c # d # rest) =
     and_then (hex_digit c) (\<lambda>hi. and_then (hex_digit d) (\<lambda>lo.
     and_then (decode_pairs rest) (\<lambda>out. Inr (or (push_bit 4 hi) lo # out))))"
| "decode_pairs _ = Inr []"

definition decode_key_32 :: "str \<Rightarrow> PairingError + bytes" where
  "decode_key_32 s =
     (if length s \<noteq> 64 then Inl (PMalformed ''expected 64 hex chars (32 bytes)'') else decode_pairs s)"

fun join :: "str \<Rightarrow> str list \<Rightarrow> str" where
  "join sep [] = []"
| "join sep [p] = p"
| "join sep (p # ps) = p @ sep @ join sep ps"

definition format_device_id :: "bytes \<Rightarrow> str" where
  "format_device_id ident = join [0x3A] (map hex2 ident)"

fun device_id_slots :: "nat \<Rightarrow> str list \<Rightarrow> bytes option" where
  "device_id_slots 0 parts = (if parts = [] then Some [] else None)"
| "device_id_slots (Suc n) [] = None"
| "device_id_slots (Suc n) (p # parts) =
     (if length p \<noteq> 2 then None
      else
        case from_str_radix 16 255 p of
          None \<Rightarrow> None
        | Some v \<Rightarrow> map_option (\<lambda>out. of_nat v # out) (device_id_slots n parts))"

definition parse_device_id :: "str \<Rightarrow> bytes option" where
  "parse_device_id s = device_id_slots 6 (split_on 0x3A s)"

section \<open>Records\<close>

definition controller_to_record :: "ControllerKeypair \<Rightarrow> ControllerRecord" where
  "controller_to_record k = \<lparr>cr_id = kp_id k, cr_signing_key_hex = encode_hex (kp_seed k)\<rparr>"

definition controller_from_record :: "ControllerRecord \<Rightarrow> PairingError + ControllerKeypair" where
  "controller_from_record r = and_then (decode_key_32 (cr_signing_key_hex r)) (\<lambda>seed. Inr (from_seed (cr_id r) seed))"

definition broadcast_to_record :: "StoredBroadcast \<Rightarrow> BroadcastRecord" where
  "broadcast_to_record b = \<lparr>br_key_hex = encode_hex (sb_key b), br_gsn = sb_gsn b\<rparr>"

definition broadcast_from_record :: "BroadcastRecord \<Rightarrow> PairingError + StoredBroadcast" where
  "broadcast_from_record b = and_then (decode_key_32 (br_key_hex b)) (\<lambda>key. Inr \<lparr>sb_key = key, sb_gsn = br_gsn b\<rparr>)"

definition accessory_to_record :: "'a StoredAccessory \<Rightarrow> 'a AccessoryRecord" where
  "accessory_to_record a =
     (let transport = (case sa_transport a of
            Ip addr \<Rightarrow> IpRecord addr
          | Ble device_id broadcast \<Rightarrow> BleRecord (format_device_id device_id) (map_option broadcast_to_record broadcast)) in
      \<lparr>ar_id = pairing_id (sa_pairing a), ar_ltpk_hex = encode_hex (acc_ltpk (sa_pairing a)),
       ar_transport = Some transport, ar_addr = None\<rparr>)"

definition transport_from_record :: "'a AccessoryRecord \<Rightarrow> PairingError + 'a StoredTransport" where
  "transport_from_record r =
     (case (ar_transport r, ar_addr r) of
        (Some (IpRecord addr), _) \<Rightarrow> Inr (Ip addr)
      | (None, Some addr) \<Rightarrow> Inr (Ip addr)
      | (Some (BleRecord device_id broadcast), _) \<Rightarrow>
          and_then (ok_or (PMalformed ''malformed BLE device id'') (parse_device_id device_id)) (\<lambda>ident.
          and_then (case broadcast of
                      None \<Rightarrow> Inr None
                    | Some b \<Rightarrow> and_then (broadcast_from_record b) (\<lambda>b'. Inr (Some b'))) (\<lambda>bc.
          Inr (Ble ident bc)))
      | (None, None) \<Rightarrow> Inl (PMalformed ''record has no transport''))"

definition accessory_from_record :: "'a AccessoryRecord \<Rightarrow> PairingError + 'a StoredAccessory" where
  "accessory_from_record r =
     and_then (decode_key_32 (ar_ltpk_hex r)) (\<lambda>key.
     and_then (transport_from_record r) (\<lambda>transport.
     Inr \<lparr>sa_pairing = \<lparr>pairing_id = ar_id r, acc_ltpk = key\<rparr>, sa_transport = transport\<rparr>))"

section \<open>The file\<close>

record 'a doc_lib =
  doc_to_vec :: "'a Document \<Rightarrow> str + bytes"
  doc_from_slice :: "bytes \<Rightarrow> str + 'a Document"

definition doc_laws :: "'a doc_lib \<Rightarrow> bool" where
  "doc_laws L \<longleftrightarrow> (\<forall>doc. \<exists>bs. doc_to_vec L doc = Inr bs \<and> doc_from_slice L bs = Inr doc)"

record store_fs =
  fs_file :: "bytes option"
  fs_tmp :: "bytes option"

datatype write_fault = CreateFails str | WriteFails nat str | SyncFails str | RenameFails str

record io_fault =
  io_read :: "str option"
  io_write :: "write_fault option"

definition no_fault :: io_fault where
  "no_fault = \<lparr>io_read = None, io_write = None\<rparr>"

definition read_doc :: "'a doc_lib \<Rightarrow> io_fault \<Rightarrow> store_fs \<Rightarrow> PairingError + 'a Document" where
  "read_doc L flt fs =
     (case io_read flt of
        Some e \<Rightarrow> Inl (PStore e)
      | None \<Rightarrow>
          (case fs_file fs of
             None \<Rightarrow> Inr Document_default
           | Some bs \<Rightarrow>
               and_then (map_err PStore (doc_from_slice L bs)) (\<lambda>doc.
               if doc_version doc \<in> {None, Some 1, Some 2} then Inr doc
               else Inl (PMalformed ''unsupported store version''))))"

definition write_doc :: "'a doc_lib \<Rightarrow> io_fault \<Rightarrow> store_fs \<Rightarrow> 'a Document \<Rightarrow> (PairingError + unit) \<times> store_fs" where
  "write_doc L flt fs doc =
     (case doc_to_vec L (doc\<lparr>doc_version := Some 2\<rparr>) of
        Inl e \<Rightarrow> (Inl (PStore e), fs)
      | Inr bs \<Rightarrow>
          (case io_write flt of
             Some (CreateFails e) \<Rightarrow> (Inl (PStore e), fs)
           | Some (WriteFails n e) \<Rightarrow> (Inl (PStore e), fs\<lparr>fs_tmp := Some (take n bs)\<rparr>)
           | Some (SyncFails e) \<Rightarrow> (Inl (PStore e), fs\<lparr>fs_tmp := Some bs\<rparr>)
           | Some (RenameFails e) \<Rightarrow> (Inl (PStore e), fs\<lparr>fs_tmp := Some bs\<rparr>)
           | None \<Rightarrow> (Inr (), fs\<lparr>fs_file := Some bs, fs_tmp := None\<rparr>)))"

text \<open>\<open>iter_mut().find(p)\<close> followed by an assignment: the first element that satisfies \<open>p\<close> is changed.\<close>

fun update_first :: "('r \<Rightarrow> bool) \<Rightarrow> ('r \<Rightarrow> 'r) \<Rightarrow> 'r list \<Rightarrow> 'r list option" where
  "update_first p f [] = None"
| "update_first p f (x # xs) = (if p x then Some (f x # xs) else map_option (Cons x) (update_first p f xs))"

definition rewrite_doc ::
    "'a doc_lib \<Rightarrow> io_fault \<Rightarrow> store_fs \<Rightarrow> ('a Document \<Rightarrow> 'a Document option) \<Rightarrow> (PairingError + unit) \<times> store_fs" where
  "rewrite_doc L flt fs change =
     (case read_doc L flt fs of
        Inl e \<Rightarrow> (Inl e, fs)
      | Inr doc \<Rightarrow> (case change doc of None \<Rightarrow> (Inr (), fs) | Some doc' \<Rightarrow> write_doc L flt fs doc'))"

definition load_controller :: "'a doc_lib \<Rightarrow> io_fault \<Rightarrow> store_fs \<Rightarrow> PairingError + ControllerKeypair option" where
  "load_controller L flt fs =
     and_then (read_doc L flt fs) (\<lambda>doc.
     case doc_controller doc of
       None \<Rightarrow> Inr None
     | Some r \<Rightarrow> and_then (controller_from_record r) (\<lambda>k. Inr (Some k)))"

definition save_controller :: "'a doc_lib \<Rightarrow> io_fault \<Rightarrow> store_fs \<Rightarrow> ControllerKeypair \<Rightarrow> (PairingError + unit) \<times> store_fs" where
  "save_controller L flt fs k =
     rewrite_doc L flt fs (\<lambda>doc. Some (doc\<lparr>doc_controller := Some (controller_to_record k)\<rparr>))"

definition load_pairings :: "'a doc_lib \<Rightarrow> io_fault \<Rightarrow> store_fs \<Rightarrow> PairingError + 'a StoredAccessory list" where
  "load_pairings L flt fs = and_then (read_doc L flt fs) (\<lambda>doc. map_results accessory_from_record (doc_accessories doc))"

definition save_pairing :: "'a doc_lib \<Rightarrow> io_fault \<Rightarrow> store_fs \<Rightarrow> 'a StoredAccessory \<Rightarrow> (PairingError + unit) \<times> store_fs" where
  "save_pairing L flt fs a =
     rewrite_doc L flt fs (\<lambda>doc.
       let record = accessory_to_record a in
       Some (doc\<lparr>doc_accessories :=
         (case update_first (\<lambda>r. ar_id r = ar_id record) (\<lambda>_. record) (doc_accessories doc) of
            Some accs \<Rightarrow> accs
          | None \<Rightarrow> doc_accessories doc @ [record])\<rparr>))"

definition delete_pairing :: "'a doc_lib \<Rightarrow> io_fault \<Rightarrow> store_fs \<Rightarrow> str \<Rightarrow> (PairingError + unit) \<times> store_fs" where
  "delete_pairing L flt fs ident =
     rewrite_doc L flt fs (\<lambda>doc. Some (doc\<lparr>doc_accessories := filter (\<lambda>r. ar_id r \<noteq> ident) (doc_accessories doc)\<rparr>))"

definition save_broadcast_state ::
    "'a doc_lib \<Rightarrow> io_fault \<Rightarrow> store_fs \<Rightarrow> str \<Rightarrow> StoredBroadcast \<Rightarrow> (PairingError + unit) \<times> store_fs" where
  "save_broadcast_state L flt fs ident broadcast =
     rewrite_doc L flt fs (\<lambda>doc.
       case find (\<lambda>r. ar_id r = ident) (doc_accessories doc) of
         Some rec \<Rightarrow>
           (case ar_transport rec of
              Some (BleRecord device_id _) \<Rightarrow>
                map_option (\<lambda>accs. doc\<lparr>doc_accessories := accs\<rparr>)
                  (update_first (\<lambda>r. ar_id r = ident)
                    (\<lambda>r. r\<lparr>ar_transport := Some (BleRecord device_id (Some (broadcast_to_record broadcast)))\<rparr>)
                    (doc_accessories doc))
            | _ \<Rightarrow> None)
       | None \<Rightarrow> None)"

text \<open>The default of the trait, over a store's own operations: load, change, save.\<close>

definition default_save_broadcast_state ::
    "('s \<Rightarrow> PairingError + 'a StoredAccessory list) \<Rightarrow> ('s \<Rightarrow> 'a StoredAccessory \<Rightarrow> (PairingError + unit) \<times> 's) \<Rightarrow>
     's \<Rightarrow> str \<Rightarrow> StoredBroadcast \<Rightarrow> (PairingError + unit) \<times> 's" where
  "default_save_broadcast_state load save s ident broadcast =
     (case load s of
        Inl e \<Rightarrow> (Inl e, s)
      | Inr pairings \<Rightarrow>
          (case find (\<lambda>a. pairing_id (sa_pairing a) = ident) pairings of
             Some acc \<Rightarrow>
               (case sa_transport acc of
                  Ble device_id _ \<Rightarrow> save s (acc\<lparr>sa_transport := Ble device_id (Some broadcast)\<rparr>)
                | Ip _ \<Rightarrow> (Inr (), s))
           | None \<Rightarrow> (Inr (), s)))"

section \<open>Connecting to a stored accessory\<close>

definition stored_conn ::
    "('a \<Rightarrow> TransportError + 'n tcp) \<Rightarrow> TransportError + (str \<times> 'a) list \<Rightarrow> 'a StoredAccessory \<Rightarrow> PairingError + 'n tcp" where
  "stored_conn dial discovered accessory =
     (case sa_transport accessory of
        Ble _ _ \<Rightarrow> Inl PWrongTransport
      | Ip addr \<Rightarrow>
          (case dial addr of
             Inr c \<Rightarrow> Inr c
           | Inl _ \<Rightarrow>
               and_then (map_err PTransport discovered) (\<lambda>found.
               and_then (ok_or (PUnknownAccessory (pairing_id (sa_pairing accessory)))
                 (find (\<lambda>d. fst d = pairing_id (sa_pairing accessory)) found)) (\<lambda>dev.
               map_err PTransport (dial (snd dev))))))"

definition connect ::
    "prims \<Rightarrow> bool \<Rightarrow> 'n tcp_peer \<Rightarrow> ('a \<Rightarrow> TransportError + 'n tcp) \<Rightarrow> TransportError + (str \<times> 'a) list \<Rightarrow>
     'a StoredAccessory \<Rightarrow> ControllerKeypair \<Rightarrow> bytes \<Rightarrow> (ip_error + 'n ip_session) option" where
  "connect P oc peer dial discovered accessory controller eph =
     (case stored_conn dial discovered accessory of
        Inl e \<Rightarrow> Some (Inl (Failed e))
      | Inr conn \<Rightarrow> connect_over P oc peer conn (sa_pairing accessory) controller eph)"

section \<open>Round trips of the text forms\<close>

lemma nibbles:
  assumes "h < 16" and "l < 16"
  shows "or (push_bit 4 (of_nat h :: u8)) (of_nat l) = of_nat (16 * h + l)"
proof -
  have low: "n < 4" if "bit l n" for n
  proof (rule ccontr)
    assume "\<not> n < 4"
    moreover have "take_bit 4 l = l" using assms(2) by (simp add: take_bit_nat_eq_self)
    ultimately show False using that by (metis bit_take_bit_iff)
  qed
  have "and (push_bit 4 (of_nat h :: u8)) (of_nat l) = 0"
    by (intro bit_eqI) (auto simp: bit_simps dest: low)
  then have "push_bit 4 (of_nat h :: u8) + of_nat l = or (push_bit 4 (of_nat h)) (of_nat l)" by (rule disjunctive_add_eq_or)
  then show ?thesis by (simp add: push_bit_eq_mult mult.commute [of 16])
qed

lemma hex_digit_char: "d < 16 \<Longrightarrow> hex_digit (hex_char d) = Inr (of_nat d)"
  using unat_hex_char [of d]
  by (auto simp: hex_digit_def word_le_nat_alt hex_char_def not_le split: if_splits)

lemma decode_hex2: "decode_pairs (hex2 b @ rest) = and_then (decode_pairs rest) (\<lambda>out. Inr (b # out))"
proof -
  have "or (push_bit 4 (of_nat (unat b div 16) :: u8)) (of_nat (unat b mod 16)) = of_nat (unat b)"
    using nibbles [OF hex2_digits [of b]] by simp
  then show ?thesis by (simp add: hex2_def hex_digit_char hex2_digits)
qed

lemma encode_hex_concat: "encode_hex bs = concat (map hex2 bs)"
proof -
  have "fold (\<lambda>b s. s @ hex2 b) bs acc = acc @ concat (map hex2 bs)" for acc by (induction bs arbitrary: acc) auto
  then show ?thesis by (simp add: encode_hex_def)
qed

lemma decode_encode_hex: "decode_pairs (encode_hex bs) = Inr bs"
  by (induction bs) (simp_all add: encode_hex_concat decode_hex2)

lemma length_encode_hex [simp]: "length (encode_hex bs) = 2 * length bs"
  by (induction bs) (simp_all add: encode_hex_concat)

lemma decode_key_32_encode [simp]: "length key = 32 \<Longrightarrow> decode_key_32 (encode_hex key) = Inr key"
  by (simp add: decode_key_32_def decode_encode_hex)

lemma length_decode_pairs: "decode_pairs s = Inr bs \<Longrightarrow> length bs = length s div 2"
  by (induction s arbitrary: bs rule: decode_pairs.induct) (auto simp: result_simps)

lemma decode_key_32_length: "decode_key_32 s = Inr key \<Longrightarrow> length key = 32"
  using length_decode_pairs [of s key] by (simp add: decode_key_32_def split: if_splits)

lemma hex2_no_colon: "0x3A \<notin> set (hex2 b)"
proof -
  have "hex_char d \<noteq> 0x3A" if "d < 16" for d using unat_hex_char [OF that] that by (auto split: if_splits)
  then show ?thesis using hex2_digits [of b] by (auto simp: hex2_def)
qed

lemma split_join: "ps \<noteq> [] \<Longrightarrow> (\<And>p. p \<in> set ps \<Longrightarrow> c \<notin> set p) \<Longrightarrow> split_on c (join [c] ps) = ps"
  by (induction "[c]" ps rule: join.induct) (simp_all add: split_on_single split_on_append_sep)

lemma device_id_slots_hex: "device_id_slots (length ident) (map hex2 ident) = Some ident"
  by (induction ident) simp_all

lemma parse_format_device_id: "length ident = 6 \<Longrightarrow> parse_device_id (format_device_id ident) = Some ident"
  using device_id_slots_hex [of ident] hex2_no_colon
  by (subst parse_device_id_def, subst format_device_id_def, subst split_join) auto

lemma device_id_slots_length: "device_id_slots n parts = Some ident \<Longrightarrow> length ident = n"
  by (induction n parts arbitrary: ident rule: device_id_slots.induct) (auto split: if_splits option.splits)

lemma parse_device_id_length: "parse_device_id s = Some ident \<Longrightarrow> length ident = 6"
  by (simp add: parse_device_id_def device_id_slots_length)

section \<open>Records and accessories\<close>

text \<open>The widths that the source's array types fix.\<close>

fun transport_ok :: "'a StoredTransport \<Rightarrow> bool" where
  "transport_ok (Ip addr) \<longleftrightarrow> True"
| "transport_ok (Ble ident b) \<longleftrightarrow> length ident = 6 \<and> (\<forall>x. b = Some x \<longrightarrow> length (sb_key x) = 32)"

definition acc_ok :: "'a StoredAccessory \<Rightarrow> bool" where
  "acc_ok a \<longleftrightarrow> length (acc_ltpk (sa_pairing a)) = 32 \<and> transport_ok (sa_transport a)"

abbreviation sa_id :: "'a StoredAccessory \<Rightarrow> str" where
  "sa_id a \<equiv> pairing_id (sa_pairing a)"

lemma controller_round_trip: "length (kp_seed k) = 32 \<Longrightarrow> controller_from_record (controller_to_record k) = Inr k"
  by (simp add: controller_from_record_def controller_to_record_def from_seed_def kp_seed_def)

lemma broadcast_round_trip: "length (sb_key b) = 32 \<Longrightarrow> broadcast_from_record (broadcast_to_record b) = Inr b"
  by (simp add: broadcast_from_record_def broadcast_to_record_def)

lemma accessory_round_trip: "acc_ok a \<Longrightarrow> accessory_from_record (accessory_to_record a) = Inr a"
  by (cases "sa_transport a")
    (auto simp: accessory_from_record_def accessory_to_record_def transport_from_record_def acc_ok_def parse_format_device_id
      broadcast_round_trip split: option.splits)

lemma ar_id_record [simp]: "ar_id (accessory_to_record a) = sa_id a"
  by (simp add: accessory_to_record_def Let_def)

lemma from_record_id: "accessory_from_record r = Inr a \<Longrightarrow> sa_id a = ar_id r"
  by (auto simp: accessory_from_record_def result_simps)

lemma from_record_ok: "accessory_from_record r = Inr a \<Longrightarrow> acc_ok a"
  by (auto simp: accessory_from_record_def transport_from_record_def broadcast_from_record_def acc_ok_def result_simps
      decode_key_32_length parse_device_id_length split: option.splits TransportRecord.splits)

section \<open>What a store holds\<close>

type_synonym 'a store_state = "ControllerKeypair option \<times> 'a StoredAccessory list"

definition doc_holds :: "'a Document \<Rightarrow> 'a store_state \<Rightarrow> bool" where
  "doc_holds doc st \<longleftrightarrow> doc_version doc \<in> {None, Some 1, Some 2} \<and>
     (case doc_controller doc of None \<Rightarrow> fst st = None | Some r \<Rightarrow> \<exists>k. controller_from_record r = Inr k \<and> fst st = Some k) \<and>
     map_results accessory_from_record (doc_accessories doc) = Inr (snd st)"

definition store_holds :: "'a doc_lib \<Rightarrow> store_fs \<Rightarrow> 'a store_state \<Rightarrow> bool" where
  "store_holds L fs st \<longleftrightarrow> doc_laws L \<and>
     (case fs_file fs of None \<Rightarrow> st = (None, []) | Some bs \<Rightarrow> \<exists>doc. doc_from_slice L bs = Inr doc \<and> doc_holds doc st)"

lemma doc_holds_default: "doc_holds Document_default (None, [])"
  by (simp add: doc_holds_def Document_default_def)

lemma read_holds:
  assumes "store_holds L fs st" and "io_read flt = None"
  obtains doc where "read_doc L flt fs = Inr doc" "doc_holds doc st"
proof (cases "fs_file fs")
  case None
  then show thesis using assms doc_holds_default that by (simp add: store_holds_def read_doc_def)
next
  case (Some bs)
  then obtain doc where "doc_from_slice L bs = Inr doc" "doc_holds doc st" using assms(1) by (auto simp: store_holds_def)
  then show thesis using assms(2) Some that by (simp add: read_doc_def doc_holds_def)
qed

lemma loads_holds:
  assumes "store_holds L fs st" and "io_read flt = None"
  shows "load_pairings L flt fs = Inr (snd st)" and "load_controller L flt fs = Inr (fst st)"
proof -
  obtain doc where "read_doc L flt fs = Inr doc" "doc_holds doc st" using assms by (rule read_holds)
  then show "load_pairings L flt fs = Inr (snd st)" "load_controller L flt fs = Inr (fst st)"
    by (auto simp: load_pairings_def load_controller_def doc_holds_def split: option.splits)
qed

lemma write_doc_effect:
  assumes "doc_laws L" and "doc_holds doc st'" and "write_doc L flt fs doc = (r, fs')"
  shows "r = Inr () \<and> io_write flt = None \<and> store_holds L fs' st' \<or>
    (\<exists>e. r = Inl (PStore e)) \<and> io_write flt \<noteq> None \<and> fs_file fs' = fs_file fs"
proof -
  obtain bs where bs: "doc_to_vec L (doc\<lparr>doc_version := Some 2\<rparr>) = Inr bs" "doc_from_slice L bs = Inr (doc\<lparr>doc_version := Some 2\<rparr>)"
    using assms(1) by (auto simp: doc_laws_def)
  have "doc_holds (doc\<lparr>doc_version := Some 2\<rparr>) st'" using assms(2) by (simp add: doc_holds_def)
  then show ?thesis
    using assms(1,3) bs by (auto simp: write_doc_def store_holds_def split: option.splits write_fault.splits)
qed

lemma same_file_holds: "fs_file fs' = fs_file fs \<Longrightarrow> store_holds L fs' st = store_holds L fs st"
  by (simp add: store_holds_def)

text \<open>Every change of the store: it takes effect, or it fails on an input/output error and the file is
  what it was.\<close>

lemma rewrite_doc_effect:
  assumes "store_holds L fs st" and "rewrite_doc L flt fs change = (r, fs')"
    and "\<And>doc. doc_holds doc st \<Longrightarrow> (case change doc of None \<Rightarrow> st' = st | Some doc' \<Rightarrow> doc_holds doc' st')"
  shows "r = Inr () \<and> store_holds L fs' st' \<or> (\<exists>e. r = Inl (PStore e)) \<and> flt \<noteq> no_fault \<and> store_holds L fs' st"
proof (cases "io_read flt")
  case None
  obtain doc where d: "read_doc L flt fs = Inr doc" "doc_holds doc st" using assms(1) None by (rule read_holds)
  have law: "doc_laws L" using assms(1) by (simp add: store_holds_def)
  show ?thesis
  proof (cases "change doc")
    case None
    then show ?thesis using assms(1,2) assms(3) [OF d(2)] d(1) by (auto simp: rewrite_doc_def)
  next
    case (Some doc')
    then show ?thesis
      using write_doc_effect [OF law, of doc' st' flt fs r fs'] assms(1,2) assms(3) [OF d(2)] d(1)
      by (auto simp: rewrite_doc_def no_fault_def same_file_holds [of fs' fs])
  qed
next
  case (Some e)
  then show ?thesis using assms(1,2) by (auto simp: rewrite_doc_def read_doc_def no_fault_def)
qed

section \<open>The contract\<close>

definition upsert :: "'a StoredAccessory list \<Rightarrow> 'a StoredAccessory \<Rightarrow> 'a StoredAccessory list" where
  "upsert accs a = (case update_first (\<lambda>b. sa_id b = sa_id a) (\<lambda>_. a) accs of Some accs' \<Rightarrow> accs' | None \<Rightarrow> accs @ [a])"

definition put_broadcast :: "StoredBroadcast \<Rightarrow> 'a StoredAccessory \<Rightarrow> 'a StoredAccessory" where
  "put_broadcast b a = (case sa_transport a of Ble ident _ \<Rightarrow> a\<lparr>sa_transport := Ble ident (Some b)\<rparr> | Ip _ \<Rightarrow> a)"

definition set_broadcast :: "'a StoredAccessory list \<Rightarrow> str \<Rightarrow> StoredBroadcast \<Rightarrow> 'a StoredAccessory list" where
  "set_broadcast accs ident b =
     (case update_first (\<lambda>a. sa_id a = ident) (put_broadcast b) accs of Some accs' \<Rightarrow> accs' | None \<Rightarrow> accs)"

definition known :: "'a StoredAccessory list \<Rightarrow> str \<Rightarrow> 'a StoredAccessory option" where
  "known accs ident = find (\<lambda>a. sa_id a = ident) accs"

lemma update_first_find:
  "update_first p f xs = None \<longleftrightarrow> find p xs = None"
  "update_first p f xs = Some ys \<Longrightarrow> \<exists>x. find p xs = Some x \<and> p x"
  by (induction xs arbitrary: ys) (auto split: if_splits)

lemma update_first_cong: "find p xs = Some x \<Longrightarrow> f x = g x \<Longrightarrow> update_first p f xs = update_first p g xs"
  by (induction xs) (auto split: if_splits)

lemma update_first_id: "find p xs = Some x \<Longrightarrow> f x = x \<Longrightarrow> update_first p f xs = Some xs"
  by (induction xs) (auto split: if_splits)

lemma known_upsert: "known (upsert accs a) ident = (if ident = sa_id a then Some a else known accs ident)"
proof -
  have "update_first (\<lambda>b. sa_id b = sa_id a) (\<lambda>_. a) accs = Some accs' \<Longrightarrow>
      known accs' ident = (if ident = sa_id a then Some a else known accs ident)" for accs'
    by (induction accs arbitrary: accs') (auto simp: known_def split: if_splits)
  moreover have "update_first (\<lambda>b. sa_id b = sa_id a) (\<lambda>_. a) accs = None \<Longrightarrow>
      known (accs @ [a]) ident = (if ident = sa_id a then Some a else known accs ident)"
    by (induction accs) (auto simp: known_def split: if_splits)
  ultimately show ?thesis by (auto simp: upsert_def split: option.splits)
qed

lemma known_delete: "known (filter (\<lambda>a. sa_id a \<noteq> i) accs) ident = (if ident = i then None else known accs ident)"
  by (induction accs) (auto simp: known_def)

lemma known_set_broadcast:
  "known (set_broadcast accs i b) ident = (if ident = i then map_option (put_broadcast b) (known accs i) else known accs ident)"
proof -
  have p: "sa_id (put_broadcast b a) = sa_id a" for a by (simp add: put_broadcast_def split: StoredTransport.splits)
  have "update_first (\<lambda>a. sa_id a = i) (put_broadcast b) accs = Some accs' \<Longrightarrow>
      known accs' ident = (if ident = i then map_option (put_broadcast b) (known accs i) else known accs ident)" for accs'
    by (induction accs arbitrary: accs') (auto simp: known_def p split: if_splits)
  then show ?thesis
    using update_first_find(1) [of "\<lambda>a. sa_id a = i" "put_broadcast b" accs] by (auto simp: set_broadcast_def known_def split: option.splits)
qed

text \<open>What a store promises its users: it holds a state, loading returns that state, and a change either
  takes effect or leaves it.\<close>

locale pairing_store =
  fixes holds :: "'s \<Rightarrow> 'a store_state \<Rightarrow> bool"
    and load :: "'s \<Rightarrow> PairingError + 'a StoredAccessory list"
    and controller :: "'s \<Rightarrow> PairingError + ControllerKeypair option"
    and save :: "'s \<Rightarrow> 'a StoredAccessory \<Rightarrow> (PairingError + unit) \<times> 's"
    and delete :: "'s \<Rightarrow> str \<Rightarrow> (PairingError + unit) \<times> 's"
    and set_controller :: "'s \<Rightarrow> ControllerKeypair \<Rightarrow> (PairingError + unit) \<times> 's"
    and may_fail :: bool
  assumes load_ok: "holds s st \<Longrightarrow> load s = Inr (snd st)"
    and controller_ok: "holds s st \<Longrightarrow> controller s = Inr (fst st)"
    and held_ok: "holds s st \<Longrightarrow> list_all acc_ok (snd st)"
    and save_effect: "holds s st \<Longrightarrow> acc_ok a \<Longrightarrow> save s a = (r, s') \<Longrightarrow>
      r = Inr () \<and> holds s' (fst st, upsert (snd st) a) \<or> (\<exists>e. r = Inl (PStore e)) \<and> may_fail \<and> holds s' st"
    and delete_effect: "holds s st \<Longrightarrow> delete s i = (r, s') \<Longrightarrow>
      r = Inr () \<and> holds s' (fst st, filter (\<lambda>a. sa_id a \<noteq> i) (snd st)) \<or> (\<exists>e. r = Inl (PStore e)) \<and> may_fail \<and> holds s' st"
    and set_controller_effect: "holds s st \<Longrightarrow> length (kp_seed k) = 32 \<Longrightarrow> set_controller s k = (r, s') \<Longrightarrow>
      r = Inr () \<and> holds s' (Some k, snd st) \<or> (\<exists>e. r = Inl (PStore e)) \<and> may_fail \<and> holds s' st"
begin

lemma known_after_save:
  assumes "holds s st" and "acc_ok a" and "save s a = (Inr (), s')"
  obtains accs where "load s' = Inr accs" "known accs (sa_id a) = Some a"
    "\<And>i. i \<noteq> sa_id a \<Longrightarrow> known accs i = known (snd st) i" "controller s' = controller s"
proof -
  have h: "holds s' (fst st, upsert (snd st) a)" using save_effect [OF assms] by blast
  show thesis
    by (rule that [of "upsert (snd st) a"])
      (use load_ok [OF h] controller_ok [OF h] controller_ok [OF assms(1)] in \<open>simp_all add: known_upsert\<close>)
qed

lemma known_after_delete:
  assumes "holds s st" and "delete s i = (Inr (), s')"
  obtains accs where "load s' = Inr accs" "known accs i = None" "\<And>j. j \<noteq> i \<Longrightarrow> known accs j = known (snd st) j"
proof -
  have h: "holds s' (fst st, filter (\<lambda>a. sa_id a \<noteq> i) (snd st))" using delete_effect [OF assms] by blast
  show thesis
    by (rule that [of "filter (\<lambda>a. sa_id a \<noteq> i) (snd st)"]) (use load_ok [OF h] in \<open>simp_all add: known_delete\<close>)
qed

text \<open>The default of \<open>save_broadcast_state\<close> is right for every store.\<close>

lemma default_broadcast_effect:
  assumes h: "holds s st" and key: "length (sb_key b) = 32"
    and run: "default_save_broadcast_state load save s i b = (r, s')"
  shows "r = Inr () \<and> holds s' (fst st, set_broadcast (snd st) i b) \<or> (\<exists>e. r = Inl (PStore e)) \<and> may_fail \<and> holds s' st"
proof (cases "\<exists>a ident bc. find (\<lambda>a. sa_id a = i) (snd st) = Some a \<and> sa_transport a = Ble ident bc")
  case True
  then obtain a ident bc where a: "find (\<lambda>a. sa_id a = i) (snd st) = Some a" "sa_transport a = Ble ident bc" by blast
  let ?a = "a\<lparr>sa_transport := Ble ident (Some b)\<rparr>"
  have i: "sa_id a = i" "a \<in> set (snd st)" using a(1) by (auto simp: find_Some_iff)
  then have "acc_ok a" using held_ok [OF h] by (auto simp: list_all_iff)
  then have ok: "acc_ok ?a" using a(2) key by (auto simp: acc_ok_def)
  have "update_first (\<lambda>x. sa_id x = i) (\<lambda>_. ?a) (snd st) = update_first (\<lambda>x. sa_id x = i) (put_broadcast b) (snd st)"
    by (rule update_first_cong [OF a(1)]) (simp add: put_broadcast_def a(2))
  moreover have "update_first (\<lambda>x. sa_id x = i) (put_broadcast b) (snd st) \<noteq> None" using a(1) by (simp add: update_first_find(1))
  ultimately have "upsert (snd st) ?a = set_broadcast (snd st) i b"
    using i(1) by (auto simp: upsert_def set_broadcast_def split: option.splits)
  moreover have "save s ?a = (r, s')" using run load_ok [OF h] a by (simp add: default_save_broadcast_state_def)
  ultimately show ?thesis using save_effect [OF h ok] by metis
next
  case False
  then have "r = Inr ()" "s' = s"
    using run load_ok [OF h] by (auto simp: default_save_broadcast_state_def split: option.splits StoredTransport.splits)
  moreover have "set_broadcast (snd st) i b = snd st"
  proof (cases "find (\<lambda>a. sa_id a = i) (snd st)")
    case None
    then show ?thesis by (simp add: set_broadcast_def update_first_find(1) [THEN iffD2])
  next
    case (Some a)
    then have "put_broadcast b a = a" using False by (auto simp: put_broadcast_def split: StoredTransport.splits)
    then show ?thesis using update_first_id [OF Some] by (simp add: set_broadcast_def)
  qed
  ultimately show ?thesis using h by simp
qed

end

section \<open>The file keeps the contract\<close>

lemma map_results_update_first:
  assumes "map_results f rs = Inr xs" and "\<And>r x. f r = Inr x \<Longrightarrow> q x = p r"
    and "\<And>r x. find p rs = Some r \<Longrightarrow> f r = Inr x \<Longrightarrow> f (g r) = Inr (h x)"
  shows "case update_first p g rs of
      None \<Rightarrow> update_first q h xs = None
    | Some rs' \<Rightarrow> \<exists>xs'. update_first q h xs = Some xs' \<and> map_results f rs' = Inr xs'"
  using assms(1,3)
proof (induction rs arbitrary: xs)
  case (Cons r rs)
  then obtain x ys where x: "f r = Inr x" "map_results f rs = Inr ys" "xs = x # ys" by (auto simp: result_simps)
  show ?case
  proof (cases "p r")
    case True
    then show ?thesis using x Cons.prems(2) [of r x] assms(2) [OF x(1)] by simp
  next
    case False
    then show ?thesis
      using Cons.IH [OF x(2)] Cons.prems(2) x assms(2) [OF x(1)] by (auto split: option.splits)
  qed
qed simp

lemma map_results_filter:
  "map_results f rs = Inr xs \<Longrightarrow> (\<And>r x. f r = Inr x \<Longrightarrow> q x = p r) \<Longrightarrow> map_results f (filter p rs) = Inr (filter q xs)"
  by (induction rs arbitrary: xs) (auto simp: result_simps)

lemma map_results_snoc: "map_results f rs = Inr xs \<Longrightarrow> f r = Inr x \<Longrightarrow> map_results f (rs @ [r]) = Inr (xs @ [x])"
  by (induction rs arbitrary: xs) (auto simp: result_simps)

lemma map_results_find:
  assumes "map_results f rs = Inr xs" and "\<And>r x. f r = Inr x \<Longrightarrow> q x = p r"
  shows "case find p rs of None \<Rightarrow> find q xs = None | Some r \<Rightarrow> \<exists>x. f r = Inr x \<and> find q xs = Some x"
  using assms(1) by (induction rs arbitrary: xs) (auto simp: result_simps assms(2) split: option.splits)

lemma save_doc:
  assumes "doc_holds doc st" and "acc_ok a"
  shows "doc_holds (doc\<lparr>doc_accessories :=
      (case update_first (\<lambda>r. ar_id r = sa_id a) (\<lambda>_. accessory_to_record a) (doc_accessories doc) of
         Some accs \<Rightarrow> accs | None \<Rightarrow> doc_accessories doc @ [accessory_to_record a])\<rparr>) (fst st, upsert (snd st) a)"
proof -
  let ?p = "\<lambda>r. ar_id r = sa_id a" and ?q = "\<lambda>b. sa_id b = sa_id a" and ?r = "accessory_to_record a"
  have m: "map_results accessory_from_record (doc_accessories doc) = Inr (snd st)" using assms(1) by (simp add: doc_holds_def)
  have "case update_first ?p (\<lambda>_. ?r) (doc_accessories doc) of
      None \<Rightarrow> update_first ?q (\<lambda>_. a) (snd st) = None
    | Some rs' \<Rightarrow> \<exists>xs'. update_first ?q (\<lambda>_. a) (snd st) = Some xs' \<and> map_results accessory_from_record rs' = Inr xs'"
    by (rule map_results_update_first [OF m]) (simp_all add: from_record_id accessory_round_trip [OF assms(2)])
  then have "map_results accessory_from_record
      (case update_first ?p (\<lambda>_. ?r) (doc_accessories doc) of Some accs \<Rightarrow> accs | None \<Rightarrow> doc_accessories doc @ [?r]) = Inr (upsert (snd st) a)"
    using map_results_snoc [OF m accessory_round_trip [OF assms(2)]] by (auto simp: upsert_def split: option.splits)
  then show ?thesis using assms(1) by (auto simp: doc_holds_def split: option.split_asm)
qed

lemma delete_doc:
  assumes "doc_holds doc st"
  shows "doc_holds (doc\<lparr>doc_accessories := filter (\<lambda>r. ar_id r \<noteq> i) (doc_accessories doc)\<rparr>) (fst st, filter (\<lambda>a. sa_id a \<noteq> i) (snd st))"
  using assms map_results_filter [of accessory_from_record "doc_accessories doc" "snd st" "\<lambda>a. sa_id a \<noteq> i" "\<lambda>r. ar_id r \<noteq> i"]
  by (auto simp: doc_holds_def from_record_id split: option.splits)

lemma controller_doc:
  assumes "doc_holds doc st" and "length (kp_seed k) = 32"
  shows "doc_holds (doc\<lparr>doc_controller := Some (controller_to_record k)\<rparr>) (Some k, snd st)"
  using assms by (simp add: doc_holds_def controller_round_trip)

lemma put_broadcast_record:
  assumes "accessory_from_record r = Inr a" and "ar_transport r = Some (BleRecord ident bc)" and "length (sb_key b) = 32"
  shows "accessory_from_record (r\<lparr>ar_transport := Some (BleRecord ident (Some (broadcast_to_record b)))\<rparr>) = Inr (put_broadcast b a)"
  using assms
  by (auto simp: accessory_from_record_def transport_from_record_def put_broadcast_def broadcast_round_trip result_simps split: option.splits)

lemma put_broadcast_other:
  assumes "accessory_from_record r = Inr a" and "\<nexists>ident bc. ar_transport r = Some (BleRecord ident bc)"
  shows "put_broadcast b a = a"
  using assms
  by (auto simp: accessory_from_record_def transport_from_record_def put_broadcast_def result_simps
      split: option.splits TransportRecord.splits)

lemma broadcast_doc:
  assumes "doc_holds doc st" and "length (sb_key b) = 32"
  shows "case (case find (\<lambda>r. ar_id r = i) (doc_accessories doc) of
         Some rec \<Rightarrow>
           (case ar_transport rec of
              Some (BleRecord device_id _) \<Rightarrow>
                map_option (\<lambda>accs. doc\<lparr>doc_accessories := accs\<rparr>)
                  (update_first (\<lambda>r. ar_id r = i)
                    (\<lambda>r. r\<lparr>ar_transport := Some (BleRecord device_id (Some (broadcast_to_record b)))\<rparr>)
                    (doc_accessories doc))
            | _ \<Rightarrow> None)
       | None \<Rightarrow> None) of
     None \<Rightarrow> (fst st, set_broadcast (snd st) i b) = st
   | Some doc' \<Rightarrow> doc_holds doc' (fst st, set_broadcast (snd st) i b)"
proof -
  let ?rs = "doc_accessories doc" and ?p = "\<lambda>r. ar_id r = i" and ?q = "\<lambda>a. sa_id a = i"
  have m: "map_results accessory_from_record ?rs = Inr (snd st)" using assms(1) by (simp add: doc_holds_def)
  note f = map_results_find [OF m, of ?q ?p]
  show ?thesis
  proof (cases "find ?p ?rs")
    case None
    then have "find ?q (snd st) = None" using f by (simp add: from_record_id)
    then show ?thesis using None by (simp add: set_broadcast_def update_first_find(1) [THEN iffD2])
  next
    case (Some r)
    then obtain a where a: "accessory_from_record r = Inr a" "find ?q (snd st) = Some a" using f by (auto simp: from_record_id)
    show ?thesis
    proof (cases "\<exists>ident bc. ar_transport r = Some (BleRecord ident bc)")
      case True
      then obtain ident bc where t: "ar_transport r = Some (BleRecord ident bc)" by blast
      let ?g = "\<lambda>r. r\<lparr>ar_transport := Some (BleRecord ident (Some (broadcast_to_record b)))\<rparr>"
      have g: "accessory_from_record (?g r') = Inr (put_broadcast b x)" if "find ?p ?rs = Some r'" "accessory_from_record r' = Inr x" for r' x
        using that Some a t assms(2) by (simp add: put_broadcast_record)
      have "case update_first ?p ?g ?rs of
          None \<Rightarrow> update_first ?q (put_broadcast b) (snd st) = None
        | Some rs' \<Rightarrow> \<exists>xs'. update_first ?q (put_broadcast b) (snd st) = Some xs' \<and> map_results accessory_from_record rs' = Inr xs'"
        by (rule map_results_update_first [OF m]) (simp_all add: from_record_id g)
      moreover obtain rs' where "update_first ?p ?g ?rs = Some rs'" using Some update_first_find(1) [of ?p ?g ?rs] by auto
      ultimately show ?thesis
        using Some t assms(1) by (auto simp: set_broadcast_def doc_holds_def split: option.splits)
    next
      case False
      then have "set_broadcast (snd st) i b = snd st"
        using put_broadcast_other [OF a(1)] update_first_id [OF a(2)] by (simp add: set_broadcast_def)
      then show ?thesis using Some False by (auto split: option.splits TransportRecord.splits)
    qed
  qed
qed

lemma map_results_typed: "map_results f rs = Inr xs \<Longrightarrow> (\<And>r x. f r = Inr x \<Longrightarrow> P x) \<Longrightarrow> list_all P xs"
  by (induction rs arbitrary: xs) (auto simp: result_simps)

lemma store_holds_ok: "store_holds L fs st \<Longrightarrow> list_all acc_ok (snd st)"
proof (cases "fs_file fs")
  case (Some bs)
  assume "store_holds L fs st"
  then obtain doc where "doc_from_slice L bs = Inr doc" "map_results accessory_from_record (doc_accessories doc) = Inr (snd st)"
    using Some by (auto simp: store_holds_def doc_holds_def)
  then show ?thesis by (intro map_results_typed [of accessory_from_record _ _ acc_ok]) (simp_all add: from_record_ok)
qed (simp add: store_holds_def)

lemma store_effects:
  assumes "store_holds L fs st"
  shows "acc_ok a \<Longrightarrow> save_pairing L flt fs a = (r, fs') \<Longrightarrow>
      r = Inr () \<and> store_holds L fs' (fst st, upsert (snd st) a) \<or> (\<exists>e. r = Inl (PStore e)) \<and> flt \<noteq> no_fault \<and> store_holds L fs' st"
    and "delete_pairing L flt fs i = (r, fs') \<Longrightarrow>
      r = Inr () \<and> store_holds L fs' (fst st, filter (\<lambda>a. sa_id a \<noteq> i) (snd st)) \<or>
      (\<exists>e. r = Inl (PStore e)) \<and> flt \<noteq> no_fault \<and> store_holds L fs' st"
    and "length (kp_seed k) = 32 \<Longrightarrow> save_controller L flt fs k = (r, fs') \<Longrightarrow>
      r = Inr () \<and> store_holds L fs' (Some k, snd st) \<or> (\<exists>e. r = Inl (PStore e)) \<and> flt \<noteq> no_fault \<and> store_holds L fs' st"
    and "length (sb_key b) = 32 \<Longrightarrow> save_broadcast_state L flt fs i b = (r, fs') \<Longrightarrow>
      r = Inr () \<and> store_holds L fs' (fst st, set_broadcast (snd st) i b) \<or>
      (\<exists>e. r = Inl (PStore e)) \<and> flt \<noteq> no_fault \<and> store_holds L fs' st"
proof -
  show "r = Inr () \<and> store_holds L fs' (fst st, upsert (snd st) a) \<or> (\<exists>e. r = Inl (PStore e)) \<and> flt \<noteq> no_fault \<and> store_holds L fs' st"
    if "acc_ok a" "save_pairing L flt fs a = (r, fs')"
    by (rule rewrite_doc_effect [OF assms that(2) [unfolded save_pairing_def]]) (simp add: save_doc that(1) Let_def)
  show "r = Inr () \<and> store_holds L fs' (fst st, filter (\<lambda>a. sa_id a \<noteq> i) (snd st)) \<or>
      (\<exists>e. r = Inl (PStore e)) \<and> flt \<noteq> no_fault \<and> store_holds L fs' st" if "delete_pairing L flt fs i = (r, fs')"
    by (rule rewrite_doc_effect [OF assms that [unfolded delete_pairing_def]]) (simp add: delete_doc)
  show "r = Inr () \<and> store_holds L fs' (Some k, snd st) \<or> (\<exists>e. r = Inl (PStore e)) \<and> flt \<noteq> no_fault \<and> store_holds L fs' st"
    if "length (kp_seed k) = 32" "save_controller L flt fs k = (r, fs')"
    by (rule rewrite_doc_effect [OF assms that(2) [unfolded save_controller_def]]) (simp add: controller_doc that(1))
  show "r = Inr () \<and> store_holds L fs' (fst st, set_broadcast (snd st) i b) \<or>
      (\<exists>e. r = Inl (PStore e)) \<and> flt \<noteq> no_fault \<and> store_holds L fs' st"
    if "length (sb_key b) = 32" "save_broadcast_state L flt fs i b = (r, fs')"
    by (rule rewrite_doc_effect [OF assms that(2) [unfolded save_broadcast_state_def]]) (rule broadcast_doc [OF _ that(1)])
qed

interpretation json: pairing_store "store_holds L" "load_pairings L no_fault" "load_controller L no_fault"
    "save_pairing L flt" "delete_pairing L flt" "save_controller L flt" "flt \<noteq> no_fault" for L flt
proof
  fix s st
  assume h: "store_holds L s st"
  show "load_pairings L no_fault s = Inr (snd st)" "load_controller L no_fault s = Inr (fst st)"
    using loads_holds [OF h, of no_fault] by (simp_all add: no_fault_def)
  show "list_all acc_ok (snd st)" using h by (rule store_holds_ok)
qed (fact store_effects(1-3))+

section \<open>Sequences of changes\<close>

datatype 'a store_op =
    SaveController ControllerKeypair
  | SavePairing "'a StoredAccessory"
  | DeletePairing str
  | SaveBroadcast str StoredBroadcast

fun run_store_op :: "'a doc_lib \<Rightarrow> io_fault \<Rightarrow> store_fs \<Rightarrow> 'a store_op \<Rightarrow> (PairingError + unit) \<times> store_fs" where
  "run_store_op L flt fs (SaveController k) = save_controller L flt fs k"
| "run_store_op L flt fs (SavePairing a) = save_pairing L flt fs a"
| "run_store_op L flt fs (DeletePairing i) = delete_pairing L flt fs i"
| "run_store_op L flt fs (SaveBroadcast i b) = save_broadcast_state L flt fs i b"

fun spec_store_op :: "'a store_state \<Rightarrow> 'a store_op \<Rightarrow> 'a store_state" where
  "spec_store_op st (SaveController k) = (Some k, snd st)"
| "spec_store_op st (SavePairing a) = (fst st, upsert (snd st) a)"
| "spec_store_op st (DeletePairing i) = (fst st, filter (\<lambda>a. sa_id a \<noteq> i) (snd st))"
| "spec_store_op st (SaveBroadcast i b) = (fst st, set_broadcast (snd st) i b)"

fun store_op_ok :: "'a store_op \<Rightarrow> bool" where
  "store_op_ok (SaveController k) \<longleftrightarrow> length (kp_seed k) = 32"
| "store_op_ok (SavePairing a) \<longleftrightarrow> acc_ok a"
| "store_op_ok (DeletePairing i) \<longleftrightarrow> True"
| "store_op_ok (SaveBroadcast i b) \<longleftrightarrow> length (sb_key b) = 32"

fun run_store_ops ::
    "'a doc_lib \<Rightarrow> store_fs \<Rightarrow> ('a store_op \<times> io_fault) list \<Rightarrow> (PairingError + unit) list \<times> store_fs" where
  "run_store_ops L fs [] = ([], fs)"
| "run_store_ops L fs ((op, flt) # ops) =
     (let (r, fs') = run_store_op L flt fs op; (rs, fs'') = run_store_ops L fs' ops in (r # rs, fs''))"

text \<open>The contract for a sequence: exactly the operations that report success count.\<close>

fun spec_store_ops :: "'a store_state \<Rightarrow> ('a store_op \<times> io_fault) list \<Rightarrow> (PairingError + unit) list \<Rightarrow> 'a store_state" where
  "spec_store_ops st ((op, _) # ops) (r # rs) = spec_store_ops (if r = Inr () then spec_store_op st op else st) ops rs"
| "spec_store_ops st _ _ = st"

lemma run_store_op_effect:
  assumes "store_holds L fs st" and "store_op_ok op" and "run_store_op L flt fs op = (r, fs')"
  shows "r = Inr () \<and> store_holds L fs' (spec_store_op st op) \<or> (\<exists>e. r = Inl (PStore e)) \<and> flt \<noteq> no_fault \<and> store_holds L fs' st"
proof (cases op)
  case (SaveController k)
  then show ?thesis using store_effects(3) [OF assms(1), of k flt r fs'] assms(2,3) by (simp only: run_store_op.simps spec_store_op.simps store_op_ok.simps)
next
  case (SavePairing a)
  then show ?thesis using store_effects(1) [OF assms(1), of a flt r fs'] assms(2,3) by (simp only: run_store_op.simps spec_store_op.simps store_op_ok.simps)
next
  case (DeletePairing i)
  then show ?thesis using store_effects(2) [OF assms(1), of flt i r fs'] assms(2,3) by (simp only: run_store_op.simps spec_store_op.simps store_op_ok.simps)
next
  case (SaveBroadcast i b)
  then show ?thesis using store_effects(4) [OF assms(1), of b flt i r fs'] assms(2,3) by (simp only: run_store_op.simps spec_store_op.simps store_op_ok.simps)
qed

lemma run_store_ops_effect:
  assumes "store_holds L fs st" and "list_all (\<lambda>(op, _). store_op_ok op) ops" and "run_store_ops L fs ops = (rs, fs')"
  shows "store_holds L fs' (spec_store_ops st ops rs) \<and>
    list_all2 (\<lambda>(_, flt) r. r = Inr () \<or> (\<exists>e. r = Inl (PStore e)) \<and> flt \<noteq> no_fault) ops rs"
  using assms
proof (induction ops arbitrary: fs st rs)
  case (Cons p ops)
  obtain op flt where p: "p = (op, flt)" by fastforce
  obtain r fs1 rs1 where r: "run_store_op L flt fs op = (r, fs1)" "run_store_ops L fs1 ops = (rs1, fs')" "rs = r # rs1"
    using Cons.prems(3) p by (auto split: prod.splits)
  have ok: "store_op_ok op" "list_all (\<lambda>(op, _). store_op_ok op) ops" using Cons.prems(2) p by auto
  have "store_holds L fs1 (if r = Inr () then spec_store_op st op else st)"
    using run_store_op_effect [OF Cons.prems(1) ok(1) r(1)] by auto
  from Cons.IH [OF this ok(2) r(2)] show ?case
    using run_store_op_effect [OF Cons.prems(1) ok(1) r(1)] p r(3) by auto
qed simp

section \<open>Properties\<close>

text \<open>C14. The JSON file keeps what was saved, through input/output errors.  Starting from a file that is missing
  or holds a document of either version, after any sequence of saves and deletions, each with a
  failure at any point of its read or write or with none, the operations that reported success have
  taken effect in order and the others have changed nothing; loading returns exactly that state,
  controller and accessories; and an operation reports an error only if its input/output failed.\<close>

theorem store_refines_table:
  assumes "store_holds L fs st" and "list_all (\<lambda>(op, _). store_op_ok op) ops" and "run_store_ops L fs ops = (rs, fs')"
  shows "load_controller L no_fault fs' = Inr (fst (spec_store_ops st ops rs)) \<and>
    load_pairings L no_fault fs' = Inr (snd (spec_store_ops st ops rs)) \<and>
    list_all2 (\<lambda>(_, flt) r. r = Inr () \<or> (\<exists>e. r = Inl (PStore e)) \<and> flt \<noteq> no_fault) ops rs"
proof -
  note h = run_store_ops_effect [OF assms]
  show ?thesis using json.load_ok [OF conjunct1 [OF h]] json.controller_ok [OF conjunct1 [OF h]] conjunct2 [OF h] by (intro conjI)
qed

text \<open>The atomic update of the broadcast material does what the trait's default does: on the JSON store,
  \<open>save_broadcast_state\<close> and the default that loads, changes and saves return the same result and leave
  the same controller and accessories, whether the accessory is absent, on IP, or on BLE.\<close>

theorem broadcast_update_equals_default:
  assumes "store_holds L fs st" and "length (sb_key b) = 32"
    and "save_broadcast_state L no_fault fs i b = (r, fs1)"
    and "default_save_broadcast_state (load_pairings L no_fault) (save_pairing L no_fault) fs i b = (r', fs2)"
  shows "r = Inr () \<and> r' = Inr () \<and> load_pairings L no_fault fs1 = Inr (set_broadcast (snd st) i b) \<and>
    load_pairings L no_fault fs2 = load_pairings L no_fault fs1 \<and> load_controller L no_fault fs2 = load_controller L no_fault fs1"
proof -
  have 1: "r = Inr ()" "store_holds L fs1 (fst st, set_broadcast (snd st) i b)"
    using store_effects(4) [OF assms(1-3)] by auto
  have 2: "r' = Inr ()" "store_holds L fs2 (fst st, set_broadcast (snd st) i b)"
    using json.default_broadcast_effect [OF assms(1,2,4)] by auto
  show ?thesis using json.load_ok [OF 1(2)] json.load_ok [OF 2(2)] json.controller_ok [OF 1(2)] json.controller_ok [OF 2(2)] 1(1) 2(1)
    by simp
qed

end
