(* ===== verification/Ble_Adverts.thy ===== *)
theory Ble_Adverts
  imports Ble_Accessory
begin

text \<open>
  Advertisements: their parser (\<open>hap-ble/src/advert.rs\<close>), the discovery record
  (\<open>hap-ble/src/discovery.rs\<close>), and the watch for events of a sleepy accessory in
  \<open>hap-ble/src/accessory.rs\<close>.  The watch is two tasks: one takes every advertisement, opens encrypted
  notifications itself and hands a new state number to the other, which then polls.  A turn of either
  is a step of one machine; the steps interleave in any order.
\<close>

section \<open>Device identifiers\<close>

definition ble_format_device_id :: "bytes \<Rightarrow> str" where
  "ble_format_device_id ids = fold (\<lambda>b s. (if s \<noteq> [] then s @ [0x3A] else s) @ hex2 b) ids []"

fun ble_parse_parts :: "nat \<Rightarrow> str list \<Rightarrow> bytes option" where
  "ble_parse_parts 0 parts = (if parts = [] then Some [] else None)"
| "ble_parse_parts (Suc n) [] = None"
| "ble_parse_parts (Suc n) (p # parts) =
     (if length p \<noteq> 2 then None
      else
        case from_str_radix 16 255 p of
          None \<Rightarrow> None
        | Some v \<Rightarrow> map_option (\<lambda>out. of_nat v # out) (ble_parse_parts n parts))"

definition ble_parse_device_id :: "str \<Rightarrow> bytes option" where
  "ble_parse_device_id s = ble_parse_parts 6 (split_on 0x3A s)"

section \<open>The advertisement\<close>

datatype HapAdvert =
    Regular bytes u16 bool
  | EncryptedNotification bytes bytes

definition HapAdvert_parse :: "bytes \<Rightarrow> HapAdvert option" where
  "HapAdvert_parse mfg =
     (case mfg of
        [] \<Rightarrow> None
      | ty # _ \<Rightarrow>
          if ty = 0x06 \<and> 13 \<le> length mfg then
            Some (Regular (slice mfg 3 9) (u16_from_le (mfg ! 11) (mfg ! 12)) (and (mfg ! 2) 0x01 = 0))
          else if ty = 0x11 \<and> 8 \<le> length mfg then
            Some (EncryptedNotification (slice mfg 2 8) (drop 8 mfg))
          else None)"

record DiscoveredBleAccessory =
  peripheral_id :: str
  db_device_id :: str
  db_category :: u16
  global_state_number :: u16
  db_config_number :: u8
  db_paired :: bool
  db_setup_hash :: "bytes option"

definition parse_hap_advert :: "bytes \<Rightarrow> str \<Rightarrow> DiscoveredBleAccessory option" where
  "parse_hap_advert mfg peripheral =
     (if length mfg < 15 then None
      else
        case HapAdvert_parse mfg of
          Some (Regular device_id gsn paired) \<Rightarrow>
            Some \<lparr>peripheral_id = peripheral, db_device_id = ble_format_device_id device_id,
              db_category = u16_from_le (mfg ! 9) (mfg ! 10), global_state_number = gsn,
              db_config_number = mfg ! 13, db_paired = paired,
              db_setup_hash = (if 19 \<le> length mfg then Some [mfg ! 15, mfg ! 16, mfg ! 17, mfg ! 18] else None)\<rparr>
        | _ \<Rightarrow> None)"

text \<open>The accessories a scan keeps of the advertisements it hears: company id, data and peripheral.\<close>

definition APPLE_COMPANY_ID :: u16 where "APPLE_COMPANY_ID = 0x004C"

fun scan_adverts :: "str list \<Rightarrow> (u16 \<times> bytes \<times> str) list \<Rightarrow> DiscoveredBleAccessory list" where
  "scan_adverts seen [] = []"
| "scan_adverts seen ((company, data, peripheral) # advs) =
     (if company \<noteq> APPLE_COMPANY_ID then scan_adverts seen advs
      else
        case parse_hap_advert data peripheral of
          None \<Rightarrow> scan_adverts seen advs
        | Some acc \<Rightarrow>
            if peripheral_id acc \<in> set seen then scan_adverts seen advs
            else acc # scan_adverts (peripheral_id acc # seen) advs)"

section \<open>State numbers\<close>

definition gsn_is_newer :: "u16 \<Rightarrow> u16 \<Rightarrow> bool" where
  "gsn_is_newer new old = (let diff = new - old in diff \<noteq> 0 \<and> diff < 0x8000)"

definition dedup_should_emit :: "(u64 \<times> u16) list \<Rightarrow> u64 \<Rightarrow> u16 \<Rightarrow> bool \<times> (u64 \<times> u16) list" where
  "dedup_should_emit emitted iid gsn =
     (let prev = map_of emitted iid in
      if prev = Some gsn then (False, emitted)
      else (True, if (case prev of None \<Rightarrow> True | Some p \<Rightarrow> gsn_is_newer gsn p)
                  then AList.update iid gsn emitted else emitted))"

section \<open>The watch\<close>

text \<open>What the two tasks share: the last state number, the deduplication map, the watch channel with the
  number it holds and whether the poll task has seen it, the poll under way (its number and the targets
  still to read) and, as a log, the events published, each with the state number it was published for.\<close>

type_synonym poll_entry = "u64 \<times> u64 \<times> str \<times> CharFormat"

record sleepy =
  sl_last_gsn :: u16
  sl_emitted :: "(u64 \<times> u16) list"
  sl_channel :: "u16 option"
  sl_poll :: "u16 \<times> poll_entry list"
  sl_log :: "(u16 \<times> BleEvent) list"

definition watch_targets :: "((u64 \<times> u64) \<times> (str \<times> CharFormat)) list \<Rightarrow> (u64 \<times> u64) list \<Rightarrow> poll_entry list" where
  "watch_targets chars poll_iids =
     List.map_filter (\<lambda>(aid, iid). map_option (\<lambda>(uuid, f). (aid, iid, uuid, f)) (map_of chars (aid, iid))) poll_iids"

definition watch_formats :: "((u64 \<times> u64) \<times> (str \<times> CharFormat)) list \<Rightarrow> (u64 \<times> CharFormat) list" where
  "watch_formats chars = map (\<lambda>((_, iid), (_, f)). (iid, f)) chars"

definition publish :: "sleepy \<Rightarrow> u64 \<Rightarrow> u64 \<Rightarrow> u16 \<Rightarrow> CharValue \<Rightarrow> sleepy" where
  "publish s aid iid gsn v =
     (let (emit, emitted) = dedup_should_emit (sl_emitted s) iid gsn;
          s = s\<lparr>sl_emitted := emitted\<rparr> in
      if emit then s\<lparr>sl_log := sl_log s @ [(gsn, \<lparr>ev_aid = aid, ev_iid = iid, ev_value = v\<rparr>)]\<rparr> else s)"

definition gsn_candidates :: "u16 \<Rightarrow> u16 list" where
  "gsn_candidates start = (start + 1) # start # map (\<lambda>d. start + of_nat d) [2..<101]"

fun try_candidates ::
    "prims \<Rightarrow> BroadcastKey \<Rightarrow> bytes \<Rightarrow> (u64 \<times> CharFormat) list \<Rightarrow> bytes \<Rightarrow> u16 \<Rightarrow> sleepy \<Rightarrow> u16 list \<Rightarrow> sleepy" where
  "try_candidates P key advertising_id formats payload start s [] = s"
| "try_candidates P key advertising_id formats payload start s (gsn # gsns) =
     (case BroadcastKey_open P key gsn payload advertising_id of
        Inl _ \<Rightarrow> try_candidates P key advertising_id formats payload start s gsns
      | Inr pt \<Rightarrow>
          if length pt < 12 \<or> u16_from_le (pt ! 0) (pt ! 1) \<noteq> gsn
          then try_candidates P key advertising_id formats payload start s gsns
          else if \<not> gsn_is_newer gsn start then s
          else
            let iid = ucast (u16_from_le (pt ! 2) (pt ! 3));
                s = s\<lparr>sl_last_gsn := gsn\<rparr> in
            (case map_of formats iid of
               None \<Rightarrow> s
             | Some f \<Rightarrow>
                 (case decode_value f (slice pt 4 12) of
                    Inl _ \<Rightarrow> s
                  | Inr v \<Rightarrow> publish s 1 iid gsn v)))"

text \<open>One turn of the advertisement task.\<close>

definition on_advert ::
    "prims \<Rightarrow> BroadcastKey \<Rightarrow> bytes \<Rightarrow> (u64 \<times> CharFormat) list \<Rightarrow> sleepy \<Rightarrow> bytes \<Rightarrow> sleepy" where
  "on_advert P key device_id formats s mfg =
     (case HapAdvert_parse mfg of
        Some (Regular d gsn _) \<Rightarrow>
          if d \<noteq> device_id then s
          else if \<not> gsn_is_newer gsn (sl_last_gsn s) then s
          else s\<lparr>sl_last_gsn := gsn, sl_channel := Some gsn\<rparr>
      | Some (EncryptedNotification advertising_id payload) \<Rightarrow>
          if advertising_id \<noteq> device_id then s
          else try_candidates P key advertising_id formats payload (sl_last_gsn s) s (gsn_candidates (sl_last_gsn s))
      | None \<Rightarrow> s)"


definition poll_target :: "sleepy \<Rightarrow> BleError + bytes \<Rightarrow> sleepy" where
  "poll_target s raw =
     (case sl_poll s of
        (_, []) \<Rightarrow> s
      | (gsn, (aid, iid, uuid, f) # targets) \<Rightarrow>
          let s = s\<lparr>sl_poll := (gsn, targets)\<rparr> in
          (case and_then raw (decode_value f) of
             Inl _ \<Rightarrow> s
           | Inr v \<Rightarrow> publish s aid iid gsn v))"




definition watch_idle :: "u16 \<Rightarrow> (u64 \<times> u16) list \<Rightarrow> sleepy" where
  "watch_idle gsn emitted = \<lparr>sl_last_gsn = gsn, sl_emitted = emitted, sl_channel = None, sl_poll = (0, []), sl_log = []\<rparr>"

section \<open>What a step does\<close>





section \<open>No event twice\<close>





abbreviation logged :: "sleepy \<Rightarrow> (u16 \<times> u64) list" where
  "logged s \<equiv> map (\<lambda>(g, ev). (g, ev_iid ev)) (sl_log s)"








text \<open>What the deduplication map alone gives.  An event is published a second time only if the map's record
  for the characteristic had gone on to a state number that the event's is not newer than: the initial
  record, or that of an event published before.\<close>

definition overtaken :: "(u64 \<times> u16) list \<Rightarrow> (u16 \<times> u64) list \<Rightarrow> u16 \<Rightarrow> u64 \<Rightarrow> bool" where
  "overtaken em log gsn iid \<longleftrightarrow>
     (\<exists>p. p \<noteq> gsn \<and> \<not> gsn_is_newer gsn p \<and> (map_of em iid = Some p \<or> (p, iid) \<in> set log))"

definition records_inv :: "(u64 \<times> u16) list \<Rightarrow> sleepy \<Rightarrow> bool" where
  "records_inv em s \<longleftrightarrow>
     (\<forall>iid p. map_of (sl_emitted s) iid = Some p \<longrightarrow> map_of em iid = Some p \<or> (p, iid) \<in> set (logged s)) \<and>
     (\<forall>gsn iid. (gsn, iid) \<in> set (logged s) \<longrightarrow> map_of (sl_emitted s) iid = Some gsn \<or> overtaken em (logged s) gsn iid) \<and>
     (\<forall>pre gsn iid post. logged s = pre @ (gsn, iid) # post \<and> (gsn, iid) \<in> set pre \<longrightarrow> overtaken em pre gsn iid)"

lemma gsn_newer_asym:
  assumes "gsn_is_newer new old"
  shows "\<not> gsn_is_newer old new"
proof
  assume "gsn_is_newer old new"
  then have "unat (old - new) < 0x8000" "unat (new - old) < 0x8000" "0 < unat (new - old)"
    using assms by (auto simp: gsn_is_newer_def Let_def word_less_nat_alt unat_gt_0)
  moreover have "(unat (old - new) + unat (new - old)) mod 2 ^ 16 = unat ((old - new) + (new - old))"
    by (subst unat_word_ariths(1)) simp
  ultimately show False by simp
qed



lemma records_inv_frame [simp]:
  "records_inv em (s\<lparr>sl_last_gsn := g\<rparr>) = records_inv em s" "records_inv em (s\<lparr>sl_channel := c\<rparr>) = records_inv em s"
  "records_inv em (s\<lparr>sl_poll := p\<rparr>) = records_inv em s"
  by (simp_all add: records_inv_def)










section \<open>A notification arrives\<close>

lemma try_candidates_hit:
  assumes "gsn \<in> set gsns"
    and skip: "\<And>g pt. g \<noteq> gsn \<Longrightarrow> BroadcastKey_open P key g payload aid = Inr pt \<Longrightarrow> u16_from_le (pt ! 0) (pt ! 1) \<noteq> g"
    and "BroadcastKey_open P key gsn payload aid = Inr pt" and "12 \<le> length pt" and "u16_from_le (pt ! 0) (pt ! 1) = gsn"
  shows "try_candidates P key aid formats payload start s gsns = try_candidates P key aid formats payload start s [gsn]"
  using assms(1)
proof (induction gsns)
  case (Cons g gsns)
  show ?case
  proof (cases "g = gsn")
    case True
    then show ?thesis using assms(3-5) by (auto simp: Let_def)
  next
    case False
    have "try_candidates P key aid formats payload start s (g # gsns) = try_candidates P key aid formats payload start s gsns"
      using skip [OF False] by (cases "BroadcastKey_open P key g payload aid") auto
    then show ?thesis using Cons False by simp
  qed
qed simp

lemma candidate_window:
  assumes "1 \<le> d" and "d \<le> 100"
  shows "start + of_nat d \<in> set (gsn_candidates start)" and "gsn_is_newer (start + of_nat d) start"
proof -
  have "d = 1 \<or> d \<in> {2..<101}" using assms by auto
  then show "start + of_nat d \<in> set (gsn_candidates start)"
    unfolding gsn_candidates_def list.set(2) set_map set_upt by auto
  have "unat (of_nat d :: u16) = d" using assms by (simp add: unsigned_of_nat take_bit_nat_eq_self)
  then have "(of_nat d :: u16) \<noteq> 0" "(of_nat d :: u16) < 0x8000"
    using assms by (auto simp: word_less_nat_alt simp del: unsigned_of_nat)
  then show "gsn_is_newer (start + of_nat d) start" by (simp add: gsn_is_newer_def)
qed

lemma broadcast_delivered:
  assumes "mac_laws P" and "length dev = 6" and "length raw = 8" and "1 \<le> d" and "d \<le> 100"
    and "gsn = sl_last_gsn s + of_nat d"
    and "payload = BroadcastKey_seal P key gsn (u16_to_le gsn @ u16_to_le iid @ raw) dev"
    and "\<And>g pt. g \<noteq> gsn \<Longrightarrow> BroadcastKey_open P key g payload dev = Inr pt \<Longrightarrow> u16_from_le (pt ! 0) (pt ! 1) \<noteq> g"
    and "map_of formats (ucast iid) = Some f" and "decode_value f raw = Inr v"
    and "map_of (sl_emitted s) (ucast iid) \<noteq> Some gsn"
    and "s' = on_advert P key dev formats s ([0x11, len] @ dev @ payload)"
  shows "s' = publish (s\<lparr>sl_last_gsn := gsn\<rparr>) 1 (ucast iid) gsn v \<and> sl_log s' = sl_log s @ [(gsn, \<lparr>ev_aid = 1, ev_iid = ucast iid, ev_value = v\<rparr>)] \<and> sl_last_gsn s' = gsn \<and>
    on_advert P key dev formats s' ([0x11, len] @ dev @ payload) = s'"
proof -
  let ?pt = "u16_to_le gsn @ u16_to_le iid @ raw"
  obtain a b where ab: "u16_to_le gsn = [a, b]" "u16_from_le a b = gsn" using u16_to_le_Cons by blast
  obtain x y where xy: "u16_to_le iid = [x, y]" "u16_from_le x y = iid" using u16_to_le_Cons by blast
  have pt: "12 \<le> length ?pt" "u16_from_le (?pt ! 0) (?pt ! 1) = gsn" "u16_from_le (?pt ! 2) (?pt ! 3) = iid" "slice ?pt 4 12 = raw"
    using ab xy assms(3) by (simp_all add: slice_def)
  have op: "BroadcastKey_open P key gsn payload dev = Inr ?pt"
    using open_iff_seal [OF assms(1), of key gsn payload dev ?pt] assms(7) by blast
  have parse: "HapAdvert_parse ([0x11, len] @ dev @ payload) = Some (EncryptedNotification dev payload)"
    using assms(2) by (simp add: HapAdvert_parse_def slice_def)
  have adv: "on_advert P key dev formats t ([0x11, len] @ dev @ payload) =
      try_candidates P key dev formats payload (sl_last_gsn t) t [gsn]" if "gsn \<in> set (gsn_candidates (sl_last_gsn t))" for t
    using try_candidates_hit [OF that assms(8) op pt(1,2)] parse by (simp add: on_advert_def)
  have s': "s' = publish (s\<lparr>sl_last_gsn := gsn\<rparr>) 1 (ucast iid) gsn v"
    using adv [of s] candidate_window [OF assms(4,5), of "sl_last_gsn s"] op pt assms(6,9,10,12) by (simp add: Let_def)
  have log: "sl_log s' = sl_log s @ [(gsn, \<lparr>ev_aid = 1, ev_iid = ucast iid, ev_value = v\<rparr>)]" "sl_last_gsn s' = gsn"
    using assms(11) by (simp_all add: s' publish_def dedup_should_emit_def Let_def)
  moreover have "on_advert P key dev formats s' ([0x11, len] @ dev @ payload) = s'"
    using adv [of s'] log(2) op pt by (simp add: gsn_candidates_def gsn_is_newer_def Let_def)
  ultimately show ?thesis using s' by simp
qed

section \<open>Properties\<close>


text \<open>The exception is real: where the record has gone on to a newer number, a characteristic named twice in
  the poll list is published twice for the older one.\<close>

lemma overtaken_published_twice:
  assumes "map_of (sl_emitted s) iid = Some p" and "gsn_is_newer p gsn" and "sl_poll s = (gsn, [(aid, iid, uuid, f), (aid, iid, uuid, f)])"
    and "and_then raw (decode_value f) = Inr v"
  shows "sl_log (poll_target (poll_target s raw) raw) =
    sl_log s @ [(gsn, \<lparr>ev_aid = aid, ev_iid = iid, ev_value = v\<rparr>), (gsn, \<lparr>ev_aid = aid, ev_iid = iid, ev_value = v\<rparr>)]"
proof -
  have "p \<noteq> gsn" "\<not> gsn_is_newer gsn p" using assms(2) gsn_newer_asym [OF assms(2)] by (auto simp: gsn_is_newer_def)
  then show ?thesis using assms by (simp add: poll_target_def publish_def dedup_should_emit_def Let_def)
qed

text \<open>C40. A notification of the accessory arrives: sealed under the broadcast key for a state number at
  most 100 ahead of the last one, for a known characteristic and a value of its format, it is
  published and its state number becomes the last one; the same advertisement heard again changes
  nothing.  The hypothesis on other state numbers is that where the truncated tag also fits one of
  them, what opens does not carry that number, which is the check the code makes.\<close>

theorem sleepy_broadcast_delivered:
  assumes "mac_laws P" and "length dev = 6" and "length raw = 8" and "1 \<le> d" and "d \<le> 100"
    and "gsn = sl_last_gsn s + of_nat d"
    and "payload = BroadcastKey_seal P key gsn (u16_to_le gsn @ u16_to_le iid @ raw) dev"
    and "\<And>g pt. g \<noteq> gsn \<Longrightarrow> BroadcastKey_open P key g payload dev = Inr pt \<Longrightarrow> u16_from_le (pt ! 0) (pt ! 1) \<noteq> g"
    and "map_of formats (ucast iid) = Some f" and "decode_value f raw = Inr v"
    and "map_of (sl_emitted s) (ucast iid) \<noteq> Some gsn"
    and "s' = on_advert P key dev formats s ([0x11, len] @ dev @ payload)"
  shows "sl_log s' = sl_log s @ [(gsn, \<lparr>ev_aid = 1, ev_iid = ucast iid, ev_value = v\<rparr>)] \<and> sl_last_gsn s' = gsn \<and>
    on_advert P key dev formats s' ([0x11, len] @ dev @ payload) = s'"
  using broadcast_delivered [OF assms] by blast

text \<open>A watch that starts from state number 0, as after pairing, ignores an accessory whose state number
  is in the upper half of the range.\<close>

lemma upper_half_ignored:
  assumes "sl_last_gsn s = 0" and "HapAdvert_parse mfg = Some (Regular d gsn paired)" and "0x8000 \<le> gsn"
  shows "on_advert P key dev formats s mfg = s"
  using assms by (auto simp: on_advert_def gsn_is_newer_def Let_def)

text \<open>A notification of an \<open>On\<close> characteristic under the computable primitives.\<close>

definition toy_notification :: bytes where
  "toy_notification = BroadcastKey_seal toy_prims [1] 1 (u16_to_le 1 @ u16_to_le 10 @ [1, 0, 0, 0, 0, 0, 0, 0]) (replicate 6 7)"

lemma toy_seal_gsn: "BroadcastKey_seal toy_prims key g m aid = BroadcastKey_seal toy_prims key g' m aid"
  by (simp add: BroadcastKey_seal_def poly1305_key_def apply_keystream_def ChaCha20_new_def toy_prims_def Let_def)

lemma toy_notification_gsn:
  assumes "g \<noteq> 1" and "BroadcastKey_open toy_prims [1] g toy_notification (replicate 6 7) = Inr pt"
  shows "u16_from_le (pt ! 0) (pt ! 1) \<noteq> g"
proof -
  have o: "BroadcastKey_open toy_prims [1] h toy_notification (replicate 6 7) = Inr m \<longleftrightarrow>
      toy_notification = BroadcastKey_seal toy_prims [1] 1 m (replicate 6 7)" for h m
    using open_iff_seal [OF toy_mac_laws, of "[1]" h toy_notification "replicate 6 7" m] toy_seal_gsn [of "[1]" h m _ 1] by simp
  have "BroadcastKey_open toy_prims [1] 1 toy_notification (replicate 6 7) = Inr pt" using assms(2) o by blast
  moreover have "BroadcastKey_open toy_prims [1] 1 toy_notification (replicate 6 7) =
      Inr (u16_to_le 1 @ u16_to_le 10 @ [1, 0, 0, 0, 0, 0, 0, 0])"
    using o toy_notification_def by blast
  ultimately have pt: "pt = u16_to_le 1 @ u16_to_le 10 @ [1, 0, 0, 0, 0, 0, 0, 0]" by simp
  obtain a b where "u16_to_le 1 = [a, b]" "u16_from_le a b = 1" using u16_to_le_Cons by blast
  then show ?thesis using assms(1) by (auto simp: pt)
qed

definition toy_advert :: bytes where
  "toy_advert = [0x11, 0] @ replicate 6 7 @ toy_notification"

lemma toy_delivery:
  "length (replicate 6 (7 :: u8)) = 6" "length ([1, 0, 0, 0, 0, 0, 0, 0] :: bytes) = 8" "(1 :: nat) \<le> 1" "(1 :: nat) \<le> 100"
  "1 = sl_last_gsn (watch_idle 0 []) + of_nat 1" "map_of [(10, FBool)] (ucast (10 :: u16)) = Some FBool"
  "decode_value FBool [1, 0, 0, 0, 0, 0, 0, 0] = Inr (VBool True)" "map_of (sl_emitted (watch_idle 0 [])) (ucast (10 :: u16)) \<noteq> Some 1"
  by (simp_all add: watch_idle_def decode_value_def need_def)

theorem sleepy_broadcast_delivered_witness:
  "sl_log (on_advert toy_prims [1] (replicate 6 7) [(10, FBool)] (watch_idle 0 []) toy_advert) =
     [(1, \<lparr>ev_aid = 1, ev_iid = 10, ev_value = VBool True\<rparr>)]"
proof -
  note d = sleepy_broadcast_delivered [OF toy_mac_laws toy_delivery(1-5) toy_notification_def _ toy_delivery(6-8) refl, of 0]
  have "sl_log (on_advert toy_prims [1] (replicate 6 7) [(10, FBool)] (watch_idle 0 []) ([0x11, 0] @ replicate 6 7 @ toy_notification)) =
      sl_log (watch_idle 0 []) @ [(1, \<lparr>ev_aid = 1, ev_iid = ucast (10 :: u16), ev_value = VBool True\<rparr>)]"
    by (rule conjunct1, rule d) (rule toy_notification_gsn; assumption)
  then show ?thesis by (simp add: toy_advert_def watch_idle_def)
qed



end
