(* ===== verification/Discovery.thy ===== *)
theory Discovery
  imports Pairing_Store Ble_Adverts
begin

text \<open>
  Finding the accessory to pair: the mDNS records of \<open>hap-transport/src/discovery.rs\<close>, and of
  \<open>hap-controller\<close> the unified result (\<open>discovered.rs\<close>), the setup payload of a QR code
  (\<open>setup_payload.rs\<close>), its match with an accessory (\<open>payload_match.rs\<close>), the incremental collection
  (\<open>discover_until.rs\<close>), and of \<open>controller.rs\<close> the merged discovery and the choice of an accessory.  The
  mDNS daemon is the list of events it delivers within the window; base64 is a parameter.
\<close>

section \<open>Errors\<close>

datatype HapError =
    HTlv8 Tlv8Error
  | HCrypto CryptoError
  | HTransport TransportError
  | HPairing PairingError
  | HModel ModelError
  | HUnknownAccessory str
  | HCharacteristicNotFound u64 u64
  | HInvalidSetupCode
  | HHttp u16
  | HConnectionLost
  | HInvalidSetupPayload
  | HUnsupportedByTransport string
  | HBle BleError
  | HNoMatchingAccessory
  | HAmbiguousMatch "str list"

section \<open>Accessories on the network\<close>

definition HAP_SERVICE_TYPE :: str where "HAP_SERVICE_TYPE = ascii ''_hap._tcp.local.''"

record 'i DiscoveredAccessory =
  da_id :: str
  da_name :: str
  da_addr :: "'i \<times> u16"
  da_paired :: bool
  da_category :: u16
  da_config_number :: u32
  da_setup_hash :: "bytes option"

definition trim_end_matches :: "u8 \<Rightarrow> str \<Rightarrow> str" where
  "trim_end_matches c s = rev (dropWhile (\<lambda>b. b = c) (rev s))"

definition instance_name :: "str \<Rightarrow> str" where
  "instance_name fullname =
     (case strip_suffix fullname HAP_SERVICE_TYPE of
        None \<Rightarrow> fullname
      | Some s \<Rightarrow> trim_end_matches 0x2E s)"

text \<open>A TXT record is a map; a numeric key that is absent counts as zero.\<close>

definition parse_num :: "(str \<Rightarrow> str option) \<Rightarrow> str \<Rightarrow> TransportError + nat" where
  "parse_num txt key =
     (case txt key of
        None \<Rightarrow> Inr 0
      | Some v \<Rightarrow> ok_or (DiscoveryTxt key) (from_str_radix 10 (2 ^ 64 - 1) (trim v)))"

definition parse_txt ::
    "(str \<Rightarrow> str + bytes) \<Rightarrow> str \<Rightarrow> 'i \<times> u16 \<Rightarrow> (str \<Rightarrow> str option) \<Rightarrow> TransportError + 'i DiscoveredAccessory" where
  "parse_txt b64 fullname addr txt =
     and_then (ok_or (DiscoveryTxt (ascii ''id'')) (txt (ascii ''id''))) (\<lambda>ident.
     and_then (parse_num txt (ascii ''c#'')) (\<lambda>cn.
     and_then (require (cn < 2 ^ 32) (DiscoveryTxt (ascii ''c#''))) (\<lambda>_.
     and_then (parse_num txt (ascii ''ci'')) (\<lambda>ci.
     and_then (ok_or (DiscoveryTxt (ascii ''ci'')) (try_u16 ci)) (\<lambda>category.
     and_then (parse_num txt (ascii ''sf'')) (\<lambda>sf.
       Inr \<lparr>da_id = ident, da_name = instance_name fullname, da_addr = addr, da_paired = even sf, da_category = category,
            da_config_number = of_nat cn,
            da_setup_hash =
              (case txt (ascii ''sh'') of
                 None \<Rightarrow> None
               | Some s \<Rightarrow> (case b64 s of Inl _ \<Rightarrow> None | Inr bytes \<Rightarrow> try_array 4 bytes))\<rparr>))))))"

text \<open>What the daemon delivers within the window: a resolved service with its full name, addresses (in the
  order the set yields them), port and TXT properties, or an event of no interest.\<close>

datatype 'i browse_event = ServiceResolved str "'i list" u16 "(str \<times> str) list" | OtherEvent

definition resolved_addr :: "('i \<Rightarrow> bool) \<Rightarrow> 'i list \<Rightarrow> u16 \<Rightarrow> ('i \<times> u16) option" where
  "resolved_addr is_ipv4 ips port =
     map_option (\<lambda>ip. (ip, port))
       (case find is_ipv4 ips of
          Some ip \<Rightarrow> Some ip
        | None \<Rightarrow> (case ips of [] \<Rightarrow> None | ip # _ \<Rightarrow> Some ip))"

fun browsed :: "('i \<Rightarrow> bool) \<Rightarrow> (str \<Rightarrow> str + bytes) \<Rightarrow> 'i browse_event \<Rightarrow> 'i DiscoveredAccessory option" where
  "browsed is_ipv4 b64 (ServiceResolved fullname ips port props) =
     (case resolved_addr is_ipv4 ips port of
        None \<Rightarrow> None
      | Some addr \<Rightarrow> ok (parse_txt b64 fullname addr (map_of (rev props))))"
| "browsed is_ipv4 b64 OtherEvent = None"

fun discover_found ::
    "('i \<Rightarrow> bool) \<Rightarrow> (str \<Rightarrow> str + bytes) \<Rightarrow> (str \<times> 'i DiscoveredAccessory) list \<Rightarrow> 'i browse_event list \<Rightarrow>
     'i DiscoveredAccessory list" where
  "discover_found is_ipv4 b64 found [] = map snd found"
| "discover_found is_ipv4 b64 found (ev # evs) =
     (case browsed is_ipv4 b64 ev of
        None \<Rightarrow> discover_found is_ipv4 b64 found evs
      | Some acc \<Rightarrow> discover_found is_ipv4 b64 (AList.update (da_id acc) acc found) evs)"

fun discover_sent ::
    "('i \<Rightarrow> bool) \<Rightarrow> (str \<Rightarrow> str + bytes) \<Rightarrow> str list \<Rightarrow> 'i browse_event list \<Rightarrow> 'i DiscoveredAccessory list" where
  "discover_sent is_ipv4 b64 seen [] = []"
| "discover_sent is_ipv4 b64 seen (ev # evs) =
     (case browsed is_ipv4 b64 ev of
        None \<Rightarrow> discover_sent is_ipv4 b64 seen evs
      | Some acc \<Rightarrow>
          if da_id acc \<in> set seen then discover_sent is_ipv4 b64 seen evs
          else acc # discover_sent is_ipv4 b64 (da_id acc # seen) evs)"

section \<open>One result across transports\<close>

datatype 'i Discovered = DIp "'i DiscoveredAccessory" | DBle DiscoveredBleAccessory

primrec disc_id :: "'i Discovered \<Rightarrow> str" where
  "disc_id (DIp d) = da_id d"
| "disc_id (DBle d) = db_device_id d"

primrec disc_name :: "'i Discovered \<Rightarrow> str" where
  "disc_name (DIp d) = da_name d"
| "disc_name (DBle d) = db_device_id d"

primrec disc_paired :: "'i Discovered \<Rightarrow> bool" where
  "disc_paired (DIp d) = da_paired d"
| "disc_paired (DBle d) = db_paired d"

primrec disc_category :: "'i Discovered \<Rightarrow> u16" where
  "disc_category (DIp d) = da_category d"
| "disc_category (DBle d) = db_category d"

text \<open>\<open>discover\<close> with both transports: what each scan returned, merged.\<close>

definition discover ::
    "TransportError + 'i DiscoveredAccessory list \<Rightarrow> BleError + DiscoveredBleAccessory list \<Rightarrow> HapError + 'i Discovered list" where
  "discover ip ble =
     (case ble of
        Inr bs \<Rightarrow> Inr ((case ip of Inr ds \<Rightarrow> map DIp ds | Inl _ \<Rightarrow> []) @ map DBle bs)
      | Inl _ \<Rightarrow> (case ip of Inl e \<Rightarrow> Inl (HTransport e) | Inr ds \<Rightarrow> Inr (map DIp ds)))"

text \<open>The predicate of \<open>collect_until\<close> may keep a state of its own.\<close>

fun collect_until ::
    "('f \<Rightarrow> 'i Discovered \<Rightarrow> bool \<times> 'f) \<Rightarrow> 'f \<Rightarrow> str list \<Rightarrow> 'i Discovered list \<Rightarrow> 'i Discovered list" where
  "collect_until stop f seen [] = []"
| "collect_until stop f seen (d # ds) =
     (if str_lowercase (disc_id d) \<in> set seen then collect_until stop f seen ds
      else
        let (hit, f') = stop f d in
        d # (if hit then [] else collect_until stop f' (str_lowercase (disc_id d) # seen) ds))"

section \<open>The setup payload\<close>

record SetupFlags =
  sf_ip :: bool
  sf_ble :: bool
  sf_nfc :: bool

record SetupPayload =
  sp_setup_code :: str
  sp_category :: u16
  sp_setup_id :: "str option"
  sp_flags :: SetupFlags

definition strip_prefix :: "str \<Rightarrow> str \<Rightarrow> str option" where
  "strip_prefix s pre = (if starts_with s pre then Some (drop (length pre) s) else None)"

text \<open>The format \<open>{:08}\<close>.\<close>

definition show_08 :: "nat \<Rightarrow> str" where
  "show_08 n = replicate (8 - length (show_nat n)) 0x30 @ show_nat n"

text \<open>\<open>split_at\<close> panics inside a character: \<open>None\<close>.\<close>

definition SetupPayload_parse :: "str \<Rightarrow> (HapError + SetupPayload) option" where
  "SetupPayload_parse uri =
     (case strip_prefix uri (ascii ''X-HM://'') of
        None \<Rightarrow> Some (Inl HInvalidSetupPayload)
      | Some rest \<Rightarrow>
          if length rest < 9 then Some (Inl HInvalidSetupPayload)
          else if 9 < length rest \<and> in_range 0x80 0xBF (rest ! 9) then None
          else Some (
            let setup_id_str = drop 9 rest in
            and_then (ok_or HInvalidSetupPayload (from_str_radix 36 (2 ^ 64 - 1) (take 9 rest))) (\<lambda>v.
            let full = of_nat v :: u64;
                value_low = and full 0xFFFFFFFF;
                value_high = drop_bit 32 full;
                setup_code_num = and value_low 0x7FFFFFF;
                flags_nibble = and (drop_bit 27 value_low) 0xF in
            and_then (ok_or HInvalidSetupPayload
                (try_u16 (unat (or (push_bit 1 (and value_high 0x7F)) (and (drop_bit 31 value_low) 1))))) (\<lambda>category.
              Inr \<lparr>sp_setup_code = show_08 (unat setup_code_num), sp_category = category,
                   sp_setup_id = (if setup_id_str = [] then None else Some setup_id_str),
                   sp_flags = \<lparr>sf_ip = and flags_nibble 0b0010 \<noteq> 0, sf_ble = and flags_nibble 0b0100 \<noteq> 0,
                               sf_nfc = and flags_nibble 0b1000 \<noteq> 0\<rparr>\<rparr>))))"

section \<open>Choosing an accessory\<close>

datatype PayloadMatch = Exact | Category

primrec disc_hash :: "'i Discovered \<Rightarrow> bytes option \<times> str" where
  "disc_hash (DIp a) = (da_setup_hash a, da_id a)"
| "disc_hash (DBle b) = (db_setup_hash b, db_device_id b)"

definition match_kind :: "prims \<Rightarrow> SetupPayload \<Rightarrow> 'i Discovered \<Rightarrow> PayloadMatch option" where
  "match_kind P payload d =
     (let (adv_hash, device_id) = disc_hash d in
      case (sp_setup_id payload, adv_hash) of
        (Some setup_id, Some h) \<Rightarrow>
          if setup_hash P setup_id device_id = h \<or> setup_hash P setup_id (str_uppercase device_id) = h then Some Exact else None
      | _ \<Rightarrow> if disc_category d = sp_category payload then Some Category else None)"

datatype 'i Selection = One "'i Discovered" | NoneFound | Ambiguous "str list"

definition select_match :: "prims \<Rightarrow> 'i Discovered list \<Rightarrow> SetupPayload \<Rightarrow> 'i Selection" where
  "select_match P found payload =
     (let unpaired = filter (\<lambda>d. \<not> disc_paired d) found;
          exact = filter (\<lambda>d. match_kind P payload d = Some Exact) unpaired in
      if length exact = 1 then One (exact ! 0)
      else if 1 < length exact then Ambiguous (map disc_id exact)
      else
        let cat = filter (\<lambda>d. match_kind P payload d = Some Category) unpaired in
        if length cat = 0 then NoneFound else if length cat = 1 then One (cat ! 0) else Ambiguous (map disc_id cat))"

definition normalize_setup_digits :: "str \<Rightarrow> HapError + str" where
  "normalize_setup_digits code =
     (let digits = filter (in_range 0x30 0x39) code in
      if length digits = 8 then Inr digits else Inl HInvalidSetupCode)"

section \<open>The label\<close>

text \<open>What a manufacturer prints: the fields packed into one number, as nine digits in base 36.\<close>

definition base36_char :: "nat \<Rightarrow> u8" where
  "base36_char d = (if d < 10 then of_nat (0x30 + d) else of_nat (0x41 + (d - 10)))"

fun base36 :: "nat \<Rightarrow> nat \<Rightarrow> str" where
  "base36 0 v = []"
| "base36 (Suc n) v = base36 n (v div 36) @ [base36_char (v mod 36)]"

definition setup_label :: "nat \<Rightarrow> nat \<Rightarrow> nat \<Rightarrow> nat \<Rightarrow> str \<Rightarrow> str" where
  "setup_label code flags category reserved setup_id =
     ascii ''X-HM://'' @ base36 9 (code + 2 ^ 27 * (flags + 2 ^ 4 * (category + 2 ^ 8 * reserved))) @ setup_id"

lemma unat_base36_char: "d < 36 \<Longrightarrow> unat (base36_char d) = (if d < 10 then 48 + d else 55 + d)"
  unfolding base36_char_def by (cases "d < 10") (simp_all only: if_True if_False unat_of_nat_u8, simp_all)

lemma digit_val_base36: "d < 36 \<Longrightarrow> digit_val 36 (base36_char d) = Some d"
  using unat_base36_char [of d] by (auto simp: digit_val_def in_range_def word_le_nat_alt split: if_splits)

lemma base36_char_not_sign: "d < 36 \<Longrightarrow> base36_char d \<noteq> 0x2B \<and> base36_char d \<noteq> 0x2D"
  using unat_base36_char [of d] by (auto split: if_splits)

lemma length_base36 [simp]: "length (base36 n v) = n"
  by (induction n arbitrary: v) auto

lemma parse_digits_base36: "parse_digits 36 (base36 n v) 0 = Some (v mod 36 ^ n)"
proof (induction n arbitrary: v)
  case (Suc n)
  have "v div 36 mod 36 ^ n * 36 + v mod 36 = v mod 36 ^ Suc n"
    by (simp add: mod_mult2_eq)
  then show ?case
    using Suc.IH [of "v div 36"] by (simp add: parse_digits_append digit_val_base36)
qed simp

lemma hd_base36: "\<exists>d<36. hd (base36 (Suc n) v) = base36_char d"
proof (induction n arbitrary: v)
  case (Suc n)
  then obtain d where "d < 36" "hd (base36 (Suc n) (v div 36)) = base36_char d" by blast
  moreover have "base36 (Suc n) (v div 36) \<noteq> []" using length_base36 [of "Suc n" "v div 36"] by force
  ultimately show ?case by (auto simp: base36.simps(2) [of "Suc n" v] simp del: base36.simps)
next
  case 0
  show ?case by (rule exI [of _ "v mod 36"]) simp
qed

lemma from_str_radix_base36:
  assumes "0 < n" and "v < 36 ^ n" and "v \<le> hi"
  shows "from_str_radix 36 hi (base36 n v) = Some v"
proof -
  obtain m where n: "n = Suc m" using assms(1) by (cases n) auto
  obtain d where d: "d < 36" "hd (base36 n v) = base36_char d" using hd_base36 n by blast
  have ne: "base36 n v \<noteq> []" using length_base36 [of n v] assms(1) by force
  then have "hd (base36 n v) \<noteq> 0x2B \<and> hd (base36 n v) \<noteq> 0x2D" using base36_char_not_sign [OF d(1)] d(2) by simp
  then have "base36 n v \<noteq> [0x2B]" "base36 n v \<noteq> [0x2D]" by force+
  then show ?thesis
    using ne \<open>hd (base36 n v) \<noteq> 0x2B \<and> _\<close> parse_digits_base36 [of n v] assms(2,3) by (simp add: from_str_radix_def)
qed

text \<open>The bit fields of a number, on words and on naturals.\<close>

lemma unat_and_mask:
  "unat (and w 0xFFFFFFFF :: u64) = unat w mod 2 ^ 32" "unat (and w 0x7FFFFFF :: u64) = unat w mod 2 ^ 27"
  "unat (and w 0x7F :: u64) = unat w mod 2 ^ 7" "unat (and w 0xF :: u64) = unat w mod 2 ^ 4" "unat (and w 1 :: u64) = unat w mod 2 ^ 1"
proof -
  have m: "unat (and w (mask n) :: u64) = unat w mod 2 ^ n" for n
    by (simp only: take_bit_eq_mask [symmetric] unsigned_take_bit_eq) (simp add: take_bit_eq_mod)
  show "unat (and w 0xFFFFFFFF :: u64) = unat w mod 2 ^ 32" "unat (and w 0x7FFFFFF :: u64) = unat w mod 2 ^ 27"
    "unat (and w 0x7F :: u64) = unat w mod 2 ^ 7" "unat (and w 0xF :: u64) = unat w mod 2 ^ 4" "unat (and w 1 :: u64) = unat w mod 2 ^ 1"
    using m [of 32] m [of 27] m [of 7] m [of 4] m [of 1] by (simp_all add: mask_eq_exp_minus_1)
qed

lemma unat_drop_bit: "unat (drop_bit n w :: u64) = unat w div 2 ^ n"
  using unat_u64_less [of w]
  by (simp only: unsigned_drop_bit_eq) (simp add: drop_bit_eq_div take_bit_nat_eq_self)

lemma unat_or_low: "unat a < 2 ^ 63 \<Longrightarrow> unat b < 2 \<Longrightarrow> unat (or (push_bit 1 a) b :: u64) = 2 * unat a + unat b"
proof -
  assume a: "unat a < 2 ^ 63" and b: "unat b < 2"
  then have "b = 0 \<or> b = 1" by (metis less_2_cases unat_0 unat_1 word_unat_eq_iff One_nat_def)
  then have "and (push_bit 1 a) b = 0" 
  proof
    assume "b = 1"
    moreover have "and (push_bit 1 a) 1 = 0" by (rule bit_eqI) (simp only: bit_and_iff bit_push_bit_iff bit_1_iff, simp)
    ultimately show ?thesis by simp
  qed simp
  then have "or (push_bit 1 a) b = push_bit 1 a + b" by (simp add: disjunctive_add_eq_or)
  moreover have "unat (push_bit 1 a + b) = 2 * unat a + unat b"
    using a b by (simp add: push_bit_eq_mult unat_word_ariths)
  ultimately show ?thesis by simp
qed

lemma packed_fields:
  assumes "code < (2 ^ 27 :: nat)" and "flags < 2 ^ 4" and "category < 2 ^ 8"
    and v: "v = code + 2 ^ 27 * (flags + 2 ^ 4 * (category + 2 ^ 8 * reserved))"
  shows "v mod 2 ^ 32 mod 2 ^ 27 = code" "v mod 2 ^ 32 div 2 ^ 27 mod 2 ^ 4 = flags"
    "2 * (v div 2 ^ 32 mod 2 ^ 7) + v mod 2 ^ 32 div 2 ^ 31 mod 2 ^ 1 = category"
proof -
  have q: "v mod 2 ^ 27 = code" "v div 2 ^ 27 = flags + 2 ^ 4 * (category + 2 ^ 8 * reserved)" 
    using mod_mult_self2 [of code "2 ^ 27" "flags + 2 ^ 4 * (category + 2 ^ 8 * reserved)"] assms(1)
      div_mult_self2 [of "2 ^ 27" code "flags + 2 ^ 4 * (category + 2 ^ 8 * reserved)"] unfolding v by simp_all
  then have r: "v div 2 ^ 27 mod 2 ^ 4 = flags" "v div 2 ^ 31 = category + 2 ^ 8 * reserved"
    using assms(2) div_mult2_eq [of v "2 ^ 27" "2 ^ 4"] mod_mult_self2 [of flags "2 ^ 4" "category + 2 ^ 8 * reserved"]
      div_mult_self2 [of "2 ^ 4" flags "category + 2 ^ 8 * reserved"] by simp_all
  have c: "v mod 2 ^ 32 div 2 ^ m = v div 2 ^ m mod 2 ^ (32 - m)" for m
    using drop_bit_take_bit [of m 32 v] by (simp only: drop_bit_eq_div take_bit_eq_mod)
  show "v mod 2 ^ 32 mod 2 ^ 27 = code" using q(1) by (simp add: mod_mod_cancel)
  show "v mod 2 ^ 32 div 2 ^ 27 mod 2 ^ 4 = flags" using r(1) c [of 27] by (simp add: mod_mod_cancel)
  have half: "(c + 256 * x) div 2 mod 128 = c div 2" if "c < 256" for c x :: nat
    using that div_mult_self2 [of 2 c "128 * x"] mod_mult_self2 [of "c div 2" 128 x] by simp
  have "v div 2 ^ 32 = v div 2 ^ 31 div 2" using div_mult2_eq [of v "2 ^ 31" 2] by simp
  then have "v div 2 ^ 32 mod 2 ^ 7 = category div 2"
    using r(2) half [of category reserved] assms(3) by simp
  then show "2 * (v div 2 ^ 32 mod 2 ^ 7) + v mod 2 ^ 32 div 2 ^ 31 mod 2 ^ 1 = category"
    using r(2) c [of 31] mod_mult_self2 [of category 2 "128 * reserved"] by simp
qed

lemma flag_bits:
  assumes "flags < 2 ^ 4" and "unat (w :: u64) = flags"
  shows "and w 0b0010 \<noteq> 0 \<longleftrightarrow> bit flags 1" "and w 0b0100 \<noteq> 0 \<longleftrightarrow> bit flags 2" "and w 0b1000 \<noteq> 0 \<longleftrightarrow> bit flags 3"
proof -
  have b: "and w (2 ^ n) \<noteq> 0 \<longleftrightarrow> bit flags n" for n
    using assms(2) by (auto simp: and_exp_eq_0_iff_not_bit bit_unsigned_iff)
  show "and w 0b0010 \<noteq> 0 \<longleftrightarrow> bit flags 1" "and w 0b0100 \<noteq> 0 \<longleftrightarrow> bit flags 2" "and w 0b1000 \<noteq> 0 \<longleftrightarrow> bit flags 3"
    using b [of 1] b [of 2] b [of 3] by simp_all
qed

lemma length_show_nat_le: "n < 10 ^ k \<Longrightarrow> 0 < k \<Longrightarrow> length (show_nat n) \<le> k"
proof (induction k arbitrary: n)
  case (Suc k)
  show ?case
  proof (cases "n < 10")
    case True
    then show ?thesis by (simp add: show_nat.simps [of n])
  next
    case False
    then have "0 < k" using Suc.prems by (cases k) auto
    moreover have "n div 10 < 10 ^ k" using Suc.prems by (simp add: less_mult_imp_div_less mult.commute)
    ultimately show ?thesis using Suc.IH [of "n div 10"] False by (simp add: show_nat.simps [of n])
  qed
qed simp

lemma parse_digits_zeros: "parse_digits 10 (replicate k 0x30 @ s) 0 = parse_digits 10 s 0"
  by (induction k) (simp_all add: digit_val_def in_range_def)

text \<open>A code of the label is printed with eight digits, reads back as the code, and the controller's
  normalisation keeps it.\<close>

lemma show_08_facts:
  assumes "code < 10 ^ 8"
  shows "length (show_08 code) = 8" "parse_digits 10 (show_08 code) 0 = Some code" "normalize_setup_digits (show_08 code) = Inr (show_08 code)"
proof -
  show l: "length (show_08 code) = 8" using length_show_nat_le [of code 8] assms by (simp add: show_08_def)
  show "parse_digits 10 (show_08 code) 0 = Some code" by (simp add: show_08_def parse_digits_zeros parse_digits_show)
  have "filter (in_range 0x30 0x39) (show_08 code) = show_08 code"
    using digits_in_range [of code] by (auto simp: show_08_def list_all_iff in_range_def filter_id_conv)
  then show "normalize_setup_digits (show_08 code) = Inr (show_08 code)" using l by (simp add: normalize_setup_digits_def)
qed

lemma setup_payload_fields:
  assumes "code < 2 ^ 27" and "flags < 2 ^ 4" and "category < 2 ^ 8"
    and fit: "code + 2 ^ 27 * (flags + 2 ^ 4 * (category + 2 ^ 8 * reserved)) < 36 ^ 9"
    and start: "\<And>b s. setup_id = b # s \<Longrightarrow> \<not> in_range 0x80 0xBF b"
  shows "SetupPayload_parse (setup_label code flags category reserved setup_id) =
    Some (Inr \<lparr>sp_setup_code = show_08 code, sp_category = of_nat category,
      sp_setup_id = (if setup_id = [] then None else Some setup_id),
      sp_flags = \<lparr>sf_ip = bit flags 1, sf_ble = bit flags 2, sf_nfc = bit flags 3\<rparr>\<rparr>)"
proof -
  let ?v = "code + 2 ^ 27 * (flags + 2 ^ 4 * (category + 2 ^ 8 * reserved))"
  let ?w = "of_nat ?v :: u64"
  let ?rest = "base36 9 ?v @ setup_id"
  have rest: "take 9 ?rest = base36 9 ?v" "drop 9 ?rest = setup_id" "length ?rest = 9 + length setup_id"
    by simp_all
  have split: "\<not> (9 < length ?rest \<and> in_range 0x80 0xBF (?rest ! 9))"
    using start by (cases setup_id) (simp_all add: nth_append)
  have radix: "from_str_radix 36 (2 ^ 64 - 1) (take 9 ?rest) = Some ?v"
    unfolding rest using fit by (intro from_str_radix_base36) simp_all
  have w: "unat ?w = ?v" by (simp only: unat_of_nat) (use fit in simp)
  note f = packed_fields [OF assms(1-3) refl, of reserved]
  let ?cat = "or (push_bit 1 (and (drop_bit 32 ?w) 0x7F)) (and (drop_bit 31 (and ?w 0xFFFFFFFF)) 1)"
  have code: "unat (and (and ?w 0xFFFFFFFF) 0x7FFFFFF) = code" by (simp only: unat_and_mask w f)
  have flags: "unat (and (drop_bit 27 (and ?w 0xFFFFFFFF)) 0xF) = flags" by (simp only: unat_and_mask unat_drop_bit w f)
  have "unat ?cat = 2 * unat (and (drop_bit 32 ?w) 0x7F) + unat (and (drop_bit 31 (and ?w 0xFFFFFFFF)) 1)"
    by (rule unat_or_low) (simp_all only: unat_and_mask; simp)+
  then have cat: "unat ?cat = category" by (simp only: unat_and_mask unat_drop_bit w f)
  have pre: "strip_prefix (ascii ''X-HM://'' @ ?rest) (ascii ''X-HM://'') = Some ?rest" by (simp add: strip_prefix_def starts_with_append)
  show ?thesis
    by (simp only: SetupPayload_parse_def setup_label_def pre option.case Let_def radix rest(2,3) ok_or_Some and_then.simps cat code
        flag_bits [OF assms(2) flags] split [unfolded rest(3)] try_u16_def if_False if_True)
      (use assms(3) in simp)
qed

section \<open>What a selection means\<close>

text \<open>An accessory is chosen only if it is unpaired and the only one to match as well as it does.\<close>

lemma select_match_One:
  "select_match P found payload = One d \<Longrightarrow>
     d \<in> set found \<and> \<not> disc_paired d \<and>
     (match_kind P payload d = Some Exact \<or>
      match_kind P payload d = Some Category \<and> (\<forall>e\<in>set found. \<not> disc_paired e \<longrightarrow> match_kind P payload e \<noteq> Some Exact)) \<and>
     (\<forall>e\<in>set found. \<not> disc_paired e \<and> match_kind P payload e = match_kind P payload d \<longrightarrow> e = d)"
proof -
  assume one: "select_match P found payload = One d"
  define sel where "sel k = filter (\<lambda>d. match_kind P payload d = Some k) (filter (\<lambda>d. \<not> disc_paired d) found)" for k
  have s: "e \<in> set (sel k) \<longleftrightarrow> e \<in> set found \<and> \<not> disc_paired e \<and> match_kind P payload e = Some k" for e k by (auto simp: sel_def)
  have "select_match P found payload =
      (if length (sel Exact) = 1 then One (sel Exact ! 0) else if 1 < length (sel Exact) then Ambiguous (map disc_id (sel Exact))
       else if length (sel Category) = 0 then NoneFound else if length (sel Category) = 1 then One (sel Category ! 0)
       else Ambiguous (map disc_id (sel Category)))"
    by (simp only: select_match_def Let_def sel_def)
  then have "sel Exact = [d] \<or> sel Exact = [] \<and> sel Category = [d]"
    using one by (cases "sel Exact"; cases "sel Category") (auto split: if_splits)
  then show ?thesis
  proof
    assume "sel Exact = [d]"
    then have "\<And>e. e \<in> set found \<and> \<not> disc_paired e \<and> match_kind P payload e = Some Exact \<longleftrightarrow> e = d" using s [of _ Exact] by auto
    then show ?thesis by metis
  next
    assume a: "sel Exact = [] \<and> sel Category = [d]"
    then have "\<And>e. e \<in> set found \<and> \<not> disc_paired e \<and> match_kind P payload e = Some Category \<longleftrightarrow> e = d" using s [of _ Category] by auto
    moreover have "\<And>e. \<not> (e \<in> set found \<and> \<not> disc_paired e \<and> match_kind P payload e = Some Exact)" using a s [of _ Exact] by auto
    ultimately show ?thesis by metis
  qed
qed

lemma select_match_unique_exact:
  assumes "\<not> disc_paired d" and "match_kind P payload d = Some Exact"
    and "\<forall>e\<in>set as \<union> set bs. \<not> disc_paired e \<longrightarrow> match_kind P payload e \<noteq> Some Exact"
  shows "select_match P (as @ d # bs) payload = One d"
proof -
  have n: "filter (\<lambda>e. match_kind P payload e = Some Exact) (filter (\<lambda>e. \<not> disc_paired e) xs) = []" if "set xs \<subseteq> set as \<union> set bs" for xs
    using that assms(3) by (auto simp: filter_empty_conv)
  have "filter (\<lambda>e. match_kind P payload e = Some Exact) (filter (\<lambda>e. \<not> disc_paired e) (as @ d # bs)) = [d]"
    using n [of as] n [of bs] assms(1,2) by (simp del: filter_filter)
  then show ?thesis by (simp add: select_match_def Let_def del: filter_filter filter_append filter.simps)
qed

text \<open>An accessory heard on both transports with its setup hash counts twice.\<close>

lemma both_transports_ambiguous:
  assumes "\<not> da_paired a" "\<not> db_paired b"
    and "match_kind P payload (DIp a) = Some Exact" "match_kind P payload (DBle b :: 'i Discovered) = Some Exact"
  shows "select_match P [DIp a, DBle b :: 'i Discovered] payload = Ambiguous [da_id a, db_device_id b]"
  using assms by (simp add: select_match_def)

section \<open>The advertisement of a labelled accessory\<close>

text \<open>The canonical text of a device identifier has upper case digits; the accessory hashes its setup
  identifier with it.\<close>

definition upper_hex2 :: "u8 \<Rightarrow> str" where
  "upper_hex2 b = [base36_char (unat b div 16), base36_char (unat b mod 16)]"

definition hap_device_id :: "bytes \<Rightarrow> str" where
  "hap_device_id dev = join [0x3A] (map upper_hex2 dev)"

lemma uppercase_hex_char: "d < 16 \<Longrightarrow> to_ascii_uppercase (hex_char d) = base36_char d"
proof (rule word_unat_eq_iff [THEN iffD2])
  assume "d < 16"
  then show "unat (to_ascii_uppercase (hex_char d)) = unat (base36_char d)"
    using unat_hex_char [of d] unat_base36_char [of d]
    by (auto simp: to_ascii_uppercase_def in_range_def word_le_nat_alt unat_sub split: if_splits)
qed

lemma uppercase_hex2: "str_uppercase (hex2 b) = upper_hex2 b"
  using hex2_digits [of b] by (simp add: hex2_def str_uppercase_def upper_hex2_def uppercase_hex_char)

lemma hex2_not_Nil: "hex2 b \<noteq> []"
  by (simp add: hex2_def)

lemma format_id_fold:
  "s \<noteq> [] \<Longrightarrow> fold (\<lambda>b s. (if s \<noteq> [] then s @ [0x3A] else s) @ hex2 b) ids s = s @ concat (map (\<lambda>b. 0x3A # hex2 b) ids)"
  by (induction ids arbitrary: s) simp_all

lemma join_concat: "join sep (x # xs) = x @ concat (map (\<lambda>y. sep @ y) xs)"
  by (induction xs arbitrary: x) simp_all

text \<open>The two crates print device identifiers alike.\<close>

lemma ble_format_device_id_eq: "ble_format_device_id ids = format_device_id ids"
proof (cases ids)
  case (Cons b bs)
  then show ?thesis
    by (simp add: ble_format_device_id_def format_device_id_def format_id_fold join_concat comp_def hex2_not_Nil del: join.simps)
qed (simp add: ble_format_device_id_def format_device_id_def)

lemma uppercase_device_id: "str_uppercase (ble_format_device_id dev) = hap_device_id dev"
proof -
  have app: "str_uppercase (a @ b) = str_uppercase a @ str_uppercase b" for a b by (simp add: str_uppercase_def)
  have c: "str_uppercase [0x3A] = [0x3A]" by (simp add: str_uppercase_def to_ascii_uppercase_def in_range_def)
  have "str_uppercase (join [0x3A] (map hex2 dev)) = join [0x3A] (map upper_hex2 dev)"
  proof (cases dev)
    case (Cons b bs)
    have "str_uppercase (concat (map (\<lambda>b. [0x3A] @ hex2 b) bs)) = concat (map (\<lambda>b. [0x3A] @ upper_hex2 b) bs)"
      by (induction bs) (simp_all only: list.map concat.simps app c uppercase_hex2, simp add: str_uppercase_def)
    then show ?thesis using Cons by (simp only: list.map join_concat app uppercase_hex2 map_map comp_def)
  qed (simp add: str_uppercase_def)
  then show ?thesis by (simp add: ble_format_device_id_eq format_device_id_def hap_device_id_def)
qed

text \<open>An unpaired accessory's advertisement over BLE, and its TXT record over IP.\<close>

definition unpaired_advert :: "u8 \<Rightarrow> bytes \<Rightarrow> u16 \<Rightarrow> u16 \<Rightarrow> u8 \<Rightarrow> u8 \<Rightarrow> bytes \<Rightarrow> bytes" where
  "unpaired_advert stl dev category gsn cn cv hash = [0x06, stl, 0x01] @ dev @ u16_to_le category @ u16_to_le gsn @ [cn, cv] @ hash"

lemma parse_unpaired_advert:
  assumes "length dev = 6" and "length hash = 4"
  shows "parse_hap_advert (unpaired_advert stl dev category gsn cn cv hash) peripheral =
    Some \<lparr>peripheral_id = peripheral, db_device_id = ble_format_device_id dev, db_category = category,
      global_state_number = gsn, db_config_number = cn, db_paired = False, db_setup_hash = Some hash\<rparr>"
proof -
  obtain d0 d1 d2 d3 d4 d5 where d: "dev = [d0, d1, d2, d3, d4, d5]" using assms(1) by (auto simp: numeral_eq_Suc length_Suc_conv)
  obtain h0 h1 h2 h3 where h: "hash = [h0, h1, h2, h3]" using assms(2) by (auto simp: numeral_eq_Suc length_Suc_conv)
  obtain c0 c1 where c: "u16_to_le category = [c0, c1]" "u16_from_le c0 c1 = category"
    using u16_to_le_Cons [of category] by metis
  obtain g0 g1 where g: "u16_to_le gsn = [g0, g1]" "u16_from_le g0 g1 = gsn"
    using u16_to_le_Cons [of gsn] by metis
  show ?thesis by (simp add: parse_hap_advert_def HapAdvert_parse_def unpaired_advert_def d h c g slice_def)
qed

section \<open>Properties\<close>

text \<open>C18. The setup payload round trip.  Whatever code of eight digits, flags, category and reserved bits a label
  encodes, with or without a setup identifier, parsing it returns exactly those fields: the code as
  eight digits that pairing accepts as they are, and the reserved bits do not leak into the category.\<close>

theorem setup_payload_round_trip:
  assumes "code < 10 ^ 8" and "flags < 2 ^ 4" and "category < 2 ^ 8"
    and "code + 2 ^ 27 * (flags + 2 ^ 4 * (category + 2 ^ 8 * reserved)) < 36 ^ 9"
    and "\<And>b s. setup_id = b # s \<Longrightarrow> \<not> in_range 0x80 0xBF b"
  shows "\<exists>payload. SetupPayload_parse (setup_label code flags category reserved setup_id) = Some (Inr payload) \<and>
    length (sp_setup_code payload) = 8 \<and> parse_digits 10 (sp_setup_code payload) 0 = Some code \<and>
    normalize_setup_digits (sp_setup_code payload) = Inr (sp_setup_code payload) \<and>
    unat (sp_category payload) = category \<and> sp_setup_id payload = (if setup_id = [] then None else Some setup_id) \<and>
    sf_ip (sp_flags payload) = bit flags 1 \<and> sf_ble (sp_flags payload) = bit flags 2 \<and> sf_nfc (sp_flags payload) = bit flags 3"
proof -
  have "code < 2 ^ 27" using assms(1) by simp
  note parsed = setup_payload_fields [OF this assms(2-4)] and digits = show_08_facts [OF assms(1)]
  have "unat (of_nat category :: u16) = category" using assms(3) by (simp add: unat_of_nat)
  then show ?thesis using parsed [OF assms(5)] digits by simp
qed

theorem setup_payload_round_trip_witness:
  "\<exists>payload. SetupPayload_parse (setup_label 11122333 2 10 3 (ascii ''7OSX'')) = Some (Inr payload) \<and>
     unat (sp_category payload) = 10 \<and> sp_setup_id payload = Some (ascii ''7OSX'') \<and> sf_ip (sp_flags payload)"
proof -
  have "\<not> in_range 0x80 0xBF b" if "ascii ''7OSX'' = b # s" for b s using that by (auto simp: ascii_def in_range_def)
  then have "\<exists>payload. SetupPayload_parse (setup_label 11122333 2 10 3 (ascii ''7OSX'')) = Some (Inr payload) \<and>
      length (sp_setup_code payload) = 8 \<and> parse_digits 10 (sp_setup_code payload) 0 = Some 11122333 \<and>
      normalize_setup_digits (sp_setup_code payload) = Inr (sp_setup_code payload) \<and>
      unat (sp_category payload) = 10 \<and> sp_setup_id payload = (if ascii ''7OSX'' = [] then None else Some (ascii ''7OSX'')) \<and>
      sf_ip (sp_flags payload) = bit (2 :: nat) 1 \<and> sf_ble (sp_flags payload) = bit (2 :: nat) 2 \<and> sf_nfc (sp_flags payload) = bit (2 :: nat) 3"
    by (intro setup_payload_round_trip) simp_all
  then show ?thesis by (auto simp: ascii_def bit_iff_odd)
qed

text \<open>C19. Scanning a label finds its accessory.  An unpaired accessory that advertises the hash of its setup
  identifier and canonical device identifier, over BLE or in its TXT record, matches its own label
  exactly, and is the one selected among all accessories found, whatever their order, their
  categories or their pairing, unless another unpaired one matches the label's hash too.\<close>

theorem label_selects_accessory:
  assumes "code < 10 ^ 8" and "flags < 2 ^ 4" and "category < 2 ^ 8"
    and "code + 2 ^ 27 * (flags + 2 ^ 4 * (category + 2 ^ 8 * reserved)) < 36 ^ 9"
    and "setup_id \<noteq> []" and "\<not> in_range 0x80 0xBF (hd setup_id)"
    and "length dev = 6" and "hash = setup_hash P setup_id (hap_device_id dev)" and "length hash = 4"
    and "parse_txt b64 fullname addr txt = Inr a" and "txt (ascii ''id'') = Some (hap_device_id dev)"
    and "txt (ascii ''sh'') = Some sh" and "b64 sh = Inr hash" and "\<not> da_paired a"
  shows "\<exists>payload b. SetupPayload_parse (setup_label code flags category reserved setup_id) = Some (Inr payload) \<and>
    parse_hap_advert (unpaired_advert stl dev (sp_category payload) gsn cn cv hash) peripheral = Some b \<and>
    (\<forall>d\<in>{DBle b, DIp a}. \<forall>as bs.
       (\<forall>e\<in>set as \<union> set bs. \<not> disc_paired e \<longrightarrow> match_kind P payload e \<noteq> Some Exact) \<longrightarrow>
       select_match P (as @ d # bs) payload = One d)"
proof -
  have "code < 2 ^ 27" using assms(1) by simp
  then obtain payload where payload: "SetupPayload_parse (setup_label code flags category reserved setup_id) = Some (Inr payload)"
      "sp_setup_id payload = Some setup_id"
    using setup_payload_fields [of code flags category reserved setup_id] assms(2-6) by fastforce
  have a: "da_id a = hap_device_id dev" "da_setup_hash a = Some hash"
    using assms(9-13) by (auto simp: parse_txt_def result_simps try_array_def)
  let ?b = "\<lparr>peripheral_id = peripheral, db_device_id = ble_format_device_id dev, db_category = sp_category payload,
      global_state_number = gsn, db_config_number = cn, db_paired = False, db_setup_hash = Some hash\<rparr>"
  have "match_kind P payload d = Some Exact \<and> \<not> disc_paired d" if "d \<in> {DBle ?b, DIp a}" for d
    using that a assms(8,14) payload(2) uppercase_device_id [of dev] by (auto simp: match_kind_def)
  then have "\<forall>d\<in>{DBle ?b, DIp a}. \<forall>as bs.
       (\<forall>e\<in>set as \<union> set bs. \<not> disc_paired e \<longrightarrow> match_kind P payload e \<noteq> Some Exact) \<longrightarrow>
       select_match P (as @ d # bs) payload = One d"
    using select_match_unique_exact by blast
  then show ?thesis using payload(1) parse_unpaired_advert [OF assms(7,9)] by blast
qed

definition toy_txt :: "str \<Rightarrow> str option" where
  "toy_txt = map_of [(ascii ''id'', hap_device_id [1, 2, 3, 4, 5, 6]), (ascii ''sf'', ascii ''1''),
     (ascii ''sh'', setup_hash toy_prims (ascii ''7OSX'') (hap_device_id [1, 2, 3, 4, 5, 6]))]"

lemma toy_hash: "setup_hash toy_prims s d = [0, 0, 0, 0]"
  by (simp add: setup_hash_def toy_sha512 numeral_eq_Suc)

theorem label_selects_accessory_witness:
  "\<exists>payload b. SetupPayload_parse (setup_label 11122333 2 10 0 (ascii ''7OSX'')) = Some (Inr payload) \<and>
     parse_hap_advert (unpaired_advert 0xCD [1, 2, 3, 4, 5, 6] (sp_category payload) 1 1 2 [0, 0, 0, 0]) [] = Some b \<and>
     select_match toy_prims [DBle b :: unit Discovered] payload = One (DBle b)"
proof -
  obtain a where a: "parse_txt Inr [] ((), 80) toy_txt = Inr a" "\<not> da_paired a"
  proof -
    have "trim [0x31] = [0x31]" by (rule trim_id) (simp add: no_ws_ends_def ws_front_def ws_back_def ws1_def ws3_def in_range_def)
    moreover have "from_str_radix 10 (2 ^ 64 - 1) [0x31] = Some 1"
      by (simp add: from_str_radix_def digit_val_def in_range_def)
    ultimately show thesis
      using that by (simp add: parse_txt_def toy_txt_def parse_num_def toy_hash ascii_def try_u16_def)
  qed
  have t: "toy_txt (ascii ''id'') = Some (hap_device_id [1, 2, 3, 4, 5, 6])" "toy_txt (ascii ''sh'') = Some [0, 0, 0, 0]"
    by (simp_all add: toy_txt_def toy_hash ascii_def)
  have s: "ascii ''7OSX'' \<noteq> []" "\<not> in_range 0x80 0xBF (hd (ascii ''7OSX''))" by (simp_all add: ascii_def in_range_def)
  have h: "[0, 0, 0, 0] = setup_hash toy_prims (ascii ''7OSX'') (hap_device_id [1, 2, 3, 4, 5, 6])" by (simp add: toy_hash)
  have f: "(11122333 :: nat) < 10 ^ 8" "(2 :: nat) < 2 ^ 4" "(10 :: nat) < 2 ^ 8"
      "(11122333 :: nat) + 2 ^ 27 * (2 + 2 ^ 4 * (10 + 2 ^ 8 * 0)) < 36 ^ 9" by simp_all
  obtain payload b where p: "SetupPayload_parse (setup_label 11122333 2 10 0 (ascii ''7OSX'')) = Some (Inr payload)"
      "parse_hap_advert (unpaired_advert 0xCD [1, 2, 3, 4, 5, 6] (sp_category payload) 1 1 2 [0, 0, 0, 0]) [] = Some b"
      "\<forall>d\<in>{DBle b, DIp a}. \<forall>as bs. (\<forall>e\<in>set as \<union> set bs. \<not> disc_paired e \<longrightarrow> match_kind toy_prims payload e \<noteq> Some Exact) \<longrightarrow>
         select_match toy_prims (as @ d # bs) payload = One d"
    using label_selects_accessory [where stl = "0xCD" and gsn = 1 and cn = 1 and cv = 2 and peripheral = "[]", OF f s _ h _ a(1) t _ a(2)] by auto
  have "select_match toy_prims [DBle b :: unit Discovered] payload = One (DBle b)" using p(3) [rule_format, of "DBle b" "[]" "[]"] by simp
  then show ?thesis using p(1,2) by auto
qed

end
