(* ===== verification/Ip_Handle.thy ===== *)
theory Ip_Handle
  imports Discovery
begin

text \<open>
  A connected accessory over IP, \<open>hap-controller/src/handle.rs\<close> and \<open>reconnect.rs\<close>: the requests of a
  handle over a session, the session that a foreground request waits for after a drop, and the
  supervisor that pumps events, reconnects and subscribes again.  A session is a number, so that a
  fresh one is told from a dead one; the network is a function of a state.  A reply is \<open>None\<close> if the
  request never returns.
\<close>

section \<open>Sessions\<close>

record SessionResponse =
  sr_status :: u16
  sr_body :: bytes

type_synonym 'b reply = "(HapError + 'b) option"
type_synonym 'w requester = "'w \<Rightarrow> str \<Rightarrow> str \<Rightarrow> str \<Rightarrow> bytes \<Rightarrow> SessionResponse reply \<times> 'w"

text \<open>\<open>Session\<close> for \<open>SecureSession\<close>: the state is the writer and what the reader task delivers.\<close>

definition secure_requester :: "prims \<Rightarrow> (nat \<Rightarrow> bool) \<Rightarrow> (WriterState \<times> reader_out list) requester" where
  "secure_requester P io s method path content_type body =
     (let (w, rx) = s;
          (resp, wire, w', rx') = SecureSession_request P io w rx method path content_type body in
      (Some (map_err HTransport (and_then resp (\<lambda>r. Inr \<lparr>sr_status = of_nat (resp_status r), sr_body = resp_body r\<rparr>))), (w', rx')))"

section \<open>Reconnecting\<close>

datatype ConnectionState = Connected | Reconnecting u32 | NotConnected

definition is_session_dead :: "HapError \<Rightarrow> bool" where
  "is_session_dead e \<longleftrightarrow> e \<in> HTransport ` {ConnectionClosed, SessionClosed, NoResponse, IoError}"

text \<open>The seconds to wait after an attempt; a shift by 64 or more is \<open>None\<close>.\<close>

definition backoff :: "u32 \<Rightarrow> nat" where
  "backoff attempt =
     (let shift = unat attempt - 1 in
      max (min (if shift < 64 then unat (push_bit shift (1 :: u64)) else 30) 30) 1)"

text \<open>What a foreground request sees of the rest of the process: the session in the watch channel, a
  request on a session under the timeout (\<open>None\<close>: it elapsed) or without it, and whether the channel
  changed within the foreground wait.\<close>

record 'w runtime =
  rt_current :: "'w \<Rightarrow> nat"
  rt_timed :: "nat \<Rightarrow> 'w requester"
  rt_request :: "nat \<Rightarrow> 'w requester"
  rt_changed :: "'w \<Rightarrow> bool \<times> 'w"

partial_function (option) wait_for_fresh_then_retry ::
    "'w runtime \<Rightarrow> nat \<Rightarrow> 'w \<Rightarrow> str \<Rightarrow> str \<Rightarrow> str \<Rightarrow> bytes \<Rightarrow> (SessionResponse reply \<times> 'w) option" where
  "wait_for_fresh_then_retry R dead w method path content_type body =
     (if rt_current R w \<noteq> dead then Some (rt_request R (rt_current R w) w method path content_type body)
      else
        case rt_changed R w of
          (changed, w') \<Rightarrow>
            if \<not> changed then Some (Some (Inl HConnectionLost), w')
            else wait_for_fresh_then_retry R dead w' method path content_type body)"

definition ReconnectingSession_request ::
    "'w runtime \<Rightarrow> 'w \<Rightarrow> str \<Rightarrow> str \<Rightarrow> str \<Rightarrow> bytes \<Rightarrow> (SessionResponse reply \<times> 'w) option" where
  "ReconnectingSession_request R w method path content_type body =
     (let sess = rt_current R w;
          (r, w') = rt_timed R sess w method path content_type body in
      case r of
        Some (Inr resp) \<Rightarrow> Some (Some (Inr resp), w')
      | Some (Inl e) \<Rightarrow>
          if is_session_dead e then wait_for_fresh_then_retry R sess w' method path content_type body
          else Some (Some (Inl e), w')
      | None \<Rightarrow>
          let fresh = rt_current R w' in
          if fresh = sess then Some (Some (Inl HConnectionLost), w')
          else Some (rt_request R fresh w' method path content_type body))"

text \<open>The supervisor only publishes new sessions.  Then the wait ends: a request returns after at most one
  change, and the error of a dead session is never what it returns.\<close>

definition publishes_fresh :: "'w runtime \<Rightarrow> bool" where
  "publishes_fresh R \<longleftrightarrow> (\<forall>w w'. rt_changed R w = (True, w') \<longrightarrow> rt_current R w' \<noteq> rt_current R w)"

lemma wait_returns:
  assumes "publishes_fresh R"
  shows "\<exists>r w'. wait_for_fresh_then_retry R dead w method path content_type body = Some (r, w') \<and>
    (r = Some (Inl HConnectionLost) \<or>
     (\<exists>w0. rt_current R w0 \<noteq> dead \<and> (r, w') = rt_request R (rt_current R w0) w0 method path content_type body))"
proof (cases "rt_current R w = dead")
  case True
  obtain changed w1 where c: "rt_changed R w = (changed, w1)" by fastforce
  have "changed \<Longrightarrow> rt_current R w1 \<noteq> dead" using assms c True by (auto simp: publishes_fresh_def)
  then show ?thesis
    using True c by (cases "rt_request R (rt_current R w1) w1 method path content_type body")
      (auto simp: wait_for_fresh_then_retry.simps [of R dead w] wait_for_fresh_then_retry.simps [of R dead w1]
        intro!: exI [of _ w1])
next
  case False
  then show ?thesis
    by (cases "rt_request R (rt_current R w) w method path content_type body")
      (auto simp: wait_for_fresh_then_retry.simps [of R dead w] intro!: exI [of _ w])
qed

lemma request_returns:
  assumes "publishes_fresh R"
  shows "ReconnectingSession_request R w verb path content_type body \<noteq> None"
proof -
  have "wait_for_fresh_then_retry R dead w verb path content_type body \<noteq> None" for dead w
    using wait_returns [OF assms, of dead w verb path content_type body] by auto
  then show ?thesis by (auto simp: ReconnectingSession_request_def Let_def split: prod.splits option.splits sum.splits)
qed

definition reconnecting :: "'w runtime \<Rightarrow> 'w requester" where
  "reconnecting R w verb path content_type body =
     (case ReconnectingSession_request R w verb path content_type body of Some r \<Rightarrow> r | None \<Rightarrow> (None, w))"

section \<open>The handle\<close>

text \<open>\<open>ih_conn\<close> is the state behind the connection; the formats and subscriptions are shared with the
  supervisor.\<close>

record 'w IpHandle =
  ih_conn :: 'w
  ih_accessories :: "Accessory list option"
  ih_formats :: "((u64 \<times> u64) \<times> CharFormat) list"
  ih_subscribed :: "(u64 \<times> u64) list"
  ih_pid :: u64
  ih_needs_refresh :: bool

definition IpHandle_build :: "'w \<Rightarrow> 'w IpHandle" where
  "IpHandle_build conn =
     \<lparr>ih_conn = conn, ih_accessories = None, ih_formats = [], ih_subscribed = [], ih_pid = 1, ih_needs_refresh = False\<rparr>"

definition handle_request :: "'w requester \<Rightarrow> 'w IpHandle \<Rightarrow> str \<Rightarrow> str \<Rightarrow> bytes \<Rightarrow> SessionResponse reply \<times> 'w IpHandle" where
  "handle_request R h method path body =
     (let (r, conn) = R (ih_conn h) method path (ascii ''application/hap+json'') body in (r, h\<lparr>ih_conn := conn\<rparr>))"

definition is_success :: "u16 \<Rightarrow> bool" where
  "is_success status \<longleftrightarrow> 200 \<le> status \<and> status < 300"

definition success_body :: "SessionResponse \<Rightarrow> HapError + bytes" where
  "success_body resp = (if is_success (sr_status resp) then Inr (sr_body resp) else Inl (HHttp (sr_status resp)))"

definition coerce_to_format :: "CharValue \<Rightarrow> CharFormat \<Rightarrow> CharValue" where
  "coerce_to_format value fmt =
     (case (fmt, value) of
        (FBool, VUint n) \<Rightarrow> VBool (n \<noteq> 0)
      | (FBool, VInt n) \<Rightarrow> VBool (n \<noteq> 0)
      | (FInt, VUint n) \<Rightarrow> if unat n < 2 ^ 63 then VInt n else VUint n
      | (FFloat, VUint n) \<Rightarrow> VFloat (f64_from_u64 n)
      | (FFloat, VInt n) \<Rightarrow> VFloat (f64_from_i64 n)
      | _ \<Rightarrow> value)"

definition retype :: "((u64 \<times> u64) \<times> CharFormat) list \<Rightarrow> (u64 \<times> u64) \<times> CharValue \<Rightarrow> (u64 \<times> u64) \<times> CharValue" where
  "retype formats e = (case map_of formats (fst e) of Some f \<Rightarrow> (fst e, coerce_to_format (snd e) f) | None \<Rightarrow> e)"

definition format_map :: "Accessory list \<Rightarrow> ((u64 \<times> u64) \<times> CharFormat) list" where
  "format_map accs =
     fold (\<lambda>acc m. fold (\<lambda>svc m. fold (\<lambda>ch m. AList.update (acc_aid acc, ch_iid ch) (ch_format ch) m) (characteristics svc) m)
       (services acc) m) accs []"

definition ip_accessories ::
    "('n, 'x) model_lib_scheme \<Rightarrow> 'w requester \<Rightarrow> 'w IpHandle \<Rightarrow> Accessory list reply \<times> 'w IpHandle" where
  "ip_accessories J R h =
     (let h = (if ih_needs_refresh h then h\<lparr>ih_accessories := None, ih_needs_refresh := False\<rparr> else h) in
      case ih_accessories h of
        Some accs \<Rightarrow> (Some (Inr accs), h)
      | None \<Rightarrow>
          let (r, h) = handle_request R h (ascii ''GET'') (ascii ''/accessories'') [];
              parsed = map_option (\<lambda>r. and_then r (\<lambda>resp. and_then (success_body resp) (\<lambda>body.
                map_err HModel (parse_accessories J body)))) r in
          (parsed,
           case parsed of
             Some (Inr accs) \<Rightarrow> h\<lparr>ih_formats := format_map accs, ih_accessories := Some accs\<rparr>
           | _ \<Rightarrow> h))"

definition ip_find :: "'w IpHandle \<Rightarrow> ServiceType \<Rightarrow> CharacteristicType \<Rightarrow> HapError + u64 \<times> u64" where
  "ip_find h svc chr =
     ok_or (HCharacteristicNotFound 0 0)
       (find_char (case ih_accessories h of Some accs \<Rightarrow> accs | None \<Rightarrow> []) svc chr)"

definition ip_read_many ::
    "('n, 'x) model_lib_scheme \<Rightarrow> 'w requester \<Rightarrow> 'w IpHandle \<Rightarrow> (u64 \<times> u64) list \<Rightarrow>
     ((u64 \<times> u64) \<times> CharValue) list reply \<times> 'w IpHandle" where
  "ip_read_many J R h ids =
     (let (r, h) = handle_request R h (ascii ''GET'') (build_read_request ids) [] in
      (map_option (\<lambda>r. and_then r (\<lambda>resp. and_then (success_body resp) (\<lambda>body.
         and_then (map_err HModel (parse_read_response J body)) (\<lambda>parsed. Inr (map (retype (ih_formats h)) parsed))))) r, h))"

definition ip_read ::
    "('n, 'x) model_lib_scheme \<Rightarrow> 'w requester \<Rightarrow> 'w IpHandle \<Rightarrow> u64 \<Rightarrow> u64 \<Rightarrow> CharValue reply \<times> 'w IpHandle" where
  "ip_read J R h aid iid =
     (let (r, h) = ip_read_many J R h [(aid, iid)] in
      (map_option (\<lambda>r. and_then r (\<lambda>values.
         case values of [] \<Rightarrow> Inl (HCharacteristicNotFound aid iid) | v # _ \<Rightarrow> Inr (snd v))) r, h))"

definition put_characteristics ::
    "('n, 'x) model_lib_scheme \<Rightarrow> 'w requester \<Rightarrow> 'w IpHandle \<Rightarrow> bytes \<Rightarrow> unit reply \<times> 'w IpHandle" where
  "put_characteristics J R h body =
     (let (r, h) = handle_request R h (ascii ''PUT'') (ascii ''/characteristics'') body in
      (map_option (\<lambda>r. and_then r (\<lambda>resp. and_then (success_body resp) (\<lambda>reply.
         if reply \<noteq> [] then and_then (map_err HModel (parse_read_response J reply)) (\<lambda>_. Inr ()) else Inr ()))) r, h))"

definition ip_write_many ::
    "('n, 'x) model_lib_scheme \<Rightarrow> 'w requester \<Rightarrow> 'w IpHandle \<Rightarrow> ((u64 \<times> u64) \<times> CharValue) list \<Rightarrow> unit reply \<times> 'w IpHandle" where
  "ip_write_many J R h writes = put_characteristics J R h (build_write_request J writes)"

definition ip_write ::
    "('n, 'x) model_lib_scheme \<Rightarrow> 'w requester \<Rightarrow> 'w IpHandle \<Rightarrow> u64 \<Rightarrow> u64 \<Rightarrow> CharValue \<Rightarrow> unit reply \<times> 'w IpHandle" where
  "ip_write J R h aid iid value = ip_write_many J R h [((aid, iid), value)]"

definition ip_subscribe ::
    "('n, 'x) model_lib_scheme \<Rightarrow> 'w requester \<Rightarrow> 'w IpHandle \<Rightarrow> u64 \<Rightarrow> u64 \<Rightarrow> unit reply \<times> 'w IpHandle" where
  "ip_subscribe J R h aid iid =
     (let (r, h) = put_characteristics J R h (build_subscribe_request J [(aid, iid)] True) in
      (r, if r = Some (Inr ()) then h\<lparr>ih_subscribed := List.insert (aid, iid) (ih_subscribed h)\<rparr> else h))"

definition ip_unsubscribe ::
    "('n, 'x) model_lib_scheme \<Rightarrow> 'w requester \<Rightarrow> 'w IpHandle \<Rightarrow> u64 \<Rightarrow> u64 \<Rightarrow> unit reply \<times> 'w IpHandle" where
  "ip_unsubscribe J R h aid iid =
     (let (r, h) = put_characteristics J R h (build_subscribe_request J [(aid, iid)] False) in
      (r, if r = Some (Inr ()) then h\<lparr>ih_subscribed := removeAll (aid, iid) (ih_subscribed h)\<rparr> else h))"

text \<open>The time to live is in milliseconds, saturated at \<open>u64::MAX\<close>.\<close>

definition ip_write_timed ::
    "('n, 'x) model_lib_scheme \<Rightarrow> 'w requester \<Rightarrow> 'w IpHandle \<Rightarrow> u64 \<Rightarrow> u64 \<Rightarrow> CharValue \<Rightarrow> nat \<Rightarrow> unit reply \<times> 'w IpHandle" where
  "ip_write_timed J R h aid iid value ttl =
     (let pid = ih_pid h;
          ttl_ms = of_nat (min ttl (2 ^ 64 - 1)) :: u64;
          (r, h) = handle_request R (h\<lparr>ih_pid := pid + 1\<rparr>) (ascii ''PUT'') (ascii ''/prepare'') (build_prepare_request J ttl_ms pid) in
      case map_option (\<lambda>r. and_then r success_body) r of
        None \<Rightarrow> (None, h)
      | Some (Inl e) \<Rightarrow> (Some (Inl e), h)
      | Some (Inr _) \<Rightarrow> put_characteristics J R h (build_timed_write_request J [((aid, iid), value)] pid))"

definition ip_write_with_response ::
    "('n, 'x) model_lib_scheme \<Rightarrow> 'w requester \<Rightarrow> 'w IpHandle \<Rightarrow> u64 \<Rightarrow> u64 \<Rightarrow> CharValue \<Rightarrow> CharValue reply \<times> 'w IpHandle" where
  "ip_write_with_response J R h aid iid value =
     (let (r, h) = handle_request R h (ascii ''PUT'') (ascii ''/characteristics'')
            (build_write_request_with_response J [((aid, iid), value)]) in
      (map_option (\<lambda>r. and_then r (\<lambda>resp. and_then (success_body resp) (\<lambda>body.
         and_then (map_err HModel (parse_read_response J body)) (\<lambda>v.
         case v of
           [] \<Rightarrow> Inl (HCharacteristicNotFound aid iid)
         | e # _ \<Rightarrow> Inr (case map_of (ih_formats h) (aid, iid) of Some f \<Rightarrow> coerce_to_format (snd e) f | None \<Rightarrow> snd e))))) r, h))"


section \<open>The supervisor\<close>

text \<open>The task of \<open>build\<close> and the foreground operations share the formats, the subscriptions and the
  watch channel.  The task pumps the events of the current session; after its end it is reconnecting,
  with the number of the attempt; then it subscribes again on the new session, the identifiers still to
  go, and publishes it.  \<open>sv_requested\<close> and \<open>sv_sent\<close> record on which session a subscription was
  requested, by the task or by a foreground operation that has not recorded it yet; \<open>sv_late\<close> are the
  identifiers recorded after the session they were requested on was given up.\<close>

datatype phase = Pump | Retry u32 | Resubscribe nat "(u64 \<times> u64) list"

record supervisor =
  sv_phase :: phase
  sv_current :: nat
  sv_fresh :: nat
  sv_last_cn :: "u32 option"
  sv_formats :: "((u64 \<times> u64) \<times> CharFormat) list"
  sv_subscribed :: "(u64 \<times> u64) list"
  sv_refresh :: bool
  sv_states :: "ConnectionState list"
  sv_events :: "BleEvent list"
  sv_requested :: "(nat \<times> (u64 \<times> u64)) list"
  sv_sent :: "(nat \<times> (u64 \<times> u64)) list"
  sv_late :: "(u64 \<times> u64) list"

definition supervisor_init :: supervisor where
  "supervisor_init =
     \<lparr>sv_phase = Pump, sv_current = 0, sv_fresh = 1, sv_last_cn = None, sv_formats = [], sv_subscribed = [],
      sv_refresh = False, sv_states = [Connected], sv_events = [], sv_requested = [], sv_sent = [], sv_late = []\<rparr>"

definition pump_body :: "('n, 'x) model_lib_scheme \<Rightarrow> bytes \<Rightarrow> supervisor \<Rightarrow> supervisor" where
  "pump_body J body s =
     (case parse_read_response J body of
        Inl _ \<Rightarrow> s
      | Inr reports \<Rightarrow>
          s\<lparr>sv_events := sv_events s @
             map (\<lambda>r. let ((aid, iid), value) = retype (sv_formats s) r in \<lparr>ev_aid = aid, ev_iid = iid, ev_value = value\<rparr>) reports\<rparr>)"

definition session_died :: "supervisor \<Rightarrow> supervisor" where
  "session_died s = s\<lparr>sv_phase := Retry 1, sv_states := sv_states s @ [NotConnected, Reconnecting 1]\<rparr>"

text \<open>The attempt counter wraps after 32 bits; a build with overflow checks panics there instead.\<close>

definition reconnect_failed :: "u32 \<Rightarrow> supervisor \<Rightarrow> supervisor" where
  "reconnect_failed attempt s =
     s\<lparr>sv_phase := Retry (attempt + 1), sv_states := sv_states s @ [Reconnecting (attempt + 1)]\<rparr>"

definition reconnect_done :: "u32 option \<Rightarrow> supervisor \<Rightarrow> supervisor" where
  "reconnect_done config_number s =
     (let s = (case config_number of
                 Some new_cn \<Rightarrow>
                   s\<lparr>sv_refresh := sv_refresh s \<or> (sv_last_cn s \<noteq> None \<and> sv_last_cn s \<noteq> Some new_cn), sv_last_cn := Some new_cn\<rparr>
               | None \<Rightarrow> s) in
      s\<lparr>sv_phase := Resubscribe (sv_fresh s) (sv_subscribed s), sv_fresh := sv_fresh s + 1\<rparr>)"

text \<open>One request of the loop, whatever its answer; and the end of the loop with the next turn's start.\<close>

definition resubscribe_next :: "nat \<Rightarrow> u64 \<times> u64 \<Rightarrow> (u64 \<times> u64) list \<Rightarrow> supervisor \<Rightarrow> supervisor" where
  "resubscribe_next sess i ids s = s\<lparr>sv_phase := Resubscribe sess ids, sv_requested := (sess, i) # sv_requested s\<rparr>"

definition publish_session :: "nat \<Rightarrow> supervisor \<Rightarrow> supervisor" where
  "publish_session sess s = s\<lparr>sv_phase := Pump, sv_current := sess, sv_states := sv_states s @ [Connected]\<rparr>"

text \<open>The foreground: a subscription is first acknowledged on the session that is current, then recorded.\<close>

definition subscribe_acked :: "u64 \<times> u64 \<Rightarrow> supervisor \<Rightarrow> supervisor" where
  "subscribe_acked i s =
     s\<lparr>sv_requested := (sv_current s, i) # sv_requested s, sv_sent := (sv_current s, i) # sv_sent s\<rparr>"

definition subscribe_recorded :: "nat \<Rightarrow> u64 \<times> u64 \<Rightarrow> supervisor \<Rightarrow> supervisor" where
  "subscribe_recorded sess i s =
     s\<lparr>sv_subscribed := List.insert i (sv_subscribed s), sv_sent := remove1 (sess, i) (sv_sent s),
       sv_late := (if sess \<noteq> sv_current s \<or> (\<exists>n ids. sv_phase s = Resubscribe n ids) then i # sv_late s else sv_late s)\<rparr>"

definition unsubscribed :: "u64 \<times> u64 \<Rightarrow> supervisor \<Rightarrow> supervisor" where
  "unsubscribed i s = s\<lparr>sv_subscribed := removeAll i (sv_subscribed s)\<rparr>"

text \<open>\<open>accessories\<close> first takes the refresh flag and later stores the formats.\<close>

definition refresh_taken :: "supervisor \<Rightarrow> supervisor" where
  "refresh_taken s = s\<lparr>sv_refresh := False\<rparr>"

definition fetched :: "Accessory list \<Rightarrow> supervisor \<Rightarrow> supervisor" where
  "fetched accs s = s\<lparr>sv_formats := format_map accs\<rparr>"

inductive sup_step :: "('n, 'x) model_lib_scheme \<Rightarrow> supervisor \<Rightarrow> supervisor \<Rightarrow> bool" for J where
  event: "sv_phase s = Pump \<Longrightarrow> sup_step J s (pump_body J body s)"
| died: "sv_phase s = Pump \<Longrightarrow> sup_step J s (session_died s)"
| failed: "sv_phase s = Retry attempt \<Longrightarrow> sup_step J s (reconnect_failed attempt s)"
| reconnected: "sv_phase s = Retry attempt \<Longrightarrow> sup_step J s (reconnect_done cn s)"
| resubscribe: "sv_phase s = Resubscribe sess (i # ids) \<Longrightarrow> sup_step J s (resubscribe_next sess i ids s)"
| published: "sv_phase s = Resubscribe sess [] \<Longrightarrow> sup_step J s (publish_session sess s)"
| acked: "sup_step J s (subscribe_acked i s)"
| recorded: "(sess, i) \<in> set (sv_sent s) \<Longrightarrow> sup_step J s (subscribe_recorded sess i s)"
| unsubscribe: "sup_step J s (unsubscribed i s)"
| take: "sup_step J s (refresh_taken s)"
| fetch: "sup_step J s (fetched accs s)"

text \<open>The states a subscriber of the connection state sees, one after the other.\<close>

fun next_state :: "ConnectionState \<Rightarrow> ConnectionState \<Rightarrow> bool" where
  "next_state Connected s \<longleftrightarrow> s = NotConnected"
| "next_state NotConnected s \<longleftrightarrow> s = Reconnecting 1"
| "next_state (Reconnecting n) s \<longleftrightarrow> s = Reconnecting (n + 1) \<or> s = Connected"

fun phase_state :: "phase \<Rightarrow> ConnectionState \<Rightarrow> bool" where
  "phase_state Pump s \<longleftrightarrow> s = Connected"
| "phase_state (Retry n) s \<longleftrightarrow> s = Reconnecting n"
| "phase_state (Resubscribe _ _) s \<longleftrightarrow> (\<exists>n. s = Reconnecting n)"

definition sup_inv :: "supervisor \<Rightarrow> bool" where
  "sup_inv s \<longleftrightarrow>
     sv_current s < sv_fresh s \<and>
     set (sv_sent s) \<subseteq> set (sv_requested s) \<and>
     (\<forall>i\<in>set (sv_subscribed s). i \<in> set (sv_late s) \<or>
        (case sv_phase s of
           Resubscribe sess ids \<Rightarrow> (sess, i) \<in> set (sv_requested s) \<or> i \<in> set ids
         | Retry _ \<Rightarrow> True
         | Pump \<Rightarrow> (sv_current s, i) \<in> set (sv_requested s))) \<and>
     (case sv_phase s of Resubscribe sess _ \<Rightarrow> sv_current s < sess \<and> sess < sv_fresh s | _ \<Rightarrow> True) \<and>
     sv_states s \<noteq> [] \<and> successively next_state (sv_states s) \<and> phase_state (sv_phase s) (last (sv_states s))"

lemmas sup_defs = session_died_def reconnect_failed_def reconnect_done_def resubscribe_next_def
  publish_session_def subscribe_acked_def subscribe_recorded_def unsubscribed_def refresh_taken_def fetched_def

lemma pump_body_frame: "\<exists>evs. pump_body J body s = s\<lparr>sv_events := evs\<rparr>"
proof (cases "parse_read_response J body")
  case (Inl e)
  then have "pump_body J body s = s\<lparr>sv_events := sv_events s\<rparr>" by (simp add: pump_body_def)
  then show ?thesis ..
qed (auto simp: pump_body_def)

lemma sup_inv_init: "sup_inv supervisor_init"
  by (simp add: sup_inv_def supervisor_init_def)

lemma sup_inv_step:
  assumes "sup_step J s s'" and inv: "sup_inv s"
  shows "sup_inv s'"
  using assms(1)
proof cases
  case (event body)
  then show ?thesis using inv pump_body_frame [of J body s] by (auto simp: sup_inv_def)
next
  case died
  then show ?thesis using inv by (simp add: sup_inv_def sup_defs successively_append_iff)
next
  case (failed attempt)
  then show ?thesis using inv by (simp add: sup_inv_def sup_defs successively_append_iff)
next
  case (reconnected attempt cn)
  then show ?thesis using inv by (cases cn) (simp_all add: sup_inv_def sup_defs Let_def)
next
  case (resubscribe sess i ids)
  then show ?thesis using inv by (auto simp: sup_inv_def sup_defs)
next
  case (published sess)
  then show ?thesis using inv by (auto simp: sup_inv_def sup_defs successively_append_iff)
next
  case (acked i)
  then show ?thesis using inv by (cases "sv_phase s") (auto simp: sup_inv_def sup_defs)
next
  case (recorded sess i)
  then show ?thesis using inv by (cases "sv_phase s") (auto simp: sup_inv_def sup_defs dest: set_remove1_subset [THEN subsetD])
next
  case (unsubscribe i)
  then show ?thesis using inv by (cases "sv_phase s") (auto simp: sup_inv_def sup_defs)
next
  case take
  then show ?thesis using inv by (cases "sv_phase s") (simp_all add: sup_inv_def sup_defs)
next
  case (fetch accs)
  then show ?thesis using inv by (cases "sv_phase s") (simp_all add: sup_inv_def sup_defs)
qed

lemma sup_inv_reachable: "(sup_step J)\<^sup>*\<^sup>* supervisor_init s \<Longrightarrow> sup_inv s"
  by (induction rule: rtranclp_induct) (auto intro: sup_inv_init sup_inv_step)

text \<open>A subscription acknowledged on a session that is given up before it is recorded is not on the new one.\<close>

lemma late_subscription_lost:
  "\<exists>s. (sup_step J)\<^sup>*\<^sup>* supervisor_init s \<and> sv_phase s = Pump \<and> i \<in> set (sv_subscribed s) \<and>
     (sv_current s, i) \<notin> set (sv_requested s)"
proof -
  let ?s1 = "subscribe_acked i supervisor_init"
  let ?s2 = "session_died ?s1"
  let ?s3 = "reconnect_done None ?s2"
  let ?s4 = "publish_session 1 ?s3"
  let ?s5 = "subscribe_recorded 0 i ?s4"
  note more = rtranclp.rtrancl_into_rtrancl [of "sup_step J"]
  have "(sup_step J)\<^sup>*\<^sup>* supervisor_init ?s1" by (rule r_into_rtranclp) (rule acked)
  then have "(sup_step J)\<^sup>*\<^sup>* supervisor_init ?s2" by (rule more) (rule died, simp add: sup_defs supervisor_init_def)
  then have "(sup_step J)\<^sup>*\<^sup>* supervisor_init ?s3" by (rule more) (rule reconnected [of _ 1], simp add: sup_defs supervisor_init_def)
  then have "(sup_step J)\<^sup>*\<^sup>* supervisor_init ?s4" by (rule more) (rule published, simp add: sup_defs supervisor_init_def)
  then have "(sup_step J)\<^sup>*\<^sup>* supervisor_init ?s5" by (rule more) (rule recorded, simp add: sup_defs supervisor_init_def)
  then show ?thesis by (intro exI [of _ ?s5]) (simp add: sup_defs supervisor_init_def)
qed

lemma backoff_eq: "backoff attempt = min (2 ^ (unat attempt - 1)) 30"
proof (cases "unat attempt - 1 < 64")
  case True
  then have "unat (push_bit (unat attempt - 1) (1 :: u64)) = 2 ^ (unat attempt - 1)"
    by (simp only: unsigned_push_bit_eq) (simp add: take_bit_nat_eq_self push_bit_eq_mult)
  then show ?thesis using True by (simp add: backoff_def Let_def)
next
  case False
  have "(2 :: nat) ^ 5 \<le> 2 ^ (unat attempt - 1)" using False by (intro power_increasing) auto
  then show ?thesis using False by (simp add: backoff_def Let_def)
qed

section \<open>Properties\<close>

text \<open>C11. The supervisor keeps subscriptions across reconnections.  In every interleaving of its turns with
  foreground operations, whenever it pumps a session, every recorded characteristic has been
  subscribed on that very session, except one whose acknowledgement was recorded only after its
  session had been given up; the session it publishes is always a new one; and what a subscriber of
  the connection state sees is connected, not connected, attempts counted from one (in 32 bits), and
  connected again.\<close>

theorem subscriptions_survive_reconnect:
  assumes "(sup_step J)\<^sup>*\<^sup>* supervisor_init s"
  shows "(sv_phase s = Pump \<longrightarrow>
      (\<forall>i\<in>set (sv_subscribed s). i \<in> set (sv_late s) \<or> (sv_current s, i) \<in> set (sv_requested s))) \<and>
    (\<forall>s'. sup_step J s s' \<longrightarrow> sv_current s' = sv_current s \<or> sv_current s < sv_current s') \<and>
    successively next_state (sv_states s)"
proof -
  have inv: "sup_inv s" by (rule sup_inv_reachable [OF assms])
  have "sv_current s' = sv_current s \<or> sv_current s < sv_current s'" if "sup_step J s s'" for s'
    using that
  proof cases
    case (event body)
    then show ?thesis using pump_body_frame [of J body s] by auto
  next
    case (reconnected attempt cn)
    then show ?thesis by (cases cn) (simp_all add: sup_defs Let_def)
  next
    case (published sess)
    then show ?thesis using inv by (simp add: sup_inv_def sup_defs)
  qed (simp_all add: sup_defs)
  then show ?thesis using inv by (auto simp: sup_inv_def)
qed

theorem subscriptions_survive_reconnect_witness:
  "\<exists>s. (sup_step toy_json)\<^sup>*\<^sup>* supervisor_init s \<and> sv_phase s = Pump \<and> sv_current s = 1 \<and> (1, 9) \<in> set (sv_subscribed s) \<and>
     (sv_current s, (1, 9)) \<in> set (sv_requested s) \<and> sv_states s = [Connected, NotConnected, Reconnecting 1, Connected] \<and>
     successively next_state (sv_states s)"
proof -
  let ?i = "(1, 9) :: u64 \<times> u64"
  let ?s1 = "subscribe_acked ?i supervisor_init"
  let ?s2 = "subscribe_recorded 0 ?i ?s1"
  let ?s3 = "session_died ?s2"
  let ?s4 = "reconnect_done None ?s3"
  let ?s5 = "resubscribe_next 1 ?i [] ?s4"
  let ?s6 = "publish_session 1 ?s5"
  note more = rtranclp.rtrancl_into_rtrancl [of "sup_step toy_json"]
  note f = sup_defs supervisor_init_def
  have "(sup_step toy_json)\<^sup>*\<^sup>* supervisor_init ?s1" by (rule r_into_rtranclp) (rule acked)
  then have "(sup_step toy_json)\<^sup>*\<^sup>* supervisor_init ?s2" by (rule more) (rule recorded, simp add: f)
  then have "(sup_step toy_json)\<^sup>*\<^sup>* supervisor_init ?s3" by (rule more) (rule died, simp add: f)
  then have "(sup_step toy_json)\<^sup>*\<^sup>* supervisor_init ?s4" by (rule more) (rule reconnected [of _ 1], simp add: f)
  then have "(sup_step toy_json)\<^sup>*\<^sup>* supervisor_init ?s5" by (rule more) (rule resubscribe, simp add: f)
  then have r: "(sup_step toy_json)\<^sup>*\<^sup>* supervisor_init ?s6" by (rule more) (rule published, simp add: f)
  moreover have "?i \<notin> set (sv_late ?s6)" "sv_phase ?s6 = Pump" "sv_current ?s6 = 1" "?i \<in> set (sv_subscribed ?s6)"
    "sv_states ?s6 = [Connected, NotConnected, Reconnecting 1, Connected]" by (simp_all add: f)
  ultimately show ?thesis using subscriptions_survive_reconnect [OF r] by (intro exI [of _ ?s6]) auto
qed

end
