(* ===== verification/Ip_Interop.thy ===== *)
theory Ip_Interop
  imports Ip_Handle "HOL-Library.Countable"
begin

text \<open>
  The handle over IP against an accessory: a store of characteristic values behind
  \<open>GET /accessories\<close>, \<open>GET\<close> and \<open>PUT /characteristics\<close> and \<open>PUT /prepare\<close>, and the proof that the handle's
  operations act on that store.  The accessory reads requests with a JSON parser of its own and prints its
  responses without formats, as accessories do.
\<close>

section \<open>An accessory\<close>

record ('n, 'x) ip_conf =
  ic_json :: "('n, 'x) model_lib_scheme"
  ic_parse :: "bytes \<Rightarrow> str + 'n json"
  ic_print :: "'n WireReadEntry list \<Rightarrow> bytes"
  ic_database :: bytes
  ic_numeric_bools :: bool
  ic_exact :: "'n \<Rightarrow> bool"

type_synonym char_store = "u64 \<times> u64 \<Rightarrow> (CharFormat \<times> CharValue) option"

record ip_peer =
  ip_store :: char_store
  ip_subs :: "(u64 \<times> u64) set"
  ip_prepared :: "u64 option"

text \<open>The documented behaviour of the libraries on both ends.  An object is unordered: serde prints its
  entries in the order of the keys, so a parsed document is that printed only up to the order of
  entries.  Integers are read back as printed; a float may be read with its last digit off, and \<open>ic_exact\<close> are
  the numbers that are not.\<close>

definition scalar :: "'n json \<Rightarrow> bool" where
  "scalar j \<longleftrightarrow> (case j of JArray _ \<Rightarrow> False | JObject _ \<Rightarrow> False | _ \<Rightarrow> True)"

inductive same_json :: "'n json \<Rightarrow> 'n json \<Rightarrow> bool" where
  Scalar: "scalar j \<Longrightarrow> same_json j j"
| Array: "list_all2 same_json xs ys \<Longrightarrow> same_json (JArray xs) (JArray ys)"
| Object: "(\<And>k. rel_option same_json (map_of a k) (map_of b k)) \<Longrightarrow> same_json (JObject a) (JObject b)"

fun printable :: "('n \<Rightarrow> bool) \<Rightarrow> 'n json \<Rightarrow> bool" where
  "printable E (JNumber n) \<longleftrightarrow> E n"
| "printable E (JArray xs) \<longleftrightarrow> (\<forall>x\<in>set xs. printable E x)"
| "printable E (JObject kvs) \<longleftrightarrow> distinct (map fst kvs) \<and> (\<forall>v\<in>set (map snd kvs). printable E v)"
| "printable E _ \<longleftrightarrow> True"

definition text_laws :: "('n, 'x) ip_conf \<Rightarrow> bool" where
  "text_laws C \<longleftrightarrow>
     (\<forall>j. printable (ic_exact C) j \<longrightarrow> (\<exists>j'. ic_parse C (json_to_vec (ic_json C) j) = Inr j' \<and> same_json j j')) \<and>
     (\<forall>es. (\<forall>e\<in>set es. pred_option (\<lambda>v. scalar v \<and> printable (ic_exact C) v) (re_value e)) \<longrightarrow>
        de_read_response (ic_json C) (ic_print C es) = Inr es \<and> ic_print C es \<noteq> []) \<and>
     (\<forall>n. ic_exact C (num_from_u64 (ic_json C) n) \<and> ic_exact C (num_from_i64 (ic_json C) n))"

text \<open>A non-negative integer reads as unsigned, a negative one does not, and a float reads as neither.\<close>

definition num_laws :: "('n, 'x) json_lib_scheme \<Rightarrow> bool" where
  "num_laws J \<longleftrightarrow>
     (\<forall>n. num_as_u64 J (num_from_i64 J n) = (if unat n < 2 ^ 63 then Some n else None)) \<and>
     (\<forall>f n. num_from_f64 J f = Some n \<longrightarrow> num_as_u64 J n = None \<and> num_as_i64 J n = None)"

definition status_unknown :: i64 where "status_unknown = -70409"
definition status_invalid :: i64 where "status_invalid = -70410"

text \<open>The identifiers of a path.\<close>

definition parse_id :: "str \<Rightarrow> (u64 \<times> u64) option" where
  "parse_id s =
     (case split_on 0x2E s of
        [a, i] \<Rightarrow>
          (case (from_str_radix 10 (2 ^ 64 - 1) a, from_str_radix 10 (2 ^ 64 - 1) i) of
             (Some aid, Some iid) \<Rightarrow> Some (of_nat aid, of_nat iid)
           | _ \<Rightarrow> None)
      | _ \<Rightarrow> None)"

definition parse_path :: "str \<Rightarrow> (u64 \<times> u64) list option" where
  "parse_path path =
     (if starts_with path (ascii ''/characteristics?id='')
      then those (map parse_id (split_on 0x2C (drop 20 path))) else None)"

definition render :: "('n, 'x) ip_conf \<Rightarrow> CharValue \<Rightarrow> 'n json" where
  "render C v =
     (case v of
        VBool b \<Rightarrow> if ic_numeric_bools C then JNumber (num_from_u64 (ic_json C) (if b then 1 else 0)) else JBool b
      | _ \<Rightarrow> to_json (ic_json C) v)"

definition value_entry :: "('n, 'x) ip_conf \<Rightarrow> char_store \<Rightarrow> bool \<Rightarrow> u64 \<times> u64 \<Rightarrow> 'n WireReadEntry" where
  "value_entry C st multi i =
     (case st i of
        Some (_, v) \<Rightarrow>
          \<lparr>re_aid = fst i, re_iid = snd i, re_value = Some (render C v), re_status = (if multi then Some 0 else None), re_format = None\<rparr>
      | None \<Rightarrow> \<lparr>re_aid = fst i, re_iid = snd i, re_value = None, re_status = Some status_unknown, re_format = None\<rparr>)"

definition serve_read :: "('n, 'x) ip_conf \<Rightarrow> ip_peer \<Rightarrow> (u64 \<times> u64) list \<Rightarrow> SessionResponse" where
  "serve_read C w ids =
     (let multi = (\<exists>i\<in>set ids. ip_store w i = None) in
      \<lparr>sr_status = (if multi then 207 else 200), sr_body = ic_print C (map (value_entry C (ip_store w) multi) ids)\<rparr>)"

text \<open>One object of a write, with the status it gets.\<close>

definition obj_u64 :: "('n, 'x) json_lib_scheme \<Rightarrow> (str \<times> 'n json) list \<Rightarrow> str \<Rightarrow> u64 option" where
  "obj_u64 J obj key = Option.bind (map_of obj key) (value_as (num_as_u64 J))"

definition serve_entry :: "('n, 'x) ip_conf \<Rightarrow> u64 \<times> u64 \<Rightarrow> (str \<times> 'n json) list \<Rightarrow> ip_peer \<Rightarrow> i64 \<times> ip_peer" where
  "serve_entry C i obj w =
     (case ip_store w i of
        None \<Rightarrow> (status_unknown, w)
      | Some (f, _) \<Rightarrow>
          if map_of obj (ascii ''pid'') \<noteq> None \<and> obj_u64 (ic_json C) obj (ascii ''pid'') \<noteq> ip_prepared w then (status_invalid, w)
          else
            case (map_of obj (ascii ''value''), map_of obj (ascii ''ev'')) of
              (Some v, _) \<Rightarrow>
                (case value_from_json (ic_json C) f v of
                   Inl _ \<Rightarrow> (status_invalid, w)
                 | Inr x \<Rightarrow> (0, w\<lparr>ip_store := (ip_store w)(i \<mapsto> (f, x))\<rparr>))
            | (None, Some (JBool True)) \<Rightarrow> (0, w\<lparr>ip_subs := insert i (ip_subs w)\<rparr>)
            | (None, Some (JBool False)) \<Rightarrow> (0, w\<lparr>ip_subs := ip_subs w - {i}\<rparr>)
            | _ \<Rightarrow> (status_invalid, w))"

fun serve_entries :: "('n, 'x) ip_conf \<Rightarrow> 'n json list \<Rightarrow> ip_peer \<Rightarrow> (((u64 \<times> u64) \<times> i64) list \<times> ip_peer) option" where
  "serve_entries C [] w = Some ([], w)"
| "serve_entries C (JObject obj # es) w =
     (case (obj_u64 (ic_json C) obj (ascii ''aid''), obj_u64 (ic_json C) obj (ascii ''iid'')) of
        (Some aid, Some iid) \<Rightarrow>
          let (status, w') = serve_entry C (aid, iid) obj w in
          map_option (\<lambda>(sts, w''). (((aid, iid), status) # sts, w'')) (serve_entries C es w')
      | _ \<Rightarrow> None)"
| "serve_entries C (_ # es) w = None"

definition status_entry :: "(u64 \<times> u64) \<times> i64 \<Rightarrow> 'n WireReadEntry" where
  "status_entry p = \<lparr>re_aid = fst (fst p), re_iid = snd (fst p), re_value = None, re_status = Some (snd p), re_format = None\<rparr>"

definition serve_put :: "('n, 'x) ip_conf \<Rightarrow> ip_peer \<Rightarrow> str \<Rightarrow> bytes \<Rightarrow> SessionResponse \<times> ip_peer" where
  "serve_put C w path body =
     (case ic_parse C body of
        Inr (JObject obj) \<Rightarrow>
          if path = ascii ''/prepare'' then
            (\<lparr>sr_status = 200, sr_body = []\<rparr>, w\<lparr>ip_prepared := obj_u64 (ic_json C) obj (ascii ''pid'')\<rparr>)
          else
            (case map_of obj (ascii ''characteristics'') of
               Some (JArray es) \<Rightarrow>
                 (case serve_entries C es w of
                    None \<Rightarrow> (\<lparr>sr_status = 400, sr_body = []\<rparr>, w)
                  | Some (sts, w') \<Rightarrow>
                      (if list_all (\<lambda>p. snd p = 0) sts then \<lparr>sr_status = 204, sr_body = []\<rparr>
                       else \<lparr>sr_status = 207, sr_body = ic_print C (map status_entry sts)\<rparr>, w'))
             | _ \<Rightarrow> (\<lparr>sr_status = 400, sr_body = []\<rparr>, w))
      | _ \<Rightarrow> (\<lparr>sr_status = 400, sr_body = []\<rparr>, w))"

definition ip_serve :: "('n, 'x) ip_conf \<Rightarrow> ip_peer requester" where
  "ip_serve C w method path content_type body =
     (if method = ascii ''PUT'' then let (resp, w') = serve_put C w path body in (Some (Inr resp), w')
      else if path = ascii ''/accessories'' then (Some (Inr \<lparr>sr_status = 200, sr_body = ic_database C\<rparr>), w)
      else
        case parse_path path of
          Some ids \<Rightarrow> (Some (Inr (serve_read C w ids)), w)
        | None \<Rightarrow> (Some (Inr \<lparr>sr_status = 400, sr_body = []\<rparr>), w))"

section \<open>The contract\<close>

datatype ip_op =
    IRead "(u64 \<times> u64) list"
  | IWrite "((u64 \<times> u64) \<times> CharValue) list"
  | ITimed u64 u64 CharValue nat
  | ISubscribe u64 u64
  | IUnsubscribe u64 u64

datatype ip_result = RValues "((u64 \<times> u64) \<times> CharValue) list reply" | RDone "unit reply"

fun run_ip_op :: "('n, 'x) model_lib_scheme \<Rightarrow> 'w requester \<Rightarrow> 'w IpHandle \<Rightarrow> ip_op \<Rightarrow> ip_result \<times> 'w IpHandle" where
  "run_ip_op J R h (IRead ids) = (let (r, h') = ip_read_many J R h ids in (RValues r, h'))"
| "run_ip_op J R h (IWrite ws) = (let (r, h') = ip_write_many J R h ws in (RDone r, h'))"
| "run_ip_op J R h (ITimed aid iid v ttl) = (let (r, h') = ip_write_timed J R h aid iid v ttl in (RDone r, h'))"
| "run_ip_op J R h (ISubscribe aid iid) = (let (r, h') = ip_subscribe J R h aid iid in (RDone r, h'))"
| "run_ip_op J R h (IUnsubscribe aid iid) = (let (r, h') = ip_unsubscribe J R h aid iid in (RDone r, h'))"

fun run_ip_ops :: "('n, 'x) model_lib_scheme \<Rightarrow> 'w requester \<Rightarrow> 'w IpHandle \<Rightarrow> ip_op list \<Rightarrow> ip_result list \<times> 'w IpHandle" where
  "run_ip_ops J R h [] = ([], h)"
| "run_ip_ops J R h (op # ops) =
     (let (r, h') = run_ip_op J R h op; (rs, h'') = run_ip_ops J R h' ops in (r # rs, h''))"

text \<open>The abstract state: the values, and the characteristics subscribed to.  An operation on several
  characteristics reports the first that does not exist.\<close>

type_synonym ip_spec = "char_store \<times> (u64 \<times> u64) set"

definition first_unknown :: "char_store \<Rightarrow> (u64 \<times> u64) list \<Rightarrow> 'b \<Rightarrow> HapError + 'b" where
  "first_unknown st ids r =
     (case find (\<lambda>i. st i = None) ids of
        Some i \<Rightarrow> Inl (HModel (CharacteristicStatus (fst i) (snd i) status_unknown))
      | None \<Rightarrow> Inr r)"

definition spec_put :: "((u64 \<times> u64) \<times> CharValue) list \<Rightarrow> char_store \<Rightarrow> char_store" where
  "spec_put ws st = fold (\<lambda>(i, v) st. case st i of None \<Rightarrow> st | Some (f, _) \<Rightarrow> st(i \<mapsto> (f, v))) ws st"

fun spec_ip_op :: "ip_spec \<Rightarrow> ip_op \<Rightarrow> ip_result \<times> ip_spec" where
  "spec_ip_op (st, subs) (IRead ids) =
     (RValues (Some (first_unknown st ids (map (\<lambda>i. (i, snd (the (st i)))) ids))), (st, subs))"
| "spec_ip_op (st, subs) (IWrite ws) = (RDone (Some (first_unknown st (map fst ws) ())), (spec_put ws st, subs))"
| "spec_ip_op (st, subs) (ITimed aid iid v _) =
     (RDone (Some (first_unknown st [(aid, iid)] ())), (spec_put [((aid, iid), v)] st, subs))"
| "spec_ip_op (st, subs) (ISubscribe aid iid) =
     (RDone (Some (first_unknown st [(aid, iid)] ())), (st, if st (aid, iid) = None then subs else insert (aid, iid) subs))"
| "spec_ip_op (st, subs) (IUnsubscribe aid iid) =
     (RDone (Some (first_unknown st [(aid, iid)] ())), (st, if st (aid, iid) = None then subs else subs - {(aid, iid)}))"

fun spec_ip_ops :: "ip_spec \<Rightarrow> ip_op list \<Rightarrow> ip_result list \<times> ip_spec" where
  "spec_ip_ops s [] = ([], s)"
| "spec_ip_ops s (op # ops) = (let (r, s') = spec_ip_op s op; (rs, s'') = spec_ip_ops s' ops in (r # rs, s''))"

text \<open>Values are of their characteristic's format, floats finite and exact in text; formats are not the two byte formats,
  whose values a response without formats gives as text.\<close>

definition value_fits :: "('n, 'x) ip_conf \<Rightarrow> CharFormat \<Rightarrow> CharValue \<Rightarrow> bool" where
  "value_fits C f v \<longleftrightarrow> well_typed f v \<and> f \<noteq> FTlv8 \<and> f \<noteq> FData \<and> (\<forall>x. v = VFloat x \<longrightarrow> f64_is_finite x) \<and>
     printable (ic_exact C) (to_json (ic_json C) v)"

definition store_fits :: "('n, 'x) ip_conf \<Rightarrow> (u64 \<times> u64 \<Rightarrow> CharFormat option) \<Rightarrow> char_store \<Rightarrow> bool" where
  "store_fits C fmt st \<longleftrightarrow> (\<forall>i. map_option fst (st i) = fmt i) \<and> (\<forall>i f v. st i = Some (f, v) \<longrightarrow> value_fits C f v)"

definition writes_fit :: "('n, 'x) ip_conf \<Rightarrow> (u64 \<times> u64 \<Rightarrow> CharFormat option) \<Rightarrow> ((u64 \<times> u64) \<times> CharValue) list \<Rightarrow> bool" where
  "writes_fit C fmt ws \<longleftrightarrow> 
     (\<forall>(i, v)\<in>set ws. printable (ic_exact C) (to_json (ic_json C) v) \<and> (\<forall>f. fmt i = Some f \<longrightarrow> value_fits C f v))"

fun ip_op_ok :: "('n, 'x) ip_conf \<Rightarrow> (u64 \<times> u64 \<Rightarrow> CharFormat option) \<Rightarrow> ip_op \<Rightarrow> bool" where
  "ip_op_ok C fmt (IRead ids) \<longleftrightarrow> ids \<noteq> []"
| "ip_op_ok C fmt (IWrite ws) \<longleftrightarrow> writes_fit C fmt ws"
| "ip_op_ok C fmt (ITimed aid iid v _) \<longleftrightarrow> writes_fit C fmt [((aid, iid), v)]"
| "ip_op_ok C fmt (ISubscribe _ _) \<longleftrightarrow> True"
| "ip_op_ok C fmt (IUnsubscribe _ _) \<longleftrightarrow> True"

section \<open>Paths\<close>

lemma push_ids_later: "0 < n \<Longrightarrow> push_ids n ids path = path @ concat (map (\<lambda>p. [0x2C] @ id_text p) ids)"
  by (induction ids arbitrary: n path) (simp_all add: ascii_def)

lemma build_read_request_join:
  "build_read_request ids = ascii ''/characteristics?id='' @ join [0x2C] (map id_text ids)"
  by (cases ids) (simp_all add: build_read_request_def push_ids_later join_concat comp_def del: join.simps(2,3))

lemma digits_no_separator: "0x2E \<notin> set (show_nat n)" "0x2C \<notin> set (show_nat n)"
  using digits_in_range [of n] by (auto simp: list_all_iff in_range_def)

lemma parse_id_text: "parse_id (id_text p) = Some p"
proof -
  have "split_on 0x2E (id_text p) = [show_nat (unat (fst p)), show_nat (unat (snd p))]"
    using split_on_append_sep [OF digits_no_separator(1), of "unat (fst p)" "show_nat (unat (snd p))"]
      split_on_single [OF digits_no_separator(1), of "unat (snd p)"]
    by (simp add: id_text_def ascii_def)
  moreover have "from_str_radix 10 (2 ^ 64 - 1) (show_nat (unat (x :: u64))) = Some (unat x)" for x
    using unat_u64_less [of x] by (intro from_str_radix_show) simp
  ultimately show ?thesis by (simp add: parse_id_def)
qed

lemma parse_path_request: "ids \<noteq> [] \<Longrightarrow> parse_path (build_read_request ids) = Some ids"
proof -
  assume "ids \<noteq> []"
  have "0x2C \<notin> set (id_text p)" for p using digits_no_separator(2) by (simp add: id_text_def ascii_def)
  then have "split_on 0x2C (join [0x2C] (map id_text ids)) = map id_text ids"
    using \<open>ids \<noteq> []\<close> by (intro split_join) auto
  moreover have "those (map parse_id (map id_text ids)) = Some ids"
    by (induction ids) (simp_all add: parse_id_text)
  ultimately show ?thesis
    by (simp add: parse_path_def build_read_request_join starts_with_def ascii_def)
qed

section \<open>Values\<close>

text \<open>What the accessory prints without a format, inferred and retyped, is the value.\<close>

lemma infer_render:
  assumes "json_laws (ic_json C)" and "num_laws (ic_json C)" and "value_fits C f v"
  shows "\<exists>u. infer_value (ic_json C) (render C v) = Inr u \<and> coerce_to_format u f = v"
proof (cases v)
  case (VBool b)
  then have "f = FBool" using assms(3) by (cases f) (simp_all add: value_fits_def)
  then show ?thesis
    using VBool assms(1) by (auto simp: render_def infer_value_def coerce_to_format_def json_laws_def)
next
  case (VInt n)
  then have "f = FInt" using assms(3) by (cases f) (simp_all add: value_fits_def)
  then show ?thesis
    using VInt assms(1,2) by (auto simp: render_def infer_value_def coerce_to_format_def json_laws_def num_laws_def)
next
  case (VUint n)
  then have "coerce_to_format v f = v" using assms(3) by (cases f) (simp_all add: value_fits_def coerce_to_format_def)
  then show ?thesis using VUint assms(1) by (auto simp: render_def infer_value_def json_laws_def)
next
  case (VFloat x)
  then have f: "f = FFloat" "f64_is_finite x" using assms(3) by (cases f, simp_all add: value_fits_def)
  then obtain m where "num_from_f64 (ic_json C) x = Some m" "num_as_f64 (ic_json C) m = Some x"
    using assms(1) by (auto simp: json_laws_def)
  then show ?thesis
    using VFloat f assms(2) by (auto simp: render_def infer_value_def coerce_to_format_def num_laws_def)
next
  case (VStr s)
  then have "f = FString" using assms(3) by (cases f) (simp_all add: value_fits_def)
  then show ?thesis using VStr by (simp add: render_def infer_value_def coerce_to_format_def)
next
  case (VBytes b)
  then show ?thesis using assms(3) by (cases f) (simp_all add: value_fits_def)
qed

lemma to_json_scalar: "scalar (to_json J v)"
  by (cases v) (simp_all add: scalar_def split: option.splits)

lemma render_printable:
  assumes "text_laws C" and "value_fits C f v"
  shows "scalar (render C v) \<and> printable (ic_exact C) (render C v)"
  using assms to_json_scalar [of "ic_json C" v]
  by (cases v) (auto simp: render_def text_laws_def value_fits_def scalar_def)

section \<open>Requests\<close>

inductive_cases same_json_ArrayE: "same_json (JArray xs) j"
inductive_cases same_json_ObjectE: "same_json (JObject a) j"

lemma same_json_scalar: "scalar j \<Longrightarrow> same_json j j' \<longleftrightarrow> j' = j"
  by (auto intro: same_json.intros elim: same_json.cases simp: scalar_def)

text \<open>Objects of scalars, as the entries of a request are, are read with the same fields.\<close>

lemma same_json_flat:
  assumes "same_json (JObject a) j" and "\<forall>v\<in>set (map snd a). scalar v"
  shows "\<exists>b. j = JObject b \<and> map_of b = map_of a"
proof -
  from assms(1) obtain b where b: "j = JObject b" "\<And>k. rel_option same_json (map_of a k) (map_of b k)"
    by (rule same_json_ObjectE) (auto simp: scalar_def)
  have "map_of b k = map_of a k" for k
  proof (cases "map_of a k")
    case (Some v)
    then have "scalar v" using map_of_SomeD [OF Some] assms(2) by force
    then show ?thesis using b(2) [of k] Some by (auto simp: option_rel_Some1 same_json_scalar)
  qed (use b(2) [of k] in simp)
  then show ?thesis using b(1) by blast
qed

lemma same_json_request:
  assumes "same_json (JObject [(key, JArray (map JObject objs))]) j" and "\<forall>a\<in>set objs. \<forall>v\<in>set (map snd a). scalar v"
  shows "\<exists>b objs'. j = JObject b \<and> map_of b key = Some (JArray (map JObject objs')) \<and> map map_of objs' = map map_of objs"
proof -
  from assms(1) obtain b where b: "j = JObject b" "\<And>k. rel_option same_json (map_of [(key, JArray (map JObject objs))] k) (map_of b k)"
    by (rule same_json_ObjectE) (auto simp: scalar_def)
  from b(2) [of key] obtain j' where j': "map_of b key = Some j'" "same_json (JArray (map JObject objs)) j'"
    by (auto simp: option_rel_Some1)
  from j'(2) obtain ys where ys: "j' = JArray ys" "list_all2 same_json (map JObject objs) ys"
    by (rule same_json_ArrayE) (auto simp: scalar_def)
  from ys(2) assms(2) have "\<exists>objs'. ys = map JObject objs' \<and> map map_of objs' = map map_of objs"
  proof (induction objs arbitrary: ys)
    case (Cons a objs)
    then obtain y ys' where y: "ys = y # ys'" "same_json (JObject a) y" "list_all2 same_json (map JObject objs) ys'"
      by (auto simp: list_all2_Cons1)
    obtain b where "y = JObject b" "map_of b = map_of a" using same_json_flat [OF y(2)] Cons.prems(2) by auto
    moreover obtain objs' where "ys' = map JObject objs'" "map map_of objs' = map map_of objs"
      using Cons.IH [OF y(3)] Cons.prems(2) by auto
    ultimately have "ys = map JObject (b # objs') \<and> map map_of (b # objs') = map map_of (a # objs)" using y(1) by simp
    then show ?case by blast
  qed simp
  then show ?thesis using b(1) j'(1) ys(1) by blast
qed

lemma serve_entries_fields:
  "map map_of objs' = map map_of objs \<Longrightarrow> serve_entries C (map JObject objs') w = serve_entries C (map JObject objs) w"
proof (induction objs arbitrary: objs' w)
  case (Cons a objs)
  then obtain b bs where b: "objs' = b # bs" "map_of b = map_of a" "map map_of bs = map map_of objs" by auto
  have "serve_entry C i b w = serve_entry C i a w" "obj_u64 (ic_json C) b k = obj_u64 (ic_json C) a k" for i k
    unfolding serve_entry_def obj_u64_def b(2) by (rule refl)+
  then show ?case using b(1) Cons.IH [OF b(3)] by (simp add: Let_def case_prod_unfold cong: option.case_cong)
qed simp

section \<open>Reads\<close>

lemma read_entry_known:
  assumes "json_laws (ic_json C)" "num_laws (ic_json C)" "store_fits C (map_of formats) st" and "st i = Some (f, v)"
  shows "\<exists>u. read_entry (ic_json C) (value_entry C st multi i) = Inr (Some (i, u)) \<and> retype formats (i, u) = (i, v)"
proof -
  have "map_option fst (st i) = map_of formats i" using assms(3) unfolding store_fits_def by blast
  then have "map_of formats i = Some f" using assms(4) by simp
  moreover have "value_fits C f v" using assms(3,4) unfolding store_fits_def by blast
  moreover obtain u where "infer_value (ic_json C) (render C v) = Inr u" "coerce_to_format u f = v"
    using infer_render [OF assms(1,2) calculation(2)] by blast
  ultimately show ?thesis using assms(4) by (auto simp: read_entry_def value_entry_def retype_def)
qed

lemma read_entries_values:
  assumes "json_laws (ic_json C)" "num_laws (ic_json C)" "store_fits C (map_of formats) st"
    and "multi \<or> (\<forall>i\<in>set ids. st i \<noteq> None)"
  shows "and_then (map_err HModel (read_entries (ic_json C) (map (value_entry C st multi) ids))) (\<lambda>out. Inr (map (retype formats) out)) =
    first_unknown st ids (map (\<lambda>i. (i, snd (the (st i)))) ids)"
  using assms(4)
proof (induction ids)
  case (Cons i ids)
  show ?case
  proof (cases "st i")
    case None
    then show ?thesis
      by (simp add: first_unknown_def read_entry_def value_entry_def status_unknown_def)
  next
    case (Some fv)
    obtain f v where fv: "fv = (f, v)" by fastforce
    obtain u where u: "read_entry (ic_json C) (value_entry C st multi i) = Inr (Some (i, u))" "retype formats (i, u) = (i, v)"
      using read_entry_known [OF assms(1-3), of i f v multi] Some fv by blast
    show ?thesis
      using Cons.IH Cons.prems u Some fv
      by (cases "read_entries (ic_json C) (map (value_entry C st multi) ids)")
        (auto simp: first_unknown_def split: option.splits)
  qed
qed (simp add: first_unknown_def)

lemma ip_read_peer:
  assumes "json_laws (ic_json C)" "num_laws (ic_json C)" "text_laws C"
    and "store_fits C (map_of (ih_formats h)) (ip_store (ih_conn h))" and "ids \<noteq> []"
  shows "ip_read_many (ic_json C) (ip_serve C) h ids =
    (Some (first_unknown (ip_store (ih_conn h)) ids (map (\<lambda>i. (i, snd (the (ip_store (ih_conn h) i)))) ids)), h)"
proof -
  let ?st = "ip_store (ih_conn h)"
  let ?multi = "\<exists>i\<in>set ids. ?st i = None"
  have "scalar (render C v) \<and> printable (ic_exact C) (render C v)" if "?st i = Some (f, v)" for i f v
    using that assms(4) render_printable [OF assms(3)] unfolding store_fits_def by blast
  then have printed: "\<forall>e\<in>set (map (value_entry C ?st ?multi) ids). pred_option (\<lambda>v. scalar v \<and> printable (ic_exact C) v) (re_value e)"
    by (auto simp: value_entry_def split: option.splits)
  have path: "build_read_request ids \<noteq> ascii ''/accessories''"
    by (simp add: build_read_request_join ascii_def)
  have "handle_request (ip_serve C) h (ascii ''GET'') (build_read_request ids) [] = (Some (Inr (serve_read C (ih_conn h) ids)), h)"
    using path parse_path_request [OF assms(5)] by (simp add: handle_request_def ip_serve_def ascii_def)
  moreover have "parse_read_response (ic_json C) (sr_body (serve_read C (ih_conn h) ids)) =
      read_entries (ic_json C) (map (value_entry C ?st ?multi) ids)"
    using assms(3) printed by (simp add: parse_read_response_def serve_read_def text_laws_def Let_def)
  moreover have "success_body (serve_read C (ih_conn h) ids) = Inr (sr_body (serve_read C (ih_conn h) ids))"
    by (simp add: success_body_def is_success_def serve_read_def Let_def)
  moreover have "and_then (map_err HModel (read_entries (ic_json C) (map (value_entry C ?st ?multi) ids)))
      (\<lambda>out. Inr (map (retype (ih_formats h)) out)) = first_unknown ?st ids (map (\<lambda>i. (i, snd (the (?st i)))) ids)"
    by (rule read_entries_values [OF assms(1,2,4)]) metis
  ultimately show ?thesis by (simp add: ip_read_many_def)
qed

section \<open>Writes\<close>

definition put_status :: "((u64 \<times> u64) \<times> i64) list \<Rightarrow> HapError + unit" where
  "put_status sts =
     (case find (\<lambda>p. snd p \<noteq> 0) sts of
        Some ((aid, iid), s) \<Rightarrow> Inl (HModel (CharacteristicStatus aid iid s))
      | None \<Rightarrow> Inr ())"

lemma read_entries_statuses:
  "and_then (map_err HModel (read_entries J (map status_entry sts))) (\<lambda>_. Inr ()) = put_status sts"
proof (induction sts)
  case (Cons p sts)
  have "read_entry J (status_entry p) =
      (if snd p = 0 then Inr None else Inl (CharacteristicStatus (fst (fst p)) (snd (fst p)) (snd p)))"
    by (simp add: read_entry_def status_entry_def require_def)
  then show ?case
    using Cons.IH by (cases "read_entries J (map status_entry sts)"; cases p) (auto simp: put_status_def split: prod.splits)
qed (simp add: put_status_def)

lemma put_peer:
  assumes "text_laws C" and "serve_entries C (map JObject objs) (ih_conn h) = Some (sts, w')"
    and "\<forall>a\<in>set objs. printable (ic_exact C) (JObject a) \<and> (\<forall>v\<in>set (map snd a). scalar v)"
  shows "put_characteristics (ic_json C) (ip_serve C) h (characteristics_body (ic_json C) objs) =
    (Some (put_status sts), h\<lparr>ih_conn := w'\<rparr>)"
proof -
  let ?resp = "if list_all (\<lambda>p. snd p = 0) sts then \<lparr>sr_status = 204, sr_body = []\<rparr>
      else \<lparr>sr_status = 207, sr_body = ic_print C (map status_entry sts)\<rparr>"
  have "printable (ic_exact C) (JObject [(ascii ''characteristics'', JArray (map JObject objs))])" using assms(3) by auto
  then obtain j where j: "ic_parse C (characteristics_body (ic_json C) objs) = Inr j"
      "same_json (JObject [(ascii ''characteristics'', JArray (map JObject objs))]) j"
    using assms(1) unfolding text_laws_def characteristics_body_def by blast
  obtain b objs' where b: "j = JObject b" "map_of b (ascii ''characteristics'') = Some (JArray (map JObject objs'))"
      "map map_of objs' = map map_of objs"
    using same_json_request [OF j(2)] assms(3) by blast
  have "handle_request (ip_serve C) h (ascii ''PUT'') (ascii ''/characteristics'') (characteristics_body (ic_json C) objs) =
      (Some (Inr ?resp), h\<lparr>ih_conn := w'\<rparr>)"
    using assms(2) j(1) b serve_entries_fields [OF b(3), of C "ih_conn h"] by (simp add: handle_request_def ip_serve_def serve_put_def ascii_def)
  moreover have status_text: "de_read_response (ic_json C) (ic_print C (map status_entry sts)) = Inr (map status_entry sts) \<and>
      ic_print C (map status_entry sts) \<noteq> []"
    using assms(1) unfolding text_laws_def by (auto simp: status_entry_def)
  moreover have "put_status sts = Inr ()" if "list_all (\<lambda>p. snd p = 0) sts"
  proof -
    have "find (\<lambda>p. snd p \<noteq> 0) sts = None" using that by (auto simp: find_None_iff list_all_iff)
    then show ?thesis by (simp add: put_status_def)
  qed
  ultimately show ?thesis
    using status_text read_entries_statuses [of "ic_json C" sts]
    by (auto simp: put_characteristics_def success_body_def is_success_def parse_read_response_def)
qed

text \<open>The objects of a request, as the accessory reads them.\<close>

lemma json_id_fields:
  assumes "json_laws J"
  shows "obj_u64 J (json_id J i @ rest) (ascii ''aid'') = Some (fst i)" "obj_u64 J (json_id J i @ rest) (ascii ''iid'') = Some (snd i)"
    "map_of (json_id J i @ rest) (ascii ''value'') = map_of rest (ascii ''value'')"
    "map_of (json_id J i @ rest) (ascii ''ev'') = map_of rest (ascii ''ev'')"
    "map_of (json_id J i @ rest) (ascii ''pid'') = map_of rest (ascii ''pid'')"
  using assms by (simp_all add: obj_u64_def json_id_def value_as_def json_laws_def ascii_def)

definition pid_ok :: "('n, 'x) ip_conf \<Rightarrow> u64 option \<Rightarrow> (str \<times> 'n json) list \<Rightarrow> bool" where
  "pid_ok C prepared rest \<longleftrightarrow> rest = [] \<or> (\<exists>pid. rest = [(ascii ''pid'', JNumber (num_from_u64 (ic_json C) pid))] \<and> prepared = Some pid)"

lemma pid_ok_accepted:
  assumes "json_laws (ic_json C)" and "pid_ok C prepared rest"
  shows "\<not> (map_of (json_id (ic_json C) i @ (ascii ''value'', j) # rest) (ascii ''pid'') \<noteq> None \<and>
    obj_u64 (ic_json C) (json_id (ic_json C) i @ (ascii ''value'', j) # rest) (ascii ''pid'') \<noteq> prepared)"
  using assms by (auto simp: pid_ok_def obj_u64_def json_id_def value_as_def json_laws_def ascii_def)

definition statuses :: "char_store \<Rightarrow> (u64 \<times> u64) list \<Rightarrow> ((u64 \<times> u64) \<times> i64) list" where
  "statuses st ids = map (\<lambda>i. (i, if st i = None then status_unknown else 0)) ids"

lemma put_status_unknown: "put_status (statuses st ids) = first_unknown st ids ()"
  by (induction ids) (auto simp: put_status_def statuses_def first_unknown_def status_unknown_def)

lemma spec_put_Cons:
  "spec_put ((i, v) # ws) st = spec_put ws (case st i of None \<Rightarrow> st | Some (f, _) \<Rightarrow> st(i \<mapsto> (f, v)))"
  by (simp add: spec_put_def)

lemma statuses_Cons: "statuses st (i # ids) = (i, if st i = None then status_unknown else 0) # statuses st ids"
  by (simp add: statuses_def)

lemma statuses_upd: "st i \<noteq> None \<Longrightarrow> statuses (st(i \<mapsto> x)) ids = statuses st ids"
  by (auto simp: statuses_def)

lemma store_fits_put:
  assumes "store_fits C fmt st" and "fmt i = Some f" and "value_fits C f v"
  shows "store_fits C fmt (st(i \<mapsto> (f, v)))"
  using assms by (auto simp: store_fits_def)

lemma serve_entry_value:
  assumes "ip_store w i = Some (f, x)" and "map_of obj (ascii ''value'') = Some j" and "value_from_json (ic_json C) f j = Inr v"
    and "\<not> (map_of obj (ascii ''pid'') \<noteq> None \<and> obj_u64 (ic_json C) obj (ascii ''pid'') \<noteq> ip_prepared w)"
  shows "serve_entry C i obj w = (0, w\<lparr>ip_store := (ip_store w)(i \<mapsto> (f, v))\<rparr>)"
  using assms by (auto simp: serve_entry_def)

lemma serve_entry_event:
  assumes "map_of obj (ascii ''value'') = None" "map_of obj (ascii ''pid'') = None" "map_of obj (ascii ''ev'') = Some (JBool b)"
  shows "serve_entry C i obj w = (if ip_store w i = None then (status_unknown, w)
    else (0, w\<lparr>ip_subs := (if b then insert i (ip_subs w) else ip_subs w - {i})\<rparr>))"
  using assms by (cases b; cases "ip_store w i") (auto simp: serve_entry_def)

lemma serve_writes:
  assumes laws: "json_laws (ic_json C)" and "store_fits C fmt (ip_store w)" and "writes_fit C fmt ws" and pid: "pid_ok C (ip_prepared w) rest"
  shows "serve_entries C (map JObject (map (\<lambda>(p, v). json_id (ic_json C) p @ (ascii ''value'', to_json (ic_json C) v) # rest) ws)) w =
    Some (statuses (ip_store w) (map fst ws), w\<lparr>ip_store := spec_put ws (ip_store w)\<rparr>) \<and>
    store_fits C fmt (spec_put ws (ip_store w))"
  using assms(2-4)
proof (induction ws arbitrary: w)
  case (Cons p ws)
  obtain i v where p: "p = (i, v)" by fastforce
  let ?obj = "json_id (ic_json C) i @ (ascii ''value'', to_json (ic_json C) v) # rest"
  have fields: "obj_u64 (ic_json C) ?obj (ascii ''aid'') = Some (fst i)" "obj_u64 (ic_json C) ?obj (ascii ''iid'') = Some (snd i)"
      "map_of ?obj (ascii ''value'') = Some (to_json (ic_json C) v)"
    by (simp_all only: json_id_fields [OF laws]) simp
  have rest: "writes_fit C fmt ws" using Cons.prems(2) by (simp add: writes_fit_def)
  show ?case
  proof (cases "ip_store w i")
    case None
    then have "serve_entry C i ?obj w = (status_unknown, w)" by (simp add: serve_entry_def)
    then show ?thesis
      using None p fields Cons.IH [OF Cons.prems(1) rest Cons.prems(3)] by (simp add: spec_put_Cons statuses_def)
  next
    case (Some fx)
    obtain f x where fx: "fx = (f, x)" by fastforce
    have "map_option fst (ip_store w i) = fmt i" using Cons.prems(1) unfolding store_fits_def by blast
    then have f: "fmt i = Some f" using Some fx by simp
    then have fit: "value_fits C f v" using Cons.prems(2) p by (auto simp: writes_fit_def)
    let ?w = "w\<lparr>ip_store := (ip_store w)(i \<mapsto> (f, v))\<rparr>"
    have "value_from_json (ic_json C) f (to_json (ic_json C) v) = Inr v"
      by (rule value_from_json_to_json [OF laws]) (use fit in \<open>auto simp: value_fits_def\<close>)
    then have "serve_entry C i ?obj w = (0, ?w)"
      by (intro serve_entry_value [of _ _ _ x, OF _ fields(3)]) (use Some fx pid_ok_accepted [OF laws Cons.prems(3)] in blast)+
    moreover have "store_fits C fmt (ip_store ?w)" using store_fits_put [OF Cons.prems(1) f fit] by simp
    note Cons.IH [OF this rest]
    ultimately show ?thesis
      using Some fx p fields Cons.prems(3) statuses_upd [of "ip_store w" i "(f, v)" "map fst ws"]
      by (simp add: spec_put_Cons statuses_Cons del: fun_upd_apply)
  qed
qed (simp add: spec_put_def statuses_def)

lemma serve_subscribe:
  assumes "json_laws (ic_json C)"
  shows "serve_entries C (map JObject [json_id (ic_json C) i @ [(ascii ''ev'', JBool b)]]) w =
    Some (statuses (ip_store w) [i],
      if ip_store w i = None then w else w\<lparr>ip_subs := (if b then insert i (ip_subs w) else ip_subs w - {i})\<rparr>)"
proof -
  have "map_of (json_id (ic_json C) i @ [(ascii ''ev'', JBool b)]) (ascii ''value'') = None"
    "map_of (json_id (ic_json C) i @ [(ascii ''ev'', JBool b)]) (ascii ''pid'') = None"
    "map_of (json_id (ic_json C) i @ [(ascii ''ev'', JBool b)]) (ascii ''ev'') = Some (JBool b)"
    by (simp_all add: json_id_def ascii_def)
  from serve_entry_event [OF this, of C i w] show ?thesis
    using json_id_fields(1,2) [OF assms, of i "[(ascii ''ev'', JBool b)]"] by (cases b; simp add: statuses_def)
qed

section \<open>Operations\<close>

lemma entry_printable:
  assumes "text_laws C" and "pid_ok C prepared rest" and "printable (ic_exact C) j" and "scalar j"
  shows "printable (ic_exact C) (JObject (json_id (ic_json C) i @ (ascii ''value'', j) # rest)) \<and>
    (\<forall>v\<in>set (map snd (json_id (ic_json C) i @ (ascii ''value'', j) # rest)). scalar v)"
  using assms by (auto simp: pid_ok_def json_id_def text_laws_def scalar_def ascii_def)

lemma put_writes:
  assumes "json_laws (ic_json C)" and "text_laws C" and "store_fits C fmt (ip_store (ih_conn h))" and "writes_fit C fmt ws"
    and pid: "pid_ok C (ip_prepared (ih_conn h)) rest"
  shows "put_characteristics (ic_json C) (ip_serve C) h
      (characteristics_body (ic_json C) (map (\<lambda>(p, v). json_id (ic_json C) p @ (ascii ''value'', to_json (ic_json C) v) # rest) ws)) =
    (Some (first_unknown (ip_store (ih_conn h)) (map fst ws) ()),
     h\<lparr>ih_conn := (ih_conn h)\<lparr>ip_store := spec_put ws (ip_store (ih_conn h))\<rparr>\<rparr>)"
proof -
  have "printable (ic_exact C) (to_json (ic_json C) (snd p))" if "p \<in> set ws" for p
    using assms(4) that by (auto simp: writes_fit_def)
  from entry_printable [OF assms(2) pid this to_json_scalar]
  have "\<forall>a\<in>set (map (\<lambda>(p, v). json_id (ic_json C) p @ (ascii ''value'', to_json (ic_json C) v) # rest) ws).
      printable (ic_exact C) (JObject a) \<and> (\<forall>v\<in>set (map snd a). scalar v)"
    unfolding set_map image_def case_prod_unfold by blast
  from put_peer [OF assms(2) conjunct1 [OF serve_writes [OF assms(1,3,4) pid]] this]
  show ?thesis by (simp only: put_status_unknown)
qed

lemma put_subscribe:
  assumes "json_laws (ic_json C)" and "text_laws C"
  shows "put_characteristics (ic_json C) (ip_serve C) h (build_subscribe_request (ic_json C) [i] b) =
    (Some (first_unknown (ip_store (ih_conn h)) [i] ()),
     h\<lparr>ih_conn := (if ip_store (ih_conn h) i = None then ih_conn h
        else (ih_conn h)\<lparr>ip_subs := (if b then insert i (ip_subs (ih_conn h)) else ip_subs (ih_conn h) - {i})\<rparr>)\<rparr>)"
proof -
  have "\<forall>a\<in>set [json_id (ic_json C) i @ [(ascii ''ev'', JBool b)]]. printable (ic_exact C) (JObject a) \<and> (\<forall>v\<in>set (map snd a). scalar v)"
    using assms(2) by (auto simp: json_id_def text_laws_def scalar_def ascii_def)
  from put_peer [OF assms(2) serve_subscribe [OF assms(1)] this]
  show ?thesis by (simp only: put_status_unknown build_subscribe_request_def list.map)
qed

lemma prepare_peer:
  assumes "json_laws (ic_json C)" and "text_laws C"
  shows "handle_request (ip_serve C) h (ascii ''PUT'') (ascii ''/prepare'') (build_prepare_request (ic_json C) ttl pid) =
    (Some (Inr \<lparr>sr_status = 200, sr_body = []\<rparr>), h\<lparr>ih_conn := (ih_conn h)\<lparr>ip_prepared := Some pid\<rparr>\<rparr>)"
proof -
  let ?obj = "[(ascii ''ttl'', JNumber (num_from_u64 (ic_json C) ttl)), (ascii ''pid'', JNumber (num_from_u64 (ic_json C) pid))]"
  have "printable (ic_exact C) (JObject ?obj)" using assms(2) by (simp add: text_laws_def ascii_def)
  then obtain j where j: "ic_parse C (build_prepare_request (ic_json C) ttl pid) = Inr j" "same_json (JObject ?obj) j"
    using assms(2) unfolding text_laws_def build_prepare_request_def by blast
  obtain b where b: "j = JObject b" "map_of b = map_of ?obj"
    using same_json_flat [OF j(2)] by (auto simp: scalar_def)
  have "obj_u64 (ic_json C) b (ascii ''pid'') = Some pid"
    unfolding obj_u64_def b(2) using assms(1) by (simp add: value_as_def json_laws_def ascii_def)
  then show ?thesis using j(1) b(1) by (simp add: handle_request_def ip_serve_def serve_put_def)
qed

text \<open>What relates a handle to the abstract state.\<close>

definition ip_related :: "('n, 'x) ip_conf \<Rightarrow> ip_peer IpHandle \<Rightarrow> ip_spec \<Rightarrow> bool" where
  "ip_related C h s \<longleftrightarrow>
     s = (ip_store (ih_conn h), ip_subs (ih_conn h)) \<and> set (ih_subscribed h) = ip_subs (ih_conn h) \<and>
     store_fits C (map_of (ih_formats h)) (ip_store (ih_conn h))"

lemma store_fits_spec_put:
  "store_fits C fmt st \<Longrightarrow> writes_fit C fmt ws \<Longrightarrow> store_fits C fmt (spec_put ws st)"
proof (induction ws arbitrary: st)
  case (Cons p ws)
  obtain i v where p: "p = (i, v)" by fastforce
  have rest: "writes_fit C fmt ws" using Cons.prems(2) by (simp add: writes_fit_def)
  show ?case
  proof (cases "st i")
    case (Some fx)
    have "map_option fst (st i) = fmt i" using Cons.prems(1) unfolding store_fits_def by blast
    then have f: "fmt i = Some (fst fx)" using Some by simp
    then have "value_fits C (fst fx) v" using Cons.prems(2) p by (auto simp: writes_fit_def)
    from Cons.IH [OF store_fits_put [OF Cons.prems(1) f this] rest] show ?thesis
      using Some p by (simp add: spec_put_Cons case_prod_unfold del: fun_upd_apply)
  qed (use Cons.IH [OF Cons.prems(1) rest] p in \<open>simp add: spec_put_Cons\<close>)
qed (simp add: spec_put_def)

lemma run_ip_op_refines:
  assumes laws: "json_laws (ic_json C)" "num_laws (ic_json C)" "text_laws C"
    and rel: "ip_related C h s" and ok: "ip_op_ok C (map_of (ih_formats h)) op"
  shows "\<exists>h'. run_ip_op (ic_json C) (ip_serve C) h op = (fst (spec_ip_op s op), h') \<and>
    ip_related C h' (snd (spec_ip_op s op)) \<and> ih_formats h' = ih_formats h"
proof -
  let ?st = "ip_store (ih_conn h)"
  have s: "s = (?st, ip_subs (ih_conn h))" and subs: "set (ih_subscribed h) = ip_subs (ih_conn h)"
    and fits: "store_fits C (map_of (ih_formats h)) ?st"
    using rel by (simp_all add: ip_related_def)
  have known: "first_unknown ?st [i] () = Inr () \<longleftrightarrow> ?st i \<noteq> None" for i by (simp add: first_unknown_def)
  show ?thesis
  proof (cases op)
    case (IRead ids)
    then show ?thesis using ip_read_peer [OF laws fits] ok rel s by simp
  next
    case (IWrite ws)
    have "writes_fit C (map_of (ih_formats h)) ws" using ok IWrite by simp
    from put_writes [OF laws(1,3) fits this, of "[]"] store_fits_spec_put [OF fits this] show ?thesis
      using IWrite s subs by (simp add: ip_write_many_def build_write_request_def pid_ok_def ip_related_def)
  next
    case (ITimed aid iid v ttl)
    let ?h = "h\<lparr>ih_pid := ih_pid h + 1, ih_conn := (ih_conn h)\<lparr>ip_prepared := Some (ih_pid h)\<rparr>\<rparr>"
    have w: "writes_fit C (map_of (ih_formats h)) [((aid, iid), v)]" using ok ITimed by simp
    have "store_fits C (map_of (ih_formats h)) (ip_store (ih_conn ?h))" using fits by simp
    from put_writes [OF laws(1,3) this w, of "[(ascii ''pid'', JNumber (num_from_u64 (ic_json C) (ih_pid h)))]"]
      store_fits_spec_put [OF fits w] show ?thesis
      using ITimed s subs prepare_peer [OF laws(1,3), of "h\<lparr>ih_pid := ih_pid h + 1\<rparr>" _ "ih_pid h"]
      by (simp add: ip_write_timed_def build_timed_write_request_def pid_ok_def ip_related_def success_body_def is_success_def Let_def)
  next
    case (ISubscribe aid iid)
    then show ?thesis using s subs fits put_subscribe [OF laws(1,3), of h "(aid, iid)" True] known [of "(aid, iid)"]
      by (cases "?st (aid, iid)") (simp_all add: ip_subscribe_def ip_related_def)
  next
    case (IUnsubscribe aid iid)
    then show ?thesis using s subs fits put_subscribe [OF laws(1,3), of h "(aid, iid)" False] known [of "(aid, iid)"]
      by (cases "?st (aid, iid)") (simp_all add: ip_unsubscribe_def ip_related_def)
  qed
qed

lemma run_ip_ops_refines:
  assumes laws: "json_laws (ic_json C)" "num_laws (ic_json C)" "text_laws C"
  shows "ip_related C h s \<Longrightarrow> list_all (ip_op_ok C (map_of (ih_formats h))) ops \<Longrightarrow>
    \<exists>h'. run_ip_ops (ic_json C) (ip_serve C) h ops = (fst (spec_ip_ops s ops), h') \<and> ip_related C h' (snd (spec_ip_ops s ops))"
proof (induction ops arbitrary: h s)
  case (Cons op ops)
  have ok: "ip_op_ok C (map_of (ih_formats h)) op" "list_all (ip_op_ok C (map_of (ih_formats h))) ops"
    using Cons.prems(2) by simp_all
  obtain h' where h': "run_ip_op (ic_json C) (ip_serve C) h op = (fst (spec_ip_op s op), h')"
      "ip_related C h' (snd (spec_ip_op s op))" "ih_formats h' = ih_formats h"
    using run_ip_op_refines [OF laws Cons.prems(1) ok(1)] by blast
  obtain h'' where "run_ip_ops (ic_json C) (ip_serve C) h' ops = (fst (spec_ip_ops (snd (spec_ip_op s op)) ops), h'')"
      "ip_related C h'' (snd (spec_ip_ops (snd (spec_ip_op s op)) ops))"
    using Cons.IH [OF h'(2)] ok(2) unfolding h'(3) by blast
  then show ?case using h'(1) by (simp add: case_prod_unfold Let_def)
qed simp

text \<open>An accessory with one characteristic; its texts are numbers in unary.\<close>

instance CharFormat :: countable by countable_datatype
instance toy_num :: countable by countable_datatype
instance json :: (countable) countable by countable_datatype

definition entry_tuple :: "'n WireReadEntry \<Rightarrow> u64 \<times> u64 \<times> 'n json option \<times> i64 option \<times> CharFormat option" where
  "entry_tuple e = (re_aid e, re_iid e, re_value e, re_status e, re_format e)"

definition tuple_entry :: "u64 \<times> u64 \<times> 'n json option \<times> i64 option \<times> CharFormat option \<Rightarrow> 'n WireReadEntry" where
  "tuple_entry t = (case t of (a, i, v, s, f) \<Rightarrow> \<lparr>re_aid = a, re_iid = i, re_value = v, re_status = s, re_format = f\<rparr>)"

definition toy_ip :: "(toy_num, unit) ip_conf" where
  "toy_ip =
     \<lparr>ic_json = toy_json\<lparr>json_to_vec := \<lambda>j. replicate (to_nat j) 0,
                        de_read_response := \<lambda>body. Inr (map tuple_entry (from_nat (length body - 1)))\<rparr>,
      ic_parse = \<lambda>body. Inr (from_nat (length body)),
      ic_print = \<lambda>es. replicate (Suc (to_nat (map entry_tuple es))) 0,
      ic_database = [], ic_numeric_bools = False, ic_exact = \<lambda>_. True\<rparr>"

lemma same_json_refl: "printable E j \<Longrightarrow> same_json j j"
proof (induction j)
  case (JArray xs)
  then show ?case by (auto intro!: same_json.Array simp: list_all2_same)
next
  case (JObject kvs)
  have "rel_option same_json (map_of kvs k) (map_of kvs k)" for k
  proof (cases "map_of kvs k")
    case (Some v)
    then show ?thesis using JObject map_of_SomeD [OF Some] by (force simp: snds.simps)
  qed simp
  then show ?case by (rule same_json.Object)
qed (auto intro!: same_json.Scalar simp: scalar_def)

lemma toy_ip_laws: "json_laws (ic_json toy_ip)" "num_laws (ic_json toy_ip)" "text_laws toy_ip"
proof -
  show "json_laws (ic_json toy_ip)" by (simp add: toy_ip_def toy_json_def json_laws_def)
  show "num_laws (ic_json toy_ip)" by (auto simp: toy_ip_def toy_json_def num_laws_def split: if_splits)
  have "map (tuple_entry \<circ> entry_tuple) es = es" for es :: "toy_num WireReadEntry list"
    by (induction es) (simp_all add: tuple_entry_def entry_tuple_def)
  then show "text_laws toy_ip" using same_json_refl by (auto simp: toy_ip_def toy_json_def text_laws_def)
qed

text \<open>C8. The handle over IP acts on the accessory's store.  After \<open>accessories()\<close> has fetched the database,
  every sequence of reads, writes, timed writes, subscriptions and unsubscriptions gives the results of
  the abstract store: a read gives the values last written, of the type of their characteristic though
  responses carry no formats and may print booleans as numbers, an operation that names an unknown
  characteristic reports the first such with its status while the others are written, and timed writes
  are prepared first.  At the end the accessory's store and subscriptions are the abstract ones, and the
  subscriptions the handle remembers for the next session are those the accessory has.\<close>

theorem ip_client_refines_store:
  assumes "json_laws (ic_json C)" and "num_laws (ic_json C)" and "text_laws C"
    and "parse_accessories (ic_json C) (ic_database C) = Inr accs"
    and "store_fits C (map_of (format_map accs)) st"
    and "list_all (ip_op_ok C (map_of (format_map accs))) ops"
  shows "\<exists>h h'. ip_accessories (ic_json C) (ip_serve C) (IpHandle_build \<lparr>ip_store = st, ip_subs = {}, ip_prepared = p\<rparr>) = (Some (Inr accs), h) \<and>
    run_ip_ops (ic_json C) (ip_serve C) h ops = (fst (spec_ip_ops (st, {}) ops), h') \<and>
    (ip_store (ih_conn h'), ip_subs (ih_conn h')) = snd (spec_ip_ops (st, {}) ops) \<and>
    set (ih_subscribed h') = ip_subs (ih_conn h')"
proof -
  let ?start = "IpHandle_build \<lparr>ip_store = st, ip_subs = {}, ip_prepared = p\<rparr>"
  let ?h = "?start\<lparr>ih_formats := format_map accs, ih_accessories := Some accs\<rparr>"
  have "ip_accessories (ic_json C) (ip_serve C) ?start = (Some (Inr accs), ?h)"
    using assms(4) by (simp add: ip_accessories_def IpHandle_build_def handle_request_def ip_serve_def success_body_def
        is_success_def ascii_def)
  moreover have "ip_related C ?h (st, {})" using assms(5) by (simp add: ip_related_def IpHandle_build_def)
  then obtain h' where "run_ip_ops (ic_json C) (ip_serve C) ?h ops = (fst (spec_ip_ops (st, {}) ops), h')"
      "ip_related C h' (snd (spec_ip_ops (st, {}) ops))"
    using run_ip_ops_refines [OF assms(1-3), of ?h "(st, {})" ops] assms(6) by auto
  ultimately show ?thesis by (auto simp: ip_related_def)
qed

theorem ip_client_refines_store_witness:
  "\<exists>h h' accs. ip_accessories (ic_json toy_ip) (ip_serve toy_ip)
      (IpHandle_build \<lparr>ip_store = [(1, 9) \<mapsto> (FUint8, VUint 200)], ip_subs = {}, ip_prepared = None\<rparr>) = (Some (Inr accs), h) \<and>
    run_ip_ops (ic_json toy_ip) (ip_serve toy_ip) h
      [IWrite [((1, 9), VUint 7), ((1, 10), VUint 3)], IRead [(1, 9)], ITimed 1 9 (VUint 8) 100, IRead [(1, 9)], ISubscribe 1 9] =
      ([RDone (Some (Inl (HModel (CharacteristicStatus 1 10 (-70409))))), RValues (Some (Inr [((1, 9), VUint 7)])),
        RDone (Some (Inr ())), RValues (Some (Inr [((1, 9), VUint 8)])), RDone (Some (Inr ()))], h') \<and>
    ip_store (ih_conn h') = [(1, 9) \<mapsto> (FUint8, VUint 8)] \<and> ip_subs (ih_conn h') = {(1, 9)}"
proof -
  let ?st = "[(1, 9) \<mapsto> (FUint8, VUint 200)] :: char_store"
  let ?ops = "[IWrite [((1, 9), VUint 7), ((1, 10), VUint 3)], IRead [(1, 9)], ITimed 1 9 (VUint 8) 100, IRead [(1, 9)], ISubscribe 1 9]"
  have "Uuid_parse (ascii ''43'') = Inr (Uuid (base_uuid ''00000043''))"
    "Uuid_parse (ascii ''8'') = Inr (Uuid (base_uuid ''00000008''))"
    by code_simp+
  then obtain accs where accs: "parse_accessories (ic_json toy_ip) (ic_database toy_ip) = Inr accs" "format_map accs = [((1, 9), FUint8)]"
    by (simp add: parse_accessories_def toy_ip_def toy_json_def wire_accessory_def wire_service_def wire_characteristic_def
        Uuid_deserialize_def convert_service_def convert_characteristic_def value_from_json_def
        uint_from_json_def uint_max_def value_as_def format_map_def)
  have fits: "value_fits toy_ip FUint8 (VUint n)" if "unat n < 256" for n
    using that by (simp add: value_fits_def toy_ip_def)
  have "store_fits toy_ip (map_of (format_map accs)) ?st" using accs(2) fits [of 200] by (auto simp: store_fits_def)
  moreover have "list_all (ip_op_ok toy_ip (map_of (format_map accs))) ?ops"
    using accs(2) fits [of 7] fits [of 8] by (simp add: writes_fit_def) (simp add: toy_ip_def)
  ultimately obtain h h' where "ip_accessories (ic_json toy_ip) (ip_serve toy_ip)
      (IpHandle_build \<lparr>ip_store = ?st, ip_subs = {}, ip_prepared = None\<rparr>) = (Some (Inr accs), h)"
    "run_ip_ops (ic_json toy_ip) (ip_serve toy_ip) h ?ops = (fst (spec_ip_ops (?st, {}) ?ops), h')"
    "(ip_store (ih_conn h'), ip_subs (ih_conn h')) = snd (spec_ip_ops (?st, {}) ?ops)"
    using ip_client_refines_store [OF toy_ip_laws accs(1), of ?st ?ops None] by blast
  then show ?thesis
    by (intro exI [of _ h] exI [of _ h'] exI [of _ accs]) (simp add: first_unknown_def spec_put_def status_unknown_def)
qed

end
