(* ===== verification/Pairings.thy ===== *)
theory Pairings
  imports Ip_Pairing
begin

text \<open>
  Managing an accessory's pairings over a session, \<open>hap-pairing/src/pairings.rs\<close>: the three requests,
  the two reply decoders, and a refinement to a table of pairings.  The session is a state with the
  exchange function of \<open>PairingSession\<close>.
\<close>

section \<open>The code\<close>

definition PAIRINGS :: str where "PAIRINGS = ascii ''/pairings''"
definition TLV_PERMISSIONS :: u8 where [tlv_types]: "TLV_PERMISSIONS = 0x0B"
definition METHOD_ADD :: u8 where [tlv_types]: "METHOD_ADD = 3"
definition PAIRINGS_METHOD_REMOVE :: u8 where [tlv_types]: "PAIRINGS_METHOD_REMOVE = 4"
definition METHOD_LIST :: u8 where [tlv_types]: "METHOD_LIST = 5"
definition PERM_ADMIN :: u8 where [tlv_types]: "PERM_ADMIN = 1"
definition PERM_USER :: u8 where [tlv_types]: "PERM_USER = 0"

record PairingInfo =
  pi_id :: str
  pi_ltpk :: bytes
  pi_admin :: bool

type_synonym 's pairing_session = "'s \<Rightarrow> str \<Rightarrow> bytes \<Rightarrow> (PairingError + bytes) \<times> 's"

text \<open>The first item of a type, and the check that both reply decoders start with.\<close>

definition find_item :: "u8 \<Rightarrow> tlv_item list \<Rightarrow> bytes option" where
  "find_item ty items = map_option snd (find (\<lambda>(t, _). t = ty) items)"

definition m2_items :: "bytes \<Rightarrow> PairingError + tlv_item list" where
  "m2_items body =
     and_then (map_err PTlv8 (Tlv8Reader_parse body)) (\<lambda>items.
     case find_item ERROR items of
       Some [] \<Rightarrow> Inl (PMalformed ''empty error tlv'')
     | Some (code # _) \<Rightarrow> Inl (PAccessory code)
     | None \<Rightarrow>
         (case find_item STATE items of
            Some (s # _) \<Rightarrow> if s = STATE_M2 then Inr items else Inl (PMalformed ''expected pairings reply state M2'')
          | _ \<Rightarrow> Inl (PMalformed ''expected pairings reply state M2'')))"

definition expect_m2_ok :: "bytes \<Rightarrow> PairingError + unit" where
  "expect_m2_ok body = and_then (m2_items body) (\<lambda>_. Inr ())"

type_synonym pairing_entry = "str option \<times> bytes option \<times> bool option"

definition flush_pairing :: "PairingInfo list \<Rightarrow> pairing_entry \<Rightarrow> PairingError + PairingInfo list \<times> pairing_entry" where
  "flush_pairing out entry =
     (case entry of
        (Some i, Some k, Some a) \<Rightarrow> Inr (out @ [\<lparr>pi_id = i, pi_ltpk = k, pi_admin = a\<rparr>], (None, None, None))
      | (None, None, None) \<Rightarrow> Inr (out, (None, None, None))
      | _ \<Rightarrow> Inl (PMalformed ''incomplete pairing entry''))"

fun list_items :: "tlv_item list \<Rightarrow> PairingInfo list \<Rightarrow> pairing_entry \<Rightarrow> PairingError + PairingInfo list \<times> pairing_entry" where
  "list_items [] out entry = Inr (out, entry)"
| "list_items ((ty, value) # items) out (i, k, a) =
     (if ty = SEPARATOR then and_then (flush_pairing out (i, k, a)) (\<lambda>(out', entry'). list_items items out' entry')
      else if ty = IDENTIFIER then
        and_then (require (utf8_valid value) (PMalformed ''pairing identifier is not utf-8'')) (\<lambda>_.
        list_items items out (Some value, k, a))
      else if ty = PUBLIC_KEY then
        and_then (ok_or (PMalformed ''pairing public key is not 32 bytes'') (try_array 32 value)) (\<lambda>key.
        list_items items out (i, Some key, a))
      else if ty = TLV_PERMISSIONS then
        list_items items out (i, k, Some (and (case value of [] \<Rightarrow> 0 | b # _ \<Rightarrow> b) PERM_ADMIN \<noteq> 0))
      else list_items items out (i, k, a))"

definition parse_list_reply :: "bytes \<Rightarrow> PairingError + PairingInfo list" where
  "parse_list_reply body =
     and_then (m2_items body) (\<lambda>items.
     and_then (list_items items [] (None, None, None)) (\<lambda>(out, entry).
     and_then (flush_pairing out entry) (\<lambda>(out', _). Inr out')))"

definition add_request :: "str \<Rightarrow> bytes \<Rightarrow> bool \<Rightarrow> bytes" where
  "add_request ident key admin =
     push_u8 (Tlv8Writer_push (Tlv8Writer_push (push_u8 (push_u8 [] STATE STATE_M1) METHOD METHOD_ADD) IDENTIFIER ident)
       PUBLIC_KEY key) TLV_PERMISSIONS (if admin then PERM_ADMIN else PERM_USER)"

definition PairingsAdmin_add :: "'s pairing_session \<Rightarrow> 's \<Rightarrow> str \<Rightarrow> bytes \<Rightarrow> bool \<Rightarrow> (PairingError + unit) \<times> 's" where
  "PairingsAdmin_add post s ident key admin =
     (let (reply, s') = post s PAIRINGS (add_request ident key admin) in (and_then reply expect_m2_ok, s'))"

definition PairingsAdmin_remove :: "'s pairing_session \<Rightarrow> 's \<Rightarrow> str \<Rightarrow> (PairingError + unit) \<times> 's" where
  "PairingsAdmin_remove post s ident =
     (let body = Tlv8Writer_push (push_u8 (push_u8 [] STATE STATE_M1) METHOD PAIRINGS_METHOD_REMOVE) IDENTIFIER ident;
          (reply, s') = post s PAIRINGS body in
      (and_then reply expect_m2_ok, s'))"

definition PairingsAdmin_list :: "'s pairing_session \<Rightarrow> 's \<Rightarrow> (PairingError + PairingInfo list) \<times> 's" where
  "PairingsAdmin_list post s =
     (let body = push_u8 (push_u8 [] STATE STATE_M1) METHOD METHOD_LIST;
          (reply, s') = post s PAIRINGS body in
      (and_then reply parse_list_reply, s'))"

text \<open>\<open>PairingSession\<close> for \<open>SecureSession\<close>: the state is the writer and what the reader task delivered.\<close>

definition session_post_tlv8 :: "prims \<Rightarrow> (nat \<Rightarrow> bool) \<Rightarrow> (WriterState \<times> reader_out list) pairing_session" where
  "session_post_tlv8 P io s path body =
     (let (w, rx) = s;
          (resp, wire, w', rx') = SecureSession_request P io w rx (ascii ''POST'') path PAIRING_TLV8 body in
      (map_err PTransport (and_then resp (\<lambda>r. Inr (resp_body r))), (w', rx')))"

section \<open>The table\<close>

text \<open>The contract: a table of pairings, a request rejected with a code, or the change it asks for.  The
  accessory below keeps such a table; \<open>may\<close> is its own policy, a code for each request it rejects.\<close>

datatype admin_op = Add str bytes bool | Remove str | ListAll

type_synonym pairing_table = "PairingInfo list"

definition table_set :: "pairing_table \<Rightarrow> PairingInfo \<Rightarrow> pairing_table" where
  "table_set t p =
     (if pi_id p \<in> pi_id ` set t then map (\<lambda>q. if pi_id q = pi_id p then p else q) t else t @ [p])"

fun table_op :: "pairing_table \<Rightarrow> admin_op \<Rightarrow> pairing_table" where
  "table_op t (Add i k a) = table_set t \<lparr>pi_id = i, pi_ltpk = k, pi_admin = a\<rparr>"
| "table_op t (Remove i) = filter (\<lambda>q. pi_id q \<noteq> i) t"
| "table_op t ListAll = t"

type_synonym policy = "pairing_table \<Rightarrow> admin_op \<Rightarrow> u8 option"

datatype admin_result = Acked "PairingError + unit" | Listed "PairingError + PairingInfo list"

fun spec_result :: "policy \<Rightarrow> pairing_table \<Rightarrow> admin_op \<Rightarrow> admin_result" where
  "spec_result may t ListAll = Listed (case may t ListAll of None \<Rightarrow> Inr t | Some c \<Rightarrow> Inl (PAccessory c))"
| "spec_result may t op = Acked (case may t op of None \<Rightarrow> Inr () | Some c \<Rightarrow> Inl (PAccessory c))"

definition spec_table :: "policy \<Rightarrow> pairing_table \<Rightarrow> admin_op \<Rightarrow> pairing_table" where
  "spec_table may t op = (if may t op = None then table_op t op else t)"

definition info_items :: "PairingInfo \<Rightarrow> tlv_item list" where
  "info_items p =
     [(IDENTIFIER, pi_id p), (PUBLIC_KEY, pi_ltpk p), (TLV_PERMISSIONS, [if pi_admin p then PERM_ADMIN else PERM_USER])]"

fun group_items :: "pairing_table \<Rightarrow> tlv_item list" where
  "group_items [] = []"
| "group_items [p] = info_items p"
| "group_items (p # q # t) = info_items p @ (SEPARATOR, []) # group_items (q # t)"

definition read_op :: "tlv_item list \<Rightarrow> admin_op option" where
  "read_op items =
     (case (find_item METHOD items, find_item IDENTIFIER items, find_item PUBLIC_KEY items, find_item TLV_PERMISSIONS items) of
        (Some [m], Some i, Some k, Some [p]) \<Rightarrow> if m = METHOD_ADD then Some (Add i k (p = PERM_ADMIN)) else None
      | (Some [m], Some i, None, None) \<Rightarrow> if m = PAIRINGS_METHOD_REMOVE then Some (Remove i) else None
      | (Some [m], None, None, None) \<Rightarrow> if m = METHOD_LIST then Some ListAll else None
      | _ \<Rightarrow> None)"

definition admin_accessory :: "policy \<Rightarrow> pairing_table pairing_session" where
  "admin_accessory may t path body =
     (case Tlv8Reader_parse body of
        Inl _ \<Rightarrow> (Inl (PTransport ConnectionClosed), t)
      | Inr items \<Rightarrow>
          (case read_op items of
             None \<Rightarrow> (Inl (PTransport ConnectionClosed), t)
           | Some op \<Rightarrow>
               (Inr (enc_items ((STATE, [STATE_M2]) #
                  (case may t op of
                     Some c \<Rightarrow> [(ERROR, [c])]
                   | None \<Rightarrow> if op = ListAll then group_items t else []))),
                spec_table may t op)))"

fun run_admin :: "'s pairing_session \<Rightarrow> 's \<Rightarrow> admin_op \<Rightarrow> admin_result \<times> 's" where
  "run_admin post s (Add i k a) = (let (r, s') = PairingsAdmin_add post s i k a in (Acked r, s'))"
| "run_admin post s (Remove i) = (let (r, s') = PairingsAdmin_remove post s i in (Acked r, s'))"
| "run_admin post s ListAll = (let (r, s') = PairingsAdmin_list post s in (Listed r, s'))"

fun run_admins :: "'s pairing_session \<Rightarrow> 's \<Rightarrow> admin_op list \<Rightarrow> admin_result list \<times> 's" where
  "run_admins post s [] = ([], s)"
| "run_admins post s (op # ops) =
     (let (r, s') = run_admin post s op; (rs, s'') = run_admins post s' ops in (r # rs, s''))"

fun spec_admins :: "policy \<Rightarrow> pairing_table \<Rightarrow> admin_op list \<Rightarrow> admin_result list \<times> pairing_table" where
  "spec_admins may t [] = ([], t)"
| "spec_admins may t (op # ops) =
     (let (rs, t') = spec_admins may (spec_table may t op) ops in (spec_result may t op # rs, t'))"

section \<open>Requests and replies\<close>

text \<open>What the types \<open>&str\<close> and \<open>[u8; 32]\<close> of the source guarantee.\<close>

definition info_ok :: "PairingInfo \<Rightarrow> bool" where
  "info_ok p \<longleftrightarrow> utf8_valid (pi_id p) \<and> length (pi_ltpk p) = 32"

fun admin_op_ok :: "admin_op \<Rightarrow> bool" where
  "admin_op_ok (Add i k a) \<longleftrightarrow> utf8_valid i \<and> length k = 32"
| "admin_op_ok _ \<longleftrightarrow> True"

lemma find_item_simps [simp]:
  "find_item ty [] = None" "find_item ty ((t, v) # items) = (if t = ty then Some v else find_item ty items)"
  by (simp_all add: find_item_def)

lemma group_types: "fst ` set (group_items t) \<subseteq> {IDENTIFIER, PUBLIC_KEY, TLV_PERMISSIONS, SEPARATOR}"
  by (induction t rule: group_items.induct) (auto simp: info_items_def)

lemma find_item_notin: "ty \<notin> fst ` set items \<Longrightarrow> find_item ty items = None"
  by (induction items) auto

lemma group_no_error: "find_item ERROR (group_items t) = None"
  using group_types [of t] by (intro find_item_notin) (auto simp: tlv_types SEPARATOR_def)

lemma group_separators: "separators_short (group_items t)"
  by (induction t rule: group_items.induct) (auto simp: info_items_def tlv_types SEPARATOR_def)

lemma list_items_info:
  assumes "info_ok p"
  shows "list_items (info_items p @ items) out (None, None, None) =
    list_items items out (Some (pi_id p), Some (pi_ltpk p), Some (pi_admin p))"
  using assms by (simp add: info_items_def info_ok_def tlv_types SEPARATOR_def)

lemma list_items_groups:
  assumes "list_all info_ok t"
  shows "and_then (list_items (group_items t) out (None, None, None)) (\<lambda>(out, entry). flush_pairing out entry) =
    Inr (out @ t, (None, None, None))"
  using assms
proof (induction t arbitrary: out rule: group_items.induct)
  case 1
  then show ?case by (simp add: flush_pairing_def)
next
  case (2 p)
  then show ?case using list_items_info [of p "[]" out] by (simp add: flush_pairing_def)
next
  case (3 p q t)
  then show ?case
    using list_items_info [of p "(SEPARATOR, []) # group_items (q # t)" out] by (simp add: flush_pairing_def)
qed

lemma m2_reply:
  assumes "separators_short items" and "find_item ERROR items = None"
  shows "m2_items (enc_items ((STATE, [STATE_M2]) # items)) = Inr ((STATE, [STATE_M2]) # items)"
  using assms by (simp add: m2_items_def tlv_types SEPARATOR_def)

lemma m2_rejected: "m2_items (enc_items [(STATE, [STATE_M2]), (ERROR, [c])]) = Inl (PAccessory c)"
  by (simp add: m2_items_def tlv_types SEPARATOR_def)

lemma parse_list_groups:
  assumes "list_all info_ok t"
  shows "parse_list_reply (enc_items ((STATE, [STATE_M2]) # group_items t)) = Inr t"
proof -
  have "list_items ((STATE, [STATE_M2]) # group_items t) [] (None, None, None) = list_items (group_items t) [] (None, None, None)"
    by (simp add: tlv_types SEPARATOR_def)
  then show ?thesis
    using list_items_groups [OF assms, of "[]"]
    by (auto simp: parse_list_reply_def m2_reply [OF group_separators group_no_error] result_simps)
qed

lemma read_requests:
  "and_then (Tlv8Reader_parse (add_request i k a)) (\<lambda>items. Inr (read_op items)) = Inr (Some (Add i k a))"
  "and_then (Tlv8Reader_parse (Tlv8Writer_push (push_u8 (push_u8 [] STATE STATE_M1) METHOD PAIRINGS_METHOD_REMOVE) IDENTIFIER i))
     (\<lambda>items. Inr (read_op items)) = Inr (Some (Remove i))"
  "and_then (Tlv8Reader_parse (push_u8 (push_u8 [] STATE STATE_M1) METHOD METHOD_LIST)) (\<lambda>items. Inr (read_op items)) = Inr (Some ListAll)"
  by (simp_all add: add_request_def tlv_build read_op_def tlv_types SEPARATOR_def)

lemma admin_accessory_reads:
  assumes "and_then (Tlv8Reader_parse body) (\<lambda>items. Inr (read_op items)) = Inr (Some op)"
  shows "admin_accessory may t path body =
    (Inr (enc_items ((STATE, [STATE_M2]) #
       (case may t op of Some c \<Rightarrow> [(ERROR, [c])] | None \<Rightarrow> if op = ListAll then group_items t else []))), spec_table may t op)"
  using assms by (auto simp: admin_accessory_def result_simps)

lemma run_admin_refines:
  assumes "list_all info_ok t"
  shows "run_admin (admin_accessory may) t op = (spec_result may t op, spec_table may t op)"
  using m2_reply [of "[]"]
  by (cases op)
    (simp_all add: PairingsAdmin_add_def PairingsAdmin_remove_def PairingsAdmin_list_def admin_accessory_reads [OF read_requests(1)]
      admin_accessory_reads [OF read_requests(2)] admin_accessory_reads [OF read_requests(3)] expect_m2_ok_def
      parse_list_groups [OF assms] m2_rejected parse_list_reply_def [of "enc_items [(STATE, [STATE_M2]), (ERROR, [_])]"]
      split: option.splits)

lemma spec_table_ok: "list_all info_ok t \<Longrightarrow> admin_op_ok op \<Longrightarrow> list_all info_ok (spec_table may t op)"
  by (cases op) (auto simp: spec_table_def table_set_def info_ok_def list_all_iff)

section \<open>Properties\<close>

text \<open>C16. Managing pairings over a session acts like operations on the accessory's table of pairings: for any
  sequence of add, remove and list, every operation returns what the table says, a list returns
  exactly the table with its identifiers, keys and permissions, a request the accessory rejects is
  reported with its code and changes nothing, and the final table is that of the contract.\<close>

theorem pairings_admin_refines_table:
  assumes "list_all info_ok t" and "list_all admin_op_ok ops"
  shows "run_admins (admin_accessory may) t ops = spec_admins may t ops"
  using assms
proof (induction ops arbitrary: t)
  case (Cons op ops)
  then show ?case using spec_table_ok [of t op may] by (simp add: run_admin_refines)
qed simp

theorem pairings_admin_refines_table_witness:
  "run_admins (admin_accessory (\<lambda>_ op. if op = Remove (ascii ''b'') then Some 2 else None)) []
     [Add (ascii ''a'') (replicate 32 1) True, Remove (ascii ''b''), ListAll] =
   ([Acked (Inr ()), Acked (Inl (PAccessory 2)), Listed (Inr [\<lparr>pi_id = ascii ''a'', pi_ltpk = replicate 32 1, pi_admin = True\<rparr>])],
    [\<lparr>pi_id = ascii ''a'', pi_ltpk = replicate 32 1, pi_admin = True\<rparr>])"
  by (subst pairings_admin_refines_table)
    (simp_all add: spec_table_def table_set_def ascii_def in_range_def)

end
