(* ===== verification/Store_Format.thy ===== *)
theory Store_Format
  imports Pairing_Store
begin

text \<open>
  A concrete document format that satisfies the law the store relies on, and the store's properties
  at concrete inputs: strings and lists have a byte before each element, addresses are a byte and a port.
\<close>

section \<open>The format\<close>

definition codec :: "('x \<Rightarrow> bytes) \<Rightarrow> (bytes \<Rightarrow> ('x \<times> bytes) option) \<Rightarrow> bool" where
  "codec p g \<longleftrightarrow> (\<forall>x r. g (p x @ r) = Some (x, r))"

definition put_opt :: "('x \<Rightarrow> bytes) \<Rightarrow> 'x option \<Rightarrow> bytes" where
  "put_opt p v = (case v of None \<Rightarrow> [0] | Some x \<Rightarrow> 1 # p x)"

definition get_opt :: "(bytes \<Rightarrow> ('x \<times> bytes) option) \<Rightarrow> bytes \<Rightarrow> ('x option \<times> bytes) option" where
  "get_opt g bs =
     (case bs of [] \<Rightarrow> None | t # r \<Rightarrow> if t = 0 then Some (None, r) else map_option (\<lambda>(x, r'). (Some x, r')) (g r))"

definition put_list :: "('x \<Rightarrow> bytes) \<Rightarrow> 'x list \<Rightarrow> bytes" where
  "put_list p xs = concat (map (\<lambda>x. 1 # p x) xs) @ [0]"

fun get_items :: "(bytes \<Rightarrow> ('x \<times> bytes) option) \<Rightarrow> nat \<Rightarrow> bytes \<Rightarrow> ('x list \<times> bytes) option" where
  "get_items g (Suc n) (t # r) =
     (if t = 0 then Some ([], r)
      else case g r of None \<Rightarrow> None | Some (x, r') \<Rightarrow> map_option (\<lambda>(xs, r''). (x # xs, r'')) (get_items g n r'))"
| "get_items g _ _ = None"

definition get_list :: "(bytes \<Rightarrow> ('x \<times> bytes) option) \<Rightarrow> bytes \<Rightarrow> ('x list \<times> bytes) option" where
  "get_list g bs = get_items g (length bs) bs"

definition put_pair :: "('x \<Rightarrow> bytes) \<Rightarrow> ('y \<Rightarrow> bytes) \<Rightarrow> 'x \<times> 'y \<Rightarrow> bytes" where
  "put_pair p q xy = p (fst xy) @ q (snd xy)"

definition get_pair :: "(bytes \<Rightarrow> ('x \<times> bytes) option) \<Rightarrow> (bytes \<Rightarrow> ('y \<times> bytes) option) \<Rightarrow> bytes \<Rightarrow> (('x \<times> 'y) \<times> bytes) option" where
  "get_pair g h bs =
     (case g bs of None \<Rightarrow> None | Some (x, r) \<Rightarrow> map_option (\<lambda>(y, r'). ((x, y), r')) (h r))"

definition get_byte :: "bytes \<Rightarrow> (u8 \<times> bytes) option" where
  "get_byte bs = (case bs of [] \<Rightarrow> None | b # r \<Rightarrow> Some (b, r))"

definition get_u16_le :: "bytes \<Rightarrow> (u16 \<times> bytes) option" where
  "get_u16_le bs = (case bs of a # b # r \<Rightarrow> Some (u16_from_le a b, r) | _ \<Rightarrow> None)"

definition get_u32_le :: "bytes \<Rightarrow> (u32 \<times> bytes) option" where
  "get_u32_le bs = Some (of_nat (le_val (take 4 bs)), drop 4 bs)"

lemma codecs:
  "codec (\<lambda>b. [b]) get_byte" "codec u16_to_le get_u16_le" "codec u32_to_le get_u32_le"
proof -
  show "codec u16_to_le get_u16_le"
    unfolding codec_def
  proof (intro allI)
    fix v r
    obtain a b where "u16_to_le v = [a, b]" "u16_from_le a b = v" using u16_to_le_Cons by blast
    then show "get_u16_le (u16_to_le v @ r) = Some (v, r)" by (simp add: get_u16_le_def)
  qed
qed (simp_all add: codec_def get_byte_def get_u32_le_def)

lemma codec_opt: "codec p g \<Longrightarrow> codec (put_opt p) (get_opt g)"
  by (auto simp: codec_def put_opt_def get_opt_def split: option.splits)

lemma codec_pair: "codec p g \<Longrightarrow> codec q h \<Longrightarrow> codec (put_pair p q) (get_pair g h)"
  by (simp add: codec_def put_pair_def get_pair_def)

lemma codec_list:
  assumes "codec p g"
  shows "codec (put_list p) (get_list g)"
proof -
  have get: "get_items g (Suc n) (put_list p xs @ r) = Some (xs, r)" if "length xs \<le> n" for n xs r
    using that
  proof (induction xs arbitrary: n)
    case (Cons x xs)
    then obtain m where "n = Suc m" "length xs \<le> m" by (cases n) auto
    then show ?case using Cons.IH [of m] assms by (simp add: put_list_def codec_def)
  qed (simp add: put_list_def)
  have "length xs < length (put_list p xs @ r)" for xs r by (induction xs) (auto simp: put_list_def)
  then show ?thesis using get by (metis codec_def get_list_def less_iff_Suc_add le_add1)
qed

type_synonym toy_addr = "u8 \<times> u16"
type_synonym transport_tuple = "toy_addr option \<times> (str \<times> (str \<times> u16) option) option"
type_synonym doc_tuple = "u32 option \<times> (str \<times> str) option \<times> (str \<times> str \<times> transport_tuple option \<times> toy_addr option) list"

definition transport_tuple :: "toy_addr TransportRecord \<Rightarrow> transport_tuple" where
  "transport_tuple t =
     (case t of
        IpRecord a \<Rightarrow> (Some a, None)
      | BleRecord d b \<Rightarrow> (None, Some (d, map_option (\<lambda>r. (br_key_hex r, br_gsn r)) b)))"

definition transport_of_tuple :: "transport_tuple \<Rightarrow> toy_addr TransportRecord" where
  "transport_of_tuple t =
     (case t of
        (_, Some (d, b)) \<Rightarrow> BleRecord d (map_option (\<lambda>(k, g). \<lparr>br_key_hex = k, br_gsn = g\<rparr>) b)
      | (Some a, None) \<Rightarrow> IpRecord a
      | (None, None) \<Rightarrow> IpRecord (0, 0))"

definition doc_tuple :: "toy_addr Document \<Rightarrow> doc_tuple" where
  "doc_tuple doc =
     (doc_version doc, map_option (\<lambda>r. (cr_id r, cr_signing_key_hex r)) (doc_controller doc),
      map (\<lambda>r. (ar_id r, ar_ltpk_hex r, map_option transport_tuple (ar_transport r), ar_addr r)) (doc_accessories doc))"

definition doc_of_tuple :: "doc_tuple \<Rightarrow> toy_addr Document" where
  "doc_of_tuple = (\<lambda>(v, c, accs).
     \<lparr>doc_version = v, doc_controller = map_option (\<lambda>(i, k). \<lparr>cr_id = i, cr_signing_key_hex = k\<rparr>) c,
      doc_accessories =
        map (\<lambda>(i, k, t, a). \<lparr>ar_id = i, ar_ltpk_hex = k, ar_transport = map_option transport_of_tuple t, ar_addr = a\<rparr>) accs\<rparr>)"

abbreviation put_str :: "str \<Rightarrow> bytes" where "put_str \<equiv> put_list (\<lambda>b. [b])"
abbreviation get_str :: "bytes \<Rightarrow> (str \<times> bytes) option" where "get_str \<equiv> get_list get_byte"

abbreviation put_addr :: "toy_addr \<Rightarrow> bytes" where "put_addr \<equiv> put_pair (\<lambda>b. [b]) u16_to_le"
abbreviation get_addr :: "bytes \<Rightarrow> (toy_addr \<times> bytes) option" where "get_addr \<equiv> get_pair get_byte get_u16_le"

definition put_doc :: "doc_tuple \<Rightarrow> bytes" where
  "put_doc = put_pair (put_opt u32_to_le) (put_pair (put_opt (put_pair put_str put_str))
     (put_list (put_pair put_str (put_pair put_str (put_pair
        (put_opt (put_pair (put_opt put_addr) (put_opt (put_pair put_str (put_opt (put_pair put_str u16_to_le))))))
        (put_opt put_addr))))))"

definition get_doc :: "bytes \<Rightarrow> (doc_tuple \<times> bytes) option" where
  "get_doc = get_pair (get_opt get_u32_le) (get_pair (get_opt (get_pair get_str get_str))
     (get_list (get_pair get_str (get_pair get_str (get_pair
        (get_opt (get_pair (get_opt get_addr) (get_opt (get_pair get_str (get_opt (get_pair get_str get_u16_le))))))
        (get_opt get_addr))))))"

definition toy_doc_lib :: "toy_addr doc_lib" where
  "toy_doc_lib =
     \<lparr>doc_to_vec = (\<lambda>doc. Inr (put_doc (doc_tuple doc))),
      doc_from_slice = (\<lambda>bs. case get_doc bs of None \<Rightarrow> Inl [] | Some (d, _) \<Rightarrow> Inr (doc_of_tuple d))\<rparr>"

lemma doc_of_tuple_tuple: "doc_of_tuple (doc_tuple doc) = doc"
proof -
  have t: "transport_of_tuple (transport_tuple t) = t" for t
  proof (cases t)
    case (BleRecord d b)
    then show ?thesis by (cases b) (simp_all add: transport_tuple_def transport_of_tuple_def)
  qed (simp add: transport_tuple_def transport_of_tuple_def)
  have c: "map_option (\<lambda>x. \<lparr>cr_id = cr_id x, cr_signing_key_hex = cr_signing_key_hex x\<rparr>) y = y" for y by (cases y) simp_all
  have a: "map (\<lambda>x. \<lparr>ar_id = ar_id x, ar_ltpk_hex = ar_ltpk_hex x, ar_transport = ar_transport x, ar_addr = ar_addr x\<rparr>) ys = ys"
    for ys :: "toy_addr AccessoryRecord list" by (rule map_idI) simp
  show ?thesis
    by (simp add: doc_tuple_def doc_of_tuple_def comp_def option.map_comp t c a option.map_ident)
qed

lemma toy_doc_laws: "doc_laws toy_doc_lib"
proof -
  have "codec put_doc get_doc" unfolding put_doc_def get_doc_def by (intro codec_pair codec_opt codec_list codecs)
  then have "get_doc (put_doc d) = Some (d, [])" for d using codec_def [of put_doc get_doc] by (metis append_Nil2)
  then show ?thesis by (simp add: doc_laws_def toy_doc_lib_def doc_of_tuple_tuple)
qed

lemma toy_store_empty: "store_holds toy_doc_lib \<lparr>fs_file = None, fs_tmp = None\<rparr> (None, [])"
  by (simp add: store_holds_def toy_doc_laws)

definition toy_stored :: "toy_addr StoredAccessory" where
  "toy_stored = \<lparr>sa_pairing = \<lparr>pairing_id = ascii ''acc'', acc_ltpk = replicate 32 1\<rparr>, sa_transport = Ble (replicate 6 2) None\<rparr>"

definition toy_broadcast :: StoredBroadcast where
  "toy_broadcast = \<lparr>sb_key = replicate 32 3, sb_gsn = 4\<rparr>"

lemma toy_ok: "acc_ok toy_stored" "length (sb_key toy_broadcast) = 32"
  by (simp_all add: acc_ok_def toy_stored_def toy_broadcast_def)

theorem store_refines_table_witness:
  "\<exists>e fs'. run_store_ops toy_doc_lib \<lparr>fs_file = None, fs_tmp = None\<rparr>
       [(SavePairing toy_stored, no_fault), (DeletePairing (ascii ''acc''), \<lparr>io_read = None, io_write = Some (SyncFails (ascii ''full''))\<rparr>),
        (SaveBroadcast (ascii ''acc'') toy_broadcast, no_fault)] = ([Inr (), Inl e, Inr ()], fs') \<and>
     load_controller toy_doc_lib no_fault fs' = Inr None \<and>
     load_pairings toy_doc_lib no_fault fs' = Inr [toy_stored\<lparr>sa_transport := Ble (replicate 6 2) (Some toy_broadcast)\<rparr>]"
proof -
  let ?flt = "\<lparr>io_read = None, io_write = Some (SyncFails (ascii ''full''))\<rparr>"
  let ?ops = "[(SavePairing toy_stored, no_fault), (DeletePairing (ascii ''acc''), ?flt), (SaveBroadcast (ascii ''acc'') toy_broadcast, no_fault)]"
  have fails: "\<exists>e fs'. delete_pairing toy_doc_lib ?flt fs i = (Inl e, fs')" for fs i
    by (cases "read_doc toy_doc_lib ?flt fs") (simp_all add: delete_pairing_def rewrite_doc_def write_doc_def toy_doc_lib_def)
  obtain rs fs' where r: "run_store_ops toy_doc_lib \<lparr>fs_file = None, fs_tmp = None\<rparr> ?ops = (rs, fs')" by fastforce
  have ok: "list_all (\<lambda>(op, _). store_op_ok op) ?ops" using toy_ok by simp
  note t = store_refines_table [OF toy_store_empty ok r]
  obtain a b c where abc: "rs = [a, b, c]" using t by (auto simp: list_all2_Cons1)
  then have "a = Inr ()" "c = Inr ()" using t by auto
  moreover obtain e where "b = Inl e" using r abc fails by (auto split: prod.splits) (metis Pair_inject)
  ultimately have "rs = [Inr (), Inl e, Inr ()]" using abc by simp
  then show ?thesis
    using r t by (auto simp: upsert_def set_broadcast_def put_broadcast_def toy_stored_def)
qed

theorem broadcast_update_equals_default_witness:
  "\<exists>fs1 fs2. save_broadcast_state toy_doc_lib no_fault \<lparr>fs_file = None, fs_tmp = None\<rparr> (ascii ''acc'') toy_broadcast = (Inr (), fs1) \<and>
     load_pairings toy_doc_lib no_fault fs1 = Inr [] \<and>
     default_save_broadcast_state (load_pairings toy_doc_lib no_fault) (save_pairing toy_doc_lib no_fault)
       \<lparr>fs_file = None, fs_tmp = None\<rparr> (ascii ''acc'') toy_broadcast = (Inr (), fs2) \<and>
     load_pairings toy_doc_lib no_fault fs2 = Inr []"
proof -
  let ?fs = "\<lparr>fs_file = None, fs_tmp = None\<rparr>"
  obtain r fs1 where 1: "save_broadcast_state toy_doc_lib no_fault ?fs (ascii ''acc'') toy_broadcast = (r, fs1)" by fastforce
  obtain r' fs2 where 2: "default_save_broadcast_state (load_pairings toy_doc_lib no_fault) (save_pairing toy_doc_lib no_fault) ?fs
      (ascii ''acc'') toy_broadcast = (r', fs2)" by fastforce
  show ?thesis
    using broadcast_update_equals_default [OF toy_store_empty toy_ok(2) 1 2] 1 2 by (simp add: set_broadcast_def)
qed

end
