(* ===== verification/Controller.thy ===== *)
theory Controller
  imports Ip_Handle Pairings Store_Format
begin

text \<open>
  The entry point of the library, \<open>HapController\<close> of \<open>hap-controller/src/controller.rs\<close>, over any
  \<open>PairingStore\<close>: opening, pairing on either transport, connecting, removing and forgetting, administration
  of an accessory's pairings and persistence, composed from the pairing drivers, the store and the two
  transports.  A store is a state and a record of operations; what the network answers during an
  operation is an argument.  A reply is \<open>None\<close> if the operation never returns or panics.
\<close>

section \<open>The store and the network\<close>

record ('a, 's) store_ops =
  so_load_controller :: "'s \<Rightarrow> (PairingError + ControllerKeypair option) \<times> 's"
  so_save_controller :: "'s \<Rightarrow> ControllerKeypair \<Rightarrow> (PairingError + unit) \<times> 's"
  so_load_pairings :: "'s \<Rightarrow> (PairingError + 'a StoredAccessory list) \<times> 's"
  so_save_pairing :: "'s \<Rightarrow> 'a StoredAccessory \<Rightarrow> (PairingError + unit) \<times> 's"
  so_delete_pairing :: "'s \<Rightarrow> str \<Rightarrow> (PairingError + unit) \<times> 's"
  so_save_broadcast :: "'s \<Rightarrow> str \<Rightarrow> StoredBroadcast \<Rightarrow> (PairingError + unit) \<times> 's"

text \<open>The JSON file, with the failure that each next operation meets.\<close>

definition next_fault :: "io_fault list \<Rightarrow> io_fault" where
  "next_fault flts = (case flts of [] \<Rightarrow> no_fault | flt # _ \<Rightarrow> flt)"

definition json_store :: "'a doc_lib \<Rightarrow> ('a, store_fs \<times> io_fault list) store_ops" where
  "json_store L =
     (let change = (\<lambda>f (fs, flts). let (r, fs') = f (next_fault flts) fs in (r, (fs', tl flts))) in
      \<lparr>so_load_controller = (\<lambda>(fs, flts). (load_controller L (next_fault flts) fs, (fs, tl flts))),
       so_save_controller = (\<lambda>s k. change (\<lambda>flt fs. save_controller L flt fs k) s),
       so_load_pairings = (\<lambda>(fs, flts). (load_pairings L (next_fault flts) fs, (fs, tl flts))),
       so_save_pairing = (\<lambda>s a. change (\<lambda>flt fs. save_pairing L flt fs a) s),
       so_delete_pairing = (\<lambda>s i. change (\<lambda>flt fs. delete_pairing L flt fs i) s),
       so_save_broadcast = (\<lambda>s i b. change (\<lambda>flt fs. save_broadcast_state L flt fs i b) s)\<rparr>)"

text \<open>What lies outside during an operation: connections and the peer at their other end, what a browse
  and a scan hear, GATT connections, random bytes, and on a new session the writes that succeed and what
  the reader task delivers.\<close>

record ('i, 'n, 'g) outside =
  out_dial :: "'i \<times> u16 \<Rightarrow> TransportError + 'n tcp"
  out_peer :: "'n tcp_peer"
  out_discovered :: "TransportError + (str \<times> ('i \<times> u16)) list"
  out_scan :: "BleError + DiscoveredBleAccessory list"
  out_gatt :: "DiscoveredBleAccessory \<Rightarrow> BleError + 'g"
  out_rng :: bytes
  out_eph :: bytes
  out_io :: "nat \<Rightarrow> bool"
  out_delivered :: "reader_out list"

datatype ('w, 'g) AccessoryHandle = IpInner "'w IpHandle" | BleInner "'g BleAccessory"

definition reply_of :: "(ip_error + 'b) option \<Rightarrow> 'b reply" where
  "reply_of r =
     (case r of
        Some (Inr x) \<Rightarrow> Some (Inr x)
      | Some (Inl (Failed e)) \<Rightarrow> Some (Inl (HPairing e))
      | _ \<Rightarrow> None)"

section \<open>Opening\<close>

record 's HapController =
  hc_store :: 's
  hc_keypair :: ControllerKeypair
  hc_cached_ids :: "str list"

definition DEFAULT_CONTROLLER_ID :: str where "DEFAULT_CONTROLLER_ID = ascii ''hap-rust-controller''"

definition HapController_new :: "('a, 's) store_ops \<Rightarrow> 's \<Rightarrow> bytes \<Rightarrow> (HapError + 's HapController) \<times> 's" where
  "HapController_new S s seed =
     (let open_with = (\<lambda>kp s.
            let (r, s) = so_load_pairings S s in
            (and_then (map_err HPairing r) (\<lambda>all.
               Inr \<lparr>hc_store = s, hc_keypair = kp, hc_cached_ids = map (\<lambda>a. pairing_id (sa_pairing a)) all\<rparr>), s)) in
      case so_load_controller S s of
        (Inl e, s) \<Rightarrow> (Inl (HPairing e), s)
      | (Inr (Some kp), s) \<Rightarrow> open_with kp s
      | (Inr None, s) \<Rightarrow>
          let kp = from_seed DEFAULT_CONTROLLER_ID seed in
          (case so_save_controller S s kp of
             (Inl e, s) \<Rightarrow> (Inl (HPairing e), s)
           | (Inr _, s) \<Rightarrow> open_with kp s))"

definition paired :: "'s HapController \<Rightarrow> str list" where
  "paired c = hc_cached_ids c"

section \<open>Finding a stored pairing\<close>

definition resolve :: "'a StoredAccessory list \<Rightarrow> str \<Rightarrow> 'a StoredAccessory option" where
  "resolve all accessory_id =
     (case find (\<lambda>a. Rust_Text.eq_ignore_ascii_case (pairing_id (sa_pairing a)) accessory_id) all of
        Some found \<Rightarrow> Some found
      | None \<Rightarrow>
          Option.bind (parse_device_id accessory_id) (\<lambda>bs.
            find (\<lambda>a. case sa_transport a of Ble device_id _ \<Rightarrow> device_id = bs | Ip _ \<Rightarrow> False) all))"

definition load_stored :: "('a, 's) store_ops \<Rightarrow> 's \<Rightarrow> str \<Rightarrow> (HapError + 'a StoredAccessory) \<times> 's" where
  "load_stored S s accessory_id =
     (let (r, s) = so_load_pairings S s in
      (and_then (map_err HPairing r) (\<lambda>all. ok_or (HUnknownAccessory accessory_id) (resolve all accessory_id)), s))"

section \<open>Pairing\<close>

definition save_paired :: "('a, 's) store_ops \<Rightarrow> 's HapController \<Rightarrow> 'a StoredAccessory \<Rightarrow> (HapError + unit) \<times> 's HapController" where
  "save_paired S c stored =
     (case so_save_pairing S (hc_store c) stored of
        (Inl e, s) \<Rightarrow> (Inl (HPairing e), c\<lparr>hc_store := s\<rparr>)
      | (Inr _, s) \<Rightarrow>
          let ident = pairing_id (sa_pairing stored) in
          (Inr (), c\<lparr>hc_store := s,
             hc_cached_ids := (if ident \<in> set (hc_cached_ids c) then hc_cached_ids c else hc_cached_ids c @ [ident])\<rparr>))"

definition pair_ip ::
    "prims \<Rightarrow> bool \<Rightarrow> ('i \<times> u16, 's) store_ops \<Rightarrow> ('i, 'n, 'g) outside \<Rightarrow> 's HapController \<Rightarrow> 'i DiscoveredAccessory \<Rightarrow> str \<Rightarrow>
     ('n ip_session, 'g) AccessoryHandle reply \<times> 's HapController" where
  "pair_ip P oc S X c accessory setup_code =
     (case normalize_setup_digits setup_code of
        Inl e \<Rightarrow> (Some (Inl e), c)
      | Inr normalized \<Rightarrow>
          (case out_dial X (da_addr accessory) of
             Inl e \<Rightarrow> (Some (Inl (HTransport e)), c)
           | Inr conn \<Rightarrow>
               (case reply_of (Ip_Pairing.pair P oc (out_peer X) conn normalized (hc_keypair c) (out_rng X) (out_eph X)) of
                  None \<Rightarrow> (None, c)
                | Some (Inl e) \<Rightarrow> (Some (Inl e), c)
                | Some (Inr (pairing, session)) \<Rightarrow>
                    let stored = \<lparr>sa_pairing = pairing, sa_transport = Ip (da_addr accessory)\<rparr>;
                        (r, c) = save_paired S c stored in
                    (Some (and_then r (\<lambda>_. Inr (IpInner (IpHandle_build session)))), c))))"

definition pair_ble ::
    "prims \<Rightarrow> ('g, 'x) gatt_scheme \<Rightarrow> ('i \<times> u16, 's) store_ops \<Rightarrow> ('i, 'n, 'g) outside \<Rightarrow> 's HapController \<Rightarrow>
     DiscoveredBleAccessory \<Rightarrow> str \<Rightarrow> ('w, 'g) AccessoryHandle reply \<times> 's HapController" where
  "pair_ble P G S X c accessory setup_code =
     (case parse_device_id (db_device_id accessory) of
        None \<Rightarrow> (Some (Inl (HUnknownAccessory (db_device_id accessory))), c)
      | Some device_id \<Rightarrow>
          (case out_gatt X accessory of
             Inl e \<Rightarrow> (Some (Inl (HBle e)), c)
           | Inr g \<Rightarrow>
               (case fst (ble_pair P G g (hc_keypair c) setup_code (out_rng X) (out_eph X)) of
                  Inl e \<Rightarrow> (Some (Inl (HBle e)), c)
                | Inr done \<Rightarrow>
                    let stored = \<lparr>sa_pairing = pd_pairing done,
                          sa_transport = Ble device_id
                            (Some \<lparr>sb_key = bb_key (pd_broadcast done), sb_gsn = bb_gsn (pd_broadcast done)\<rparr>)\<rparr>;
                        (r, c) = save_paired S c stored in
                    (Some (and_then r (\<lambda>_. Inr (BleInner (pd_accessory done)))), c))))"

definition controller_pair ::
    "prims \<Rightarrow> bool \<Rightarrow> ('g, 'x) gatt_scheme \<Rightarrow> ('i \<times> u16, 's) store_ops \<Rightarrow> ('i, 'n, 'g) outside \<Rightarrow> 's HapController \<Rightarrow>
     'i Discovered \<Rightarrow> str \<Rightarrow> ('n ip_session, 'g) AccessoryHandle reply \<times> 's HapController" where
  "controller_pair P oc G S X c accessory setup_code =
     (case accessory of
        DIp ip \<Rightarrow> pair_ip P oc S X c ip setup_code
      | DBle ble \<Rightarrow> pair_ble P G S X c ble setup_code)"

text \<open>The rounds of \<open>pair_with_payload\<close>: what \<open>discover\<close> returned in each, and whether the deadline had passed at
  its end; no more rounds means that the call has not returned yet.\<close>

fun pair_with_payload ::
    "prims \<Rightarrow> bool \<Rightarrow> ('g, 'x) gatt_scheme \<Rightarrow> ('i \<times> u16, 's) store_ops \<Rightarrow> ('i, 'n, 'g) outside \<Rightarrow> 's HapController \<Rightarrow>
     SetupPayload \<Rightarrow> str list option \<Rightarrow> ((HapError + 'i Discovered list) \<times> bool) list \<Rightarrow>
     ('n ip_session, 'g) AccessoryHandle reply \<times> 's HapController" where
  "pair_with_payload P oc G S X c payload last_ambiguous [] = (None, c)"
| "pair_with_payload P oc G S X c payload last_ambiguous ((Inl e, expired) # rounds) = (Some (Inl e), c)"
| "pair_with_payload P oc G S X c payload last_ambiguous ((Inr found, expired) # rounds) =
     (case select_match P found payload of
        One target \<Rightarrow> controller_pair P oc G S X c target (sp_setup_code payload)
      | sel \<Rightarrow>
          let last_ambiguous = (case sel of Ambiguous ids \<Rightarrow> Some ids | _ \<Rightarrow> last_ambiguous) in
          if expired then
            (Some (Inl (case last_ambiguous of Some candidates \<Rightarrow> HAmbiguousMatch candidates | None \<Rightarrow> HNoMatchingAccessory)), c)
          else pair_with_payload P oc G S X c payload last_ambiguous rounds)"

section \<open>Connecting\<close>

definition connect_ip ::
    "prims \<Rightarrow> bool \<Rightarrow> ('i, 'n, 'g) outside \<Rightarrow> ('i \<times> u16) StoredAccessory \<Rightarrow> ControllerKeypair \<Rightarrow> ('n ip_session, 'b) AccessoryHandle reply" where
  "connect_ip P oc X stored keypair =
     map_option (\<lambda>r. and_then r (\<lambda>session. Inr (IpInner (IpHandle_build session))))
       (reply_of (Pairing_Store.connect P oc (out_peer X) (out_dial X) (out_discovered X) stored keypair (out_eph X)))"

definition connect_ble ::
    "prims \<Rightarrow> ('g, 'x) gatt_scheme \<Rightarrow> ('i, 'n, 'g) outside \<Rightarrow> ControllerKeypair \<Rightarrow> 'a StoredAccessory \<Rightarrow> bytes \<Rightarrow> StoredBroadcast option \<Rightarrow>
     HapError + 'g BleAccessory" where
  "connect_ble P G X keypair stored device_id broadcast =
     (let wanted = format_device_id device_id in
      and_then (map_err HBle (out_scan X)) (\<lambda>heard.
      and_then (ok_or (HBle AccessoryNotFound) (find (\<lambda>d. Rust_Text.eq_ignore_ascii_case (db_device_id d) wanted) heard)) (\<lambda>found.
      and_then (map_err HBle (out_gatt X found)) (\<lambda>g.
      let state = map_option (\<lambda>b. \<lparr>bb_key = sb_key b, bb_gsn = sb_gsn b\<rparr>) broadcast in
      map_err HBle (fst (ble_connect P G g keypair (sa_pairing stored) state (out_eph X)))))))"

definition controller_connect ::
    "prims \<Rightarrow> bool \<Rightarrow> ('g, 'x) gatt_scheme \<Rightarrow> ('i \<times> u16, 's) store_ops \<Rightarrow> ('i, 'n, 'g) outside \<Rightarrow> 's HapController \<Rightarrow> str \<Rightarrow>
     ('n ip_session, 'g) AccessoryHandle reply \<times> 's HapController" where
  "controller_connect P oc G S X c accessory_id =
     (let (r, s) = load_stored S (hc_store c) accessory_id in
      (case r of
         Inl e \<Rightarrow> Some (Inl e)
       | Inr stored \<Rightarrow>
           (case sa_transport stored of
              Ip _ \<Rightarrow> connect_ip P oc X stored (hc_keypair c)
            | Ble device_id broadcast \<Rightarrow>
                Some (and_then (connect_ble P G X (hc_keypair c) stored device_id broadcast) (\<lambda>a. Inr (BleInner a)))),
       c\<lparr>hc_store := s\<rparr>))"

definition MAX_SESSION_FAILURES :: nat where "MAX_SESSION_FAILURES = 3"

text \<open>The attempts of the connector, one result each; no more attempts means that it is still waiting.\<close>

definition goes_back_to_listening :: "BleError \<Rightarrow> bool" where
  "goes_back_to_listening e = (case e of AccessoryNotFound \<Rightarrow> True | Disconnected \<Rightarrow> True | Backend _ \<Rightarrow> True | _ \<Rightarrow> False)"

fun connect_ble_when_advertised :: "nat \<Rightarrow> (BleError + 'g BleAccessory) list \<Rightarrow> ('w, 'g) AccessoryHandle reply" where
  "connect_ble_when_advertised session_failures [] = None"
| "connect_ble_when_advertised session_failures (Inr accessory # attempts) = Some (Inr (BleInner accessory))"
| "connect_ble_when_advertised session_failures (Inl e # attempts) =
     (if goes_back_to_listening e then connect_ble_when_advertised session_failures attempts
      else if MAX_SESSION_FAILURES \<le> session_failures + 1 then Some (Inl (HBle e))
      else connect_ble_when_advertised (session_failures + 1) attempts)"

definition connect_when_advertised ::
    "prims \<Rightarrow> bool \<Rightarrow> ('i \<times> u16, 's) store_ops \<Rightarrow> ('i, 'n, 'g) outside \<Rightarrow> 's HapController \<Rightarrow> str \<Rightarrow>
     (bytes \<Rightarrow> AccessoryPairing \<Rightarrow> BleBroadcastState option \<Rightarrow> (BleError + 'g BleAccessory) list) \<Rightarrow>
     ('n ip_session, 'g) AccessoryHandle reply \<times> 's HapController" where
  "connect_when_advertised P oc S X c accessory_id connector =
     (let (r, s) = load_stored S (hc_store c) accessory_id in
      (case r of
         Inl e \<Rightarrow> Some (Inl e)
       | Inr stored \<Rightarrow>
           (case sa_transport stored of
              Ip _ \<Rightarrow> connect_ip P oc X stored (hc_keypair c)
            | Ble device_id broadcast \<Rightarrow>
                connect_ble_when_advertised 0
                  (connector device_id (sa_pairing stored) (map_option (\<lambda>b. \<lparr>bb_key = sb_key b, bb_gsn = sb_gsn b\<rparr>) broadcast))),
       c\<lparr>hc_store := s\<rparr>))"

section \<open>Removing\<close>

definition with_admin ::
    "prims \<Rightarrow> bool \<Rightarrow> ('i, 'n, 'g) outside \<Rightarrow> ControllerKeypair \<Rightarrow> ('i \<times> u16) StoredAccessory \<Rightarrow>
     ((WriterState \<times> reader_out list) pairing_session \<Rightarrow> WriterState \<times> reader_out list \<Rightarrow>
       (PairingError + 'b) \<times> (WriterState \<times> reader_out list)) \<Rightarrow> 'b reply" where
  "with_admin P oc X keypair stored act =
     map_option (\<lambda>r. and_then r (\<lambda>session.
         map_err HPairing (fst (act (session_post_tlv8 P (out_io X)) (ip_writer session, out_delivered X)))))
       (reply_of (Pairing_Store.connect P oc (out_peer X) (out_dial X) (out_discovered X) stored keypair (out_eph X)))"

definition drop_pairing :: "('a, 's) store_ops \<Rightarrow> 's HapController \<Rightarrow> str \<Rightarrow> (HapError + unit) \<times> 's HapController" where
  "drop_pairing S c canonical_id =
     (case so_delete_pairing S (hc_store c) canonical_id of
        (Inl e, s) \<Rightarrow> (Inl (HPairing e), c\<lparr>hc_store := s\<rparr>)
      | (Inr _, s) \<Rightarrow>
          (Inr (), c\<lparr>hc_store := s, hc_cached_ids := filter (\<lambda>i. i \<noteq> canonical_id) (hc_cached_ids c)\<rparr>))"

definition remote_remove ::
    "prims \<Rightarrow> bool \<Rightarrow> ('g, 'x) gatt_scheme \<Rightarrow> ('i \<times> u16, 's) store_ops \<Rightarrow> ('i, 'n, 'g) outside \<Rightarrow> 's HapController \<Rightarrow>
     ('i \<times> u16) StoredAccessory \<Rightarrow> unit reply \<times> 's HapController" where
  "remote_remove P oc G S X c stored =
     (case sa_transport stored of
        Ip _ \<Rightarrow>
          (with_admin P oc X (hc_keypair c) stored (\<lambda>post s. PairingsAdmin_remove post s (kp_id (hc_keypair c))), c)
      | Ble _ _ \<Rightarrow>
          let (handle, c) = controller_connect P oc G S X c (pairing_id (sa_pairing stored)) in
          (map_option (\<lambda>r. and_then r (\<lambda>h.
             case h of
               IpInner _ \<Rightarrow> Inl (HUnsupportedByTransport ''remove_pairing'')
             | BleInner b \<Rightarrow> map_err HBle (fst (ble_remove_pairing P G (out_eph X) b (kp_id (hc_keypair c)))))) handle, c))"

definition remove_pairing ::
    "prims \<Rightarrow> bool \<Rightarrow> ('g, 'x) gatt_scheme \<Rightarrow> ('i \<times> u16, 's) store_ops \<Rightarrow> ('i, 'n, 'g) outside \<Rightarrow> 's HapController \<Rightarrow> str \<Rightarrow>
     unit reply \<times> 's HapController" where
  "remove_pairing P oc G S X c accessory_id =
     (let (r, s) = load_stored S (hc_store c) accessory_id;
          c = c\<lparr>hc_store := s\<rparr> in
      case r of
        Inl e \<Rightarrow> (Some (Inl e), c)
      | Inr stored \<Rightarrow>
          let canonical_id = pairing_id (sa_pairing stored);
              (remote, c) = remote_remove P oc G S X c stored in
          (case remote of
             Some (Inr _) \<Rightarrow> (let (r, c) = drop_pairing S c canonical_id in (Some r, c))
           | _ \<Rightarrow> (remote, c)))"

definition forget_pairing :: "('a, 's) store_ops \<Rightarrow> 's HapController \<Rightarrow> str \<Rightarrow> (HapError + unit) \<times> 's HapController" where
  "forget_pairing S c accessory_id =
     (let (r, s) = load_stored S (hc_store c) accessory_id;
          c = c\<lparr>hc_store := s\<rparr> in
      case r of
        Inr stored \<Rightarrow> drop_pairing S c (pairing_id (sa_pairing stored))
      | Inl (HUnknownAccessory _) \<Rightarrow>
          (Inr (), c\<lparr>hc_cached_ids := filter (\<lambda>i. \<not> Rust_Text.eq_ignore_ascii_case i accessory_id) (hc_cached_ids c)\<rparr>)
      | Inl e \<Rightarrow> (Inl e, c))"

section \<open>Administration\<close>

definition over_ip ::
    "('a, 's) store_ops \<Rightarrow> 's HapController \<Rightarrow> str \<Rightarrow> string \<Rightarrow> ('a StoredAccessory \<Rightarrow> 'b reply) \<Rightarrow> 'b reply \<times> 's HapController" where
  "over_ip S c accessory_id operation act =
     (let (r, s) = load_stored S (hc_store c) accessory_id in
      (case r of
         Inl e \<Rightarrow> Some (Inl e)
       | Inr stored \<Rightarrow>
           (case sa_transport stored of Ble _ _ \<Rightarrow> Some (Inl (HUnsupportedByTransport operation)) | Ip _ \<Rightarrow> act stored),
       c\<lparr>hc_store := s\<rparr>))"

definition list_pairings ::
    "prims \<Rightarrow> bool \<Rightarrow> ('i \<times> u16, 's) store_ops \<Rightarrow> ('i, 'n, 'g) outside \<Rightarrow> 's HapController \<Rightarrow> str \<Rightarrow>
     PairingInfo list reply \<times> 's HapController" where
  "list_pairings P oc S X c accessory_id =
     over_ip S c accessory_id ''list_pairings'' (\<lambda>stored. with_admin P oc X (hc_keypair c) stored PairingsAdmin_list)"

definition add_pairing ::
    "prims \<Rightarrow> bool \<Rightarrow> ('i \<times> u16, 's) store_ops \<Rightarrow> ('i, 'n, 'g) outside \<Rightarrow> 's HapController \<Rightarrow> str \<Rightarrow> str \<Rightarrow> bytes \<Rightarrow> bool \<Rightarrow>
     unit reply \<times> 's HapController" where
  "add_pairing P oc S X c accessory_id controller_id key admin =
     over_ip S c accessory_id ''add_pairing''
       (\<lambda>stored. with_admin P oc X (hc_keypair c) stored (\<lambda>post s. PairingsAdmin_add post s controller_id key admin))"

definition identify :: "bool \<Rightarrow> ('i, 'n, 'g) outside \<Rightarrow> 'i Discovered \<Rightarrow> unit reply" where
  "identify oc X accessory =
     (case accessory of
        DBle _ \<Rightarrow> Some (Inl (HUnsupportedByTransport ''identify''))
      | DIp ip \<Rightarrow>
          (case out_dial X (da_addr ip) of
             Inl e \<Rightarrow> Some (Inl (HTransport e))
           | Inr conn \<Rightarrow>
               (case fst (HapConnection_request oc (out_peer X) conn (ascii ''POST'') (ascii ''/identify'')
                        (ascii ''application/hap+json'') []) of
                  Some (Inr resp) \<Rightarrow>
                    Some (if 200 \<le> resp_status resp \<and> resp_status resp < 300 then Inr () else Inl (HHttp (of_nat (resp_status resp))))
                | Some (Inl (Fault e)) \<Rightarrow> Some (Inl (HTransport e))
                | _ \<Rightarrow> None)))"

section \<open>Persistence\<close>

definition controller_save_state ::
    "('a, 's) store_ops \<Rightarrow> 's HapController \<Rightarrow> ('w, 'g) AccessoryHandle \<Rightarrow> (HapError + unit) \<times> 's HapController" where
  "controller_save_state S c handle =
     (case handle of
        IpInner _ \<Rightarrow> (Inr (), c)
      | BleInner b \<Rightarrow>
          let state = broadcast_state b;
              (r, s) = load_stored S (hc_store c) (pairing_id (rv_pairing (ba_reviver b)));
              c = c\<lparr>hc_store := s\<rparr> in
          (case r of
             Inl e \<Rightarrow> (Inl e, c)
           | Inr stored \<Rightarrow>
               let stored =
                 (case sa_transport stored of
                    Ble device_id _ \<Rightarrow> stored\<lparr>sa_transport := Ble device_id (Some \<lparr>sb_key = bb_key state, sb_gsn = bb_gsn state\<rparr>)\<rparr>
                  | Ip _ \<Rightarrow> stored);
                   (r, s) = so_save_pairing S (hc_store c) stored in
               (map_err HPairing r, c\<lparr>hc_store := s\<rparr>)))"

text \<open>A sleepy watch: the stored pairing that arms it, and the state it flushes after every event and on
  request.\<close>

definition watch_sleepy ::
    "('a, 's) store_ops \<Rightarrow> 's HapController \<Rightarrow> str \<Rightarrow>
     (HapError + str \<times> AccessoryPairing \<times> bytes \<times> StoredBroadcast option) \<times> 's HapController" where
  "watch_sleepy S c accessory_id =
     (let (r, s) = load_stored S (hc_store c) accessory_id in
      (and_then r (\<lambda>stored.
         case sa_transport stored of
           Ble device_id broadcast \<Rightarrow> Inr (pairing_id (sa_pairing stored), sa_pairing stored, device_id, broadcast)
         | Ip _ \<Rightarrow> Inl (HUnsupportedByTransport ''watch_sleepy'')),
       c\<lparr>hc_store := s\<rparr>))"

definition SleepyWatch_save_state ::
    "('a, 's) store_ops \<Rightarrow> 's \<Rightarrow> str \<Rightarrow> 'g BleAccessory option \<Rightarrow> (HapError + unit) \<times> 's" where
  "SleepyWatch_save_state S s accessory_id accessory =
     (case accessory of
        None \<Rightarrow> (Inr (), s)
      | Some a \<Rightarrow>
          let state = broadcast_state a;
              (r, s) = so_save_broadcast S s accessory_id \<lparr>sb_key = bb_key state, sb_gsn = bb_gsn state\<rparr> in
          (map_err HPairing r, s))"

text \<open>The wait for an advertisement: failures to reach the accessory never end it, a session set up before
  the third failed one is returned, and the third failure is.\<close>

definition session_failed :: "BleError + 'g BleAccessory \<Rightarrow> bool" where
  "session_failed r = (case r of Inl e \<Rightarrow> \<not> goes_back_to_listening e | Inr _ \<Rightarrow> False)"

lemma advertised_prefix:
  "list_all isl attempts \<Longrightarrow> n + length (filter session_failed attempts) < MAX_SESSION_FAILURES \<Longrightarrow>
   connect_ble_when_advertised n (attempts @ rest) = connect_ble_when_advertised (n + length (filter session_failed attempts)) rest"
proof (induction attempts arbitrary: n)
  case (Cons r attempts)
  then obtain e where e: "r = Inl e" by (auto simp: isl_def)
  show ?case
    using Cons.prems Cons.IH [of n] Cons.IH [of "n + 1"] e by (cases "goes_back_to_listening e") (auto simp: session_failed_def)
qed simp

lemma advertised_outcomes:
  assumes "list_all isl attempts" and "length (filter session_failed attempts) < MAX_SESSION_FAILURES"
  shows "connect_ble_when_advertised 0 attempts = None"
    and "connect_ble_when_advertised 0 (attempts @ Inr a # rest) = Some (Inr (BleInner a))"
    and "\<not> goes_back_to_listening e \<Longrightarrow> length (filter session_failed attempts) + 1 = MAX_SESSION_FAILURES \<Longrightarrow>
      connect_ble_when_advertised 0 (attempts @ Inl e # rest) = Some (Inl (HBle e))"
  using advertised_prefix [OF assms(1), of 0 "[]"] advertised_prefix [OF assms(1), of 0 "Inr a # rest"]
    advertised_prefix [OF assms(1), of 0 "Inl e # rest"] assms(2) by auto

section \<open>Sequences of operations\<close>

datatype ('i, 'n, 'g) ctl_op =
    OPair "('i, 'n, 'g) outside" "'i Discovered" str
  | OPairPayload "('i, 'n, 'g) outside" SetupPayload "((HapError + 'i Discovered list) \<times> bool) list"
  | OConnect "('i, 'n, 'g) outside" str
  | ORemove "('i, 'n, 'g) outside" str
  | OForget str
  | OList "('i, 'n, 'g) outside" str
  | OAdd "('i, 'n, 'g) outside" str str bytes bool
  | OSaveState "'g BleAccessory"
  | OFlush str "'g BleAccessory"

definition finished :: "'b reply \<Rightarrow> unit reply" where
  "finished r = map_option (\<lambda>r. and_then r (\<lambda>_. Inr ())) r"

fun run_ctl_op ::
    "prims \<Rightarrow> bool \<Rightarrow> ('g, 'x) gatt_scheme \<Rightarrow> ('i \<times> u16, 's) store_ops \<Rightarrow> 's HapController \<Rightarrow> ('i, 'n, 'g) ctl_op \<Rightarrow>
     unit reply \<times> 's HapController" where
  "run_ctl_op P oc G S c (OPair X d code) = (let (r, c) = controller_pair P oc G S X c d code in (finished r, c))"
| "run_ctl_op P oc G S c (OPairPayload X payload rounds) =
     (let (r, c) = pair_with_payload P oc G S X c payload None rounds in (finished r, c))"
| "run_ctl_op P oc G S c (OConnect X i) = (let (r, c) = controller_connect P oc G S X c i in (finished r, c))"
| "run_ctl_op P oc G S c (ORemove X i) = remove_pairing P oc G S X c i"
| "run_ctl_op P oc G S c (OForget i) = (let (r, c) = forget_pairing S c i in (Some r, c))"
| "run_ctl_op P oc G S c (OList X i) = (let (r, c) = list_pairings P oc S X c i in (finished r, c))"
| "run_ctl_op P oc G S c (OAdd X i ident key admin) = add_pairing P oc S X c i ident key admin"
| "run_ctl_op P oc G S c (OSaveState b) =
     (let (r, c) = controller_save_state S c (BleInner b :: ('n ip_session, 'g) AccessoryHandle) in (Some r, c))"
| "run_ctl_op P oc G S c (OFlush i b) =
     (let (r, s) = SleepyWatch_save_state S (hc_store c) i (Some b) in (Some r, c\<lparr>hc_store := s\<rparr>))"

fun run_ctl_ops ::
    "prims \<Rightarrow> bool \<Rightarrow> ('g, 'x) gatt_scheme \<Rightarrow> ('i \<times> u16, 's) store_ops \<Rightarrow> 's HapController \<Rightarrow> ('i, 'n, 'g) ctl_op list \<Rightarrow>
     unit reply list \<times> 's HapController" where
  "run_ctl_ops P oc G S c [] = ([], c)"
| "run_ctl_ops P oc G S c (op # ops) =
     (let (r, c) = run_ctl_op P oc G S c op; (rs, c) = run_ctl_ops P oc G S c ops in (r # rs, c))"

text \<open>The widths that the source's array types fix.\<close>

fun ctl_op_ok :: "('i, 'n, 'g) ctl_op \<Rightarrow> bool" where
  "ctl_op_ok (OSaveState b) \<longleftrightarrow> length (ba_broadcast_key b) = 32"
| "ctl_op_ok (OFlush _ b) \<longleftrightarrow> length (ba_broadcast_key b) = 32"
| "ctl_op_ok _ \<longleftrightarrow> True"

section \<open>The contract\<close>

text \<open>What a pairing puts into the store: the address or device id it was found at, and the identity that
  Pair Setup established and Pair Verify confirmed in this call.\<close>

primrec stored_for ::
    "prims \<Rightarrow> bool \<Rightarrow> ('g, 'x) gatt_scheme \<Rightarrow> ('i, 'n, 'g) outside \<Rightarrow> ControllerKeypair \<Rightarrow> 'i Discovered \<Rightarrow> str \<Rightarrow>
     ('i \<times> u16) StoredAccessory \<Rightarrow> bool" where
  "stored_for P oc G X kp (DIp ip) code a \<longleftrightarrow>
     sa_transport a = Ip (da_addr ip) \<and>
     (\<exists>digits conn session. normalize_setup_digits code = Inr digits \<and> out_dial X (da_addr ip) = Inr conn \<and>
        Ip_Pairing.pair P oc (out_peer X) conn digits kp (out_rng X) (out_eph X) = Some (Inr (sa_pairing a, session)))"
| "stored_for P oc G X kp (DBle ble) code a \<longleftrightarrow>
     (\<exists>g result g'. out_gatt X ble = Inr g \<and>
        ble_pair P G g kp code (out_rng X) (out_eph X) = (Inr result, g') \<and> sa_pairing a = pd_pairing result \<and>
        (\<exists>device_id. parse_device_id (db_device_id ble) = Some device_id \<and>
           sa_transport a = Ble device_id (Some \<lparr>sb_key = bb_key (pd_broadcast result), sb_gsn = bb_gsn (pd_broadcast result)\<rparr>)))"

definition refreshed :: "'g BleAccessory \<Rightarrow> StoredBroadcast" where
  "refreshed b = \<lparr>sb_key = ba_broadcast_key b, sb_gsn = ba_last_gsn b\<rparr>"

text \<open>What the accessory answered to the removal of this controller's own pairing.  Over IP: on the session
  that connecting to the stored record gave, the request is answered with state M2 and no error.  Over
  BLE the accessory is reached by the stored id and asked on a current session; the answer is PDU
  status 0 with state M2 and no error, or the link or the session is gone when the answer is awaited,
  which is how an accessory that removed the pairing ends it.\<close>

definition remove_own :: "ControllerKeypair \<Rightarrow> bytes" where
  "remove_own kp = Tlv8Writer_push (push_u8 (push_u8 [] STATE STATE_M1) METHOD METHOD_REMOVE) IDENTIFIER (kp_id kp)"

definition ip_confirms :: "bytes \<Rightarrow> bool" where
  "ip_confirms body \<longleftrightarrow>
     (\<exists>items rest. Tlv8Reader_parse body = Inr items \<and> find_item ERROR items = None \<and> find_item STATE items = Some (STATE_M2 # rest))"

definition ble_confirms :: "BleError + BleResponse \<Rightarrow> bool" where
  "ble_confirms r \<longleftrightarrow>
     (case r of
        Inr resp \<Rightarrow>
          br_status resp = 0 \<and>
          (\<exists>v m rest. value_param (br_body resp) = Inr v \<and> Tlv8Map_parse v = Inr m \<and>
             Tlv8Map_get m ERROR = None \<and> Tlv8Map_get m STATE = Some (STATE_M2 # rest))
      | Inl e \<Rightarrow> e = Disconnected \<or> (\<exists>c. e = BCrypto c))"

definition removal_confirmed ::
    "prims \<Rightarrow> bool \<Rightarrow> ('g, 'x) gatt_scheme \<Rightarrow> ('i, 'n, 'g) outside \<Rightarrow> ControllerKeypair \<Rightarrow> ('i \<times> u16) StoredAccessory list \<Rightarrow>
     ('i \<times> u16) StoredAccessory \<Rightarrow> bool" where
  "removal_confirmed P oc G X kp accs a \<longleftrightarrow>
     (case sa_transport a of
        Ip _ \<Rightarrow>
          \<exists>session resp sent.
            Pairing_Store.connect P oc (out_peer X) (out_dial X) (out_discovered X) a kp (out_eph X) = Some (Inr session) \<and>
            SecureSession_request P (out_io X) (ip_writer session) (out_delivered X) (ascii ''POST'') PAIRINGS PAIRING_TLV8
              (remove_own kp) = (Inr resp, sent) \<and>
            ip_confirms (resp_body resp)
      | Ble _ _ \<Rightarrow>
          \<exists>a' d b h g s r after. resolve accs (sa_id a) = Some a' \<and> sa_transport a' = Ble d b \<and>
            connect_ble P G X kp a' d b = Inr h \<and>
            revive_if_stale P G (out_eph X) (ba_gatt h) (ba_secure h) (ba_reviver h) = (Inr (), g, s) \<and>
            secure_attempt P G g s (fst (ba_pairings h)) CharacteristicWrite (snd (ba_pairings h))
              (encode_write_body (remove_own kp)) (ba_frag_size h) = (r, after) \<and>
            ble_confirms r)"

text \<open>The change that an operation with a given reply makes to the stored accessories.\<close>

definition ctl_change ::
    "prims \<Rightarrow> bool \<Rightarrow> ('g, 'x) gatt_scheme \<Rightarrow> ControllerKeypair \<Rightarrow> ('i, 'n, 'g) ctl_op \<Rightarrow> unit reply \<Rightarrow>
     ('i \<times> u16) StoredAccessory list \<Rightarrow> ('i \<times> u16) StoredAccessory list \<Rightarrow> bool" where
  "ctl_change P oc G kp op r accs accs' \<longleftrightarrow>
     (if r \<noteq> Some (Inr ()) then accs' = accs
      else
        case op of
          OPair X d code \<Rightarrow> \<exists>a. stored_for P oc G X kp d code a \<and> accs' = upsert accs a
        | OPairPayload X payload rounds \<Rightarrow>
            (\<exists>found expired d a. (Inr found, expired) \<in> set rounds \<and> select_match P found payload = One d \<and>
               stored_for P oc G X kp d (sp_setup_code payload) a \<and> accs' = upsert accs a)
        | ORemove X i \<Rightarrow>
            (\<exists>a. resolve accs i = Some a \<and> removal_confirmed P oc G X kp accs a \<and>
               accs' = filter (\<lambda>b. sa_id b \<noteq> sa_id a) accs)
        | OForget i \<Rightarrow> accs' = (case resolve accs i of Some a \<Rightarrow> filter (\<lambda>b. sa_id b \<noteq> sa_id a) accs | None \<Rightarrow> accs)
        | OSaveState b \<Rightarrow>
            (\<exists>a. resolve accs (pairing_id (rv_pairing (ba_reviver b))) = Some a \<and> accs' = upsert accs (put_broadcast (refreshed b) a))
        | OFlush i b \<Rightarrow> accs' = set_broadcast accs i (refreshed b)
        | _ \<Rightarrow> accs' = accs)"

definition in_sync :: "('s \<Rightarrow> 'a store_state \<Rightarrow> bool) \<Rightarrow> 's HapController \<Rightarrow> 'a StoredAccessory list \<Rightarrow> bool" where
  "in_sync holds c accs \<longleftrightarrow> holds (hc_store c) (Some (hc_keypair c), accs) \<and> paired c = map sa_id accs"

section \<open>What a removal returns\<close>

lemma expect_m2_ok_confirms: "expect_m2_ok body = Inr () \<Longrightarrow> ip_confirms body"
  by (auto simp: expect_m2_ok_def m2_items_def ip_confirms_def elim!: and_then_InrE
      split: option.split_asm list.split_asm if_split_asm)

lemma admin_remove_confirmed:
  assumes "fst (PairingsAdmin_remove (session_post_tlv8 P io) (w, rx) (kp_id kp)) = Inr ()"
  shows "\<exists>resp sent. SecureSession_request P io w rx (ascii ''POST'') PAIRINGS PAIRING_TLV8 (remove_own kp) = (Inr resp, sent) \<and>
    ip_confirms (resp_body resp)"
  using assms
  by (auto simp: PairingsAdmin_remove_def session_post_tlv8_def remove_own_def Let_def METHOD_REMOVE_def
      PAIRINGS_METHOD_REMOVE_def dest!: expect_m2_ok_confirms elim!: and_then_InrE split: prod.split_asm)

lemma expect_remove_m2_confirms:
  "expect_remove_m2 v = Inr () \<Longrightarrow>
     \<exists>m rest. Tlv8Map_parse v = Inr m \<and> Tlv8Map_get m ERROR = None \<and> Tlv8Map_get m STATE = Some (STATE_M2 # rest)"
  by (auto simp: expect_remove_m2_def require_def get_at_def neq_Nil_conv elim!: and_then_InrE
      split: option.split_asm if_split_asm bind_split_asm)

lemma ble_remove_pairing_confirmed:
  assumes "fst (ble_remove_pairing P G eph h (kp_id kp)) = Inr ()"
  shows "\<exists>g s r after. revive_if_stale P G eph (ba_gatt h) (ba_secure h) (ba_reviver h) = (Inr (), g, s) \<and>
    secure_attempt P G g s (fst (ba_pairings h)) CharacteristicWrite (snd (ba_pairings h))
      (encode_write_body (remove_own kp)) (ba_frag_size h) = (r, after) \<and> ble_confirms r"
proof -
  let ?revived = "revive_if_stale P G eph (ba_gatt h) (ba_secure h) (ba_reviver h)"
  obtain q g s where q: "?revived = (q, g, s)" by (cases ?revived) auto
  let ?asked = "secure_attempt P G g s (fst (ba_pairings h)) CharacteristicWrite (snd (ba_pairings h))
      (encode_write_body (remove_own kp)) (ba_frag_size h)"
  obtain r after where r: "?asked = (r, after)" by (cases ?asked) auto
  have "q = Inr ()" "ble_confirms r"
    using assms q r
    by (auto simp: ble_remove_pairing_def case_prod_unfold Let_def remove_own_def ble_encode_remove_pairing_def ble_confirms_def
        elim!: and_then_InrE split: sum.splits if_split_asm dest!: expect_remove_m2_confirms)
  then show ?thesis using q r by auto
qed

section \<open>What pairing returns\<close>

lemma drive_done:
  "drive handle exch err fuel client net out = Some (Inr x, client', net') \<Longrightarrow> \<exists>c r. fst (handle c r) = Inr (Done x)"
proof (induction fuel arbitrary: client net out)
  case (Suc fuel)
  obtain reply net1 where e: "exch net out = (Inr reply, net1)"
    using Suc.prems by (auto split: prod.splits sum.splits)
  show ?case
    using Suc.prems e Suc.IH
    by (cases "handle client reply") (auto split: sum.splits pairing_step.splits intro!: exI [of _ client] exI [of _ reply])
qed simp

lemma ps_handle_done: "fst (ps_handle P c r) = Inr (Done p) \<Longrightarrow> length (acc_ltpk p) = 32"
  by (auto simp: ps_handle_def ps_handle_m2_def ps_handle_m4_def ps_handle_m6_def ps_m6_pairing_def Let_def
      elim!: and_then_InrE split: sum.splits PairSetupState.splits prod.splits)

lemma run_pair_setup_ltpk: "run_pair_setup P oc peer conn code kp rng = Some (Inr p, conn') \<Longrightarrow> length (acc_ltpk p) = 32"
  by (auto simp: run_pair_setup_def Let_def case_prod_unfold dest!: drive_done ps_handle_done split: sum.splits)

lemma pair_ltpk: "Ip_Pairing.pair P oc peer conn code kp rng eph = Some (Inr (p, session)) \<Longrightarrow> length (acc_ltpk p) = 32"
  by (auto simp: Ip_Pairing.pair_def split: option.splits prod.splits sum.splits elim!: and_then_InrE intro: run_pair_setup_ltpk)

lemma verify_and_build_key:
  assumes "kdf_laws P" and "verify_and_build P G g kp pairing gsn eph = (Inr a, g')"
  shows "length (ba_broadcast_key a) = 32"
proof -
  have key: "length k = 32" if "BroadcastKey_derive P ikm salt = Inr k" for ikm salt k
  proof -
    have "(32 :: nat) \<le> 16320" by simp
    then obtain out where "hkdf_sha512 P ikm salt BROADCAST_INFO 32 = Inr out" "length out = 32"
      using hkdf_ok [OF assms(1)] by blast
    then show ?thesis using that by (simp add: BroadcastKey_derive_def)
  qed
  have "length bkey = 32" if "ble_pair_verify P G g u iid kp pairing frag eph = Some (Inr (session, bkey), g1)" for g u iid frag session bkey g1
    using that by (auto simp: ble_pair_verify_def broadcast_key_def case_prod_unfold Let_def result_simps elim!: and_then_InrE dest: key)
  then show ?thesis
    using assms(2) by (auto simp: verify_and_build_def Let_def BleAccessory_new_def split: prod.splits sum.splits option.splits)
qed

lemma ble_pair_widths:
  assumes "kdf_laws P" and "ble_pair P G g kp code rng eph = (Inr result, g')"
  shows "length (acc_ltpk (pd_pairing result)) = 32" and "length (bb_key (pd_broadcast result)) = 32"
proof -
  obtain frag g1 where frag: "gatt_max_write G g = (frag, g1)" by fastforce
  obtain r g2 where iid: "gatt_instance_id G g1 PAIR_SETUP_CHAR = (r, g2)" by fastforce
  obtain setup_iid where r: "r = Inr setup_iid" using assms(2) frag iid by (cases r) (simp_all add: ble_pair_def)
  obtain q g3 where q: "ble_pair_setup P G g2 PAIR_SETUP_CHAR setup_iid code kp frag rng = Some (q, g3)"
    using assms(2) frag iid r
    by (cases "ble_pair_setup P G g2 PAIR_SETUP_CHAR setup_iid code kp frag rng") (auto simp: ble_pair_def)
  obtain pairing where paired: "ble_pair_setup P G g2 PAIR_SETUP_CHAR setup_iid code kp frag rng = Some (Inr pairing, g3)"
    using assms(2) frag iid r q by (cases q) (simp_all add: ble_pair_def)
  obtain v g4 where v: "verify_and_build P G g3 kp pairing 0 eph = (v, g4)" by fastforce
  obtain a where built: "verify_and_build P G g3 kp pairing 0 eph = (Inr a, g4)"
    and result: "result = \<lparr>pd_accessory = a, pd_pairing = pairing, pd_broadcast = broadcast_state a\<rparr>"
    using assms(2) frag iid r paired v by (cases v) (simp_all add: ble_pair_def)
  show "length (acc_ltpk (pd_pairing result)) = 32"
    using paired result by (auto simp: ble_pair_setup_def Let_def case_prod_unfold dest!: drive_done ps_handle_done split: sum.splits)
  show "length (bb_key (pd_broadcast result)) = 32"
    using verify_and_build_key [OF assms(1) built] result by (simp add: broadcast_state_def)
qed

lemma stored_for_ok: "kdf_laws P \<Longrightarrow> stored_for P oc G X kp d code a \<Longrightarrow> acc_ok a"
  by (cases d) (auto simp: acc_ok_def pair_ltpk ble_pair_widths parse_device_id_length)

lemma pair_ip_cases:
  assumes "pair_ip P oc S X c ip code = (r, c')"
  shows "c' = c \<and> finished r \<noteq> Some (Inr ()) \<or>
    (\<exists>a q h. stored_for P oc G X (hc_keypair c) (DIp ip) code a \<and> save_paired S c a = (q, c') \<and> r = Some (and_then q (\<lambda>_. Inr h)))"
proof (cases "\<exists>digits conn pairing session. normalize_setup_digits code = Inr digits \<and> out_dial X (da_addr ip) = Inr conn \<and>
    Ip_Pairing.pair P oc (out_peer X) conn digits (hc_keypair c) (out_rng X) (out_eph X) = Some (Inr (pairing, session))")
  case True
  then obtain digits conn pairing session where run: "normalize_setup_digits code = Inr digits" "out_dial X (da_addr ip) = Inr conn"
    "Ip_Pairing.pair P oc (out_peer X) conn digits (hc_keypair c) (out_rng X) (out_eph X) = Some (Inr (pairing, session))" by blast
  let ?a = "\<lparr>sa_pairing = pairing, sa_transport = Ip (da_addr ip)\<rparr>"
  have "stored_for P oc G X (hc_keypair c) (DIp ip) code ?a" using run by simp
  moreover obtain q c1 where "save_paired S c ?a = (q, c1)" by fastforce
  ultimately show ?thesis
    using assms run by (intro disjI2 exI [of _ ?a] exI [of _ q]) (auto simp: pair_ip_def reply_of_def)
next
  case False
  then show ?thesis
    using assms by (auto simp: pair_ip_def reply_of_def finished_def split: sum.splits option.splits ip_error.splits)
qed

lemma pair_ble_cases:
  assumes "pair_ble P G S X c ble code = (r, c')"
  shows "c' = c \<and> finished r \<noteq> Some (Inr ()) \<or>
    (\<exists>a q h. stored_for P oc G X (hc_keypair c) (DBle ble) code a \<and> save_paired S c a = (q, c') \<and> r = Some (and_then q (\<lambda>_. Inr h)))"
proof (cases "\<exists>device_id g result g'. parse_device_id (db_device_id ble) = Some device_id \<and> out_gatt X ble = Inr g \<and>
    ble_pair P G g (hc_keypair c) code (out_rng X) (out_eph X) = (Inr result, g')")
  case True
  then obtain device_id g result g' where run: "parse_device_id (db_device_id ble) = Some device_id" "out_gatt X ble = Inr g"
    "ble_pair P G g (hc_keypair c) code (out_rng X) (out_eph X) = (Inr result, g')" by blast
  let ?a = "\<lparr>sa_pairing = pd_pairing result,
    sa_transport = Ble device_id (Some \<lparr>sb_key = bb_key (pd_broadcast result), sb_gsn = bb_gsn (pd_broadcast result)\<rparr>)\<rparr>"
  have "stored_for P oc G X (hc_keypair c) (DBle ble) code ?a" using run by auto
  moreover obtain q c1 where "save_paired S c ?a = (q, c1)" by fastforce
  ultimately show ?thesis
    using assms run by (intro disjI2 exI [of _ ?a] exI [of _ q]) (auto simp: pair_ble_def)
next
  case False
  then have "\<nexists>result. fst (ble_pair P G g (hc_keypair c) code (out_rng X) (out_eph X)) = Inr result"
    if "parse_device_id (db_device_id ble) = Some device_id" "out_gatt X ble = Inr g" for device_id g
    using that by (metis prod.collapse)
  then show ?thesis
    using assms by (auto simp: pair_ble_def finished_def split: sum.splits option.splits)
qed

section \<open>The identifiers of a store\<close>

lemma upsert_ids:
  "map sa_id (upsert accs a) = (if sa_id a \<in> set (map sa_id accs) then map sa_id accs else map sa_id accs @ [sa_id a])"
proof -
  have "(case update_first (\<lambda>b. sa_id b = sa_id a) (\<lambda>_. a) accs of
      Some accs' \<Rightarrow> sa_id a \<in> set (map sa_id accs) \<and> map sa_id accs' = map sa_id accs
    | None \<Rightarrow> sa_id a \<notin> set (map sa_id accs))"
    by (induction accs) (auto split: option.splits)
  then show ?thesis by (auto simp: upsert_def split: option.splits)
qed

lemma put_broadcast_same [simp]: "sa_id (put_broadcast b a) = sa_id a"
  by (simp add: put_broadcast_def split: StoredTransport.splits)

lemma set_broadcast_ids: "map sa_id (set_broadcast accs i b) = map sa_id accs"
proof -
  have "update_first (\<lambda>a. sa_id a = i) (put_broadcast b) accs = Some accs' \<Longrightarrow> map sa_id accs' = map sa_id accs" for accs'
    by (induction accs arbitrary: accs') (auto split: if_splits)
  then show ?thesis by (simp add: set_broadcast_def split: option.splits)
qed

lemma resolve_mem: "resolve accs i = Some a \<Longrightarrow> a \<in> set accs"
  by (auto simp: resolve_def find_Some_iff split: option.splits bind_splits)

lemma resolve_None: "resolve accs i = None \<Longrightarrow> filter (\<lambda>j. \<not> Rust_Text.eq_ignore_ascii_case j i) (map sa_id accs) = map sa_id accs"
  by (auto simp: resolve_def find_None_iff filter_id_conv split: option.splits)

lemma put_broadcast_ok: "acc_ok a \<Longrightarrow> length (sb_key b) = 32 \<Longrightarrow> acc_ok (put_broadcast b a)"
  by (auto simp: put_broadcast_def acc_ok_def split: StoredTransport.splits)

section \<open>A controller over any store\<close>

text \<open>What the controller relies on: loading returns what is held or fails, and a change takes effect or
  fails and leaves it.\<close>

locale controller_store =
  fixes S :: "('i \<times> u16, 's) store_ops" and holds :: "'s \<Rightarrow> ('i \<times> u16) store_state \<Rightarrow> bool"
  assumes load_effect: "holds s st \<Longrightarrow> so_load_pairings S s = (r, s') \<Longrightarrow> holds s' st \<and> (r = Inr (snd st) \<or> (\<exists>e. r = Inl e))"
    and load_controller_effect: "holds s st \<Longrightarrow> so_load_controller S s = (k, s') \<Longrightarrow> holds s' st \<and> (k = Inr (fst st) \<or> (\<exists>e. k = Inl e))"
    and save_controller_effect: "holds s st \<Longrightarrow> length (kp_seed kp) = 32 \<Longrightarrow> so_save_controller S s kp = (u, s') \<Longrightarrow>
      u = Inr () \<and> holds s' (Some kp, snd st) \<or> (\<exists>e. u = Inl e) \<and> holds s' st"
    and save_effect: "holds s st \<Longrightarrow> acc_ok a \<Longrightarrow> so_save_pairing S s a = (u, s') \<Longrightarrow>
      u = Inr () \<and> holds s' (fst st, upsert (snd st) a) \<or> (\<exists>e. u = Inl e) \<and> holds s' st"
    and delete_effect: "holds s st \<Longrightarrow> so_delete_pairing S s i = (u, s') \<Longrightarrow>
      u = Inr () \<and> holds s' (fst st, filter (\<lambda>a. sa_id a \<noteq> i) (snd st)) \<or> (\<exists>e. u = Inl e) \<and> holds s' st"
    and broadcast_effect: "holds s st \<Longrightarrow> length (sb_key b) = 32 \<Longrightarrow> so_save_broadcast S s i b = (u, s') \<Longrightarrow>
      u = Inr () \<and> holds s' (fst st, set_broadcast (snd st) i b) \<or> (\<exists>e. u = Inl e) \<and> holds s' st"
    and held_ok: "holds s st \<Longrightarrow> list_all acc_ok (snd st)"
begin

lemma load_stored_effect:
  assumes "holds s st" and "load_stored S s i = (r, s')"
  shows "holds s' st" and "r = Inr a \<Longrightarrow> resolve (snd st) i = Some a" and "r = Inl (HUnknownAccessory j) \<Longrightarrow> resolve (snd st) i = None"
proof -
  obtain q where q: "so_load_pairings S s = (q, s')"
      "r = and_then (map_err HPairing q) (\<lambda>all. ok_or (HUnknownAccessory i) (resolve all i))"
    using assms(2) by (auto simp: load_stored_def split: prod.splits)
  note e = load_effect [OF assms(1) q(1)]
  show "holds s' st" using e by blast
  show "r = Inr a \<Longrightarrow> resolve (snd st) i = Some a" and "r = Inl (HUnknownAccessory j) \<Longrightarrow> resolve (snd st) i = None"
    using e q(2) by (auto simp: ok_or_def split: option.splits)
qed

lemma load_stored_sync:
  assumes "in_sync holds c accs" and "load_stored S (hc_store c) i = (r, s')"
  shows "in_sync holds (c\<lparr>hc_store := s'\<rparr>) accs"
  using assms load_stored_effect(1) by (auto simp: in_sync_def paired_def)

lemma save_paired_effect:
  assumes "in_sync holds c accs" and "acc_ok a" and "save_paired S c a = (r, c')"
  shows "hc_keypair c' = hc_keypair c \<and>
    (r = Inr () \<and> in_sync holds c' (upsert accs a) \<or> (\<exists>e. r = Inl e) \<and> in_sync holds c' accs)"
proof -
  have h: "holds (hc_store c) (Some (hc_keypair c), accs)" and ids: "hc_cached_ids c = map sa_id accs"
    using assms(1) by (simp_all add: in_sync_def paired_def)
  obtain u s' where u: "so_save_pairing S (hc_store c) a = (u, s')" by fastforce
  from save_effect [OF h assms(2) u] show ?thesis
    using assms(3) u ids upsert_ids [of accs a] by (auto simp: save_paired_def in_sync_def paired_def Let_def)
qed

lemma drop_pairing_effect:
  assumes "in_sync holds c accs" and "drop_pairing S c i = (r, c')"
  shows "hc_keypair c' = hc_keypair c \<and>
    (r = Inr () \<and> in_sync holds c' (filter (\<lambda>a. sa_id a \<noteq> i) accs) \<or> (\<exists>e. r = Inl e) \<and> in_sync holds c' accs)"
proof -
  have h: "holds (hc_store c) (Some (hc_keypair c), accs)" and ids: "hc_cached_ids c = map sa_id accs"
    using assms(1) by (simp_all add: in_sync_def paired_def)
  obtain u s' where u: "so_delete_pairing S (hc_store c) i = (u, s')" by fastforce
  from delete_effect [OF h u] show ?thesis
    using assms(2) u ids by (auto simp: drop_pairing_def in_sync_def paired_def filter_map comp_def)
qed

lemma controller_pair_effect:
  assumes "kdf_laws P" and "in_sync holds c accs" and "controller_pair P oc G S X c d code = (r, c')"
  shows "hc_keypair c' = hc_keypair c \<and>
    (if finished r = Some (Inr ())
     then \<exists>a. stored_for P oc G X (hc_keypair c) d code a \<and> in_sync holds c' (upsert accs a) else in_sync holds c' accs)"
proof -
  have "c' = c \<and> finished r \<noteq> Some (Inr ()) \<or>
      (\<exists>a q h. stored_for P oc G X (hc_keypair c) d code a \<and> save_paired S c a = (q, c') \<and> r = Some (and_then q (\<lambda>_. Inr h)))"
  proof (cases d)
    case (DIp ip)
    then have "pair_ip P oc S X c ip code = (r, c')" using assms(3) by (simp add: controller_pair_def)
    from pair_ip_cases [OF this] show ?thesis unfolding DIp by auto
  next
    case (DBle ble)
    then have "pair_ble P G S X c ble code = (r, c')" using assms(3) by (simp add: controller_pair_def)
    from pair_ble_cases [OF this] show ?thesis unfolding DBle by auto
  qed
  then show ?thesis
  proof (elim disjE exE conjE)
    fix a q h
    assume a: "stored_for P oc G X (hc_keypair c) d code a" "save_paired S c a = (q, c')" "r = Some (and_then q (\<lambda>_. Inr h))"
    from save_paired_effect [OF assms(2) stored_for_ok [OF assms(1) a(1)] a(2)] show ?thesis
      using a(1,3) by (auto simp: finished_def)
  qed (use assms(2) in simp)
qed

lemma pair_with_payload_effect:
  assumes "kdf_laws P" and "in_sync holds c accs" and "pair_with_payload P oc G S X c payload amb rounds = (r, c')"
  shows "hc_keypair c' = hc_keypair c \<and>
    (if finished r = Some (Inr ())
     then \<exists>found expired d a. (Inr found, expired) \<in> set rounds \<and> select_match P found payload = One d \<and>
       stored_for P oc G X (hc_keypair c) d (sp_setup_code payload) a \<and> in_sync holds c' (upsert accs a)
     else in_sync holds c' accs)"
  using assms(3)
proof (induction rounds arbitrary: amb)
  case (Cons round rounds)
  obtain f expired where f: "round = (f, expired)" by fastforce
  show ?case
  proof (cases f)
    case (Inr found)
    show ?thesis
    proof (cases "\<exists>d. select_match P found payload = One d")
      case True
      then obtain d where d: "select_match P found payload = One d" by blast
      then have "controller_pair P oc G S X c d (sp_setup_code payload) = (r, c')" using Cons.prems f Inr by simp
      from controller_pair_effect [OF assms(1,2) this] show ?thesis using d f Inr by (auto split: if_splits)
    next
      case False
      then consider "expired" "c' = c" "finished r \<noteq> Some (Inr ())"
        | amb' where "pair_with_payload P oc G S X c payload amb' rounds = (r, c')"
        using Cons.prems f Inr by (cases "select_match P found payload"; cases expired) (auto simp: finished_def)
      then show ?thesis
      proof cases
        case 1
        then show ?thesis using assms(2) by simp
      next
        case 2
        from Cons.IH [OF this] show ?thesis by (auto split: if_splits)
      qed
    qed
  qed (use Cons.prems f assms(2) in \<open>auto simp: finished_def\<close>)
qed (use assms(2) in \<open>auto simp: finished_def\<close>)

lemma controller_connect_effect:
  assumes "in_sync holds c accs" and "controller_connect P oc G S X c i = (r, c')"
  shows "in_sync holds c' accs \<and> hc_keypair c' = hc_keypair c"
proof -
  obtain q s' where q: "load_stored S (hc_store c) i = (q, s')" by fastforce
  then have "c' = c\<lparr>hc_store := s'\<rparr>" using assms(2) by (simp add: controller_connect_def)
  then show ?thesis using load_stored_sync [OF assms(1) q] by simp
qed

lemma remote_remove_effect:
  assumes "in_sync holds c accs" and "remote_remove P oc G S X c a = (remote, c')"
  shows "in_sync holds c' accs \<and> hc_keypair c' = hc_keypair c \<and>
    (remote = Some (Inr ()) \<longrightarrow> removal_confirmed P oc G X (hc_keypair c) accs a)"
proof (cases "sa_transport a")
  case (Ip addr)
  then show ?thesis
    using assms
    by (auto simp: remote_remove_def with_admin_def reply_of_def removal_confirmed_def
        elim!: and_then_InrE split: option.split_asm sum.split_asm ip_error.split_asm dest!: admin_remove_confirmed)
next
  case (Ble device_id b)
  obtain handle c1 where h: "controller_connect P oc G S X c (sa_id a) = (handle, c1)" by fastforce
  obtain q s' where q: "load_stored S (hc_store c) (sa_id a) = (q, s')" by fastforce
  have holds: "holds (hc_store c) (Some (hc_keypair c), accs)" using assms(1) by (simp add: in_sync_def)
  have c1: "in_sync holds c1 accs" "hc_keypair c1 = hc_keypair c" using controller_connect_effect [OF assms(1) h] by simp_all
  have "removal_confirmed P oc G X (hc_keypair c) accs a" if removed: "remote = Some (Inr ())"
  proof -
    obtain ha where ha: "handle = Some (Inr (BleInner ha))"
        "fst (ble_remove_pairing P G (out_eph X) ha (kp_id (hc_keypair c))) = Inr ()"
      using assms(2) [unfolded removed] Ble h c1(2)
      by (auto simp: remote_remove_def elim!: and_then_InrE split: AccessoryHandle.split_asm sum.split_asm)
    obtain a' d bc where "q = Inr a'" "sa_transport a' = Ble d bc" "connect_ble P G X (hc_keypair c) a' d bc = Inr ha"
      using h q ha(1)
      by (auto simp: controller_connect_def connect_ip_def reply_of_def elim!: and_then_InrE
          split: sum.split_asm StoredTransport.split_asm option.split_asm ip_error.split_asm)
    moreover have "resolve accs (sa_id a) = Some a'" using load_stored_effect(2) [OF holds q] calculation(1) by simp
    ultimately show ?thesis using Ble ble_remove_pairing_confirmed [OF ha(2)] by (simp add: removal_confirmed_def)
  qed
  then show ?thesis using assms(2) Ble h c1 by (simp add: remote_remove_def)
qed

lemma remove_pairing_effect:
  assumes "in_sync holds c accs" and "remove_pairing P oc G S X c i = (r, c')"
  shows "hc_keypair c' = hc_keypair c \<and>
    (if r = Some (Inr ())
     then \<exists>a. resolve accs i = Some a \<and> removal_confirmed P oc G X (hc_keypair c) accs a \<and>
       in_sync holds c' (filter (\<lambda>b. sa_id b \<noteq> sa_id a) accs)
     else in_sync holds c' accs)"
proof -
  obtain q s' where q: "load_stored S (hc_store c) i = (q, s')" by fastforce
  let ?c = "c\<lparr>hc_store := s'\<rparr>"
  have sync: "in_sync holds ?c accs" by (rule load_stored_sync [OF assms(1) q])
  show ?thesis
  proof (cases q)
    case (Inr a)
    have a: "resolve accs i = Some a"
      using load_stored_effect(2) [of "hc_store c" "(Some (hc_keypair c), accs)"] assms(1) q Inr by (simp add: in_sync_def)
    obtain remote c1 where remote: "remote_remove P oc G S X ?c a = (remote, c1)" by fastforce
    have c1: "in_sync holds c1 accs" "hc_keypair c1 = hc_keypair c"
        "remote = Some (Inr ()) \<longrightarrow> removal_confirmed P oc G X (hc_keypair c) accs a"
      using remote_remove_effect [OF sync remote] by simp_all
    obtain u c2 where u: "drop_pairing S c1 (sa_id a) = (u, c2)" by fastforce
    show ?thesis
      using assms(2) q Inr remote c1 drop_pairing_effect [OF c1(1) u] u a
      by (auto simp: remove_pairing_def Let_def split: option.splits sum.splits)
  qed (use assms(2) q sync in \<open>auto simp: remove_pairing_def\<close>)
qed

lemma forget_pairing_effect:
  assumes "in_sync holds c accs" and "forget_pairing S c i = (r, c')"
  shows "hc_keypair c' = hc_keypair c \<and>
    (if r = Inr () then in_sync holds c' (case resolve accs i of Some a \<Rightarrow> filter (\<lambda>b. sa_id b \<noteq> sa_id a) accs | None \<Rightarrow> accs)
     else in_sync holds c' accs)"
proof -
  obtain q s' where q: "load_stored S (hc_store c) i = (q, s')" by fastforce
  let ?c = "c\<lparr>hc_store := s'\<rparr>"
  have sync: "in_sync holds ?c accs" by (rule load_stored_sync [OF assms(1) q])
  have h: "holds (hc_store c) (Some (hc_keypair c), accs)" and ids: "hc_cached_ids c = map sa_id accs"
    using assms(1) by (simp_all add: in_sync_def paired_def)
  show ?thesis
  proof (cases q)
    case (Inr a)
    then have run: "drop_pairing S ?c (sa_id a) = (r, c')" and "resolve accs i = Some a"
      using assms(2) q load_stored_effect(2) [OF h q] by (simp_all add: forget_pairing_def)
    then show ?thesis using drop_pairing_effect [OF sync run] by auto
  next
    case (Inl e)
    show ?thesis
    proof (cases "\<exists>j. e = HUnknownAccessory j")
      case True
      then have none: "resolve accs i = None" using load_stored_effect(3) [OF h q] Inl by auto
      then show ?thesis
        using assms(2) q Inl True sync ids resolve_None [OF none] by (auto simp: forget_pairing_def in_sync_def paired_def)
    next
      case False
      then have "r = Inl e \<and> c' = ?c" using assms(2) q Inl by (cases e) (simp_all add: forget_pairing_def)
      then show ?thesis using sync by simp
    qed
  qed
qed

lemma save_state_effect:
  assumes "in_sync holds c accs" and "length (ba_broadcast_key b) = 32"
    and "controller_save_state S c (BleInner b) = (r, c')"
  shows "hc_keypair c' = hc_keypair c \<and>
    (if r = Inr () then \<exists>a. resolve accs (pairing_id (rv_pairing (ba_reviver b))) = Some a \<and>
       in_sync holds c' (upsert accs (put_broadcast (refreshed b) a)) else in_sync holds c' accs)"
proof -
  obtain q s' where q: "load_stored S (hc_store c) (pairing_id (rv_pairing (ba_reviver b))) = (q, s')" by fastforce
  let ?c = "c\<lparr>hc_store := s'\<rparr>"
  have sync: "in_sync holds ?c accs" by (rule load_stored_sync [OF assms(1) q])
  have h: "holds (hc_store c) (Some (hc_keypair c), accs)" and ids: "hc_cached_ids c = map sa_id accs"
    using assms(1) by (simp_all add: in_sync_def paired_def)
  show ?thesis
  proof (cases q)
    case (Inr a)
    have a: "resolve accs (pairing_id (rv_pairing (ba_reviver b))) = Some a" using load_stored_effect(2) [OF h q] Inr by simp
    have "acc_ok a" using resolve_mem [OF a] held_ok [OF h] by (auto simp: list_all_iff)
    then have ok: "acc_ok (put_broadcast (refreshed b) a)" using assms(2) by (simp add: put_broadcast_ok refreshed_def)
    have mem: "sa_id a \<in> set (map sa_id accs)" using resolve_mem [OF a] by simp
    obtain u s2 where u: "so_save_pairing S s' (put_broadcast (refreshed b) a) = (u, s2)" by fastforce
    have "(r, c') = (map_err HPairing u, c\<lparr>hc_store := s2\<rparr>)"
      using assms(3) q Inr u
      by (cases "sa_transport a") (simp_all add: controller_save_state_def Let_def put_broadcast_def refreshed_def broadcast_state_def)
    moreover have "holds s' (Some (hc_keypair c), accs)" using sync by (simp add: in_sync_def)
    note save_effect [OF this ok u]
    moreover have "map sa_id (upsert accs (put_broadcast (refreshed b) a)) = map sa_id accs"
      using mem upsert_ids [of accs "put_broadcast (refreshed b) a"] by simp
    ultimately show ?thesis using a ids by (auto simp: in_sync_def paired_def)
  qed (use assms(3) q sync in \<open>auto simp: controller_save_state_def Let_def\<close>)
qed

lemma flush_effect:
  assumes "in_sync holds c accs" and "length (ba_broadcast_key b) = 32"
    and "SleepyWatch_save_state S (hc_store c) i (Some b) = (r, s')"
  shows "if r = Inr () then in_sync holds (c\<lparr>hc_store := s'\<rparr>) (set_broadcast accs i (refreshed b)) else in_sync holds (c\<lparr>hc_store := s'\<rparr>) accs"
proof -
  have h: "holds (hc_store c) (Some (hc_keypair c), accs)" and ids: "hc_cached_ids c = map sa_id accs"
    using assms(1) by (simp_all add: in_sync_def paired_def)
  obtain u where u: "so_save_broadcast S (hc_store c) i (refreshed b) = (u, s')" "r = map_err HPairing u"
    using assms(3) by (auto simp: SleepyWatch_save_state_def Let_def refreshed_def broadcast_state_def split: prod.splits)
  have "length (sb_key (refreshed b)) = 32" using assms(2) by (simp add: refreshed_def)
  from broadcast_effect [OF h this u(1)] show ?thesis
    using u(2) ids set_broadcast_ids [of accs i "refreshed b"] by (auto simp: in_sync_def paired_def)
qed

lemma over_ip_effect:
  assumes "in_sync holds c accs" and "over_ip S c i name act = (r, c')"
  shows "in_sync holds c' accs \<and> hc_keypair c' = hc_keypair c"
proof -
  obtain q s' where q: "load_stored S (hc_store c) i = (q, s')" by fastforce
  then have "c' = c\<lparr>hc_store := s'\<rparr>" using assms(2) by (simp add: over_ip_def)
  then show ?thesis using load_stored_sync [OF assms(1) q] by simp
qed

lemma ctl_op_effect:
  assumes kdf: "kdf_laws P" and sync: "in_sync holds c accs" and ok: "ctl_op_ok op" and run: "run_ctl_op P oc G S c op = (r, c')"
  shows "hc_keypair c' = hc_keypair c \<and> (\<exists>accs'. in_sync holds c' accs' \<and> ctl_change P oc G (hc_keypair c) op r accs accs')"
proof (cases op)
  case (OPair X d code)
  obtain q where q: "controller_pair P oc G S X c d code = (q, c')" "r = finished q" using run OPair by (auto split: prod.splits)
  from controller_pair_effect [OF kdf sync q(1)] show ?thesis using OPair q(2) by (auto simp: ctl_change_def split: if_splits)
next
  case (OPairPayload X payload rounds)
  obtain q where q: "pair_with_payload P oc G S X c payload None rounds = (q, c')" "r = finished q"
    using run OPairPayload by (auto split: prod.splits)
  from pair_with_payload_effect [OF kdf sync q(1)] show ?thesis
    using OPairPayload q(2) by (auto simp: ctl_change_def split: if_splits)
next
  case (OConnect X i)
  obtain q where q: "controller_connect P oc G S X c i = (q, c')" using run OConnect by (auto split: prod.splits)
  from controller_connect_effect [OF sync q] show ?thesis using OConnect by (auto simp: ctl_change_def)
next
  case (ORemove X i)
  have q: "remove_pairing P oc G S X c i = (r, c')" using run ORemove by simp
  from remove_pairing_effect [OF sync q] show ?thesis using ORemove by (auto simp: ctl_change_def split: if_splits)
next
  case (OForget i)
  obtain q where q: "forget_pairing S c i = (q, c')" "r = Some q" using run OForget by (auto split: prod.splits)
  from forget_pairing_effect [OF sync q(1)] show ?thesis using OForget q(2) by (auto simp: ctl_change_def split: if_splits)
next
  case (OList X i)
  obtain q where q: "list_pairings P oc S X c i = (q, c')" using run OList by (auto split: prod.splits)
  from over_ip_effect [OF sync q [unfolded list_pairings_def]] show ?thesis using OList by (auto simp: ctl_change_def)
next
  case (OAdd X i ident key admin)
  have q: "add_pairing P oc S X c i ident key admin = (r, c')" using run OAdd by simp
  from over_ip_effect [OF sync q [unfolded add_pairing_def]] show ?thesis using OAdd by (auto simp: ctl_change_def)
next
  case (OSaveState b)
  obtain q where q: "controller_save_state S c (BleInner b) = (q, c')" "r = Some q"
    using run OSaveState by (auto simp: controller_save_state_def split: prod.splits)
  from save_state_effect [OF sync _ q(1)] show ?thesis using OSaveState q(2) ok by (auto simp: ctl_change_def split: if_splits)
next
  case (OFlush i b)
  obtain q s' where q: "SleepyWatch_save_state S (hc_store c) i (Some b) = (q, s')" "r = Some q" "c' = c\<lparr>hc_store := s'\<rparr>"
    using run OFlush by (auto split: prod.splits)
  from flush_effect [OF sync _ q(1)] show ?thesis using OFlush q(2,3) ok by (auto simp: ctl_change_def split: if_splits)
qed

lemma ctl_ops_effect:
  assumes "kdf_laws P"
  shows "in_sync holds c accs \<Longrightarrow> list_all ctl_op_ok ops \<Longrightarrow> run_ctl_ops P oc G S c ops = (rs, c') \<Longrightarrow>
    hc_keypair c' = hc_keypair c \<and> (\<exists>accs'. in_sync holds c' accs')"
proof (induction ops arbitrary: c accs rs)
  case (Cons op ops)
  obtain r c1 where r: "run_ctl_op P oc G S c op = (r, c1)" by fastforce
  obtain rs1 where rs: "run_ctl_ops P oc G S c1 ops = (rs1, c')" using Cons.prems(3) r by (auto split: prod.splits)
  have ok: "ctl_op_ok op" "list_all ctl_op_ok ops" using Cons.prems(2) by simp_all
  obtain accs1 where "hc_keypair c1 = hc_keypair c" "in_sync holds c1 accs1"
    using ctl_op_effect [OF assms Cons.prems(1) ok(1) r] by blast
  then show ?case using Cons.IH [OF _ ok(2) rs] by auto
qed auto

lemma new_effect:
  assumes "holds s st" and "length seed = 32" and "HapController_new S s seed = (Inr c, s')"
  shows "in_sync holds c (snd st)" and "hc_keypair c = (case fst st of Some k \<Rightarrow> k | None \<Rightarrow> from_seed DEFAULT_CONTROLLER_ID seed)"
proof -
  let ?kp = "from_seed DEFAULT_CONTROLLER_ID seed"
  have seed: "length (kp_seed ?kp) = 32" using assms(2) by (simp add: kp_seed_def from_seed_def)
  obtain k s1 where k: "so_load_controller S s = (k, s1)" by fastforce
  obtain u s2 where u: "so_save_controller S s1 ?kp = (u, s2)" by fastforce
  have s1: "holds s1 st" "k = Inr (fst st)"
    using load_controller_effect [OF assms(1) k] assms(3) k by (auto simp: HapController_new_def Let_def)
  have "\<exists>kp s3 all. holds s3 (Some kp, snd st) \<and> so_load_pairings S s3 = (Inr all, s') \<and>
      kp = (case fst st of Some k \<Rightarrow> k | None \<Rightarrow> ?kp) \<and> c = \<lparr>hc_store = s', hc_keypair = kp, hc_cached_ids = map sa_id all\<rparr>"
  proof (cases "fst st")
    case None
    then have "u = Inr ()" "holds s2 (Some ?kp, snd st)"
      using save_controller_effect [OF s1(1) seed u] assms(3) k u s1(2) by (auto simp: HapController_new_def Let_def)
    then show ?thesis using assms(3) k u s1(2) None
      by (cases "so_load_pairings S s2") (auto simp: HapController_new_def Let_def elim!: and_then_InrE simp: result_simps)
  next
    case (Some kp)
    then have "holds s1 (Some kp, snd st)" using s1(1) by (metis prod.collapse)
    then show ?thesis using assms(3) k s1(2) Some
      by (cases "so_load_pairings S s1") (auto simp: HapController_new_def Let_def elim!: and_then_InrE simp: result_simps)
  qed
  then obtain kp s3 all where c: "holds s3 (Some kp, snd st)" "so_load_pairings S s3 = (Inr all, s')"
    "kp = (case fst st of Some k \<Rightarrow> k | None \<Rightarrow> ?kp)" "c = \<lparr>hc_store = s', hc_keypair = kp, hc_cached_ids = map sa_id all\<rparr>" by blast
  have "holds s' (Some kp, snd st)" "all = snd st" using load_effect [OF c(1,2)] by auto
  then show "in_sync holds c (snd st)" "hc_keypair c = (case fst st of Some k \<Rightarrow> k | None \<Rightarrow> ?kp)"
    using c(3,4) by (simp_all add: in_sync_def paired_def)
qed

end

section \<open>Over the JSON file\<close>

lemma json_loads:
  assumes "store_holds L fs st"
  shows "load_pairings L flt fs = Inr (snd st) \<or> (\<exists>e. load_pairings L flt fs = Inl e)"
    and "load_controller L flt fs = Inr (fst st) \<or> (\<exists>e. load_controller L flt fs = Inl e)"
  using loads_holds [OF assms, of flt]
  by (cases "io_read flt"; simp add: load_pairings_def load_controller_def read_doc_def)+

interpretation js: controller_store "json_store L" "\<lambda>s. store_holds L (fst s)" for L :: "('i \<times> u16) doc_lib"
proof (unfold_locales, goal_cases)
  case (1 s st r s')
  then show ?case using json_loads(1) [of L "fst s" st] by (auto simp: json_store_def split: prod.splits)
next
  case (2 s st k s')
  then show ?case using json_loads(2) [of L "fst s" st] by (auto simp: json_store_def split: prod.splits)
next
  case (3 s st kp u s')
  then obtain fs flts fs' where "s = (fs, flts)" "save_controller L (next_fault flts) fs kp = (u, fs')" "s' = (fs', tl flts)"
    by (auto simp: json_store_def Let_def split: prod.splits)
  then show ?case using store_effects(3) [of L fs st kp] 3 by auto
next
  case (4 s st a u s')
  then obtain fs flts fs' where "s = (fs, flts)" "save_pairing L (next_fault flts) fs a = (u, fs')" "s' = (fs', tl flts)"
    by (auto simp: json_store_def Let_def split: prod.splits)
  then show ?case using store_effects(1) [of L fs st a] 4 by auto
next
  case (5 s st i u s')
  then obtain fs flts fs' where "s = (fs, flts)" "delete_pairing L (next_fault flts) fs i = (u, fs')" "s' = (fs', tl flts)"
    by (auto simp: json_store_def Let_def split: prod.splits)
  then show ?case using store_effects(2) [of L fs st "next_fault flts" i u fs'] 5 by auto
next
  case (6 s st b i u s')
  then obtain fs flts fs' where "s = (fs, flts)" "save_broadcast_state L (next_fault flts) fs i b = (u, fs')" "s' = (fs', tl flts)"
    by (auto simp: json_store_def Let_def split: prod.splits)
  then show ?case using store_effects(4) [of L fs st b "next_fault flts" i u fs'] 6 by auto
next
  case (7 s st)
  then show ?case by (rule store_holds_ok)
qed

lemma json_reopens:
  assumes "store_holds L fs (Some kp, accs)"
  shows "HapController_new (json_store L) (fs, []) seed =
    (Inr \<lparr>hc_store = (fs, []), hc_keypair = kp, hc_cached_ids = map sa_id accs\<rparr>, (fs, []))"
  using loads_holds [OF assms, of no_fault]
  by (simp add: HapController_new_def json_store_def next_fault_def Let_def no_fault_def)

text \<open>Without failures of the file, loading, opening and forgetting succeed.\<close>

lemma json_loads_held:
  assumes "store_holds L fs st"
  shows "so_load_pairings (json_store L) (fs, []) = (Inr (snd st), (fs, []))"
    and "so_load_controller (json_store L) (fs, []) = (Inr (fst st), (fs, []))"
  using loads_holds [OF assms, of no_fault] by (simp_all add: json_store_def next_fault_def Let_def no_fault_def)

lemma json_opens:
  assumes "store_holds L fs st" and "length seed = 32"
  obtains c s where "HapController_new (json_store L) (fs, []) seed = (Inr c, s)" "snd (hc_store c) = []"
proof (cases "fst st")
  case (Some kp)
  then have "store_holds L fs (Some kp, snd st)" using assms(1) by (metis prod.collapse)
  from json_reopens [OF this, of seed] show thesis using that by simp
next
  case None
  let ?kp = "from_seed DEFAULT_CONTROLLER_ID seed"
  have "length (kp_seed ?kp) = 32" using assms(2) by (simp add: kp_seed_def from_seed_def)
  moreover obtain u fs' where u: "save_controller L no_fault fs ?kp = (u, fs')" by fastforce
  ultimately have held: "u = Inr ()" "store_holds L fs' (Some ?kp, snd st)"
    using store_effects(3) [OF assms(1), of ?kp no_fault u fs'] by simp_all
  have "so_save_controller (json_store L) (fs, []) ?kp = (Inr (), (fs', []))"
    using u held(1) by (simp add: json_store_def next_fault_def Let_def)
  then show thesis
    using that None json_loads_held [OF assms(1)] json_loads_held(1) [OF held(2)] by (simp add: HapController_new_def Let_def)
qed

lemma json_forgets:
  assumes "in_sync (\<lambda>s. store_holds L (fst s)) c accs" and "hc_store c = (fs, [])"
  obtains c' where "forget_pairing (json_store L) c i = (Inr (), c')" "snd (hc_store c') = []"
proof -
  have held: "store_holds L fs (Some (hc_keypair c), accs)" using assms by (simp add: in_sync_def)
  have load: "load_stored (json_store L) (hc_store c) i = (ok_or (HUnknownAccessory i) (resolve accs i), (fs, []))"
    using json_loads_held(1) [OF held] assms(2) by (simp add: load_stored_def)
  show thesis
  proof (cases "resolve accs i")
    case (Some a)
    obtain u fs' where u: "delete_pairing L no_fault fs (sa_id a) = (u, fs')" by fastforce
    then have "u = Inr ()" using store_effects(2) [OF held u] by simp
    then have "so_delete_pairing (json_store L) (fs, []) (sa_id a) = (Inr (), (fs', []))"
      using u by (simp add: json_store_def next_fault_def Let_def)
    then show thesis using that load Some by (simp add: forget_pairing_def drop_pairing_def)
  qed (use that load in \<open>simp add: forget_pairing_def\<close>)
qed

section \<open>Properties\<close>

text \<open>C10. The controller's snapshot is the store.  After any sequence of pairings, connections, removals,
  forgotten accessories, administration and state saves, each with any answers of the network and any
  input/output failures of the store, \<open>paired()\<close> lists exactly the ids of the stored accessories in their
  order, the identity in use is the stored one and is that the controller was opened with, and a
  controller opened on the store then has the same identity and the same list.\<close>

theorem controller_stays_in_sync:
  assumes "kdf_laws P" and "store_holds L fs st" and "length seed = 32" and "list_all ctl_op_ok ops"
    and "HapController_new (json_store L) (fs, flts) seed = (Inr c, s)"
    and "run_ctl_ops P oc G (json_store L) c ops = (rs, c')"
  shows "\<exists>accs. load_pairings L no_fault (fst (hc_store c')) = Inr accs \<and> paired c' = map sa_id accs \<and>
    load_controller L no_fault (fst (hc_store c')) = Inr (Some (hc_keypair c')) \<and>
    hc_keypair c' = (case fst st of Some k \<Rightarrow> k | None \<Rightarrow> from_seed DEFAULT_CONTROLLER_ID seed) \<and>
    (\<exists>c'' s''. HapController_new (json_store L) (fst (hc_store c'), []) seed' = (Inr c'', s'') \<and>
       hc_keypair c'' = hc_keypair c' \<and> paired c'' = paired c')"
proof -
  have h: "store_holds L (fst (fs, flts)) st" using assms(2) by simp
  obtain accs where kp: "hc_keypair c' = hc_keypair c" and sync: "in_sync (\<lambda>s. store_holds L (fst s)) c' accs"
    using js.ctl_ops_effect [OF assms(1) js.new_effect(1) [OF h assms(3,5)] assms(4,6)] by blast
  have held: "store_holds L (fst (hc_store c')) (Some (hc_keypair c'), accs)" and ids: "paired c' = map sa_id accs"
    using sync by (simp_all add: in_sync_def)
  show ?thesis
    using loads_holds [OF held, of no_fault] ids kp js.new_effect(2) [OF h assms(3,5)] json_reopens [OF held]
    by (intro exI [of _ accs]) (simp add: no_fault_def paired_def)
qed


text \<open>A store with one accessory, found by its id in another case, that no scan hears.\<close>

definition toy_silence :: "(u8, unit, unit) outside" where
  "toy_silence =
     \<lparr>out_dial = \<lambda>_. Inl ConnectionClosed, out_peer = \<lambda>n _. ((False, []), n), out_discovered = Inr [], out_scan = Inr [],
      out_gatt = \<lambda>_. Inl Disconnected, out_rng = [], out_eph = [], out_io = \<lambda>_. False, out_delivered = []\<rparr>"

lemma toy_resolve: "resolve [toy_stored] (ascii ''ACC'') = Some toy_stored" "resolve [toy_stored] (ascii ''acc'') = Some toy_stored"
  by code_simp+

lemma toy_opened:
  obtains fs c s where "store_holds toy_doc_lib fs (None, [toy_stored])"
    "HapController_new (json_store toy_doc_lib) (fs, []) (replicate 32 7) = (Inr c, s)" "snd (hc_store c) = []"
    "in_sync (\<lambda>s. store_holds toy_doc_lib (fst s)) c [toy_stored]"
proof -
  obtain u fs where u: "save_pairing toy_doc_lib no_fault \<lparr>fs_file = None, fs_tmp = None\<rparr> toy_stored = (u, fs)" by fastforce
  have held: "store_holds toy_doc_lib fs (None, [toy_stored])"
    using store_effects(1) [OF toy_store_empty toy_ok(1) u] by (simp add: upsert_def)
  moreover obtain c s where c: "HapController_new (json_store toy_doc_lib) (fs, []) (replicate 32 7) = (Inr c, s)" "snd (hc_store c) = []"
    by (rule json_opens [OF held, of "replicate 32 7"]) simp
  moreover have "in_sync (\<lambda>s. store_holds toy_doc_lib (fst s)) c [toy_stored]"
    using js.new_effect(1) [of toy_doc_lib "(fs, [])" "(None, [toy_stored])", OF _ _ c(1)] held by simp
  ultimately show thesis using that by blast
qed

lemma toy_removal_fails:
  assumes "in_sync (\<lambda>s. store_holds toy_doc_lib (fst s)) c [toy_stored]" and "snd (hc_store c) = []"
  shows "remove_pairing P oc G (json_store toy_doc_lib) toy_silence c (ascii ''ACC'') = (Some (Inl (HBle AccessoryNotFound)), c)"
proof -
  obtain fs where fs: "hc_store c = (fs, [])" using assms(2) by (cases "hc_store c") simp
  have held: "store_holds toy_doc_lib fs (Some (hc_keypair c), [toy_stored])" using assms(1) fs by (simp add: in_sync_def)
  have "load_stored (json_store toy_doc_lib) (fs, []) i = (ok_or (HUnknownAccessory i) (resolve [toy_stored] i), (fs, []))" for i
    using json_loads_held(1) [OF held] by (simp add: load_stored_def)
  then have loads: "load_stored (json_store toy_doc_lib) (fs, []) (ascii ''ACC'') = (Inr toy_stored, (fs, []))"
      "load_stored (json_store toy_doc_lib) (fs, []) (sa_id toy_stored) = (Inr toy_stored, (fs, []))"
    using toy_resolve by (simp_all add: toy_stored_def)
  have same: "c\<lparr>hc_store := (fs, [])\<rparr> = c" using fs by simp
  have "connect_ble P G toy_silence kp toy_stored d b = Inl (HBle AccessoryNotFound)" for kp d b
    by (simp add: connect_ble_def toy_silence_def Let_def)
  moreover have "sa_transport toy_stored = Ble (replicate 6 2) None" by (simp add: toy_stored_def)
  ultimately show ?thesis
    using fs loads same by (simp add: remove_pairing_def remote_remove_def controller_connect_def Let_def)
qed

theorem controller_stays_in_sync_witness:
  "\<exists>fs c s c'. HapController_new (json_store toy_doc_lib) (fs, []) (replicate 32 7) = (Inr c, s) \<and> paired c = [ascii ''acc''] \<and>
     (\<forall>oc G. run_ctl_ops toy_prims oc (G :: unit gatt) (json_store toy_doc_lib) c [ORemove toy_silence (ascii ''ACC''), OForget (ascii ''ACC'')] =
        ([Some (Inl (HBle AccessoryNotFound)), Some (Inr ())], c')) \<and>
     (\<exists>accs. load_pairings toy_doc_lib no_fault (fst (hc_store c')) = Inr accs \<and> paired c' = map sa_id accs) \<and>
     load_controller toy_doc_lib no_fault (fst (hc_store c')) = Inr (Some (from_seed DEFAULT_CONTROLLER_ID (replicate 32 7)))"
proof -
  obtain fs c s where c: "store_holds toy_doc_lib fs (None, [toy_stored])"
    "HapController_new (json_store toy_doc_lib) (fs, []) (replicate 32 7) = (Inr c, s)" "snd (hc_store c) = []"
    "in_sync (\<lambda>s. store_holds toy_doc_lib (fst s)) c [toy_stored]" by (rule toy_opened)
  obtain fs1 where fs1: "hc_store c = (fs1, [])" using c(3) by (cases "hc_store c") simp
  obtain c' where c': "forget_pairing (json_store toy_doc_lib) c (ascii ''ACC'') = (Inr (), c')"
    by (rule json_forgets [OF c(4) fs1])
  have run: "run_ctl_ops toy_prims oc (G :: unit gatt) (json_store toy_doc_lib) c [ORemove toy_silence (ascii ''ACC''), OForget (ascii ''ACC'')] =
      ([Some (Inl (HBle AccessoryNotFound)), Some (Inr ())], c')" for oc G
    by (simp add: toy_removal_fails [OF c(4,3)] c')
  have "list_all ctl_op_ok [ORemove toy_silence (ascii ''ACC''), OForget (ascii ''ACC'')]" by simp
  from controller_stays_in_sync [where seed' = "[]", OF toy_kdf_laws c(1) _ this c(2) run]
  obtain accs where accs: "load_pairings toy_doc_lib no_fault (fst (hc_store c')) = Inr accs" "paired c' = map sa_id accs"
    "load_controller toy_doc_lib no_fault (fst (hc_store c')) = Inr (Some (from_seed DEFAULT_CONTROLLER_ID (replicate 32 7)))"
    by auto
  have "paired c = [ascii ''acc'']" using c(4) by (simp add: in_sync_def toy_stored_def)
  then show ?thesis using c(2) run accs by blast
qed


end
