(* ===== verification/Spec2Isabelle.thy ===== *)
theory Spec2Isabelle
  imports Thread_Client Ble_Interop Ip_Interop Controller
begin

text \<open>
  A verification library for the HomeKit Accessory Protocol (HAP) controller of this repository.  Paths below
  are relative to \<open>src/crates\<close>.

  \<^bold>\<open>The program.\<close>  A controller finds accessories (mDNS, Bluetooth advertisements), pairs with one by its setup
  code (Pair Setup, SRP-6a), stores the pairing, and on every connection authenticates with it (Pair
  Verify) to get session keys.  Over the sealed session it reads, writes and subscribes to
  characteristics.  Three transports carry this: HTTP over TCP (\<open>hap-transport\<close>), GATT (\<open>hap-ble\<close>) and CoAP over
  Thread (\<open>hap-thread\<close>, with the reference accessory \<open>hap-thread-dut\<close>).  \<open>hap-crypto\<close> and \<open>hap-tlv8\<close> are the
  protocols and their encoding, \<open>hap-model\<close> the attribute model, \<open>hap-pairing\<close> the drivers over IP and the
  store, \<open>hap-controller\<close> the entry point.

  \<^bold>\<open>Conventions.\<close>  A Rust \<open>Result\<close> is a sum, \<open>Inl\<close> the error; \<open>?\<close> is \<open>and_then\<close>.  Machine integers are words (lengths, indices
  and the status of a parsed HTTP message, which the parser bounds to 16 bits, are naturals), strings
  their UTF-8 bytes, structs records, enums datatypes with the source's constructors, and a method that
  changes its receiver returns it with the result.  Panics, and waits that may never end, are values.
  Third-party code is a parameter with its documented laws as hypotheses, each satisfied by a concrete
  instance in the witnesses: the cryptographic primitives (record \<open>prims\<close>), JSON and base64
  (\<open>json_lib\<close>, \<open>model_lib\<close>), the store's document format (\<open>doc_lib\<close>), the CoAP packet codec, the GATT connection
  (\<open>gatt\<close>), the network (functions of a state), and tokio's channels and clocks (the lists and step relations
  of what they deliver).  Random bytes are arguments.

  \<^bold>\<open>The theories.\<close>

  \<^item> Foundations.  \<open>Hap_Prelude\<close> holds types, results and the shared lemmas; \<open>Rust_Std\<close> and \<open>Rust_Text\<close> what the code
    uses of the Rust library.

  \<^item> Encoding and cryptography.  \<open>Tlv8\<close>: reader, writer and map of \<open>hap-tlv8\<close>; parsing inverts writing and
    accepts exactly the well-framed inputs.  \<open>Crypto_Prims\<close>, \<open>Srp\<close>, \<open>Broadcast\<close>: the wrappers, SRP-6a and broadcast
    sealing of \<open>hap-crypto\<close>; both sides of SRP agree, a broadcast opens exactly if it was sealed.

  \<^item> Pairing.  \<open>Pair_Setup\<close> and \<open>Pair_Verify\<close>: the controller's state machines (\<open>pair_setup.rs\<close>, \<open>pair_verify.rs\<close>); a
    finished run was authenticated, message by message.  \<open>Dut_Pairing\<close>: the accessory's halves
    (\<open>hap-thread-dut/src/hap.rs\<close>, \<open>pairing.rs\<close>, \<open>session.rs\<close>).  \<open>Pairing_Interop\<close>: the two complete together and
    share keys.  \<open>Pairing_Driver\<close>: the loop all transports run, with the locale \<open>pairing_machine\<close>.

  \<^item> IP.  \<open>Channel\<close> is the contract of a sealed channel (locale \<open>counter_channel\<close>), interpreted for the record
    layer, the Bluetooth session and the three Thread channels.  \<open>Record_Layer\<close> (\<open>record.rs\<close>), \<open>Http\<close> (\<open>http.rs\<close>) and
    \<open>Secure_Session\<close> (\<open>session.rs\<close>, \<open>connection.rs\<close>): messages are delivered in order, whatever the reads.
    \<open>Ip_Pairing\<close> (\<open>hap-pairing/src/setup.rs\<close>, \<open>verify.rs\<close>, \<open>wire.rs\<close>): pairing over HTTP ends in a shared session.
    \<open>Pairings\<close> (\<open>pairings.rs\<close>): administration refines a table.

  \<^item> Thread.  \<open>Thread_Pdu\<close>, \<open>Thread_Session\<close>, \<open>Coap\<close>, \<open>Thread_Client\<close> for \<open>pdu.rs\<close>, \<open>session.rs\<close>, \<open>coap.rs\<close>, \<open>accessory.rs\<close> and
    \<open>pairing.rs\<close> of \<open>hap-thread\<close>; \<open>Reference_Accessory\<close> for \<open>hap-thread-dut/src/lib.rs\<close>; \<open>Coap_Interop\<close> and
    \<open>Dut_Interop\<close> run them against each other.  The client refines the accessory's light, and the accessory gives
    nothing to an unauthenticated peer.

  \<^item> Model.  \<open>Hap_Values\<close>, \<open>Hap_Types\<close>, \<open>Hap_Model\<close> for \<open>hap-model\<close>: typed values, the generated tables, the accessory
    tree, requests and responses.

  \<^item> Bluetooth.  \<open>Ble_Pdu\<close> (locale \<open>frag_link\<close>), \<open>Ble_Session\<close>, \<open>Ble_Values\<close>, \<open>Ble_Accessory\<close> for \<open>pdu.rs\<close>, \<open>session.rs\<close>, \<open>db.rs\<close>,
    \<open>pairing.rs\<close>, \<open>accessory.rs\<close> and \<open>controller.rs\<close> of \<open>hap-ble\<close>; \<open>Ble_Peer\<close>, \<open>Ble_Link\<close>, \<open>Ble_Interop\<close> are an accessory on a
    link that drops at any operation; connecting leaves both ends with one session (\<open>same_session\<close>), and the handle
    refines the accessory's store.  \<open>Ble_Adverts\<close>
    (\<open>advert.rs\<close>, \<open>discovery.rs\<close> and the sleepy watch): in any interleaving no event is published twice if the
    polled characteristics are distinct, and otherwise only one that a newer event had overtaken.

  \<^item> Store.  \<open>Pairing_Store\<close> (\<open>hap-pairing/src/store.rs\<close>) with the locale \<open>pairing_store\<close>, interpreted for the JSON file with
    input/output failures; \<open>Store_Format\<close> has a concrete format.  The file holds exactly what operations
    that reported success left.

  \<^item> Controller.  \<open>Discovery\<close> (\<open>hap-transport/src/discovery.rs\<close>; \<open>discovered.rs\<close>, \<open>discover_until.rs\<close>, \<open>setup_payload.rs\<close>,
    \<open>payload_match.rs\<close> of \<open>hap-controller\<close>): labels round trip and select their accessory.  \<open>Ip_Handle\<close> (\<open>handle.rs\<close>,
    \<open>reconnect.rs\<close>): the handle's requests, and its supervisor as the step relation \<open>sup_step\<close>, under which
    subscriptions survive reconnection.  \<open>Ip_Interop\<close>: the handle refines the store of an accessory behind HTTP.
    \<open>Controller\<close> (\<open>controller.rs\<close>): every operation over any store (locale \<open>controller_store\<close>, interpreted for the
    JSON file); operations are atomic, a removal succeeds only when the accessory confirmed it (\<open>removal_confirmed\<close>), and
    the list of paired accessories is that of the store.

  \<^bold>\<open>Bounds.\<close>  A pairing loop gets as many exchanges as its machine can ask for, \<open>SETUP_EXCHANGES\<close> = 3 and
  \<open>VERIFY_EXCHANGES\<close> = 2; \<open>pairing_drivers_return\<close> proves that no run needs more.  Loops over input recurse on what
  is left of it.  A batch of Thread requests has at most 256 entries (\<open>batch_fits\<close>, the assertion of \<open>encode_all\<close>).  The
  count of reconnection attempts is a 32-bit word that wraps, where a build with overflow checks panics.
  The reassembly loops have the source's own limits (\<open>MAX_BLOCKS\<close>, \<open>MAX_RESPONSE_FRAGMENTS\<close>,
  \<open>MAX_TRANSMISSIONS\<close>, \<open>MAX_REVIVE_RETRIES\<close>).  \<open>wait_for_fresh_then_retry\<close> may wait for ever and is a
  \<open>partial_function\<close>; it returns if only new sessions are published (\<open>wait_returns\<close>).  Where the environment decides how long a loop runs
  (scans, adverts, connection attempts), it is recursion over the list of what the environment does, and
  the end of the list is a call that has not returned.

  \<^bold>\<open>Not modelled.\<close>  Adapter and socket calls (\<open>hap-ble/src/bluest_gatt.rs\<close>, \<open>scan_gate.rs\<close>, dialling, mDNS browsing) and the
  connector of \<open>hap-ble/src/sleepy.rs\<close> are input/output behind the interfaces above.  The bounded broadcast channels, task
  handles and locks are not modelled: an operation under a lock is one step.  The methods of
  \<open>hap-controller/src/unified.rs\<close> that dispatch to one of the two transports, the background task of \<open>sleepy.rs\<close>, the
  reconnector's browse in \<open>controller.rs\<close>, the event watcher of \<open>hap-thread/src/accessory.rs\<close>, and
  \<open>hap-thread/src/discovery.rs\<close>, \<open>database.rs\<close> and \<open>controller.rs\<close> are not translated.  Logging, zeroisation, examples,
  build-time tools and test support have no model.  The timing of timeouts is abstract: a timeout either elapses or
  not.
\<close>

end
